(* ===== verification/Errors.thy ===== *)
theory Errors
  imports Prelude
begin

text \<open>
  The exception tree of \<^verbatim>\<open>src/app/errors.py\<close>, with the two class-level facts every class
  carries, \<^verbatim>\<open>code\<close> and \<^verbatim>\<open>http_status\<close>, looked up along the base classes the way Python looks up
  a class attribute. The exceptions of the standard library that the service lets escape
  or catches are classes of the same type. A raised exception is its class and its
  \<^verbatim>\<open>code\<close>, which a raise site may override with the keyword \<^verbatim>\<open>code\<close>.
\<close>

datatype exn_class =
    PayzenoLedgerError | ValidationError | NotFoundError | AccountNotFoundError
  | TransactionNotFoundError | BatchNotFoundError | ReconciliationItemNotFoundError
  | ChargeProjectionNotFoundError | BankAccountProjectionNotFoundError
  | LedgerIntegrityError | UnbalancedTransactionError | NegativeAmountError
  | LivemodeMismatchError | CurrencyMismatchError | AccountFrozenError
  | IdempotencyConflictError | DuplicateSettlementError | SettlementError
  | BatchNotReconcilableError | SettlementLockedError | OrphanedItemError
  | RetryableSettlementError | SettlementVarianceExceededError | RetryExhaustedError
  | PayoutError | PayoutBlockedError | InsufficientBalanceError | BankAccountUnusableError
  | DualControlRequiredError | DuplicateDisputeError | UpstreamError
  | ProcessorUnavailableError | ProcessorIndeterminateError | SettlementFileNotReadyError
  | FxRateUnavailableError | BusPublishError
  \<comment> \<open>exceptions of the Python library and of the database driver\<close>
  | InvalidOperation | DivisionByZero | ValueError | KeyError | IntegrityError
  | AttributeError | TypeError | OverflowError | RuntimeError | CsvError

fun parent :: "exn_class \<Rightarrow> exn_class option" where
  "parent PayzenoLedgerError = None"
| "parent AccountNotFoundError = Some NotFoundError"
| "parent TransactionNotFoundError = Some NotFoundError"
| "parent BatchNotFoundError = Some NotFoundError"
| "parent ReconciliationItemNotFoundError = Some NotFoundError"
| "parent ChargeProjectionNotFoundError = Some NotFoundError"
| "parent BankAccountProjectionNotFoundError = Some NotFoundError"
| "parent UnbalancedTransactionError = Some LedgerIntegrityError"
| "parent NegativeAmountError = Some LedgerIntegrityError"
| "parent LivemodeMismatchError = Some LedgerIntegrityError"
| "parent CurrencyMismatchError = Some LedgerIntegrityError"
| "parent DuplicateSettlementError = Some IdempotencyConflictError"
| "parent BatchNotReconcilableError = Some SettlementError"
| "parent SettlementLockedError = Some SettlementError"
| "parent OrphanedItemError = Some SettlementError"
| "parent RetryableSettlementError = Some SettlementError"
| "parent SettlementVarianceExceededError = Some SettlementError"
| "parent RetryExhaustedError = Some SettlementError"
| "parent PayoutBlockedError = Some PayoutError"
| "parent InsufficientBalanceError = Some PayoutError"
| "parent BankAccountUnusableError = Some PayoutError"
| "parent ProcessorUnavailableError = Some UpstreamError"
| "parent ProcessorIndeterminateError = Some UpstreamError"
| "parent FxRateUnavailableError = Some UpstreamError"
| "parent BusPublishError = Some UpstreamError"
| "parent InvalidOperation = None"
| "parent DivisionByZero = None"
| "parent ValueError = None"
| "parent KeyError = None"
| "parent IntegrityError = None"
| "parent AttributeError = None"
| "parent TypeError = None"
| "parent OverflowError = None"
| "parent RuntimeError = None"
| "parent CsvError = None"
| "parent _ = Some PayzenoLedgerError"

definition depth :: "exn_class \<Rightarrow> nat" where
  "depth c = (case parent c of None \<Rightarrow> 0 | Some p \<Rightarrow> (case parent p of None \<Rightarrow> 1 | Some _ \<Rightarrow> 2))"

lemma parent_depth: "parent c = Some p \<Longrightarrow> depth p < depth c"
  by (cases c) (auto simp: depth_def)

text \<open>The method resolution order: the class, its base, and so on up to the root.\<close>

function mro :: "exn_class \<Rightarrow> exn_class list" where
  "mro c = c # (case parent c of None \<Rightarrow> [] | Some p \<Rightarrow> mro p)"
  by pat_completeness auto
termination
  by (relation "measure depth") (auto dest: parent_depth)

declare mro.simps [simp del]

definition subclass_of :: "exn_class \<Rightarrow> exn_class \<Rightarrow> bool" where
  "subclass_of c d \<longleftrightarrow> d \<in> set (mro c)"

section \<open>Class attributes\<close>

fun own_code :: "exn_class \<Rightarrow> string option" where
  "own_code PayzenoLedgerError = Some ''internal_error''"
| "own_code ValidationError = Some ''validation_failed''"
| "own_code NotFoundError = Some ''not_found''"
| "own_code LedgerIntegrityError = Some ''ledger_imbalance''"
| "own_code CurrencyMismatchError = Some ''currency_mismatch''"
| "own_code AccountFrozenError = Some ''account_frozen''"
| "own_code IdempotencyConflictError = Some ''duplicate_settlement''"
| "own_code SettlementError = Some ''settlement_failed''"
| "own_code BatchNotReconcilableError = Some ''batch_not_reconcilable''"
| "own_code SettlementLockedError = Some ''settlement_locked''"
| "own_code OrphanedItemError = Some ''orphaned_item''"
| "own_code RetryableSettlementError = Some ''retryable_settlement''"
| "own_code SettlementVarianceExceededError = Some ''settlement_variance_exceeded''"
| "own_code RetryExhaustedError = Some ''retry_exhausted''"
| "own_code PayoutError = Some ''payout_blocked''"
| "own_code DualControlRequiredError = Some ''permission_denied''"
| "own_code DuplicateDisputeError = Some ''duplicate_dispute''"
| "own_code UpstreamError = Some ''internal_error''"
| "own_code ProcessorUnavailableError = Some ''processor_unavailable''"
| "own_code ProcessorIndeterminateError = Some ''processor_unavailable''"
| "own_code SettlementFileNotReadyError = Some ''not_found''"
| "own_code FxRateUnavailableError = Some ''internal_error''"
| "own_code BusPublishError = Some ''internal_error''"
| "own_code _ = None"

fun own_status :: "exn_class \<Rightarrow> nat option" where
  "own_status PayzenoLedgerError = Some 500"
| "own_status ValidationError = Some 422"
| "own_status NotFoundError = Some 404"
| "own_status LedgerIntegrityError = Some 500"
| "own_status CurrencyMismatchError = Some 400"
| "own_status AccountFrozenError = Some 409"
| "own_status IdempotencyConflictError = Some 409"
| "own_status SettlementError = Some 422"
| "own_status SettlementLockedError = Some 409"
| "own_status PayoutError = Some 422"
| "own_status DualControlRequiredError = Some 403"
| "own_status DuplicateDisputeError = Some 409"
| "own_status UpstreamError = Some 502"
| "own_status SettlementFileNotReadyError = Some 404"
| "own_status FxRateUnavailableError = Some 503"
| "own_status _ = None"

definition class_attr :: "(exn_class \<Rightarrow> 'a option) \<Rightarrow> exn_class \<Rightarrow> 'a option" where
  "class_attr own c = (case find_first (\<lambda>d. own d \<noteq> None) (mro c) of
      None \<Rightarrow> None | Some d \<Rightarrow> own d)"

definition class_code :: "exn_class \<Rightarrow> string" where
  "class_code c = (case class_attr own_code c of None \<Rightarrow> [] | Some s \<Rightarrow> s)"

definition http_status :: "exn_class \<Rightarrow> nat option" where
  "http_status c = class_attr own_status c"

section \<open>Raised exceptions\<close>

datatype error = Error (err_class: exn_class) (err_code: string)

type_synonym 'a res = "(error, 'a) result"

definition exn :: "exn_class \<Rightarrow> error" where
  "exn c = Error c (class_code c)"

definition exn_with_code :: "exn_class \<Rightarrow> string \<Rightarrow> error" where
  "exn_with_code c code = Error c code"

definition raise :: "exn_class \<Rightarrow> 'a res" where
  "raise c = Inl (exn c)"

text \<open>\<^verbatim>\<open>except C\<close> catches an exception whose class has \<^verbatim>\<open>C\<close> among its bases.\<close>

definition caught_by :: "error \<Rightarrow> exn_class \<Rightarrow> bool" where
  "caught_by e c \<longleftrightarrow> subclass_of (err_class e) c"

lemma err_class_exn [simp]: "err_class (exn c) = c"
  by (simp add: exn_def)

lemma raise_not_Inr [simp]: "raise c \<noteq> Inr x" "Inr x \<noteq> raise c"
  by (simp_all add: raise_def)

lemma is_ok_raise [simp]: "is_ok (raise c) = False"
  by (simp add: raise_def)

lemma bindE_raise [simp]: "bindE (raise c) k = raise c"
  by (simp add: raise_def)

lemma exn_inj [simp]: "exn c = exn d \<longleftrightarrow> c = d"
  by (auto simp: exn_def)

lemma raise_inj [simp]: "(raise c :: 'a res) = raise d \<longleftrightarrow> c = d"
  by (simp add: raise_def)

lemma raise_Inl [simp]: "raise c = Inl e \<longleftrightarrow> e = exn c" "Inl e = raise c \<longleftrightarrow> e = exn c"
  by (auto simp: raise_def)

text \<open>Every exception of the service's own tree has an HTTP status and a non-empty code.\<close>

lemma ledger_error_attrs:
  assumes "subclass_of c PayzenoLedgerError"
  shows "\<exists>s. http_status c = Some s \<and> 400 \<le> s \<and> s < 600" and "class_code c \<noteq> []"
  using assms
  by (cases c; simp add: subclass_of_def http_status_def class_code_def class_attr_def mro.simps)+

end
