(* ===== verification/Decimals.thy ===== *)
theory Decimals
  imports Errors Complex_Main
begin

text \<open>
  Python's \<^verbatim>\<open>decimal\<close> module, as far as the money code uses it. A finite \<^verbatim>\<open>Decimal\<close> is its value, a
  rational number. The default context is used throughout the service: 28 significant
  digits, \<^verbatim>\<open>ROUND_HALF_EVEN\<close> for arithmetic. \<^verbatim>\<open>ctx_round\<close> is the rounding every operation
  applies to its exact result; \<^verbatim>\<open>quantize\<close> raises \<^verbatim>\<open>InvalidOperation\<close> when its result would need
  more than 28 digits. The exponent limits of the context (\<^verbatim>\<open>Emax = 999999\<close>) are beyond any
  amount or rate that can be stored and are not modelled.
\<close>

section \<open>Digits\<close>

fun ndigits :: "nat \<Rightarrow> nat" where
  "ndigits n = (if n < 10 then 1 else Suc (ndigits (n div 10)))"

declare ndigits.simps [simp del]

lemma ndigits_pos: "1 \<le> ndigits n"
  by (subst ndigits.simps) simp

lemma ndigits_upper: "n < 10 ^ ndigits n"
proof (induction n rule: ndigits.induct)
  case (1 n)
  show ?case
  proof (cases "n < 10")
    case False
    have "n div 10 < 10 ^ ndigits (n div 10)" using 1 False by simp
    then have "n < 10 * 10 ^ ndigits (n div 10)"
      by (simp add: div_less_iff_less_mult mult.commute)
    then show ?thesis using False by (subst ndigits.simps) simp
  qed (simp add: ndigits.simps)
qed

lemma ndigits_lower: "0 < n \<Longrightarrow> 10 ^ (ndigits n - 1) \<le> n"
proof (induction n rule: ndigits.induct)
  case (1 n)
  show ?case
  proof (cases "n < 10")
    case False
    then have ge: "10 ^ (ndigits (n div 10) - 1) \<le> n div 10"
      using 1 by (simp add: div_greater_zero_iff)
    have "10 * 10 ^ (ndigits (n div 10) - 1) \<le> n"
      using ge by (meson le_trans mult_le_mono2 times_div_less_eq_dividend)
    moreover have "10 * 10 ^ (ndigits (n div 10) - 1) = (10::nat) ^ ndigits (n div 10)"
      using ndigits_pos [of "n div 10"]
      by (metis One_nat_def Suc_pred less_eq_Suc_le power_Suc)
    ultimately show ?thesis using False by (subst ndigits.simps) simp
  qed (use 1 in \<open>simp add: ndigits.simps\<close>)
qed

section \<open>Rounding\<close>

definition round_half_even :: "rat \<Rightarrow> int" where
  "round_half_even y = (let f = \<lfloor>y\<rfloor>; d = y - of_int f in
     if d < 1/2 then f else if d > 1/2 then f + 1 else if even f then f else f + 1)"

definition round_half_up :: "rat \<Rightarrow> int" where
  "round_half_up y = (if 0 \<le> y then \<lfloor>y + 1/2\<rfloor> else - \<lfloor>1/2 - y\<rfloor>)"

definition prec :: nat where "prec = 28"

text \<open>\<^verbatim>\<open>Decimal.adjusted\<close>: the exponent of the most significant digit.\<close>

definition adjusted :: "rat \<Rightarrow> int" where
  "adjusted x = (let (p, q) = quotient_of \<bar>x\<bar>;
                     k = int (ndigits (nat p)) - int (ndigits (nat q))
                 in if 10 powi k \<le> \<bar>x\<bar> then k else k - 1)"

definition ctx_round :: "rat \<Rightarrow> rat" where
  "ctx_round x = (if x = 0 then 0
     else let s = 10 powi (adjusted x - (int prec - 1)) in of_int (round_half_even (x / s)) * s)"

definition dec_mul :: "rat \<Rightarrow> rat \<Rightarrow> rat" where "dec_mul x y = ctx_round (x * y)"
definition dec_div :: "rat \<Rightarrow> rat \<Rightarrow> rat" where "dec_div x y = ctx_round (x / y)"
definition dec_add :: "rat \<Rightarrow> rat \<Rightarrow> rat" where "dec_add x y = ctx_round (x + y)"
definition dec_sub :: "rat \<Rightarrow> rat \<Rightarrow> rat" where "dec_sub x y = ctx_round (x - y)"
definition scaleb :: "rat \<Rightarrow> int \<Rightarrow> rat" where "scaleb x n = ctx_round (x * 10 powi n)"

definition quantize :: "(rat \<Rightarrow> int) \<Rightarrow> nat \<Rightarrow> rat \<Rightarrow> rat res" where
  "quantize rnd places x = (let n = rnd (x * 10 ^ places) in
     if \<bar>n\<bar> < 10 ^ prec then Inr (of_int n / 10 ^ places) else raise InvalidOperation)"

text \<open>\<^verbatim>\<open>int(d.quantize(Decimal(1), rounding=ROUND_HALF_UP))\<close>, the idiom of the money code.\<close>

definition quantize_int :: "rat \<Rightarrow> int res" where
  "quantize_int x = bindE (quantize round_half_up 0 x) (\<lambda>y. Inr \<lfloor>y\<rfloor>)"

text \<open>The digit count on binary integers, which is what the code generator and the simplifier run.\<close>

function digits_int :: "int \<Rightarrow> int" where
  "digits_int n = (if n < 10 then 1 else 1 + digits_int (n div 10))"
  by pat_completeness auto
termination by (relation "measure nat") auto

declare digits_int.simps [simp del]

lemma digits_int_nat: "int (ndigits (nat n)) = digits_int n"
proof (induction n rule: digits_int.induct)
  case (1 n)
  have "nat n div 10 = nat (n div 10)" by (simp add: nat_div_distrib)
  then show ?case using 1
    by (subst ndigits.simps, subst digits_int.simps) auto
qed

lemma adjusted_code [code]:
  "adjusted x = (let (p, q) = quotient_of \<bar>x\<bar>; k = digits_int p - digits_int q
                 in if 10 powi k \<le> \<bar>x\<bar> then k else k - 1)"
  by (simp add: adjusted_def digits_int_nat)

section \<open>Bounds of the most significant digit\<close>

lemma powi_10_add: "(10::rat) powi (i + j) = 10 powi i * 10 powi j"
  by (simp add: power_int_add)

lemma powi_10_pos [simp]: "0 < (10::rat) powi i"
  by simp

lemma powi_10_mono: "i \<le> j \<Longrightarrow> (10::rat) powi i \<le> 10 powi j"
  by (simp add: power_int_increasing)

lemma powi_10_less_iff: "(10::rat) powi i < 10 powi j \<longleftrightarrow> i < j"
  by (metis not_le one_less_numeral_iff powi_10_mono power_int_strict_increasing semiring_norm(76))

lemma powi_10_nat: "0 \<le> i \<Longrightarrow> (10::rat) powi i = of_int (10 ^ nat i)"
  by (simp add: power_int_def power_one_over)

lemma quotient_digits:
  fixes p q :: int
  assumes "0 < p" "0 < q" and k: "k = int (ndigits (nat p)) - int (ndigits (nat q))"
  shows "10 powi (k - 1) < (of_int p / of_int q :: rat)"
    and "(of_int p / of_int q :: rat) < 10 powi (k + 1)"
proof -
  let ?a = "ndigits (nat p)" and ?b = "ndigits (nat q)"
  have up: "p < 10 ^ ?a" "q < 10 ^ ?b"
    using ndigits_upper [of "nat p"] ndigits_upper [of "nat q"] assms
    by (simp_all add: nat_less_iff)
  have lo: "10 ^ (?a - 1) \<le> p" "10 ^ (?b - 1) \<le> q"
    using ndigits_lower [of "nat p"] ndigits_lower [of "nat q"] assms
    by (simp_all add: le_nat_iff)
  have cast: "(10::rat) powi (int n) = of_int (10 ^ n)" for n by simp
  have pr: "(10::rat) powi (int ?a - 1) \<le> of_int p" "(of_int p :: rat) < 10 powi (int ?a)"
    using lo up ndigits_pos [of "nat p"] cast [of ?a] cast [of "?a - 1"]
    by (simp_all only: of_int_less_iff of_int_le_iff of_nat_diff of_nat_1)
  have qr: "(10::rat) powi (int ?b - 1) \<le> of_int q" "(of_int q :: rat) < 10 powi (int ?b)"
    using lo up ndigits_pos [of "nat q"] cast [of ?b] cast [of "?b - 1"]
    by (simp_all only: of_int_less_iff of_int_le_iff of_nat_diff of_nat_1)
  have "10 powi (k - 1) * (of_int q :: rat) < 10 powi (k - 1) * 10 powi (int ?b)"
    using qr by simp
  also have "\<dots> = 10 powi (int ?a - 1)"
    unfolding powi_10_add [symmetric] k by (simp add: algebra_simps)
  also have "\<dots> \<le> of_int p" using pr by simp
  finally show "10 powi (k - 1) < (of_int p / of_int q :: rat)"
    using assms by (simp add: less_divide_eq)
  have "of_int p < (10::rat) powi (int ?a)" using pr by simp
  also have "\<dots> = 10 powi (k + 1) * 10 powi (int ?b - 1)"
    unfolding powi_10_add [symmetric] k by (simp add: algebra_simps)
  also have "\<dots> \<le> 10 powi (k + 1) * (of_int q :: rat)" using qr by simp
  finally show "(of_int p / of_int q :: rat) < 10 powi (k + 1)"
    using assms by (simp add: divide_less_eq)
qed

lemma adjusted_bounds:
  assumes "x \<noteq> 0"
  shows "10 powi (adjusted x) \<le> \<bar>x\<bar>" and "\<bar>x\<bar> < 10 powi (adjusted x + 1)"
proof -
  obtain p q where pq: "quotient_of \<bar>x\<bar> = (p, q)" by force
  then have q: "0 < q" and x: "\<bar>x\<bar> = of_int p / of_int q"
    using quotient_of_denom_pos quotient_of_div by auto
  have "0 < \<bar>x\<bar>" using assms by simp
  then have p: "0 < p" using q unfolding x by (simp add: zero_less_divide_iff)
  define k where "k = int (ndigits (nat p)) - int (ndigits (nat q))"
  note bnd = quotient_digits [OF p q k_def, folded x]
  have adj: "adjusted x = (if 10 powi k \<le> \<bar>x\<bar> then k else k - 1)"
    by (simp add: adjusted_def pq k_def)
  show "10 powi (adjusted x) \<le> \<bar>x\<bar>" and "\<bar>x\<bar> < 10 powi (adjusted x + 1)"
    using bnd by (auto simp: adj)
qed

section \<open>Exactness and monotonicity\<close>

lemma round_half_even_of_int [simp]: "round_half_even (of_int n) = n"
  by (simp add: round_half_even_def)

lemma round_half_up_of_int [simp]: "round_half_up (of_int n) = n"
proof (cases "0 \<le> n")
  case True
  have "\<lfloor>of_int n + 1/2 :: rat\<rfloor> = n" by (rule floor_unique) auto
  then show ?thesis using True by (simp add: round_half_up_def)
next
  case False
  have "\<lfloor>1/2 - of_int n :: rat\<rfloor> = - n" by (rule floor_unique) auto
  then show ?thesis using False by (simp add: round_half_up_def)
qed

lemma round_half_up_0 [simp]: "round_half_up 0 = 0"
  using round_half_up_of_int [of 0] by simp

lemma round_half_even_mono: "x \<le> y \<Longrightarrow> round_half_even x \<le> round_half_even y"
proof -
  assume le: "x \<le> y"
  have fl: "\<lfloor>x\<rfloor> \<le> \<lfloor>y\<rfloor>" using le by (rule floor_mono)
  show ?thesis
  proof (cases "\<lfloor>x\<rfloor> = \<lfloor>y\<rfloor>")
    case True
    then show ?thesis using le by (auto simp: round_half_even_def Let_def)
  next
    case False
    then have "\<lfloor>x\<rfloor> + 1 \<le> \<lfloor>y\<rfloor>" using fl by simp
    then show ?thesis by (auto simp: round_half_even_def Let_def)
  qed
qed

lemma round_half_up_mono: "x \<le> y \<Longrightarrow> round_half_up x \<le> round_half_up y"
proof -
  assume le: "x \<le> y"
  consider "0 \<le> x" | "x < 0" "0 \<le> y" | "y < 0" using le by linarith
  then show ?thesis
  proof cases
    case 1
    then show ?thesis using le by (simp add: round_half_up_def floor_mono)
  next
    case 2
    then have "0 \<le> \<lfloor>1/2 - x\<rfloor>" "0 \<le> \<lfloor>y + 1/2\<rfloor>" by auto
    then have "- \<lfloor>1/2 - x\<rfloor> \<le> \<lfloor>y + 1/2\<rfloor>" by linarith
    then show ?thesis using 2 unfolding round_half_up_def by simp
  next
    case 3
    then have "x < 0" using le by simp
    then show ?thesis using 3 le by (simp add: round_half_up_def floor_mono)
  qed
qed

lemma round_half_up_error: "\<bar>of_int (round_half_up x) - x\<bar> \<le> 1/2"
proof (cases "0 \<le> x")
  case True
  have "of_int \<lfloor>x + 1/2\<rfloor> \<le> x + 1/2" "x + 1/2 < of_int \<lfloor>x + 1/2\<rfloor> + 1" by linarith+
  then show ?thesis using True unfolding round_half_up_def abs_le_iff by (simp only: if_True) linarith
next
  case False
  have "of_int \<lfloor>1/2 - x\<rfloor> \<le> 1/2 - x" "1/2 - x < of_int \<lfloor>1/2 - x\<rfloor> + 1" by linarith+
  then show ?thesis using False unfolding round_half_up_def abs_le_iff
    by (simp only: if_False of_int_minus) linarith
qed

lemma ctx_round_0 [simp]: "ctx_round 0 = 0"
  by (simp add: ctx_round_def)

text \<open>A value with at most 28 significant digits is not changed by the context.\<close>

lemma ctx_round_exact:
  assumes n: "x * 10 powi k = of_int n" and b: "\<bar>n\<bar> < 10 ^ 28"
  shows "ctx_round x = x"
proof (cases "x = 0")
  case False
  define a where "a = adjusted x"
  have "10 powi (a + k) \<le> \<bar>x\<bar> * 10 powi k"
    using adjusted_bounds(1) [OF False] by (simp add: powi_10_add a_def)
  also have "\<dots> = \<bar>of_int n\<bar>" unfolding n [symmetric] by (simp add: abs_mult)
  also have "\<dots> < of_int (10 ^ 28)" using b by (metis of_int_abs of_int_less_iff)
  also have "\<dots> = (10::rat) powi 28" by simp
  finally have "a + k < 28" by (simp only: powi_10_less_iff)
  then have m: "0 \<le> 27 - a - k" by simp
  have "x / 10 powi (a - 27) = x * 10 powi k * 10 powi (27 - a - k)"
    by (simp add: power_int_diff power_int_add field_simps)
  also have "\<dots> = of_int (n * 10 ^ nat (27 - a - k))"
    unfolding n powi_10_nat [OF m] by simp
  finally have "round_half_even (x / 10 powi (a - 27)) = n * 10 ^ nat (27 - a - k)"
    and "x / 10 powi (a - 27) = of_int (n * 10 ^ nat (27 - a - k))"
    by (simp_all only: round_half_even_of_int)
  then have "of_int (round_half_even (x / 10 powi (a - 27))) * 10 powi (a - 27) = x"
    by (metis nonzero_divide_eq_eq powi_10_pos less_irrefl)
  then show ?thesis using False by (simp add: ctx_round_def a_def prec_def Let_def)
qed simp

lemma ctx_round_int: "\<bar>n\<bar> < 10 ^ 28 \<Longrightarrow> ctx_round (of_int n) = of_int n"
  by (rule ctx_round_exact [where k = 0]) auto

lemma ctx_round_range:
  assumes "0 < x"
  shows "10 powi (adjusted x) \<le> ctx_round x" and "ctx_round x \<le> 10 powi (adjusted x + 1)"
proof -
  define a where "a = adjusted x"
  define s where "s = (10::rat) powi (a - 27)"
  have s: "0 < s" by (simp add: s_def)
  have lo: "10 powi a = of_int (10 ^ 27) * s" and hi: "10 powi (a + 1) = of_int (10 ^ 28) * s"
    by (simp_all add: s_def power_int_diff power_int_add field_simps)
  have x: "10 powi a \<le> x" "x < 10 powi (a + 1)"
    using adjusted_bounds [of x] assms by (auto simp: a_def)
  have "of_int (10 ^ 27) \<le> x / s" using x(1) s unfolding lo by (simp add: pos_le_divide_eq)
  then have "10 ^ 27 \<le> round_half_even (x / s)" by (metis round_half_even_mono round_half_even_of_int)
  moreover have "x / s \<le> of_int (10 ^ 28)" using x(2) s unfolding hi by (simp add: pos_divide_le_eq)
  then have "round_half_even (x / s) \<le> 10 ^ 28" by (metis round_half_even_mono round_half_even_of_int)
  moreover have "ctx_round x = of_int (round_half_even (x / s)) * s"
    using assms by (simp add: ctx_round_def Let_def prec_def s_def a_def)
  ultimately show "10 powi (adjusted x) \<le> ctx_round x" "ctx_round x \<le> 10 powi (adjusted x + 1)"
    unfolding a_def [symmetric] lo hi using s by (metis mult_le_cancel_right_pos of_int_le_iff)+
qed

lemma round_half_even_error: "\<bar>of_int (round_half_even y) - y\<bar> \<le> 1/2"
proof -
  have b: "of_int \<lfloor>y\<rfloor> \<le> y" "y < of_int \<lfloor>y\<rfloor> + 1" by linarith+
  consider "round_half_even y = \<lfloor>y\<rfloor>" "y - of_int \<lfloor>y\<rfloor> \<le> 1/2"
    | "round_half_even y = \<lfloor>y\<rfloor> + 1" "1/2 \<le> y - of_int \<lfloor>y\<rfloor>"
    unfolding round_half_even_def Let_def by (meson linorder_not_less order.strict_implies_order)
  then show ?thesis using b by cases (simp_all only: abs_le_iff of_int_add of_int_1, linarith+)
qed

lemma ctx_round_error:
  assumes "\<bar>x\<bar> < 10 ^ 19"
  shows "\<bar>ctx_round x - x\<bar> \<le> 1 / (2 * 10 ^ 9)"
proof (cases "x = 0")
  case False
  define s where "s = (10::rat) powi (adjusted x - 27)"
  have s: "0 < s" by (simp add: s_def)
  have "10 powi (adjusted x) < (10::rat) powi 19"
    using adjusted_bounds(1) [OF False] assms by simp
  then have "adjusted x - 27 \<le> -9" unfolding powi_10_less_iff by simp
  then have "s \<le> 10 powi (-9)" unfolding s_def by (rule powi_10_mono)
  then have s9: "s \<le> 1 / 10 ^ 9" by (simp add: power_int_def power_one_over)
  have "\<bar>ctx_round x - x\<bar> = \<bar>of_int (round_half_even (x / s)) - x / s\<bar> * s"
    using False s by (simp add: ctx_round_def Let_def prec_def s_def [symmetric] abs_mult_pos left_diff_distrib)
  also have "\<dots> \<le> 1/2 * s" using round_half_even_error s by (intro mult_right_mono) auto
  also have "\<dots> \<le> 1 / (2 * 10 ^ 9)" using s9 by simp
  finally show ?thesis .
qed simp

lemma ctx_round_nonneg: "0 \<le> x \<Longrightarrow> 0 \<le> ctx_round x"
  by (metis ctx_round_0 ctx_round_range(1) less_eq_rat_def order_less_le_trans powi_10_pos)

lemma ctx_round_mono:
  assumes "0 \<le> x" and "x \<le> y"
  shows "ctx_round x \<le> ctx_round y"
proof (cases "x = 0")
  case True
  then show ?thesis using assms ctx_round_nonneg by simp
next
  case False
  then have x: "0 < x" and y: "0 < y" using assms by auto
  have "10 powi (adjusted x) < (10::rat) powi (adjusted y + 1)"
    using adjusted_bounds(1) [of x] adjusted_bounds(2) [of y] x y assms by simp
  then consider "adjusted x = adjusted y" | "adjusted x + 1 \<le> adjusted y"
    unfolding powi_10_less_iff by linarith
  then show ?thesis
  proof cases
    case 1
    have "round_half_even (x / 10 powi (adjusted y - 27)) \<le> round_half_even (y / 10 powi (adjusted y - 27))"
      using assms by (intro round_half_even_mono divide_right_mono) auto
    then show ?thesis using x y 1 by (simp add: ctx_round_def Let_def prec_def)
  next
    case 2
    then show ?thesis
      using ctx_round_range(2) [OF x] ctx_round_range(1) [OF y] powi_10_mono [OF 2] by linarith
  qed
qed

section \<open>Quantisation to an integer\<close>

lemma quantize_int_alt:
  "quantize_int x = (if \<bar>round_half_up x\<bar> < 10 ^ 28 then Inr (round_half_up x) else raise InvalidOperation)"
  by (simp add: quantize_int_def quantize_def Let_def prec_def)

lemma quantize_int_ok: "quantize_int x = Inr n \<longleftrightarrow> n = round_half_up x \<and> \<bar>n\<bar> < 10 ^ 28"
  by (auto simp: quantize_int_alt)

text \<open>The amounts the database can store (\<^verbatim>\<open>BIGINT\<close>) are far inside the precision.\<close>

definition bigint :: "int \<Rightarrow> bool" where
  "bigint n \<longleftrightarrow> - (2 ^ 63) \<le> n \<and> n < 2 ^ 63"

lemma bigint_abs: "bigint n \<Longrightarrow> \<bar>n\<bar> \<le> 2 ^ 63"
  by (auto simp: bigint_def)

lemma bigint_mul_bound:
  assumes "bigint n" and "0 \<le> b" "b \<le> 10 ^ 9"
  shows "\<bar>n * b\<bar> < 10 ^ 28"
proof -
  have "\<bar>n * b\<bar> \<le> 2 ^ 63 * 10 ^ 9"
    unfolding abs_mult using bigint_abs [OF assms(1)] assms by (intro mult_mono) auto
  then show ?thesis by simp
qed

end
