(* ===== verification/Text.thy ===== *)
theory Text
  imports Decimals
begin

text \<open>
  Python strings as the service uses them: \<^verbatim>\<open>strip\<close>, \<^verbatim>\<open>split\<close>, \<^verbatim>\<open>partition\<close>, case folding, decimal
  printing of integers, and the text form of \<^verbatim>\<open>Decimal\<close> (its constructor on a string and
  \<^verbatim>\<open>str\<close>). A character is a Latin-1 code point.
\<close>

section \<open>Characters\<close>

definition is_space :: "char \<Rightarrow> bool" where
  "is_space c \<longleftrightarrow> (let n = of_char c :: nat in
     (9 \<le> n \<and> n \<le> 13) \<or> (28 \<le> n \<and> n \<le> 32) \<or> n = 133 \<or> n = 160)"

definition is_digit :: "char \<Rightarrow> bool" where
  "is_digit c \<longleftrightarrow> (let n = of_char c :: nat in 48 \<le> n \<and> n \<le> 57)"

definition digit_val :: "char \<Rightarrow> nat" where
  "digit_val c = of_char c - 48"

definition digit_char :: "nat \<Rightarrow> char" where
  "digit_char d = char_of (48 + d)"

definition lower_char :: "char \<Rightarrow> char" where
  "lower_char c = (let n = of_char c :: nat in if 65 \<le> n \<and> n \<le> 90 then char_of (n + 32) else c)"

definition upper_char :: "char \<Rightarrow> char" where
  "upper_char c = (let n = of_char c :: nat in if 97 \<le> n \<and> n \<le> 122 then char_of (n - 32) else c)"

lemma digit_char_simps [simp]:
  assumes "d < 10"
  shows "is_digit (digit_char d)" and "digit_val (digit_char d) = d"
proof -
  have "(48 + d) mod 256 = 48 + d" using assms by simp
  then show "is_digit (digit_char d)" and "digit_val (digit_char d) = d"
    using assms by (simp_all add: is_digit_def digit_val_def digit_char_def Let_def of_char_of)
qed

lemma digit_not_space: "is_digit c \<Longrightarrow> \<not> is_space c"
  by (auto simp: is_digit_def is_space_def Let_def)

section \<open>Strings\<close>

definition strip :: "string \<Rightarrow> string" where
  "strip s = rev (dropWhile is_space (rev (dropWhile is_space s)))"

fun split_on :: "char \<Rightarrow> string \<Rightarrow> string list" where
  "split_on c [] = [[]]"
| "split_on c (x # xs) = (if x = c then [] # split_on c xs
     else (case split_on c xs of [] \<Rightarrow> [[x]] | w # ws \<Rightarrow> (x # w) # ws))"

text \<open>\<^verbatim>\<open>s.partition(c)\<close>: the head, whether the separator occurs, the tail.\<close>

definition partition_at :: "char \<Rightarrow> string \<Rightarrow> string \<times> bool \<times> string" where
  "partition_at c s = (takeWhile (\<lambda>x. x \<noteq> c) s, c \<in> set s, drop 1 (dropWhile (\<lambda>x. x \<noteq> c) s))"

lemma split_on_free: "c \<notin> set a \<Longrightarrow> split_on c a = [a]"
  by (induction a) auto

lemma split_on_append: "c \<notin> set a \<Longrightarrow> split_on c (a @ c # b) = a # split_on c b"
  by (induction a) auto

lemma split_on_not_Nil [simp]: "split_on c s \<noteq> []"
  by (induction s) (auto split: list.splits)

lemma split_on_parts: "w \<in> set (split_on c s) \<Longrightarrow> c \<notin> set w"
proof (induction s arbitrary: w)
  case (Cons x xs)
  then show ?case by (cases "split_on c xs") (auto split: if_splits)
qed simp

lemma strip_id:
  assumes "s \<noteq> []" and "\<not> is_space (hd s)" and "\<not> is_space (last s)"
  shows "strip s = s"
proof -
  have "dropWhile is_space s = s" using assms by (cases s) auto
  moreover have "dropWhile is_space (rev s) = rev s"
    using assms by (cases s rule: rev_cases) auto
  ultimately show ?thesis by (simp add: strip_def)
qed

lemma strip_strip [simp]: "strip (strip s) = strip s"
proof (cases "strip s = []")
  case True
  show ?thesis unfolding True by (simp add: strip_def)
next
  case False
  let ?t = "dropWhile is_space s"
  have r: "rev (strip s) = dropWhile is_space (rev ?t)" by (simp add: strip_def)
  have "\<not> is_space (last (strip s))"
    using False r hd_dropWhile [of is_space "rev ?t"] by (metis hd_rev rev_is_Nil_conv)
  moreover have "\<not> is_space (hd (strip s))"
  proof -
    obtain w where w: "rev ?t = w @ rev (strip s)"
      using r by (metis takeWhile_dropWhile_id)
    then have "?t = strip s @ rev w" by (metis rev_append rev_rev_ident)
    then have "hd (strip s) = hd ?t" "?t \<noteq> []" using False by (auto simp: hd_append)
    then show ?thesis using hd_dropWhile [of is_space s] by simp
  qed
  ultimately show ?thesis using False by (intro strip_id)
qed

section \<open>Decimal digits\<close>

fun str_nat :: "nat \<Rightarrow> string" where
  "str_nat n = (if n < 10 then [digit_char n] else str_nat (n div 10) @ [digit_char (n mod 10)])"

declare str_nat.simps [simp del]

definition str_int :: "int \<Rightarrow> string" where
  "str_int i = (if i < 0 then ''-'' @ str_nat (nat (- i)) else str_nat (nat i))"

definition digits_val :: "string \<Rightarrow> nat" where
  "digits_val s = foldl (\<lambda>n c. n * 10 + digit_val c) 0 s"

lemma digits_val_Nil [simp]: "digits_val [] = 0"
  by (simp add: digits_val_def)

lemma digits_val_snoc [simp]: "digits_val (s @ [c]) = digits_val s * 10 + digit_val c"
  by (simp add: digits_val_def)

lemma digits_val_zeros [simp]: "digits_val (replicate k CHR ''0'' @ s) = digits_val s"
proof (induction s rule: rev_induct)
  case Nil
  have "digits_val (replicate k CHR ''0'') = 0"
    by (induction k) (simp_all add: digits_val_def digit_val_def replicate_append_same [symmetric])
  then show ?case by simp
next
  case (snoc c s)
  then show ?case by (simp only: append_assoc [symmetric] digits_val_snoc)
qed

lemma str_nat_digits: "c \<in> set (str_nat n) \<Longrightarrow> is_digit c"
  by (induction n rule: str_nat.induct) (subst (asm) (2) str_nat.simps, auto split: if_splits)

lemma str_nat_val [simp]: "digits_val (str_nat n) = n"
proof (induction n rule: str_nat.induct)
  case (1 n)
  then show ?case by (subst str_nat.simps) (auto simp: digits_val_def)
qed

lemma str_nat_not_Nil [simp]: "str_nat n \<noteq> []"
  by (subst str_nat.simps) simp

lemma str_nat_inj: "str_nat m = str_nat n \<longleftrightarrow> m = n"
  by (metis str_nat_val)

section \<open>The text form of decimals\<close>

text \<open>A \<^verbatim>\<open>Decimal\<close> built from text may also be an infinity or a (signalling) NaN.\<close>

datatype decimal = Fin rat | Infinite | QNaN | SNaN

definition take_sign :: "string \<Rightarrow> bool \<times> string" where
  "take_sign s = (case s of [] \<Rightarrow> (False, [])
     | c # r \<Rightarrow> if c = CHR ''-'' then (True, r) else if c = CHR ''+'' then (False, r) else (False, s))"

definition parse_exponent :: "string \<Rightarrow> int option" where
  "parse_exponent r = (case r of [] \<Rightarrow> Some 0
     | c # t \<Rightarrow> if lower_char c = CHR ''e'' then
           (case take_sign t of (neg, d) \<Rightarrow>
              if d \<noteq> [] \<and> list_all is_digit d
              then Some (if neg then - int (digits_val d) else int (digits_val d)) else None)
         else None)"

definition parse_special :: "string \<Rightarrow> decimal option" where
  "parse_special u = (let v = map lower_char u in
     if v = ''inf'' \<or> v = ''infinity'' then Some Infinite
     else if take 3 v = ''nan'' \<and> list_all is_digit (drop 3 v) then Some QNaN
     else if take 4 v = ''snan'' \<and> list_all is_digit (drop 4 v) then Some SNaN
     else None)"

text \<open>\<^verbatim>\<open>Decimal(text)\<close>; \<^verbatim>\<open>None\<close> where the constructor raises \<^verbatim>\<open>InvalidOperation\<close>.\<close>

definition parse_decimal :: "string \<Rightarrow> decimal option" where
  "parse_decimal s =
    (case take_sign (filter (\<lambda>c. c \<noteq> CHR ''_'') (strip s)) of (neg, u) \<Rightarrow>
     let i = takeWhile is_digit u; r = dropWhile is_digit u;
         (f, r') = (case r of [] \<Rightarrow> ([], [])
                    | c # t \<Rightarrow> if c = CHR ''.'' then (takeWhile is_digit t, dropWhile is_digit t)
                              else ([], r))
     in if i = [] \<and> f = [] then parse_special u
        else (case parse_exponent r' of None \<Rightarrow> None
              | Some e \<Rightarrow> (let v = rat_of_nat (digits_val (i @ f)) * 10 powi (e - int (length f))
                          in Some (Fin (if neg then - v else v)))))"

lemma parse_decimal_strip: "parse_decimal (strip s) = parse_decimal s"
  by (simp add: parse_decimal_def)

text \<open>\<^verbatim>\<open>str(d)\<close> of the decimal with integer coefficient \<^verbatim>\<open>n\<close> and exponent \<^verbatim>\<open>- e\<close>.\<close>

definition str_decimal :: "int \<Rightarrow> nat \<Rightarrow> string" where
  "str_decimal n e =
    (let ds = str_nat (nat \<bar>n\<bar>); left = int (length ds) - int e;
         dotplace = (if left > -6 then left else 1);
         body = (if dotplace \<le> 0 then ''0.'' @ replicate (nat (- dotplace)) CHR ''0'' @ ds
                 else if dotplace \<ge> int (length ds) then ds @ replicate (nat dotplace - length ds) CHR ''0''
                 else take (nat dotplace) ds @ ''.'' @ drop (nat dotplace) ds);
         ex = (if left = dotplace then [] else ''E'' @ (if left - dotplace < 0 then [] else ''+'') @ str_int (left - dotplace))
     in (if n < 0 then ''-'' else []) @ body @ ex)"

lemma dot_not_digit [simp]: "\<not> is_digit CHR ''.''" "\<not> is_digit CHR ''-''" "\<not> is_digit CHR ''+''"
  "\<not> is_digit CHR ''_''" "is_digit CHR ''0''"
  by (simp_all add: is_digit_def)

lemma digits_split:
  "list_all is_digit i \<Longrightarrow> takeWhile is_digit (i @ CHR ''.'' # f) = i"
  "list_all is_digit i \<Longrightarrow> dropWhile is_digit (i @ CHR ''.'' # f) = CHR ''.'' # f"
  by (induction i) auto

lemma digits_all:
  "list_all is_digit i \<Longrightarrow> takeWhile is_digit i = i" "list_all is_digit i \<Longrightarrow> dropWhile is_digit i = []"
  by (induction i) auto

lemma take_sign_digit: "s \<noteq> [] \<Longrightarrow> is_digit (hd s) \<Longrightarrow> take_sign s = (False, s)"
  by (cases s) (auto simp: take_sign_def)

definition signed :: "bool \<Rightarrow> string \<Rightarrow> string" where
  "signed neg s = (if neg then ''-'' else []) @ s"

lemma take_sign_signed:
  assumes "s \<noteq> []" "is_digit (hd s)"
  shows "take_sign (signed neg s) = (neg, s)"
proof (cases neg)
  case False
  then show ?thesis using take_sign_digit [OF assms] by (simp add: signed_def)
qed (simp add: signed_def take_sign_def)

lemma filter_digits_id:
  "list_all is_digit i \<Longrightarrow> filter (\<lambda>c. c \<noteq> CHR ''_'') i = i"
  by (induction i) auto

lemma strip_signed_digits:
  assumes "s \<noteq> []" "is_digit (hd s)" "is_digit (last s)"
  shows "strip (signed neg s) = signed neg s"
proof -
  have "\<not> is_space CHR ''-''" by (simp add: is_space_def)
  then show ?thesis using assms by (intro strip_id) (auto simp: signed_def dest: digit_not_space)
qed

lemma parse_decimal_plain:
  assumes i: "i \<noteq> []" "list_all is_digit i" and f: "f \<noteq> []" "list_all is_digit f"
  shows "parse_decimal (signed neg (i @ CHR ''.'' # f)) =
    Some (Fin (let v = rat_of_nat (digits_val (i @ f)) / 10 ^ length f in if neg then - v else v))"
proof -
  let ?s = "i @ CHR ''.'' # f"
  have hd: "is_digit (hd ?s)" using i by (cases i) auto
  have last: "is_digit (last ?s)" using f by (simp add: list_all_iff)
  have st: "strip (signed neg ?s) = signed neg ?s" by (rule strip_signed_digits) (use hd last in auto)
  have fl: "filter (\<lambda>c. c \<noteq> CHR ''_'') (signed neg ?s) = signed neg ?s"
    using i f by (simp add: signed_def filter_digits_id)
  have sg: "take_sign (signed neg ?s) = (neg, ?s)"
    by (rule take_sign_signed) (use hd in auto)
  show ?thesis
    unfolding parse_decimal_def st fl sg
    using i f by (simp add: digits_split digits_all parse_exponent_def Let_def
        power_int_minus divide_inverse)
qed

lemma parse_decimal_int:
  assumes i: "i \<noteq> []" "list_all is_digit i"
  shows "parse_decimal (signed neg i) =
    Some (Fin (let v = rat_of_nat (digits_val i) in if neg then - v else v))"
proof -
  have hd: "is_digit (hd i)" "is_digit (last i)" using i by (auto simp: list_all_iff)
  have st: "strip (signed neg i) = signed neg i" by (rule strip_signed_digits) (use i hd in auto)
  have fl: "filter (\<lambda>c. c \<noteq> CHR ''_'') (signed neg i) = signed neg i"
    using i by (simp add: signed_def filter_digits_id)
  have sg: "take_sign (signed neg i) = (neg, i)"
    by (rule take_sign_signed) (use i hd in auto)
  show ?thesis
    unfolding parse_decimal_def st fl sg using i by (simp add: digits_all parse_exponent_def Let_def)
qed

text \<open>Printing and reading back a decimal of at most six places gives its value.\<close>

lemma parse_str_decimal:
  assumes e: "0 < e" "e \<le> 6"
  shows "parse_decimal (str_decimal n e) = Some (Fin (of_int n / 10 ^ e))"
proof -
  define ds where "ds = str_nat (nat \<bar>n\<bar>)"
  have ds: "ds \<noteq> []" "list_all is_digit ds" "digits_val ds = nat \<bar>n\<bar>"
    by (auto simp: ds_def list_all_iff dest: str_nat_digits)
  have len: "1 \<le> length ds" using ds(1) by (cases ds) auto
  let ?v = "\<lambda>v::rat. if n < 0 then - v else v"
  have val: "?v (rat_of_nat (nat \<bar>n\<bar>) / 10 ^ e) = of_int n / 10 ^ e" by simp
  show ?thesis
  proof (cases "length ds \<le> e")
    case True
    have "str_decimal n e = signed (n < 0) (''0'' @ CHR ''.'' # (replicate (e - length ds) CHR ''0'' @ ds))"
      using True e len unfolding str_decimal_def Let_def ds_def [symmetric]
      by (simp add: signed_def nat_minus_as_int)
    moreover have "list_all is_digit (replicate (e - length ds) CHR ''0'' @ ds)"
      using ds by (auto simp: list_all_iff)
    moreover have "digits_val (''0'' @ replicate (e - length ds) CHR ''0'' @ ds) = nat \<bar>n\<bar>"
      using digits_val_zeros [of "Suc (e - length ds)" ds] ds by simp
    ultimately show ?thesis
      using parse_decimal_plain [of "''0''" "replicate (e - length ds) CHR ''0'' @ ds" "n < 0"] ds True val
      by (simp add: Let_def)
  next
    case False
    define k where "k = length ds - e"
    have k: "0 < k" "k < length ds" "length ds - k = e" using False e by (auto simp: k_def)
    have "str_decimal n e = signed (n < 0) (take k ds @ CHR ''.'' # drop k ds)"
      using False k e unfolding str_decimal_def Let_def ds_def [symmetric] k_def
      by (simp add: signed_def nat_diff_distrib)
    moreover have "list_all is_digit (take k ds)" "list_all is_digit (drop k ds)"
      using ds by (auto simp: list_all_iff dest: in_set_takeD in_set_dropD)
    ultimately show ?thesis
      using parse_decimal_plain [of "take k ds" "drop k ds" "n < 0"] ds k val by (simp add: Let_def)
  qed
qed

lemma parse_str_int: "parse_decimal (str_int n) = Some (Fin (of_int n))"
proof -
  have "str_int n = signed (n < 0) (str_nat (nat \<bar>n\<bar>))"
    by (simp add: str_int_def signed_def)
  moreover have "list_all is_digit (str_nat (nat \<bar>n\<bar>))"
    by (auto simp: list_all_iff dest: str_nat_digits)
  ultimately show ?thesis using parse_decimal_int [of "str_nat (nat \<bar>n\<bar>)" "n < 0"] by (simp add: Let_def)
qed

section \<open>Integers read from text\<close>

text \<open>\<^verbatim>\<open>int(s)\<close>: an optional sign and decimal digits, single underscores between them, at most 4300 digits.\<close>

definition py_int :: "string \<Rightarrow> int option" where
  "py_int s = (case take_sign (strip s) of (neg, u) \<Rightarrow>
     let groups = split_on CHR ''_'' u; ds = concat groups in
     if list_all (\<lambda>g. g \<noteq> [] \<and> list_all is_digit g) groups \<and> length ds \<le> 4300
     then Some (if neg then - int (digits_val ds) else int (digits_val ds)) else None)"

section \<open>Case and truthiness\<close>

text \<open>
  \<^verbatim>\<open>str.upper\<close> and \<^verbatim>\<open>str.lower\<close> on Latin-1; the sharp s grows to two letters, and the two characters
  whose capital lies outside Latin-1 (0xB5 and 0xFF) stay as they are.
\<close>

definition upper_latin :: "char \<Rightarrow> string" where
  "upper_latin c = (let n = of_char c :: nat in
     if (97 \<le> n \<and> n \<le> 122) \<or> (224 \<le> n \<and> n \<le> 254 \<and> n \<noteq> 247) then [char_of (n - 32)]
     else if n = 223 then ''SS'' else [c])"

definition lower_latin :: "char \<Rightarrow> char" where
  "lower_latin c = (let n = of_char c :: nat in
     if (65 \<le> n \<and> n \<le> 90) \<or> (192 \<le> n \<and> n \<le> 222 \<and> n \<noteq> 215) then char_of (n + 32) else c)"

definition upper :: "string \<Rightarrow> string" where "upper s = concat (map upper_latin s)"
definition lower :: "string \<Rightarrow> string" where "lower s = map lower_latin s"

text \<open>\<^verbatim>\<open>s or None\<close> and \<^verbatim>\<open>s or default\<close> on strings.\<close>

definition or_none :: "string \<Rightarrow> string option" where "or_none s = (if s = [] then None else Some s)"
definition or_else :: "string \<Rightarrow> string \<Rightarrow> string" where "or_else s d = (if s = [] then d else s)"

definition text_or :: "string option \<Rightarrow> string \<Rightarrow> string" where
  "text_or v d = (case v of None \<Rightarrow> d | Some s \<Rightarrow> or_else s d)"

end
