(* ===== verification/Money.thy ===== *)
theory Money
  imports Text
begin

text \<open>
  \<^verbatim>\<open>src/app/domain/money.py\<close>: amounts in minor units with a currency, and the arithmetic on
  them. The tables \<^verbatim>\<open>CURRENCIES\<close> and \<^verbatim>\<open>CURRENCY_EXPONENT\<close> come from the package
  \<^verbatim>\<open>payzeno_contracts\<close>, which is not part of the repository: they are the parameter \<^verbatim>\<open>K\<close> of
  every definition that reads them (with the two tables of events the publisher reads). The main results: basis points are applied exactly and
  rounded half away from zero, splitting and largest-remainder allocation lose no minor
  unit, and \<^verbatim>\<open>to_minor\<close> inverts \<^verbatim>\<open>from_minor\<close>.
\<close>

record contracts =
  CURRENCIES :: "string list"
  CURRENCY_EXPONENT :: "string \<Rightarrow> nat option"
  EVENT_TOPICS :: "(string \<times> string list) list"
  EVENT_SCHEMA_VERSIONS :: "(string \<times> int) list"

text \<open>What the sources document of the tables: JPY has no minor unit, the rest have two digits.\<close>

definition contracts_documented :: "contracts \<Rightarrow> bool" where
  "contracts_documented K \<longleftrightarrow>
     list_all (\<lambda>c. CURRENCY_EXPONENT K c = Some (if c = ''JPY'' then 0 else 2)) (CURRENCIES K)"

definition BPS_DENOMINATOR :: int where "BPS_DENOMINATOR = 10000"

definition SUPPORTED_CURRENCIES :: "contracts \<Rightarrow> string set" where
  "SUPPORTED_CURRENCIES K = set (CURRENCIES K)"

record money =
  amount_minor :: int
  currency :: string

record fee_component =
  fc_name :: string
  fc_bps :: int
  fc_fixed_minor :: int

record fee_breakdown =
  fb_total :: money
  fb_components :: "(string \<times> money) list"
  fb_remainder_minor :: int

text \<open>The constructor \<^verbatim>\<open>Money(...)\<close> with its \<^verbatim>\<open>__post_init__\<close>.\<close>

definition mk_money :: "contracts \<Rightarrow> int \<Rightarrow> string \<Rightarrow> money res" where
  "mk_money K a c = (if c \<in> SUPPORTED_CURRENCIES K
     then Inr \<lparr>amount_minor = a, currency = c\<rparr> else raise ValidationError)"

definition exponent_for :: "contracts \<Rightarrow> string \<Rightarrow> nat res" where
  "exponent_for K c = (case CURRENCY_EXPONENT K c of None \<Rightarrow> raise ValidationError | Some e \<Rightarrow> Inr e)"

definition zero_money :: "contracts \<Rightarrow> string \<Rightarrow> money res" where
  "zero_money K c = mk_money K 0 c"

definition is_zero :: "money \<Rightarrow> bool" where
  "is_zero m \<longleftrightarrow> amount_minor m = 0"

definition assert_same_currency :: "money \<Rightarrow> money \<Rightarrow> unit res" where
  "assert_same_currency a b = (if currency a \<noteq> currency b then raise CurrencyMismatchError else Inr ())"

definition add_money :: "contracts \<Rightarrow> money \<Rightarrow> money \<Rightarrow> money res" where
  "add_money K a b = bindE (assert_same_currency a b)
     (\<lambda>_. mk_money K (amount_minor a + amount_minor b) (currency a))"

definition sub_money :: "contracts \<Rightarrow> money \<Rightarrow> money \<Rightarrow> money res" where
  "sub_money K a b = bindE (assert_same_currency a b)
     (\<lambda>_. mk_money K (amount_minor a - amount_minor b) (currency a))"

definition negate :: "contracts \<Rightarrow> money \<Rightarrow> money res" where
  "negate K m = mk_money K (- amount_minor m) (currency m)"

definition apply_bps :: "contracts \<Rightarrow> money \<Rightarrow> int \<Rightarrow> money res" where
  "apply_bps K m bps =
    (if bps < 0 then raise ValidationError
     else let raw = dec_div (dec_mul (of_int (amount_minor m)) (of_int bps)) (of_int BPS_DENOMINATOR)
          in bindE (quantize_int raw) (\<lambda>q. mk_money K q (currency m)))"

definition scaled_to_int :: "nat \<Rightarrow> decimal \<Rightarrow> int res" where
  "scaled_to_int e d = (case d of Fin v \<Rightarrow> quantize_int (scaleb v (int e))
     | Infinite \<Rightarrow> raise InvalidOperation | QNaN \<Rightarrow> raise ValueError | SNaN \<Rightarrow> raise InvalidOperation)"

definition to_minor :: "contracts \<Rightarrow> string \<Rightarrow> string \<Rightarrow> int res" where
  "to_minor K amount c = bindE (exponent_for K c) (\<lambda>e.
     case parse_decimal (strip amount) of
       None \<Rightarrow> raise ValidationError
     | Some d \<Rightarrow> scaled_to_int e d)"

definition from_minor :: "contracts \<Rightarrow> int \<Rightarrow> string \<Rightarrow> string res" where
  "from_minor K minor c = bindE (exponent_for K c) (\<lambda>e.
     if e = 0 then Inr (str_int minor)
     else bindE (quantize round_half_even e (scaleb (of_int minor) (- int e)))
            (\<lambda>y. Inr (str_decimal \<lfloor>y * 10 ^ e\<rfloor> e)))"

definition format_money :: "contracts \<Rightarrow> money \<Rightarrow> string res" where
  "format_money K m = bindE (from_minor K (amount_minor m) (currency m))
     (\<lambda>s. Inr (s @ '' '' @ currency m))"

definition require_positive :: "money \<Rightarrow> money res" where
  "require_positive m = (if amount_minor m \<le> 0 then raise NegativeAmountError else Inr m)"

definition split_evenly :: "contracts \<Rightarrow> money \<Rightarrow> int \<Rightarrow> money list res" where
  "split_evenly K m parts =
    (if parts \<le> 0 then raise ValidationError
     else let base = amount_minor m div parts; remainder = amount_minor m mod parts in
       traverse (\<lambda>i. mk_money K (base + (if int i < remainder then 1 else 0)) (currency m)) [0 ..< nat parts])"

text \<open>\<^verbatim>\<open>xs[:n]\<close> for an \<^verbatim>\<open>n\<close> that may be negative.\<close>

definition py_slice_to :: "'a list \<Rightarrow> int \<Rightarrow> 'a list" where
  "py_slice_to xs n = (if 0 \<le> n then take (nat n) xs else take (nat (int (length xs) + n)) xs)"

definition allocation_exact :: "money \<Rightarrow> int list \<Rightarrow> rat list" where
  "allocation_exact tot weights =
     map (\<lambda>w. dec_div (dec_mul (of_int (amount_minor tot)) (of_int w)) (of_int (sum_list weights))) weights"

definition allocate_remainder :: "contracts \<Rightarrow> money \<Rightarrow> int list \<Rightarrow> money list res" where
  "allocate_remainder K tot weights =
    (if sum_list weights \<le> 0 then raise ValidationError
     else let exact = allocation_exact tot weights;
              floors = map floor exact;
              shortfall = amount_minor tot - sum_list floors;
              order = sort_key (\<lambda>i. - dec_sub (exact ! i) (of_int (floors ! i))) [0 ..< length weights];
              chosen = py_slice_to order shortfall;
              result = map (\<lambda>i. floors ! i + (if i \<in> set chosen then 1 else 0)) [0 ..< length weights]
          in traverse (\<lambda>n. mk_money K n (currency tot)) result)"

section \<open>Construction and guards\<close>

lemma mk_money_ok [money_simps]:
  "c \<in> SUPPORTED_CURRENCIES K \<Longrightarrow> mk_money K a c = Inr \<lparr>amount_minor = a, currency = c\<rparr>"
  by (simp add: mk_money_def)

lemma mk_money_Inr_iff:
  "mk_money K a c = Inr m \<longleftrightarrow> c \<in> SUPPORTED_CURRENCIES K \<and> m = \<lparr>amount_minor = a, currency = c\<rparr>"
  by (auto simp: mk_money_def)

lemma documented_exponent:
  "contracts_documented K \<Longrightarrow> c \<in> SUPPORTED_CURRENCIES K \<Longrightarrow>
   exponent_for K c = Inr (if c = ''JPY'' then 0 else 2)"
  by (auto simp: contracts_documented_def SUPPORTED_CURRENCIES_def list_all_iff exponent_for_def)

section \<open>Basis points\<close>

lemma bps_exact:
  assumes "\<bar>a * b\<bar> < 10 ^ 28"
  shows "dec_div (dec_mul (of_int a) (of_int b)) (of_int BPS_DENOMINATOR) = of_int (a * b) / 10000"
proof -
  have "dec_mul (of_int a) (of_int b) = of_int (a * b)"
    using ctx_round_int [OF assms] by (simp add: dec_mul_def)
  moreover have "ctx_round (of_int (a * b) / 10000) = of_int (a * b) / 10000"
    by (rule ctx_round_exact [where k = 4 and n = "a * b"]) (use assms in simp_all)
  ultimately show ?thesis by (simp add: dec_div_def BPS_DENOMINATOR_def)
qed

definition bps_of :: "int \<Rightarrow> int \<Rightarrow> int" where
  "bps_of a b = round_half_up (of_int (a * b) / 10000)"

lemma bps_of_bound:
  assumes "\<bar>a * b\<bar> < 10 ^ 28" shows "\<bar>bps_of a b\<bar> < 10 ^ 28"
proof -
  have "\<bar>of_int (bps_of a b) - rat_of_int (a * b) / 10000\<bar> \<le> 1/2"
    unfolding bps_of_def by (rule round_half_up_error)
  moreover have "\<bar>rat_of_int (a * b) / 10000\<bar> < 10 ^ 24"
    using assms by (simp add: abs_divide divide_less_eq flip: of_int_abs of_int_mult)
  moreover have "(10::rat) ^ 24 + 1/2 < 10 ^ 28" by simp
  ultimately have "\<bar>rat_of_int (bps_of a b)\<bar> < 10 ^ 28" by linarith
  then show ?thesis by (metis of_int_abs of_int_less_iff of_int_numeral of_int_power)
qed

lemma apply_bps_spec [money_simps]:
  assumes "0 \<le> b" "\<bar>amount_minor m * b\<bar> < 10 ^ 28" "currency m \<in> SUPPORTED_CURRENCIES K"
  shows "apply_bps K m b = Inr \<lparr>amount_minor = bps_of (amount_minor m) b, currency = currency m\<rparr>"
  using assms(1,3) bps_of_bound [OF assms(2)]
  unfolding apply_bps_def Let_def bps_exact [OF assms(2)] quantize_int_alt bps_of_def [symmetric]
  by (simp add: mk_money_def)

lemma bps_of_nonneg: "0 \<le> a \<Longrightarrow> 0 \<le> b \<Longrightarrow> 0 \<le> bps_of a b"
  unfolding bps_of_def using round_half_up_mono [of 0 "of_int (a * b) / 10000"] by simp

lemma bps_of_mono: "0 \<le> a \<Longrightarrow> b \<le> b' \<Longrightarrow> bps_of a b \<le> bps_of a b'"
  unfolding bps_of_def
  by (intro round_half_up_mono divide_right_mono) (simp_all add: mult_left_mono)

lemma bps_of_full: "bps_of a 10000 = a"
  by (simp add: bps_of_def)

lemma bps_of_zero [simp]: "bps_of a 0 = 0"
  by (simp add: bps_of_def)

lemma bps_of_le: "0 \<le> a \<Longrightarrow> b \<le> 10000 \<Longrightarrow> bps_of a b \<le> a"
  using bps_of_mono [of a b 10000] by (simp add: bps_of_full)

section \<open>Text form of amounts\<close>

lemma scaleb_exact:
  assumes "\<bar>n\<bar> < 10 ^ 28"
  shows "scaleb (of_int n) (- int e) = of_int n / 10 ^ e" and "scaleb (of_int n / 10 ^ e) (int e) = of_int n"
proof -
  have "ctx_round (of_int n / 10 ^ e) = of_int n / 10 ^ e"
    by (rule ctx_round_exact [where k = "int e" and n = n]) (use assms in simp_all)
  then show "scaleb (of_int n) (- int e) = of_int n / 10 ^ e"
    by (simp add: scaleb_def power_int_minus divide_inverse)
  show "scaleb (of_int n / 10 ^ e) (int e) = of_int n"
    using ctx_round_int [OF assms] by (simp add: scaleb_def)
qed

lemma from_minor_spec:
  assumes "exponent_for K c = Inr e" "\<bar>n\<bar> < 10 ^ 28"
  shows "from_minor K n c = Inr (if e = 0 then str_int n else str_decimal n e)"
  using assms by (simp add: from_minor_def scaleb_exact quantize_def Let_def prec_def)

lemma strip_str_int: "strip (str_int n) = str_int n"
proof -
  have "is_digit (hd (str_nat k))" for k by (rule str_nat_digits [of _ k]) simp
  moreover have "is_digit (last (str_nat k))" for k by (rule str_nat_digits [of _ k]) simp
  ultimately show ?thesis
    using strip_signed_digits [of "str_nat (nat \<bar>n\<bar>)" "n < 0"]
    by (simp add: str_int_def signed_def split: if_splits)
qed

lemma to_minor_from_minor:
  assumes "exponent_for K c = Inr e" "e \<le> 6" "\<bar>n\<bar> < 10 ^ 28"
  shows "bindE (from_minor K n c) (\<lambda>s. to_minor K s c) = Inr n"
proof -
  have q: "quantize_int (of_int n) = Inr n" using assms(3) by (simp add: quantize_int_alt)
  show ?thesis
  proof (cases "e = 0")
    case True
    then show ?thesis
      using assms q ctx_round_int [OF assms(3)]
      by (simp add: from_minor_spec to_minor_def strip_str_int parse_str_int scaled_to_int_def scaleb_def)
  next
    case False
    then have "parse_decimal (strip (str_decimal n e)) = Some (Fin (of_int n / 10 ^ e))"
      using parse_str_decimal [of e n] assms(2) by (simp add: parse_decimal_strip)
    then show ?thesis
      using assms q False by (simp add: from_minor_spec to_minor_def scaled_to_int_def scaleb_exact)
  qed
qed

section \<open>Splitting\<close>

lemma split_evenly_spec:
  assumes "0 < parts" "currency m \<in> SUPPORTED_CURRENCIES K"
  shows "split_evenly K m parts = Inr (map (\<lambda>i. \<lparr>amount_minor = amount_minor m div parts +
            (if int i < amount_minor m mod parts then 1 else 0), currency = currency m\<rparr>) [0 ..< nat parts])"
  using assms by (auto simp: split_evenly_def Let_def mk_money_ok intro!: traverse_all_ok)

lemma sum_list_indicator:
  "0 \<le> r \<Longrightarrow> r \<le> int n \<Longrightarrow> (\<Sum>i\<leftarrow>[0 ..< n]. if int i < r then 1 else 0 :: int) = r"
proof (induction n arbitrary: r)
  case (Suc n)
  show ?case
  proof (cases "r = int (Suc n)")
    case True
    have "(\<Sum>i\<leftarrow>[0 ..< Suc n]. if int i < r then 1 else 0 :: int) = (\<Sum>i\<leftarrow>[0 ..< Suc n]. 1)"
      by (rule arg_cong [where f = sum_list], rule map_cong) (use True in auto)
    then show ?thesis using True by (simp add: sum_list_triv)
  next
    case False
    then show ?thesis using Suc.IH [of r] Suc.prems by simp
  qed
qed simp

lemma split_evenly_sum:
  assumes "0 < parts" "currency m \<in> SUPPORTED_CURRENCIES K"
  shows "\<exists>ms. split_evenly K m parts = Inr ms \<and> int (length ms) = parts
    \<and> sum_list (map amount_minor ms) = amount_minor m
    \<and> (\<forall>x\<in>set ms. currency x = currency m \<and>
         (amount_minor x = amount_minor m div parts \<or> amount_minor x = amount_minor m div parts + 1))"
proof -
  let ?r = "amount_minor m mod parts" and ?b = "amount_minor m div parts"
  have "(\<Sum>i\<leftarrow>[0 ..< nat parts]. ?b + (if int i < ?r then 1 else 0)) =
      (\<Sum>i\<leftarrow>[0 ..< nat parts]. ?b) + (\<Sum>i\<leftarrow>[0 ..< nat parts]. if int i < ?r then 1 else 0)"
    by (rule sum_list_addf)
  also have "\<dots> = parts * ?b + ?r"
    using assms(1) sum_list_indicator [of ?r "nat parts"] by (simp add: sum_list_triv less_imp_le)
  finally show ?thesis
    using assms by (simp add: split_evenly_spec o_def)
qed

section \<open>Largest-remainder allocation\<close>

lemma floor_ctx_round:
  assumes x: "x = of_int p / of_int q" and q: "0 < q" "q \<le> 10 ^ 8" and b: "\<bar>x\<bar> < 10 ^ 19"
  shows "\<lfloor>ctx_round x\<rfloor> = \<lfloor>x\<rfloor>"
proof (cases "x = of_int \<lfloor>x\<rfloor>")
  case True
  have "rat_of_int \<bar>\<lfloor>x\<rfloor>\<bar> < rat_of_int (10 ^ 19)" using b by (subst (asm) True) simp
  then have "\<bar>\<lfloor>x\<rfloor>\<bar> < 10 ^ 28" by (simp only: of_int_less_iff) simp
  then show ?thesis using ctx_round_int True by (metis floor_of_int)
next
  case False
  let ?n = "\<lfloor>x\<rfloor>"
  have num: "x - of_int ?n = of_int (p - ?n * q) / of_int q"
    unfolding x using q by (simp add: diff_divide_distrib)
  have "0 < x - of_int ?n" using False by linarith
  then have "0 < rat_of_int (p - ?n * q)"
    unfolding num using q by (simp add: zero_less_divide_iff del: of_int_diff of_int_mult)
  then have "1 \<le> p - ?n * q" by (simp only: of_int_0_less_iff)
  then have "1 / of_int q \<le> x - of_int ?n" unfolding num using q
    by (metis divide_right_mono less_imp_le of_int_0_le_iff of_int_1_le_iff)
  moreover have "p - ?n * q \<le> q - 1"
  proof -
    have "x - of_int ?n < 1" by linarith
    then have "rat_of_int (p - ?n * q) < of_int q"
      unfolding num using q by (simp add: divide_less_eq del: of_int_diff of_int_mult)
    then show ?thesis by (simp only: of_int_less_iff)
  qed
  then have "x - of_int ?n \<le> (of_int q - 1) / of_int q" unfolding num using q
    by (intro divide_right_mono) (simp_all flip: of_int_diff of_int_mult)
  then have "x - of_int ?n \<le> 1 - 1 / of_int q" using q by (simp add: diff_divide_distrib)
  moreover have "\<bar>ctx_round x - x\<bar> \<le> 1 / (2 * 10 ^ 9)" using ctx_round_error [OF b] .
  moreover have "1 / (2 * 10 ^ 9) < 1 / rat_of_int q"
  proof -
    have "rat_of_int q \<le> of_int (10 ^ 8)" using q(2) by (simp only: of_int_le_iff)
    then show ?thesis using q by (intro divide_strict_left_mono) simp_all
  qed
  ultimately have "of_int ?n \<le> ctx_round x \<and> ctx_round x < of_int ?n + 1" by linarith
  then show ?thesis by (simp add: floor_eq_iff)
qed

lemma allocation_floor:
  assumes "bigint a" "\<bar>w\<bar> \<le> 10 ^ 8" "0 < W" "W \<le> 10 ^ 8" "\<bar>a * w\<bar> < 10 ^ 19 * W"
  shows "\<lfloor>dec_div (dec_mul (of_int a) (of_int w)) (of_int W)\<rfloor> = \<lfloor>rat_of_int (a * w) / of_int W\<rfloor>"
proof -
  have "\<bar>a * w\<bar> \<le> 2 ^ 63 * 10 ^ 8"
    unfolding abs_mult using bigint_abs [OF assms(1)] assms(2) by (intro mult_mono) auto
  then have "dec_mul (of_int a) (of_int w) = of_int (a * w)"
    using ctx_round_int [of "a * w"] by (simp add: dec_mul_def)
  moreover have "\<bar>rat_of_int (a * w) / of_int W\<bar> < 10 ^ 19"
  proof -
    have "rat_of_int \<bar>a * w\<bar> < of_int (10 ^ 19 * W)" using assms(5) by (simp only: of_int_less_iff)
    then show ?thesis using assms(3) by (simp add: abs_divide divide_less_eq)
  qed
  ultimately show ?thesis
    unfolding dec_div_def using assms floor_ctx_round [OF refl, of W "a * w"] by simp
qed

lemma sum_list_choose:
  "distinct ys \<Longrightarrow> set ys \<subseteq> {0 ..< n} \<Longrightarrow>
   (\<Sum>i\<leftarrow>[0 ..< n]. if i \<in> set ys then 1 else 0 :: int) = int (length ys)"
proof -
  assume d: "distinct ys" "set ys \<subseteq> {0 ..< n}"
  have "(\<Sum>i\<leftarrow>[0 ..< n]. if i \<in> set ys then 1 else 0 :: int) = (\<Sum>i\<in>{0 ..< n}. if i \<in> set ys then 1 else 0)"
    by (subst sum_list_distinct_conv_sum_set) auto
  also have "\<dots> = (\<Sum>i\<in>{0 ..< n} \<inter> set ys. 1)" by (rule sum.inter_restrict [symmetric]) simp
  also have "{0 ..< n} \<inter> set ys = set ys" using d by auto
  finally show ?thesis using d by (simp add: distinct_card)
qed

lemma sum_list_scaled:
  "(\<Sum>w\<leftarrow>ws. rat_of_int (a * w) / r) = of_int (a * sum_list ws) / r"
  by (induction ws) (simp_all add: distrib_left add_divide_distrib)

lemma sum_list_frac_bound:
  fixes f :: "'a \<Rightarrow> rat"
  shows "sum_list (map (\<lambda>x. \<lfloor>f x\<rfloor>) xs) \<le> \<lfloor>sum_list (map f xs)\<rfloor>"
    and "sum_list (map f xs) \<le> of_int (sum_list (map (\<lambda>x. \<lfloor>f x\<rfloor>) xs)) + of_nat (length xs)"
proof (induction xs)
  case (Cons x xs)
  { case 1 then show ?case using Cons by (simp add: le_floor_iff) linarith
  next
    case 2
    have "f x \<le> of_int \<lfloor>f x\<rfloor> + 1" by linarith
    then show ?case using Cons by simp
  }
qed simp_all

lemma allocate_remainder_sum:
  assumes a: "bigint (amount_minor m)" and c: "currency m \<in> SUPPORTED_CURRENCIES K"
    and w: "\<forall>w\<in>set ws. 0 \<le> w" and W: "0 < sum_list ws" "sum_list ws \<le> 10 ^ 8"
  shows "\<exists>ms. allocate_remainder K m ws = Inr ms \<and> length ms = length ws
    \<and> sum_list (map amount_minor ms) = amount_minor m
    \<and> (\<forall>i < length ws. amount_minor (ms ! i) - \<lfloor>rat_of_int (amount_minor m * ws ! i) / of_int (sum_list ws)\<rfloor> \<in> {0, 1})"
proof -
  let ?W = "sum_list ws" and ?n = "length ws" and ?a = "amount_minor m"
  define fl where "fl = map (\<lambda>w. \<lfloor>rat_of_int (?a * w) / of_int ?W\<rfloor>) ws"
  have floors: "map floor (allocation_exact m ws) = fl"
  proof -
    have "\<lfloor>dec_div (dec_mul (of_int ?a) (of_int w)) (of_int ?W)\<rfloor> = \<lfloor>rat_of_int (?a * w) / of_int ?W\<rfloor>"
      if "w \<in> set ws" for w
    proof (rule allocation_floor)
      have "w \<le> ?W" using that w by (intro member_le_sum_list) (auto simp: list_all_iff)
      then show "\<bar>w\<bar> \<le> 10 ^ 8" using W w that by simp
      have "\<bar>?a * w\<bar> \<le> 2 ^ 63 * ?W"
        unfolding abs_mult using bigint_abs [OF a] w that \<open>w \<le> ?W\<close> by (intro mult_mono) auto
      then show "\<bar>?a * w\<bar> < 10 ^ 19 * ?W" using W by simp
    qed (use a W in auto)
    then show ?thesis by (simp add: allocation_exact_def fl_def)
  qed
  let ?s = "?a - sum_list fl"
  have tot: "(\<Sum>w\<leftarrow>ws. rat_of_int (?a * w) / of_int ?W) = of_int ?a"
    using W unfolding sum_list_scaled by simp
  note bnd = sum_list_frac_bound [where f = "\<lambda>w. rat_of_int (?a * w) / of_int ?W" and xs = ws,
      unfolded tot, folded fl_def]
  have s1: "0 \<le> ?s" using bnd(1) by simp
  have "rat_of_int ?a \<le> of_int (sum_list fl + int ?n)" using bnd(2) by simp
  then have "?s \<le> int ?n" by (simp only: of_int_le_iff)
  note s = s1 this
  define ch where "ch = py_slice_to (sort_key (\<lambda>i. - dec_sub (allocation_exact m ws ! i) (of_int (fl ! i))) [0 ..< ?n]) ?s"
  have ch: "distinct ch" "set ch \<subseteq> {0 ..< ?n}" "int (length ch) = ?s"
    using s by (auto simp: ch_def py_slice_to_def distinct_take dest!: in_set_takeD)
  define ns where "ns = map (\<lambda>i. fl ! i + (if i \<in> set ch then 1 else 0)) [0 ..< ?n]"
  have res: "allocate_remainder K m ws = Inr (map (\<lambda>n. \<lparr>amount_minor = n, currency = currency m\<rparr>) ns)"
    using W c unfolding allocate_remainder_def Let_def floors
    by (simp add: ns_def ch_def mk_money_ok traverse_all_ok [where g = "\<lambda>n. \<lparr>amount_minor = n, currency = currency m\<rparr>"])
  have len: "length fl = ?n" by (simp add: fl_def)
  have "sum_list ns = (\<Sum>i\<leftarrow>[0 ..< ?n]. fl ! i) + (\<Sum>i\<leftarrow>[0 ..< ?n]. if i \<in> set ch then 1 else 0)"
    unfolding ns_def by (rule sum_list_addf)
  also have "(\<Sum>i\<leftarrow>[0 ..< ?n]. fl ! i) = sum_list fl" using len by (metis map_nth)
  finally have sum: "sum_list ns = ?a" using sum_list_choose [OF ch(1,2)] ch(3) by simp
  show ?thesis
    unfolding res using sum len by (auto simp: o_def ns_def fl_def)
qed

end
