(* ===== verification/Fees.thy ===== *)
theory Fees
  imports Money
begin

text \<open>
  \<^verbatim>\<open>src/app/domain/fees.py\<close>: the platform fee of a capture, the apportionment of a composite
  fee over its components, the acquirer's markup, default dispute fees and the legacy
  blended fee. Main results: a fee never exceeds its gross and is never negative, the
  components of an apportioned fee add up to its total, and the legacy calculation agrees
  with the modern one at the house rate.
\<close>

definition MARKUP_COMPONENT :: string where "MARKUP_COMPONENT = ''platform_markup''"

definition DEFAULT_DISPUTE_FEE_BY_CURRENCY :: "(string \<times> int) list" where
  "DEFAULT_DISPUTE_FEE_BY_CURRENCY =
     [(''USD'', 1500), (''EUR'', 1400), (''GBP'', 1200), (''ILS'', 5500), (''JPY'', 2200)]"

definition LEGACY_BLENDED_BPS :: int where "LEGACY_BLENDED_BPS = 290"
definition LEGACY_BLENDED_FIXED_MINOR :: int where "LEGACY_BLENDED_FIXED_MINOR = 30"

definition compute_platform_fee :: "contracts \<Rightarrow> money \<Rightarrow> int \<Rightarrow> int \<Rightarrow> money res" where
  "compute_platform_fee K gross bps fixed_minor =
    (if fixed_minor < 0 then raise ValidationError
     else bindE (apply_bps K gross bps) (\<lambda>variable.
       mk_money K (min (amount_minor variable + fixed_minor) (amount_minor gross)) (currency gross)))"

text \<open>The loop over the components: the running exact total and the dictionary of parts.\<close>

definition component_exact :: "money \<Rightarrow> fee_component \<Rightarrow> rat" where
  "component_exact gross c =
     dec_add (dec_div (dec_mul (of_int (amount_minor gross)) (of_int (fc_bps c))) (of_int BPS_DENOMINATOR))
       (of_int (fc_fixed_minor c))"

fun apportion_loop :: "money \<Rightarrow> fee_component list \<Rightarrow> rat \<Rightarrow> (string \<times> int) list
    \<Rightarrow> (rat \<times> (string \<times> int) list) res" where
  "apportion_loop gross [] tot parts = Inr (tot, parts)"
| "apportion_loop gross (c # cs) tot parts =
    (let exact = component_exact gross c in
     bindE (quantize_int exact) (\<lambda>q.
       apportion_loop gross cs (dec_add tot exact) (dict_set (fc_name c) q parts)))"

definition apportion_fee :: "contracts \<Rightarrow> money \<Rightarrow> fee_component list \<Rightarrow> fee_breakdown res" where
  "apportion_fee K gross components =
    (if components = [] then raise ValidationError
     else let names = map fc_name components in
     if \<not> distinct names then raise ValidationError
     else bindE (apportion_loop gross components 0 []) (\<lambda>(exact_tot, parts).
       bindE (quantize_int exact_tot) (\<lambda>total_minor.
         let remainder = total_minor - sum_list (map snd parts);
             sink = (if MARKUP_COMPONENT \<in> set (map fst parts) then MARKUP_COMPONENT else last names);
             parts' = map (\<lambda>(n, v). (n, if n = sink then v + remainder else v)) parts
         in bindE (mk_money K total_minor (currency gross)) (\<lambda>t.
            bindE (traverse (\<lambda>(n, v). bindE (mk_money K v (currency gross)) (\<lambda>m. Inr (n, m))) parts') (\<lambda>comps.
              Inr \<lparr>fb_total = t, fb_components = comps, fb_remainder_minor = remainder\<rparr>)))))"

definition acquirer_markup_minor :: "int \<Rightarrow> int \<Rightarrow> int \<Rightarrow> int" where
  "acquirer_markup_minor fee_minor interchange_minor scheme_fee_minor =
    (let markup = fee_minor - interchange_minor - scheme_fee_minor in if markup < 0 then 0 else markup)"

definition dispute_fee_for :: "contracts \<Rightarrow> string \<Rightarrow> money res" where
  "dispute_fee_for K c = (case map_of DEFAULT_DISPUTE_FEE_BY_CURRENCY c of
      None \<Rightarrow> raise ValidationError | Some minor \<Rightarrow> mk_money K minor c)"

definition legacy_blended_fee :: "contracts \<Rightarrow> money \<Rightarrow> money res" where
  "legacy_blended_fee K gross =
    (let rate = dec_div (of_int LEGACY_BLENDED_BPS) (of_int BPS_DENOMINATOR);
         raw = dec_mul (of_int (amount_minor gross)) rate
     in bindE (quantize round_half_up 4 raw) (\<lambda>truncated.
        bindE (quantize_int truncated) (\<lambda>q.
          mk_money K (min (q + LEGACY_BLENDED_FIXED_MINOR) (amount_minor gross)) (currency gross))))"

definition blended_or_legacy :: "contracts \<Rightarrow> money \<Rightarrow> int \<Rightarrow> int \<Rightarrow> bool \<Rightarrow> money res" where
  "blended_or_legacy K gross bps fixed_minor legacy =
    (if legacy then legacy_blended_fee K gross else compute_platform_fee K gross bps fixed_minor)"

definition interchange_plus_components :: "int \<Rightarrow> int \<Rightarrow> int \<Rightarrow> int \<Rightarrow> fee_component list" where
  "interchange_plus_components markup_bps markup_fixed_minor interchange_minor scheme_fee_minor =
    [\<lparr>fc_name = ''interchange'', fc_bps = 0, fc_fixed_minor = interchange_minor\<rparr>,
     \<lparr>fc_name = ''scheme_fee'', fc_bps = 0, fc_fixed_minor = scheme_fee_minor\<rparr>,
     \<lparr>fc_name = MARKUP_COMPONENT, fc_bps = markup_bps, fc_fixed_minor = markup_fixed_minor\<rparr>]"

definition net_of_fee :: "contracts \<Rightarrow> money \<Rightarrow> money \<Rightarrow> money res" where
  "net_of_fee K gross fee =
    (if currency gross \<noteq> currency fee then raise ValidationError
     else if amount_minor fee > amount_minor gross then zero_money K (currency gross)
     else mk_money K (amount_minor gross - amount_minor fee) (currency gross))"

section \<open>The platform fee\<close>

lemma compute_platform_fee_spec [money_simps]:
  assumes "0 \<le> bps" "0 \<le> fixed" "\<bar>amount_minor g * bps\<bar> < 10 ^ 28" "currency g \<in> SUPPORTED_CURRENCIES K"
  shows "compute_platform_fee K g bps fixed =
    Inr \<lparr>amount_minor = min (bps_of (amount_minor g) bps + fixed) (amount_minor g), currency = currency g\<rparr>"
  using assms by (simp add: compute_platform_fee_def money_simps)

lemma compute_platform_fee_bounds:
  assumes "compute_platform_fee K g bps fixed = Inr fee" "0 \<le> amount_minor g"
    and "\<bar>amount_minor g * bps\<bar> < 10 ^ 28"
  shows "0 \<le> amount_minor fee \<and> amount_minor fee \<le> amount_minor g \<and> currency fee = currency g"
proof -
  have b: "0 \<le> fixed" "0 \<le> bps" "currency g \<in> SUPPORTED_CURRENCIES K"
    using assms(1)
    by (auto simp: compute_platform_fee_def apply_bps_def bindE_Inr_iff mk_money_Inr_iff Let_def split: if_splits)
  then show ?thesis
    using compute_platform_fee_spec [of bps fixed g K] assms bps_of_nonneg [of "amount_minor g" bps]
    by (simp add: min_def split: if_splits)
qed

lemma legacy_blended_equiv:
  assumes "\<bar>amount_minor g * 290\<bar> < 10 ^ 28" "currency g \<in> SUPPORTED_CURRENCIES K"
  shows "legacy_blended_fee K g = compute_platform_fee K g LEGACY_BLENDED_BPS LEGACY_BLENDED_FIXED_MINOR"
proof -
  let ?a = "amount_minor g"
  have rate: "dec_div 290 10000 = 29 / 1000"
    unfolding dec_div_def by (subst ctx_round_exact [where k = 3 and n = 29]) (simp_all add: power_int_def)
  have raw: "dec_mul (of_int ?a) (29 / 1000) = of_int (?a * 290) / 10000"
    unfolding dec_mul_def
    by (subst ctx_round_exact [where k = 4 and n = "?a * 290"])
       (use assms(1) in \<open>simp_all add: power_int_def\<close>)
  have tr: "quantize round_half_up 4 (of_int (?a * 290) / 10000) = Inr (of_int (?a * 290) / 10000)"
    unfolding quantize_def Let_def prec_def using assms(1) round_half_up_of_int [of "?a * 290"]
    by (simp add: mult.commute)
  have "quantize_int (of_int (?a * 290) / 10000) = Inr (bps_of ?a 290)"
    unfolding quantize_int_alt bps_of_def [symmetric] using bps_of_bound [OF assms(1)] by simp
  then show ?thesis
    unfolding legacy_blended_fee_def Let_def LEGACY_BLENDED_BPS_def BPS_DENOMINATOR_def
      of_int_numeral rate raw tr bindE_simps
    using assms by (simp add: compute_platform_fee_def apply_bps_spec LEGACY_BLENDED_FIXED_MINOR_def)
qed

lemma net_of_fee_spec:
  assumes "currency g = currency f" "currency g \<in> SUPPORTED_CURRENCIES K"
  shows "net_of_fee K g f = Inr \<lparr>amount_minor = (if amount_minor f > amount_minor g then 0
     else amount_minor g - amount_minor f), currency = currency g\<rparr>"
  using assms by (simp add: net_of_fee_def zero_money_def mk_money_ok)

section \<open>Apportionment\<close>

lemma apportion_loop_keys:
  assumes "apportion_loop g cs t parts = Inr (t', parts')"
    and "distinct (map fst parts @ map fc_name cs)"
  shows "map fst parts' = map fst parts @ map fc_name cs"
  using assms
proof (induction cs arbitrary: t parts)
  case (Cons c cs)
  then obtain q where
    "apportion_loop g cs (dec_add t (component_exact g c)) (dict_set (fc_name c) q parts) = Inr (t', parts')"
    by (auto simp: bindE_Inr_iff Let_def)
  then show ?case
    using Cons.IH [of _ "dict_set (fc_name c) q parts"] Cons.prems(2) by (auto simp: dict_set_keys)
qed simp

lemma sum_list_add_at:
  fixes r :: int
  assumes "distinct (map fst ps)" "k \<in> set (map fst ps)"
  shows "sum_list (map (\<lambda>(n, v). if n = k then v + r else v) ps) = sum_list (map snd ps) + r"
  using assms
proof (induction ps)
  case (Cons p ps)
  show ?case
  proof (cases "fst p = k")
    case True
    then have "map (\<lambda>(n, v). if n = k then v + r else v) ps = map snd ps"
      using Cons.prems(1) by (auto simp: image_iff)
    then have "sum_list (map (\<lambda>(n, v). if n = k then v + r else v) ps) = sum_list (map snd ps)"
      by (rule arg_cong)
    then show ?thesis using True by (cases p) simp
  next
    case False
    then show ?thesis using Cons by (cases p) auto
  qed
qed simp

lemma traverse_components:
  shows "traverse (\<lambda>(n, v). Inr (n, \<lparr>amount_minor = v, currency = c\<rparr>)) ps =
    Inr (map (\<lambda>(n, v). (n, \<lparr>amount_minor = v, currency = c\<rparr>)) ps)"
  by (intro traverse_all_ok) auto

lemma apportion_fee_sum:
  assumes "apportion_fee K g cs = Inr fb"
  shows "sum_list (map (amount_minor \<circ> snd) (fb_components fb)) = amount_minor (fb_total fb)"
    and "map fst (fb_components fb) = map fc_name cs"
    and "\<forall>(n, m)\<in>set (fb_components fb). currency m = currency g"
    and "currency (fb_total fb) = currency g"
proof -
  define names where "names = map fc_name cs"
  from assms obtain t parts q where
    cs: "cs \<noteq> []" "distinct names"
    and loop: "apportion_loop g cs 0 [] = Inr (t, parts)" and q: "quantize_int t = Inr q"
    and c: "currency g \<in> SUPPORTED_CURRENCIES K"
    by (auto simp: apportion_fee_def Let_def bindE_Inr_iff mk_money_Inr_iff names_def split: if_splits)
  define sink where "sink = (if MARKUP_COMPONENT \<in> fst ` set parts then MARKUP_COMPONENT else last names)"
  define r where "r = q - sum_list (map snd parts)"
  have keys: "map fst parts = names"
    using apportion_loop_keys [OF loop] cs by (simp add: names_def)
  have fb: "fb = \<lparr>fb_total = \<lparr>amount_minor = q, currency = currency g\<rparr>,
      fb_components = map (\<lambda>(n, v). (n, \<lparr>amount_minor = v, currency = currency g\<rparr>))
        (map (\<lambda>(n, v). (n, if n = sink then v + r else v)) parts), fb_remainder_minor = r\<rparr>"
    using assms loop q c cs
    by (simp add: apportion_fee_def Let_def mk_money_ok traverse_components cong: if_cong flip: names_def sink_def r_def)
  have "last names \<in> set (map fst parts)" unfolding keys using cs by (simp add: names_def last_map)
  then have sink: "sink \<in> set (map fst parts)" by (simp add: sink_def)
  have d: "distinct (map fst parts)" using keys cs by simp
  have "map (amount_minor \<circ> snd) (fb_components fb) = map (\<lambda>(n, v). if n = sink then v + r else v) parts"
    by (simp add: fb comp_def case_prod_beta)
  then show "sum_list (map (amount_minor \<circ> snd) (fb_components fb)) = amount_minor (fb_total fb)"
    by (simp only: sum_list_add_at [OF d sink]) (simp add: fb r_def)
  show "map fst (fb_components fb) = map fc_name cs"
    using keys by (simp add: fb names_def comp_def case_prod_beta)
  show "\<forall>(n, m)\<in>set (fb_components fb). currency m = currency g" "currency (fb_total fb) = currency g"
    by (auto simp: fb)
qed

text \<open>Amounts for which the whole computation stays inside 28 digits.\<close>

definition fees_in_range :: "money \<Rightarrow> fee_component list \<Rightarrow> bool" where
  "fees_in_range g cs \<longleftrightarrow>
     (\<Sum>c\<leftarrow>cs. \<bar>amount_minor g * fc_bps c\<bar> + 10000 * \<bar>fc_fixed_minor c\<bar>) < 10 ^ 27"

definition component_scaled :: "money \<Rightarrow> fee_component \<Rightarrow> int" where
  "component_scaled g c = amount_minor g * fc_bps c + 10000 * fc_fixed_minor c"

lemma scaled_exact:
  assumes "\<bar>n\<bar> < 10 ^ 28" shows "ctx_round (of_int n / 10000) = of_int n / 10000"
  by (rule ctx_round_exact [where k = 4 and n = n]) (use assms in simp_all)

lemma component_exact_value:
  assumes "\<bar>amount_minor g * fc_bps c\<bar> + 10000 * \<bar>fc_fixed_minor c\<bar> < 10 ^ 27"
  shows "component_exact g c = of_int (component_scaled g c) / 10000"
proof -
  have b: "\<bar>amount_minor g * fc_bps c\<bar> < 10 ^ 28" "\<bar>component_scaled g c\<bar> < 10 ^ 28"
    using assms by (auto simp: component_scaled_def)
  have "of_int (amount_minor g * fc_bps c) / 10000 + of_int (fc_fixed_minor c) =
      (of_int (component_scaled g c) / 10000 :: rat)"
    by (simp add: component_scaled_def add_divide_distrib)
  then show ?thesis
    unfolding component_exact_def dec_add_def bps_exact [OF b(1)] by (simp only: scaled_exact [OF b(2)])
qed

lemma round_scaled_bound:
  assumes "\<bar>n\<bar> < 10 ^ 28" shows "\<bar>round_half_up (of_int n / 10000)\<bar> < 10 ^ 28"
  using bps_of_bound [of n 1] assms by (simp add: bps_of_def)

lemma apportion_loop_ok:
  assumes "\<bar>T\<bar> + (\<Sum>c\<leftarrow>cs. \<bar>amount_minor g * fc_bps c\<bar> + 10000 * \<bar>fc_fixed_minor c\<bar>) < 10 ^ 27"
  shows "\<exists>parts'. apportion_loop g cs (of_int T / 10000) parts =
    Inr (of_int (T + (\<Sum>c\<leftarrow>cs. component_scaled g c)) / 10000, parts')"
  using assms
proof (induction cs arbitrary: T parts)
  case (Cons c cs)
  let ?b = "\<lambda>c. \<bar>amount_minor g * fc_bps c\<bar> + 10000 * \<bar>fc_fixed_minor c\<bar>"
  have rest: "0 \<le> (\<Sum>c\<leftarrow>cs. ?b c)" by (rule sum_list_nonneg) auto
  have bc: "?b c < 10 ^ 27" using Cons.prems rest by simp
  have s: "\<bar>component_scaled g c\<bar> \<le> ?b c" by (auto simp: component_scaled_def)
  have ex: "component_exact g c = of_int (component_scaled g c) / 10000"
    by (rule component_exact_value [OF bc])
  have q: "quantize_int (component_exact g c) = Inr (round_half_up (component_exact g c))"
    unfolding quantize_int_alt ex using round_scaled_bound [of "component_scaled g c"] s bc by simp
  have "\<bar>T + component_scaled g c\<bar> < 10 ^ 28" using Cons.prems rest s by simp
  then have add: "dec_add (of_int T / 10000) (component_exact g c) = of_int (T + component_scaled g c) / 10000"
    unfolding ex dec_add_def using scaled_exact [of "T + component_scaled g c"]
    by (simp add: add_divide_distrib)
  have "\<bar>T + component_scaled g c\<bar> + (\<Sum>c\<leftarrow>cs. ?b c) < 10 ^ 27"
    using Cons.prems s by simp
  then show ?case
    using Cons.IH [of "T + component_scaled g c"]
    unfolding apportion_loop.simps Let_def q bindE_simps add by (simp add: add.assoc)
qed simp

lemma apportion_fee_ok:
  assumes "fees_in_range g cs" "cs \<noteq> []" "distinct (map fc_name cs)" "currency g \<in> SUPPORTED_CURRENCIES K"
  shows "\<exists>fb. apportion_fee K g cs = Inr fb
    \<and> amount_minor (fb_total fb) = round_half_up (of_int (\<Sum>c\<leftarrow>cs. component_scaled g c) / 10000)"
proof -
  let ?S = "\<Sum>c\<leftarrow>cs. component_scaled g c"
  have "\<bar>?S\<bar> \<le> (\<Sum>c\<leftarrow>cs. \<bar>amount_minor g * fc_bps c\<bar> + 10000 * \<bar>fc_fixed_minor c\<bar>)"
    by (induction cs) (auto simp: component_scaled_def)
  then have "\<bar>?S\<bar> < 10 ^ 28" using assms(1) by (simp add: fees_in_range_def)
  note S = round_scaled_bound [OF this]
  obtain parts where "apportion_loop g cs 0 [] = Inr (of_int ?S / 10000, parts)"
    using apportion_loop_ok [of 0 g cs "[]"] assms(1) by (auto simp: fees_in_range_def)
  then show ?thesis
    using assms S by (simp add: apportion_fee_def Let_def quantize_int_alt mk_money_ok traverse_components)
qed

end
