(* ===== verification/Fx.thy ===== *)
theory Fx
  imports Fees
begin

text \<open>
  \<^verbatim>\<open>src/app/domain/fx.py\<close>: parsing of provider rates, cross rates, the marked-down rate of a
  payout, and the conversion of an amount. A rate is a positive decimal, here a rational.
  Main results: the target amount and the spread add up to the amount at the mid rate, the
  spread is never negative, and the text form of a rate reads back as the same rate.
\<close>

definition RATE_PLACES :: nat where "RATE_PLACES = 10"

record fx_conversion =
  fx_source :: money
  fx_target :: money
  fx_mid_rate :: rat
  fx_rate :: rat
  fx_markup_bps :: int
  fx_mid_target_minor :: int

definition spread_minor :: "fx_conversion \<Rightarrow> int" where
  "spread_minor q = fx_mid_target_minor q - amount_minor (fx_target q)"

text \<open>The raw value of a rate: a JSON boolean or float, a \<^verbatim>\<open>Decimal\<close>, or the text of anything else.\<close>

datatype raw_rate = RawBool bool | RawFloat | RawDecimal decimal | RawText string

definition parse_rate :: "raw_rate \<Rightarrow> rat res" where
  "parse_rate raw =
    (let check = (\<lambda>d. case d of Fin v \<Rightarrow> if v \<le> 0 then raise ValidationError else Inr v
                    | _ \<Rightarrow> raise ValidationError)
     in case raw of RawBool _ \<Rightarrow> raise ValidationError | RawFloat \<Rightarrow> raise ValidationError
      | RawDecimal d \<Rightarrow> check d
      | RawText s \<Rightarrow> (case parse_decimal (strip s) of None \<Rightarrow> raise ValidationError | Some d \<Rightarrow> check d))"

text \<open>Division of decimals with its two exceptions.\<close>

definition dec_divE :: "rat \<Rightarrow> rat \<Rightarrow> rat res" where
  "dec_divE x y = (if y = 0 then (if x = 0 then raise InvalidOperation else raise DivisionByZero)
     else Inr (dec_div x y))"

definition check_quoted :: "contracts \<Rightarrow> (string \<times> rat) list \<Rightarrow> string \<Rightarrow> rat res" where
  "check_quoted K rates c = (if c \<notin> SUPPORTED_CURRENCIES K then raise ValidationError
     else case map_of rates c of None \<Rightarrow> raise ValidationError | Some r \<Rightarrow> Inr r)"

definition cross_rate :: "contracts \<Rightarrow> (string \<times> rat) list \<Rightarrow> string \<Rightarrow> string \<Rightarrow> rat res" where
  "cross_rate K rates from_currency to_currency =
     bindE (check_quoted K rates from_currency) (\<lambda>rf.
     bindE (check_quoted K rates to_currency) (\<lambda>rt.
       if from_currency = to_currency then Inr 1
       else bindE (dec_divE rt rf) (quantize round_half_up RATE_PLACES)))"

definition marked_down_rate :: "rat \<Rightarrow> int \<Rightarrow> rat res" where
  "marked_down_rate mid_rate markup_bps =
    (if markup_bps < 0 \<or> markup_bps \<ge> BPS_DENOMINATOR then raise ValidationError
     else let factor = dec_div (of_int (BPS_DENOMINATOR - markup_bps)) (of_int BPS_DENOMINATOR)
          in quantize round_half_up RATE_PLACES (dec_mul mid_rate factor))"

definition convert_minor :: "contracts \<Rightarrow> int \<Rightarrow> string \<Rightarrow> string \<Rightarrow> rat \<Rightarrow> int res" where
  "convert_minor K amount from_currency to_currency rate =
     bindE (exponent_for K to_currency) (\<lambda>et.
     bindE (exponent_for K from_currency) (\<lambda>ef.
       quantize_int (scaleb (dec_mul (of_int amount) rate) (int et - int ef))))"

definition quote_payout_conversion ::
    "contracts \<Rightarrow> money \<Rightarrow> string \<Rightarrow> rat \<Rightarrow> int \<Rightarrow> fx_conversion res" where
  "quote_payout_conversion K source to_currency mid_rate markup_bps =
    (if amount_minor source \<le> 0 then raise ValidationError
     else if currency source = to_currency then raise ValidationError
     else bindE (marked_down_rate mid_rate markup_bps) (\<lambda>rate.
          bindE (convert_minor K (amount_minor source) (currency source) to_currency rate) (\<lambda>target_minor.
          bindE (convert_minor K (amount_minor source) (currency source) to_currency mid_rate) (\<lambda>mid_minor.
            if target_minor \<le> 0 then raise ValidationError
            else bindE (mk_money K target_minor to_currency) (\<lambda>target.
              Inr \<lparr>fx_source = source, fx_target = target, fx_mid_rate = mid_rate, fx_rate = rate,
                   fx_markup_bps = markup_bps, fx_mid_target_minor = mid_minor\<rparr>)))))"

text \<open>
  \<^verbatim>\<open>format(rate.normalize(), 'f')\<close>: the fewest decimal places that show the value. The number of
  places of a decimal is read off its denominator, a product of twos and fives.
\<close>

function places :: "nat \<Rightarrow> nat" where
  "places q = (if q = 0 \<or> gcd q 10 = 1 then 0 else Suc (places (q div gcd q 10)))"
  by pat_completeness auto
termination
proof (relation "measure id")
  fix q :: nat
  assume q: "\<not> (q = 0 \<or> gcd q 10 = 1)"
  then have "1 < gcd q 10" by (metis gcd_eq_0_iff less_one nat_neq_iff)
  then show "(q div gcd q 10, q) \<in> measure id" using q by simp
qed simp

declare places.simps [simp del]

definition format_rate :: "rat \<Rightarrow> string" where
  "format_rate rate =
    (let x = ctx_round rate; e = places (nat (snd (quotient_of x))); n = \<lfloor>x * 10 ^ e\<rfloor>;
         ds = str_nat (nat \<bar>n\<bar>); padded = replicate (Suc e - length ds) CHR ''0'' @ ds
     in (if n < 0 then ''-'' else []) @ take (length padded - e) padded
        @ (if e = 0 then [] else ''.'' @ drop (length padded - e) padded))"

section \<open>Marked-down rate and spread\<close>

lemma marked_down_factor:
  assumes "0 \<le> b" "b < 10000"
  shows "dec_div (of_int (BPS_DENOMINATOR - b)) (of_int BPS_DENOMINATOR) = of_int (10000 - b) / 10000"
proof -
  have "ctx_round (of_int (10000 - b) / 10000) = of_int (10000 - b) / 10000"
    by (rule scaled_exact) (use assms in simp)
  then show ?thesis by (simp add: dec_div_def BPS_DENOMINATOR_def)
qed

text \<open>A rate with at most ten decimal places (what \<^verbatim>\<open>cross_rate\<close> returns).\<close>

definition on_rate_grid :: "rat \<Rightarrow> bool" where
  "on_rate_grid r \<longleftrightarrow> r * 10 ^ RATE_PLACES = of_int \<lfloor>r * 10 ^ RATE_PLACES\<rfloor> \<and> \<bar>r\<bar> * 10 ^ RATE_PLACES < 10 ^ 28"

lemma quantize_grid:
  assumes "quantize rnd RATE_PLACES x = Inr r" shows "on_rate_grid r"
proof -
  obtain n :: int where n: "r = of_int n / 10 ^ RATE_PLACES" "\<bar>n\<bar> < 10 ^ prec"
    using assms by (auto simp: quantize_def Let_def split: if_splits)
  then have "rat_of_int \<bar>n\<bar> < of_int (10 ^ 28)" by (simp only: of_int_less_iff prec_def)
  then show ?thesis using n by (simp add: on_rate_grid_def abs_divide)
qed

lemma grid_exact: "on_rate_grid r \<Longrightarrow> ctx_round r = r"
  unfolding on_rate_grid_def
proof (elim conjE)
  assume r: "r * 10 ^ RATE_PLACES = of_int \<lfloor>r * 10 ^ RATE_PLACES\<rfloor>" and b: "\<bar>r\<bar> * 10 ^ RATE_PLACES < 10 ^ 28"
  have "rat_of_int \<bar>\<lfloor>r * 10 ^ RATE_PLACES\<rfloor>\<bar> < of_int (10 ^ 28)"
    using b r by (metis abs_mult abs_numeral of_int_abs of_int_numeral of_int_power power_abs)
  then have "\<bar>\<lfloor>r * 10 ^ RATE_PLACES\<rfloor>\<bar> < 10 ^ 28" by (simp only: of_int_less_iff)
  then show ?thesis
    using ctx_round_exact [of r "int RATE_PLACES"] r by simp
qed

lemma marked_down_le_mid:
  assumes "marked_down_rate mid b = Inr r" "0 \<le> mid" "on_rate_grid mid"
  shows "0 \<le> r \<and> r \<le> mid"
proof -
  have b: "0 \<le> b" "b < 10000"
    using assms(1) by (auto simp: marked_down_rate_def BPS_DENOMINATOR_def split: if_splits)
  define f :: rat where "f = of_int (10000 - b) / 10000"
  have f: "0 \<le> f" "f \<le> 1" using b by (auto simp: f_def)
  let ?x = "dec_mul mid f"
  have "mid * f \<le> mid * 1" using f assms(2) by (intro mult_left_mono) auto
  then have x: "0 \<le> ?x" "?x \<le> mid"
    using ctx_round_mono [of "mid * f" mid] ctx_round_nonneg [of "mid * f"] f assms(2) grid_exact [OF assms(3)]
    by (auto simp: dec_mul_def)
  have "quantize round_half_up RATE_PLACES ?x = Inr r"
    using assms(1) b unfolding marked_down_rate_def Let_def marked_down_factor [OF b] f_def
    by (simp add: BPS_DENOMINATOR_def)
  then have r: "r = of_int (round_half_up (?x * 10 ^ RATE_PLACES)) / 10 ^ RATE_PLACES"
    by (auto simp: quantize_def Let_def split: if_splits)
  have "round_half_up 0 \<le> round_half_up (?x * 10 ^ RATE_PLACES)"
    using x by (intro round_half_up_mono) simp
  moreover have "round_half_up (?x * 10 ^ RATE_PLACES) \<le> round_half_up (mid * 10 ^ RATE_PLACES)"
    using x by (intro round_half_up_mono mult_right_mono) auto
  moreover have "round_half_up (mid * 10 ^ RATE_PLACES) = \<lfloor>mid * 10 ^ RATE_PLACES\<rfloor>"
    using assms(3) round_half_up_of_int unfolding on_rate_grid_def by metis
  ultimately have n: "0 \<le> round_half_up (?x * 10 ^ RATE_PLACES)"
    "round_half_up (?x * 10 ^ RATE_PLACES) \<le> \<lfloor>mid * 10 ^ RATE_PLACES\<rfloor>" by auto
  have "rat_of_int (round_half_up (?x * 10 ^ RATE_PLACES)) \<le> of_int \<lfloor>mid * 10 ^ RATE_PLACES\<rfloor>"
    using n(2) by (simp only: of_int_le_iff)
  then have "of_int (round_half_up (?x * 10 ^ RATE_PLACES)) \<le> mid * 10 ^ RATE_PLACES"
    using assms(3) unfolding on_rate_grid_def by simp
  then show ?thesis using n(1) unfolding r by (simp add: divide_le_eq)
qed

lemma convert_minor_mono:
  assumes "convert_minor K a c d r = Inr t" "convert_minor K a c d r' = Inr t'"
    and "0 \<le> a" "0 \<le> r" "r \<le> r'"
  shows "t \<le> t'"
proof -
  obtain et ef where e: "exponent_for K d = Inr et" "exponent_for K c = Inr ef"
    using assms(1) by (auto simp: convert_minor_def bindE_Inr_iff)
  let ?s = "\<lambda>r. scaleb (dec_mul (of_int a) r) (int et - int ef)"
  have "of_int a * r \<le> of_int a * r'" using assms by (intro mult_left_mono) auto
  then have "dec_mul (of_int a) r \<le> dec_mul (of_int a) r'"
    unfolding dec_mul_def using assms by (intro ctx_round_mono) auto
  then have "?s r \<le> ?s r'"
    unfolding scaleb_def using assms
    by (intro ctx_round_mono mult_right_mono mult_nonneg_nonneg) (auto simp: dec_mul_def ctx_round_nonneg)
  then have "round_half_up (?s r) \<le> round_half_up (?s r')" by (rule round_half_up_mono)
  then show ?thesis using assms(1,2) e by (simp add: convert_minor_def quantize_int_ok)
qed

lemma quote_payout_conversionD:
  assumes "quote_payout_conversion K src c mid b = Inr q"
  shows "0 < amount_minor src" "currency src \<noteq> c"
    "fx_source q = src" "fx_mid_rate q = mid" "currency (fx_target q) = c" "0 < amount_minor (fx_target q)"
    "marked_down_rate mid b = Inr (fx_rate q)"
    "convert_minor K (amount_minor src) (currency src) c (fx_rate q) = Inr (amount_minor (fx_target q))"
    "convert_minor K (amount_minor src) (currency src) c mid = Inr (fx_mid_target_minor q)"
  using assms
  by (auto simp: quote_payout_conversion_def bindE_Inr_iff mk_money_Inr_iff split: if_splits)

lemma spread_nonneg:
  assumes "quote_payout_conversion K src c mid b = Inr q" "0 \<le> mid" "on_rate_grid mid"
  shows "0 \<le> spread_minor q"
proof -
  note d = quote_payout_conversionD [OF assms(1)]
  have "0 \<le> fx_rate q \<and> fx_rate q \<le> mid" by (rule marked_down_le_mid [OF d(7) assms(2,3)])
  then show ?thesis
    using convert_minor_mono [OF d(8,9)] d(1) by (simp add: spread_minor_def)
qed

section \<open>Text form of a rate\<close>

lemma places_dvd:
  assumes "q dvd 10 ^ n" shows "q dvd 10 ^ places q"
  using assms
proof (induction q arbitrary: n rule: places.induct)
  case (1 q)
  show ?case
  proof (cases "gcd q 10 = 1")
    case True
    then have "q dvd 1" using 1(2) by (metis coprime_dvd_mult_left_iff coprime_iff_gcd_eq_1
          coprime_power_right_iff dvd_refl gcd_nat.absorb_iff1 coprime_imp_gcd_eq_1 gcd.commute)
    then show ?thesis by simp
  next
    case False
    have q0: "q \<noteq> 0" using 1(2) by (metis dvd_0_left_iff power_not_zero zero_neq_numeral)
    let ?g = "gcd q 10"
    have "q div ?g dvd q" by (meson div_dvd_iff_mult dvd_triv_left gcd_dvd1 gcd_eq_0_iff q0)
    then have "q div ?g dvd 10 ^ n" using 1(2) dvd_trans by blast
    then have "q div ?g dvd 10 ^ places (q div ?g)" using 1(1) False q0 by blast
    moreover have "q = ?g * (q div ?g)" by simp
    ultimately have "q dvd 10 * 10 ^ places (q div ?g)" by (metis gcd_dvd2 mult_dvd_mono)
    then show ?thesis using False q0 by (subst places.simps) simp
  qed
qed

lemma quotient_of_dvd:
  assumes "x * 10 ^ k = of_int n" and q: "quotient_of x = (p, q)"
  shows "q dvd 10 ^ k"
proof -
  have q0: "0 < q" and x: "x = of_int p / of_int q" and cop: "coprime p q"
    using q quotient_of_denom_pos quotient_of_div quotient_of_coprime by auto
  have "rat_of_int (p * 10 ^ k) = of_int (n * q)" using assms(1) q0 unfolding x by (simp add: field_simps)
  then have "p * 10 ^ k = n * q" by (simp only: of_int_eq_iff)
  then have "q dvd p * 10 ^ k" by simp
  then show ?thesis using cop by (simp add: coprime_commute coprime_dvd_mult_right_iff)
qed

lemma format_rate_parse:
  assumes n: "x * 10 ^ k = of_int n" and b: "\<bar>n\<bar> < 10 ^ 28"
  shows "parse_decimal (format_rate x) = Some (Fin x)"
proof -
  have ex: "ctx_round x = x" by (rule ctx_round_exact [where k = "int k"]) (use n b in simp_all)
  obtain p q where pq: "quotient_of x = (p, q)" by force
  then have q0: "0 < q" and x: "x = of_int p / of_int q"
    using quotient_of_denom_pos quotient_of_div by auto
  define e where "e = places (nat q)"
  have "q dvd 10 ^ k" by (rule quotient_of_dvd [OF n pq])
  then have "nat q dvd 10 ^ k" using q0 by (metis int_dvd_int_iff int_nat_eq of_nat_numeral of_nat_power order_less_imp_le)
  then have "nat q dvd 10 ^ e" unfolding e_def by (rule places_dvd)
  then have "q dvd 10 ^ e" using q0 by (metis int_dvd_int_iff int_nat_eq of_nat_numeral of_nat_power order_less_imp_le)
  then obtain r where r: "10 ^ e = q * r" by (auto elim: dvdE)
  have "x * 10 ^ e = x * of_int (10 ^ e)" by simp
  also have "\<dots> = of_int (p * r)" unfolding r x using q0 by simp
  finally have xe: "x * 10 ^ e = of_int (p * r)" .
  define m where "m = \<lfloor>x * 10 ^ e\<rfloor>"
  have m: "x = of_int m / 10 ^ e" using xe by (simp add: m_def field_simps)
  define ds where "ds = replicate (Suc e - length (str_nat (nat \<bar>m\<bar>))) CHR ''0'' @ str_nat (nat \<bar>m\<bar>)"
  have ds: "list_all is_digit ds" "digits_val ds = nat \<bar>m\<bar>" "e < length ds"
    by (auto simp: ds_def list_all_iff dest: str_nat_digits)
  have fr: "format_rate x = signed (m < 0) (take (length ds - e) ds @
      (if e = 0 then [] else ''.'' @ drop (length ds - e) ds))"
    by (simp add: format_rate_def ex pq Let_def signed_def ds_def m_def e_def)
  have all: "list_all is_digit (take j ds)" "list_all is_digit (drop j ds)" for j
    using ds(1) by (auto simp: list_all_iff dest: in_set_takeD in_set_dropD)
  show ?thesis
  proof (cases "e = 0")
    case True
    then show ?thesis
      using fr ds m parse_decimal_int [of ds "m < 0"] by (auto simp: Let_def)
  next
    case False
    have ne: "take (length ds - e) ds \<noteq> []" "drop (length ds - e) ds \<noteq> []"
      using ds(3) False by auto
    have "parse_decimal (format_rate x) = Some (Fin (let v = rat_of_nat (nat \<bar>m\<bar>) / 10 ^ e in if m < 0 then - v else v))"
      using parse_decimal_plain [OF ne(1) all(1) ne(2) all(2), of "m < 0"] fr ds False by simp
    then show ?thesis using m by (simp add: Let_def)
  qed
qed

end
