(* ===== verification/Postings.thy ===== *)
theory Postings
  imports Fees
begin

text \<open>
  \<^verbatim>\<open>src/app/domain/postings.py\<close> and \<^verbatim>\<open>src/app/domain/rules/\<close>: the posting rules, which turn a
  context into the debit and credit lines of one transaction. One definition per rule, the
  shared checks \<^verbatim>\<open>validate\<close> and \<^verbatim>\<open>_built\<close>, the two dispatch tables, and the locale that states
  what the poster may rely on: whatever a rule returns is a well-formed set of lines (at
  least two, all positive, debits equal to credits).
\<close>

section \<open>Contexts and lines\<close>

datatype direction = Debit | Credit

record posting_context =
  ctx_merchant_id :: "string option"
  ctx_currency :: string
  ctx_livemode :: bool
  gross_minor :: int
  fee_minor :: int
  net_minor :: int
  interchange_minor :: int
  scheme_fee_minor :: int
  reserve_bps :: int
  platform_fee_bps :: int
  platform_fee_fixed_minor :: int

record posting_line =
  account_type :: string
  direction :: direction
  line_amount :: int

definition ctx_money :: "contracts \<Rightarrow> posting_context \<Rightarrow> int \<Rightarrow> money res" where
  "ctx_money K ctx a = mk_money K a (ctx_currency ctx)"

definition signed_minor :: "posting_line \<Rightarrow> int" where
  "signed_minor l = (if direction l = Debit then line_amount l else - line_amount l)"

definition debit :: "string \<Rightarrow> int \<Rightarrow> posting_line" where
  "debit t a = \<lparr>account_type = t, direction = Debit, line_amount = a\<rparr>"

definition credit :: "string \<Rightarrow> int \<Rightarrow> posting_line" where
  "credit t a = \<lparr>account_type = t, direction = Credit, line_amount = a\<rparr>"

definition validate :: "posting_line list \<Rightarrow> unit res" where
  "validate lines =
    (if length lines < 2 then raise UnbalancedTransactionError
     else if \<exists>l\<in>set lines. line_amount l \<le> 0 then raise NegativeAmountError
     else if sum_list (map signed_minor lines) \<noteq> 0 then raise UnbalancedTransactionError
     else Inr ())"

definition built :: "posting_context \<Rightarrow> posting_line list \<Rightarrow> posting_line list res" where
  "built ctx lines =
    (let kept = filter (\<lambda>l. line_amount l \<noteq> 0) lines in
     bindE (validate kept) (\<lambda>_.
       if ctx_currency ctx \<noteq> [] \<and> strip (ctx_currency ctx) = [] then raise ValidationError
       else Inr kept))"

section \<open>The sale path\<close>

definition AuthPostingRule_build :: "posting_context \<Rightarrow> posting_line list res" where
  "AuthPostingRule_build ctx = built ctx
     [debit ''merchant_receivable'' (gross_minor ctx), credit ''authorization_hold'' (gross_minor ctx)]"

definition AuthReleasePostingRule_build :: "posting_context \<Rightarrow> posting_line list res" where
  "AuthReleasePostingRule_build ctx = built ctx
     [debit ''authorization_hold'' (gross_minor ctx), credit ''merchant_receivable'' (gross_minor ctx)]"

definition CapturePostingRule_build :: "contracts \<Rightarrow> posting_context \<Rightarrow> posting_line list res" where
  "CapturePostingRule_build K ctx =
     bindE (ctx_money K ctx (gross_minor ctx)) (\<lambda>gross.
     bindE (compute_platform_fee K gross (platform_fee_bps ctx) (platform_fee_fixed_minor ctx)) (\<lambda>markup.
     bindE (apply_bps K gross (reserve_bps ctx)) (\<lambda>reserve.
       let net = gross_minor ctx - amount_minor markup - amount_minor reserve in
       if net < 0 then raise ValidationError
       else built ctx
         [debit ''processor_clearing'' (gross_minor ctx),
          credit ''merchant_payable'' net,
          credit ''platform_fee_revenue'' (amount_minor markup),
          credit ''reserve'' (amount_minor reserve),
          debit ''authorization_hold'' (gross_minor ctx),
          credit ''merchant_receivable'' (gross_minor ctx)])))"

definition SettlementPostingRule_build :: "posting_context \<Rightarrow> posting_line list res" where
  "SettlementPostingRule_build ctx =
    (if fee_minor ctx \<le> 0 then raise ValidationError
     else let interchange = min (max (interchange_minor ctx) 0) (fee_minor ctx);
              scheme = min (max (scheme_fee_minor ctx) 0) (fee_minor ctx - interchange);
              markup = acquirer_markup_minor (fee_minor ctx) interchange scheme
          in built ctx
            [debit ''interchange_expense'' interchange,
             debit ''scheme_fee_expense'' scheme,
             debit ''acquirer_fee_expense'' markup,
             credit ''processor_clearing'' (fee_minor ctx)])"

definition SettlementFundingPostingRule_build :: "posting_context \<Rightarrow> posting_line list res" where
  "SettlementFundingPostingRule_build ctx = built ctx
     [debit ''cash'' (gross_minor ctx), credit ''processor_clearing'' (gross_minor ctx)]"

definition acquirer_fee_legs :: "posting_context \<Rightarrow> posting_line list" where
  "acquirer_fee_legs ctx = (if fee_minor ctx > 0
     then [debit ''acquirer_fee_expense'' (fee_minor ctx), credit ''processor_clearing'' (fee_minor ctx)]
     else [])"

definition SettlementRefundPostingRule_build :: "posting_context \<Rightarrow> posting_line list res" where
  "SettlementRefundPostingRule_build ctx = built ctx
     ([debit ''merchant_payable'' (gross_minor ctx), credit ''processor_clearing'' (gross_minor ctx)]
      @ acquirer_fee_legs ctx)"

section \<open>Corrections\<close>

definition flip_direction :: "direction \<Rightarrow> direction" where
  "flip_direction d = (if d = Debit then Credit else Debit)"

definition ReversalPostingRule_build :: "posting_line list \<Rightarrow> posting_context \<Rightarrow> posting_line list res" where
  "ReversalPostingRule_build original ctx =
    (if original = [] then raise ValidationError
     else built ctx (map (\<lambda>l. \<lparr>account_type = account_type l, direction = flip_direction (direction l),
                               line_amount = line_amount l\<rparr>) original))"

text \<open>JSON values: the \<^verbatim>\<open>jsonb\<close> lines of an adjustment request and the payloads of events.\<close>

datatype json_value = JNull | JBool bool | JInt int | JStr string | JTime int | JStrs "string list" | JOther

definition dict_get :: "string \<Rightarrow> (string \<times> json_value) list \<Rightarrow> json_value" where
  "dict_get k entry = (case map_of entry k of None \<Rightarrow> JNull | Some v \<Rightarrow> v)"

definition decode_adjustment_line :: "(string \<times> json_value) list \<Rightarrow> posting_line res" where
  "decode_adjustment_line entry =
    (case dict_get ''account_type'' entry of
       JStr t \<Rightarrow>
         bindE (if dict_get ''direction'' entry = JStr ''debit'' then Inr Debit
                else if dict_get ''direction'' entry = JStr ''credit'' then Inr Credit
                else raise ValidationError) (\<lambda>d.
           case dict_get ''amount_minor'' entry of
             JInt a \<Rightarrow> if a \<le> 0 then raise ValidationError
                        else Inr \<lparr>account_type = t, direction = d, line_amount = a\<rparr>
           | _ \<Rightarrow> raise ValidationError)
     | _ \<Rightarrow> raise ValidationError)"

definition from_json_lines :: "(string \<times> json_value) list list \<Rightarrow> posting_line list res" where
  "from_json_lines raw = traverse decode_adjustment_line raw"

definition AdjustmentPostingRule_build :: "posting_line list \<Rightarrow> posting_context \<Rightarrow> posting_line list res" where
  "AdjustmentPostingRule_build requested ctx =
    (if requested = [] then raise ValidationError else built ctx requested)"

definition AdjustmentLinePostingRule_build :: "posting_context \<Rightarrow> posting_line list res" where
  "AdjustmentLinePostingRule_build ctx =
    (let a = \<bar>gross_minor ctx\<bar> in
     if a = 0 then raise ValidationError
     else if gross_minor ctx > 0
       then built ctx [debit ''processor_clearing'' a, credit ''merchant_payable'' a]
       else built ctx [debit ''merchant_payable'' a, credit ''processor_clearing'' a])"

definition RefundPostingRule_build :: "bool \<Rightarrow> posting_context \<Rightarrow> posting_line list res" where
  "RefundPostingRule_build settled ctx =
    (if gross_minor ctx \<le> 0 then raise ValidationError
     else built ctx
       [debit ''merchant_payable'' (gross_minor ctx),
        credit (if settled then ''cash'' else ''processor_clearing'') (gross_minor ctx)])"

section \<open>Disputes\<close>

definition DisputePostingRule_build :: "posting_context \<Rightarrow> posting_line list res" where
  "DisputePostingRule_build ctx =
    (if gross_minor ctx \<le> 0 then raise ValidationError
     else built ctx
       ([debit ''merchant_payable'' (gross_minor ctx), credit ''chargeback_liability'' (gross_minor ctx)]
        @ (if fee_minor ctx > 0
           then [debit ''merchant_payable'' (fee_minor ctx), credit ''platform_fee_revenue'' (fee_minor ctx)]
           else [])))"

definition ChargebackPostingRule_build :: "posting_context \<Rightarrow> posting_line list res" where
  "ChargebackPostingRule_build ctx =
    (let a = \<bar>gross_minor ctx\<bar> in
     if a = 0 then raise ValidationError
     else built ctx ([debit ''chargeback_liability'' a, credit ''processor_clearing'' a] @ acquirer_fee_legs ctx))"

definition ChargebackReversalPostingRule_build :: "posting_context \<Rightarrow> posting_line list res" where
  "ChargebackReversalPostingRule_build ctx =
    (let a = \<bar>gross_minor ctx\<bar> in
     if a = 0 then raise ValidationError
     else built ctx ([debit ''processor_clearing'' a, credit ''chargeback_liability'' a] @ acquirer_fee_legs ctx))"

section \<open>Fees that are not part of a sale\<close>

definition NON_TRANSACTIONAL_FEE_TYPES :: "string list" where
  "NON_TRANSACTIONAL_FEE_TYPES =
     [''monthly_minimum'', ''account_fee'', ''dispute_fee'', ''gateway_fee'', ''chargeback_fee'']"

definition FeePostingRule_build :: "posting_context \<Rightarrow> posting_line list res" where
  "FeePostingRule_build ctx =
    (let a = (if fee_minor ctx \<noteq> 0 then fee_minor ctx else gross_minor ctx) in
     if a \<le> 0 then raise ValidationError
     else built ctx [debit ''merchant_payable'' a, credit ''platform_fee_revenue'' a])"

definition SchemeFeePostingRule_build :: "posting_context \<Rightarrow> posting_line list res" where
  "SchemeFeePostingRule_build ctx =
    (let a = (if scheme_fee_minor ctx \<noteq> 0 then scheme_fee_minor ctx else gross_minor ctx) in
     if a \<le> 0 then raise ValidationError
     else built ctx [debit ''scheme_fee_expense'' a, credit ''processor_clearing'' a])"

definition is_non_transactional :: "string \<Rightarrow> bool" where
  "is_non_transactional fee_type \<longleftrightarrow> fee_type \<in> set NON_TRANSACTIONAL_FEE_TYPES"

section \<open>Payouts and reserves\<close>

definition PayoutPostingRule_build :: "posting_context \<Rightarrow> posting_line list res" where
  "PayoutPostingRule_build ctx =
    (if gross_minor ctx \<le> 0 then raise ValidationError
     else built ctx [debit ''merchant_payable'' (gross_minor ctx), credit ''cash'' (gross_minor ctx)])"

definition PayoutReversalPostingRule_build :: "posting_context \<Rightarrow> posting_line list res" where
  "PayoutReversalPostingRule_build ctx =
    (if gross_minor ctx \<le> 0 then raise ValidationError
     else built ctx [debit ''cash'' (gross_minor ctx), credit ''merchant_payable'' (gross_minor ctx)])"

definition FxPayoutSourcePostingRule_build :: "posting_context \<Rightarrow> posting_line list res" where
  "FxPayoutSourcePostingRule_build ctx =
    (if gross_minor ctx \<le> 0 then raise ValidationError
     else built ctx [debit ''merchant_payable'' (gross_minor ctx), credit ''fx_clearing'' (gross_minor ctx)])"

definition FxPayoutTargetPostingRule_build :: "posting_context \<Rightarrow> posting_line list res" where
  "FxPayoutTargetPostingRule_build ctx =
    (if net_minor ctx \<le> 0 \<or> fee_minor ctx < 0 then raise ValidationError
     else if gross_minor ctx \<noteq> net_minor ctx + fee_minor ctx then raise ValidationError
     else built ctx [debit ''fx_clearing'' (gross_minor ctx), credit ''cash'' (net_minor ctx),
                     credit ''fx_revenue'' (fee_minor ctx)])"

definition mirrored :: "posting_line list \<Rightarrow> posting_line list" where
  "mirrored lines = map (\<lambda>l. \<lparr>account_type = account_type l, direction = flip_direction (direction l),
                              line_amount = line_amount l\<rparr>) lines"

definition ReserveHoldPostingRule_build :: "posting_context \<Rightarrow> posting_line list res" where
  "ReserveHoldPostingRule_build ctx =
    (let a = \<bar>gross_minor ctx\<bar> in
     if a = 0 then raise ValidationError
     else built ctx [debit ''merchant_payable'' a, credit ''reserve'' a])"

definition ReserveReleasePostingRule_build :: "posting_context \<Rightarrow> posting_line list res" where
  "ReserveReleasePostingRule_build ctx =
    (let a = \<bar>gross_minor ctx\<bar> in
     if a = 0 then raise ValidationError
     else built ctx [debit ''reserve'' a, credit ''merchant_payable'' a])"

section \<open>Rules, their purposes and their dispatch\<close>

text \<open>A rule instance; three of the classes carry constructor arguments.\<close>

datatype posting_rule =
    AuthPostingRule | AuthReleasePostingRule | CapturePostingRule | SettlementPostingRule
  | SettlementFundingPostingRule | SettlementRefundPostingRule
  | ReversalPostingRule "posting_line list" | AdjustmentPostingRule "posting_line list"
  | AdjustmentLinePostingRule | RefundPostingRule bool
  | DisputePostingRule | ChargebackPostingRule | ChargebackReversalPostingRule
  | FeePostingRule | SchemeFeePostingRule
  | PayoutPostingRule | PayoutReversalPostingRule | FxPayoutSourcePostingRule
  | FxPayoutTargetPostingRule | ReserveHoldPostingRule | ReserveReleasePostingRule

fun rule_purpose :: "posting_rule \<Rightarrow> string" where
  "rule_purpose AuthPostingRule = ''auth''"
| "rule_purpose AuthReleasePostingRule = ''auth_release''"
| "rule_purpose CapturePostingRule = ''capture''"
| "rule_purpose SettlementPostingRule = ''settle''"
| "rule_purpose SettlementFundingPostingRule = ''settlement_funding''"
| "rule_purpose SettlementRefundPostingRule = ''refund''"
| "rule_purpose (ReversalPostingRule _) = ''reversal''"
| "rule_purpose (AdjustmentPostingRule _) = ''adjustment''"
| "rule_purpose AdjustmentLinePostingRule = ''adjustment''"
| "rule_purpose (RefundPostingRule _) = ''refund''"
| "rule_purpose DisputePostingRule = ''dispute''"
| "rule_purpose ChargebackPostingRule = ''dispute''"
| "rule_purpose ChargebackReversalPostingRule = ''dispute''"
| "rule_purpose FeePostingRule = ''fee''"
| "rule_purpose SchemeFeePostingRule = ''fee''"
| "rule_purpose PayoutPostingRule = ''payout''"
| "rule_purpose PayoutReversalPostingRule = ''payout_reversal''"
| "rule_purpose FxPayoutSourcePostingRule = ''payout''"
| "rule_purpose FxPayoutTargetPostingRule = ''payout''"
| "rule_purpose ReserveHoldPostingRule = ''reserve_release''"
| "rule_purpose ReserveReleasePostingRule = ''reserve_release''"

fun build :: "contracts \<Rightarrow> posting_rule \<Rightarrow> posting_context \<Rightarrow> posting_line list res" where
  "build K AuthPostingRule ctx = AuthPostingRule_build ctx"
| "build K AuthReleasePostingRule ctx = AuthReleasePostingRule_build ctx"
| "build K CapturePostingRule ctx = CapturePostingRule_build K ctx"
| "build K SettlementPostingRule ctx = SettlementPostingRule_build ctx"
| "build K SettlementFundingPostingRule ctx = SettlementFundingPostingRule_build ctx"
| "build K SettlementRefundPostingRule ctx = SettlementRefundPostingRule_build ctx"
| "build K (ReversalPostingRule original) ctx = ReversalPostingRule_build original ctx"
| "build K (AdjustmentPostingRule requested) ctx = AdjustmentPostingRule_build requested ctx"
| "build K AdjustmentLinePostingRule ctx = AdjustmentLinePostingRule_build ctx"
| "build K (RefundPostingRule settled) ctx = RefundPostingRule_build settled ctx"
| "build K DisputePostingRule ctx = DisputePostingRule_build ctx"
| "build K ChargebackPostingRule ctx = ChargebackPostingRule_build ctx"
| "build K ChargebackReversalPostingRule ctx = ChargebackReversalPostingRule_build ctx"
| "build K FeePostingRule ctx = FeePostingRule_build ctx"
| "build K SchemeFeePostingRule ctx = SchemeFeePostingRule_build ctx"
| "build K PayoutPostingRule ctx = PayoutPostingRule_build ctx"
| "build K PayoutReversalPostingRule ctx = PayoutReversalPostingRule_build ctx"
| "build K FxPayoutSourcePostingRule ctx = FxPayoutSourcePostingRule_build ctx"
| "build K FxPayoutTargetPostingRule ctx = FxPayoutTargetPostingRule_build ctx"
| "build K ReserveHoldPostingRule ctx = ReserveHoldPostingRule_build ctx"
| "build K ReserveReleasePostingRule ctx = ReserveReleasePostingRule_build ctx"

definition POSTING_RULE_BY_PURPOSE :: "(string \<times> posting_rule) list" where
  "POSTING_RULE_BY_PURPOSE =
    [(''auth'', AuthPostingRule), (''auth_release'', AuthReleasePostingRule),
     (''capture'', CapturePostingRule), (''settle'', SettlementPostingRule),
     (''settlement_funding'', SettlementFundingPostingRule), (''fee'', FeePostingRule),
     (''refund'', RefundPostingRule False), (''dispute'', DisputePostingRule),
     (''reserve_release'', ReserveReleasePostingRule), (''payout'', PayoutPostingRule),
     (''payout_reversal'', PayoutReversalPostingRule), (''reversal'', ReversalPostingRule []),
     (''adjustment'', AdjustmentPostingRule [])]"

definition POSTING_RULE_BY_LINE_TYPE :: "(string \<times> posting_rule) list" where
  "POSTING_RULE_BY_LINE_TYPE =
    [(''sale'', SettlementPostingRule), (''refund'', SettlementRefundPostingRule),
     (''chargeback'', ChargebackPostingRule), (''chargeback_reversal'', ChargebackReversalPostingRule),
     (''scheme_fee'', SchemeFeePostingRule), (''adjustment'', AdjustmentLinePostingRule),
     (''reserve_hold'', ReserveHoldPostingRule), (''reserve_release'', ReserveReleasePostingRule)]"

section \<open>The contract of the rules\<close>

definition well_formed_lines :: "posting_line list \<Rightarrow> bool" where
  "well_formed_lines lines \<longleftrightarrow> 2 \<le> length lines \<and> (\<forall>l\<in>set lines. 0 < line_amount l)
     \<and> sum_list (map signed_minor lines) = 0"

lemma validate_iff: "validate lines = Inr () \<longleftrightarrow> well_formed_lines lines"
  by (auto simp: validate_def well_formed_lines_def not_less not_le)

lemma built_wf: "built ctx lines = Inr out \<Longrightarrow> well_formed_lines out"
  by (auto simp: built_def Let_def bindE_Inr_iff validate_iff split: if_splits)

locale posting_rule_contract =
  fixes rule_build :: "posting_context \<Rightarrow> posting_line list res"
  assumes lines_wf: "rule_build ctx = Inr lines \<Longrightarrow> well_formed_lines lines"
begin

lemma accepted_by_validate: "rule_build ctx = Inr lines \<Longrightarrow> validate lines = Inr ()"
  by (simp add: validate_iff lines_wf)

lemma has_both_sides:
  assumes "rule_build ctx = Inr lines"
  shows "(\<exists>l\<in>set lines. direction l = Debit) \<and> (\<exists>l\<in>set lines. direction l = Credit)"
proof -
  have wf: "well_formed_lines lines" using assms by (rule lines_wf)
  have one_sided: "sum_list (map f lines) \<noteq> 0" if "\<forall>l\<in>set lines. 0 < f l" for f :: "posting_line \<Rightarrow> int"
  proof -
    have "lines \<noteq> []" using wf by (auto simp: well_formed_lines_def)
    then have "0 < sum_list (map f lines)" using that
      by (induction lines rule: list_nonempty_induct) (auto simp: add_pos_pos)
    then show ?thesis by simp
  qed
  have "\<exists>l\<in>set lines. direction l = Debit"
  proof (rule ccontr)
    assume "\<not> ?thesis"
    then have "\<forall>l\<in>set lines. 0 < - signed_minor l" using wf by (auto simp: well_formed_lines_def signed_minor_def)
    then show False using one_sided [of "\<lambda>l. - signed_minor l"] wf
      by (simp add: sum_list_uminus well_formed_lines_def)
  qed
  moreover have "\<exists>l\<in>set lines. direction l = Credit"
  proof (rule ccontr)
    assume "\<not> ?thesis"
    then have "\<forall>l\<in>set lines. 0 < signed_minor l"
      using wf by (metis direction.exhaust signed_minor_def well_formed_lines_def)
    then show False using one_sided [of signed_minor] wf by (simp add: well_formed_lines_def)
  qed
  ultimately show ?thesis by blast
qed

end

lemmas rule_build_defs [rule_simps] =
  AuthPostingRule_build_def AuthReleasePostingRule_build_def CapturePostingRule_build_def
  SettlementPostingRule_build_def SettlementFundingPostingRule_build_def SettlementRefundPostingRule_build_def
  ReversalPostingRule_build_def AdjustmentPostingRule_build_def AdjustmentLinePostingRule_build_def
  RefundPostingRule_build_def DisputePostingRule_build_def ChargebackPostingRule_build_def
  ChargebackReversalPostingRule_build_def FeePostingRule_build_def SchemeFeePostingRule_build_def
  PayoutPostingRule_build_def PayoutReversalPostingRule_build_def FxPayoutSourcePostingRule_build_def
  FxPayoutTargetPostingRule_build_def ReserveHoldPostingRule_build_def ReserveReleasePostingRule_build_def

interpretation rule: posting_rule_contract "build K r" for K r
  by unfold_locales
     (cases r; auto simp: rule_build_defs Let_def bindE_Inr_iff split: if_splits dest: built_wf)

section \<open>What each rule builds\<close>

definition currency_ok :: "posting_context \<Rightarrow> bool" where
  "currency_ok ctx \<longleftrightarrow> ctx_currency ctx = [] \<or> strip (ctx_currency ctx) \<noteq> []"

definition nonzero_lines :: "posting_line list \<Rightarrow> posting_line list" where
  "nonzero_lines = filter (\<lambda>l. line_amount l \<noteq> 0)"

lemma line_simps [simp]:
  "line_amount (debit t a) = a" "line_amount (credit t a) = a"
  "direction (debit t a) = Debit" "direction (credit t a) = Credit"
  "account_type (debit t a) = t" "account_type (credit t a) = t"
  "signed_minor (debit t a) = a" "signed_minor (credit t a) = - a"
  by (simp_all add: debit_def credit_def signed_minor_def)

lemma built_ok:
  assumes "well_formed_lines (nonzero_lines lines)" "currency_ok ctx"
  shows "built ctx lines = Inr (nonzero_lines lines)"
  using assms validate_iff [of "nonzero_lines lines"]
  by (auto simp: built_def currency_ok_def Let_def nonzero_lines_def)

lemma built_pair:
  assumes "0 < a" "currency_ok ctx"
  shows "built ctx [debit t a, credit u a] = Inr [debit t a, credit u a]"
  using assms built_ok [of "[debit t a, credit u a]" ctx] by (simp add: nonzero_lines_def well_formed_lines_def)

lemma built_pair_zero: "built ctx [debit t 0, credit u 0] = raise UnbalancedTransactionError"
  by (simp add: built_def validate_def)

lemma built_pair_negative: "a < 0 \<Longrightarrow> built ctx [debit t a, credit u a] = raise NegativeAmountError"
  by (simp add: built_def validate_def)

lemma sum_signed_nonzero: "sum_list (map signed_minor (nonzero_lines ls)) = sum_list (map signed_minor ls)"
  by (induction ls) (auto simp: nonzero_lines_def signed_minor_def)

lemma well_formed_nonzero:
  assumes nn: "\<forall>l\<in>set ls. 0 \<le> line_amount l" and pos: "\<exists>l\<in>set ls. 0 < line_amount l"
    and bal: "sum_list (map signed_minor ls) = 0"
  shows "well_formed_lines (nonzero_lines ls)"
proof -
  let ?n = "nonzero_lines ls"
  have all: "\<forall>l\<in>set ?n. 0 < line_amount l" using nn by (force simp: nonzero_lines_def)
  have "?n \<noteq> []" using pos by (force simp: nonzero_lines_def filter_empty_conv)
  moreover have "?n \<noteq> [x]" for x
  proof
    assume x: "?n = [x]"
    then have "signed_minor x = 0" using bal sum_signed_nonzero [of ls] by simp
    moreover have "0 < line_amount x" using all x by simp
    ultimately show False by (auto simp: signed_minor_def split: if_splits)
  qed
  ultimately have "2 \<le> length ?n" by (metis One_nat_def Suc_1 length_0_conv length_Suc_conv not_less_eq_eq le_zero_eq le_SucE)
  then show ?thesis using all bal sum_signed_nonzero [of ls] by (simp add: well_formed_lines_def)
qed

text \<open>The capture: the merchant, the platform and the reserve share the gross exactly.\<close>

lemma capture_build_spec:
  assumes g: "0 < gross_minor ctx" "bigint (gross_minor ctx)"
    and b: "0 \<le> platform_fee_bps ctx" "platform_fee_bps ctx \<le> 10 ^ 9" "0 \<le> platform_fee_fixed_minor ctx"
    and r: "0 \<le> reserve_bps ctx" "reserve_bps ctx \<le> 10 ^ 9"
    and c: "ctx_currency ctx \<in> SUPPORTED_CURRENCIES K" "currency_ok ctx"
  defines "G \<equiv> gross_minor ctx"
  defines "F \<equiv> min (bps_of (gross_minor ctx) (platform_fee_bps ctx) + platform_fee_fixed_minor ctx) (gross_minor ctx)"
  defines "R \<equiv> bps_of (gross_minor ctx) (reserve_bps ctx)"
  shows "CapturePostingRule_build K ctx = (if G < F + R then raise ValidationError
    else Inr (nonzero_lines [debit ''processor_clearing'' G, credit ''merchant_payable'' (G - F - R),
      credit ''platform_fee_revenue'' F, credit ''reserve'' R,
      debit ''authorization_hold'' G, credit ''merchant_receivable'' G]))"
proof -
  have fee: "compute_platform_fee K \<lparr>amount_minor = G, currency = ctx_currency ctx\<rparr>
      (platform_fee_bps ctx) (platform_fee_fixed_minor ctx) = Inr \<lparr>amount_minor = F, currency = ctx_currency ctx\<rparr>"
    using bigint_mul_bound [OF g(2) b(1,2)] b c by (simp add: compute_platform_fee_spec F_def G_def)
  have res: "apply_bps K \<lparr>amount_minor = G, currency = ctx_currency ctx\<rparr> (reserve_bps ctx) =
      Inr \<lparr>amount_minor = R, currency = ctx_currency ctx\<rparr>"
    using bigint_mul_bound [OF g(2) r] r c by (simp add: apply_bps_spec R_def G_def)
  have nn: "0 \<le> F" "0 \<le> R"
    using g b r by (auto simp: F_def R_def bps_of_nonneg intro: add_nonneg_nonneg)
  show ?thesis
  proof (cases "G < F + R")
    case True
    then show ?thesis using c fee res
      by (simp add: CapturePostingRule_build_def ctx_money_def mk_money_ok G_def [symmetric] Let_def)
  next
    case False
    let ?ls = "[debit ''processor_clearing'' G, credit ''merchant_payable'' (G - F - R),
      credit ''platform_fee_revenue'' F, credit ''reserve'' R,
      debit ''authorization_hold'' G, credit ''merchant_receivable'' G]"
    have "well_formed_lines (nonzero_lines ?ls)"
      by (rule well_formed_nonzero) (use nn False g in \<open>simp_all add: G_def\<close>)
    from built_ok [OF this c(2)] show ?thesis using c fee res False
      by (simp add: CapturePostingRule_build_def ctx_money_def mk_money_ok G_def [symmetric] Let_def)
  qed
qed

text \<open>The settlement of a sale: the three expense legs always add up to the acquirer's fee.\<close>

lemma settlement_build_spec:
  assumes "0 < fee_minor ctx" "currency_ok ctx"
  shows "\<exists>i s m. 0 \<le> i \<and> 0 \<le> s \<and> 0 \<le> m \<and> i + s + m = fee_minor ctx
    \<and> SettlementPostingRule_build ctx = Inr (nonzero_lines [debit ''interchange_expense'' i,
        debit ''scheme_fee_expense'' s, debit ''acquirer_fee_expense'' m,
        credit ''processor_clearing'' (fee_minor ctx)])
    \<and> (0 \<le> interchange_minor ctx \<and> 0 \<le> scheme_fee_minor ctx
        \<and> interchange_minor ctx + scheme_fee_minor ctx \<le> fee_minor ctx
        \<longrightarrow> i = interchange_minor ctx \<and> s = scheme_fee_minor ctx)"
proof -
  define i where "i = min (max (interchange_minor ctx) 0) (fee_minor ctx)"
  define s where "s = min (max (scheme_fee_minor ctx) 0) (fee_minor ctx - i)"
  have rng: "0 \<le> i" "i \<le> fee_minor ctx" "0 \<le> s" "i + s \<le> fee_minor ctx"
    using assms(1) by (auto simp: i_def s_def min_def max_def)
  have eq: "i = interchange_minor ctx \<and> s = scheme_fee_minor ctx"
    if "0 \<le> interchange_minor ctx" "0 \<le> scheme_fee_minor ctx"
      "interchange_minor ctx + scheme_fee_minor ctx \<le> fee_minor ctx"
    using that by (simp add: i_def s_def)
  have m: "acquirer_markup_minor (fee_minor ctx) i s = fee_minor ctx - i - s"
    using rng by (simp add: acquirer_markup_minor_def)
  let ?ls = "[debit ''interchange_expense'' i, debit ''scheme_fee_expense'' s,
    debit ''acquirer_fee_expense'' (fee_minor ctx - i - s), credit ''processor_clearing'' (fee_minor ctx)]"
  have "well_formed_lines (nonzero_lines ?ls)"
    by (rule well_formed_nonzero) (use rng assms(1) in simp_all)
  from built_ok [OF this assms(2)]
  have b: "SettlementPostingRule_build ctx = Inr (nonzero_lines ?ls)"
    using assms(1) m by (simp add: SettlementPostingRule_build_def Let_def i_def [symmetric] s_def [symmetric])
  show ?thesis
    by (rule exI [of _ i], rule exI [of _ s], rule exI [of _ "fee_minor ctx - i - s"])
       (use rng b eq in simp)
qed

section \<open>Mirrored lines\<close>

lemma flip_flip [simp]: "flip_direction (flip_direction d) = d"
  by (cases d) (simp_all add: flip_direction_def)

lemma signed_flip:
  "signed_minor \<lparr>account_type = t, direction = flip_direction d, line_amount = a\<rparr> =
   - signed_minor \<lparr>account_type = t, direction = d, line_amount = a\<rparr>"
  by (cases d) (simp_all add: signed_minor_def flip_direction_def)

lemma mirrored_mirrored: "mirrored (mirrored ls) = ls"
  by (induction ls) (simp_all add: mirrored_def)

lemma mirrored_signed: "map signed_minor (mirrored ls) = map (\<lambda>l. - signed_minor l) ls"
  by (simp add: mirrored_def signed_flip) (simp add: signed_minor_def)

lemma mirrored_wf [simp]: "well_formed_lines (mirrored ls) = well_formed_lines ls"
  unfolding well_formed_lines_def mirrored_signed sum_list_uminus by (simp add: mirrored_def)

lemma nonzero_wf: "well_formed_lines ls \<Longrightarrow> nonzero_lines ls = ls"
  by (auto simp: well_formed_lines_def nonzero_lines_def filter_id_conv)

lemma reversal_build_mirrors:
  assumes "well_formed_lines ls" "currency_ok ctx"
  shows "ReversalPostingRule_build ls ctx = Inr (mirrored ls)"
proof -
  have "ls \<noteq> []" using assms by (auto simp: well_formed_lines_def)
  moreover have "built ctx (mirrored ls) = Inr (mirrored ls)"
    using built_ok [of "mirrored ls" ctx] nonzero_wf [of "mirrored ls"] assms by simp
  ultimately show ?thesis by (simp add: ReversalPostingRule_build_def mirrored_def)
qed

lemma fx_target_build:
  assumes "0 < net_minor ctx" "0 \<le> fee_minor ctx" "gross_minor ctx = net_minor ctx + fee_minor ctx" "currency_ok ctx"
  shows "FxPayoutTargetPostingRule_build ctx = Inr (nonzero_lines [debit ''fx_clearing'' (gross_minor ctx),
    credit ''cash'' (net_minor ctx), credit ''fx_revenue'' (fee_minor ctx)])"
proof -
  let ?ls = "[debit ''fx_clearing'' (gross_minor ctx), credit ''cash'' (net_minor ctx), credit ''fx_revenue'' (fee_minor ctx)]"
  have "well_formed_lines (nonzero_lines ?ls)"
    by (rule well_formed_nonzero) (use assms in simp_all)
  from built_ok [OF this assms(4)] show ?thesis using assms by (simp add: FxPayoutTargetPostingRule_build_def)
qed

end
