(* ===== verification/Ids.thy ===== *)
theory Ids
  imports Text
begin

text \<open>
  \<^verbatim>\<open>src/app/domain/ids.py\<close> and \<^verbatim>\<open>src/app/domain/idempotency.py\<close>: prefixed identifiers and the
  deterministic keys of ledger transactions. The body of a fresh identifier is minted by the
  package \<^verbatim>\<open>ulid\<close>; it is an argument of \<^verbatim>\<open>new_id\<close>. Main results: a key determines its three
  components (so two different business facts never share a key), \<^verbatim>\<open>parse_key\<close> inverts
  \<^verbatim>\<open>ledger_key\<close>, and a minted identifier splits back into its prefix and body.
\<close>

section \<open>Identifiers\<close>

definition OWNED_PREFIXES :: "string list" where
  "OWNED_PREFIXES = [''acct'', ''txn'', ''le'', ''sb'', ''rr'', ''ri'', ''po'', ''cap'', ''fe'', ''rh'',
     ''lar'', ''evt'', ''ils'', ''req'', ''cor'']"

definition FOREIGN_PREFIXES :: "string list" where
  "FOREIGN_PREFIXES = [''mch'', ''usr'', ''key'', ''ba'', ''pi'', ''ch'', ''re'', ''dp'', ''inv'', ''sub'']"

definition is_crockford :: "char \<Rightarrow> bool" where
  "is_crockford c \<longleftrightarrow> c \<in> set ''0123456789ABCDEFGHJKMNPQRSTVWXYZ''"

definition is_lower :: "char \<Rightarrow> bool" where
  "is_lower c \<longleftrightarrow> (let n = of_char c :: nat in 97 \<le> n \<and> n \<le> 122)"

text \<open>
  \<^verbatim>\<open>re.compile(r'^[class]{lo,hi}$').match\<close>. In Python \<^verbatim>\<open>$\<close> also matches before a final newline.
\<close>

definition re_class :: "(char \<Rightarrow> bool) \<Rightarrow> nat \<Rightarrow> nat \<Rightarrow> string \<Rightarrow> bool" where
  "re_class p lo hi s = (let ok = (\<lambda>t. lo \<le> length t \<and> length t \<le> hi \<and> list_all p t) in
     ok s \<or> (s \<noteq> [] \<and> last s = CHR 0x0A \<and> ok (butlast s)))"

definition new_id :: "string \<Rightarrow> string \<Rightarrow> string res" where
  "new_id prefix ulid = (if prefix \<notin> set OWNED_PREFIXES then raise ValidationError
     else Inr (prefix @ ''_'' @ ulid))"

definition split_id :: "string \<Rightarrow> (string \<times> string) res" where
  "split_id v = (if CHR ''_'' \<notin> set v then raise ValidationError
     else case partition_at CHR ''_'' v of (prefix, _, body) \<Rightarrow>
       if \<not> re_class is_lower 2 5 prefix \<or> \<not> re_class is_crockford 26 26 body
       then raise ValidationError else Inr (prefix, body))"

definition prefix_of :: "string \<Rightarrow> string res" where
  "prefix_of v = mapE fst (split_id v)"

definition is_valid :: "string \<Rightarrow> string option \<Rightarrow> bool" where
  "is_valid v prefix = (case split_id v of Inl e \<Rightarrow> False
     | Inr (actual, _) \<Rightarrow> prefix = None \<or> prefix = Some actual)"

definition require_id :: "string \<Rightarrow> string \<Rightarrow> string res" where
  "require_id v prefix = bindE (split_id v) (\<lambda>(actual, _).
     if actual \<noteq> prefix then raise ValidationError else Inr v)"

text \<open>\<^verbatim>\<open>ULID.from_str(body).timestamp\<close> is the parameter \<^verbatim>\<open>ts\<close>.\<close>

definition timestamp_ms :: "(string \<Rightarrow> int) \<Rightarrow> string \<Rightarrow> int res" where
  "timestamp_ms ts v = mapE (ts \<circ> snd) (split_id v)"

definition is_ulid :: "string \<Rightarrow> bool" where
  "is_ulid u \<longleftrightarrow> length u = 26 \<and> list_all is_crockford u"

lemma owned_prefix_shape: "list_all (\<lambda>p. list_all is_lower p \<and> 2 \<le> length p \<and> length p \<le> 5) OWNED_PREFIXES"
  by (simp add: OWNED_PREFIXES_def is_lower_def)

lemma partition_at_first: "c \<notin> set p \<Longrightarrow> partition_at c (p @ c # s) = (p, True, s)"
  by (induction p) (auto simp: partition_at_def)

lemma split_new_id:
  assumes "prefix \<in> set OWNED_PREFIXES" "is_ulid u"
  shows "new_id prefix u = Inr (prefix @ ''_'' @ u)" "split_id (prefix @ ''_'' @ u) = Inr (prefix, u)"
proof -
  have p: "list_all is_lower prefix" "2 \<le> length prefix" "length prefix \<le> 5"
    using owned_prefix_shape assms(1) by (auto simp: list_all_iff)
  have "\<not> is_lower CHR ''_''" by (simp add: is_lower_def)
  then have "CHR ''_'' \<notin> set prefix" using p by (auto simp: list_all_iff)
  then show "split_id (prefix @ ''_'' @ u) = Inr (prefix, u)"
    using p assms(2) by (simp add: split_id_def partition_at_first re_class_def Let_def is_ulid_def)
qed (use assms in \<open>simp add: new_id_def\<close>)

section \<open>Ledger keys\<close>

definition ITEM_SCOPED :: "string list" where "ITEM_SCOPED = [''settle'']"

definition STRICT_KEY_SHAPES :: "(string \<times> string \<times> string) list" where
  "STRICT_KEY_SHAPES = [(''settle'', ''sb'', ''ri'')]"

definition ACQUIRER_CAPTURE_SHAPE :: "string \<times> string" where
  "ACQUIRER_CAPTURE_SHAPE = (''sb'', ''ch'')"

definition require_prefix :: "string \<Rightarrow> string \<Rightarrow> unit res" where
  "require_prefix v prefix = (case partition_at CHR ''_'' v of (actual, underscore, _) \<Rightarrow>
     if \<not> underscore \<or> actual \<noteq> prefix then raise ValidationError else Inr ())"

text \<open>One pass of the loop over the named components; only the subject of a \<^verbatim>\<open>fee\<close> may be empty.\<close>

definition check_component :: "bool \<Rightarrow> string \<Rightarrow> unit res" where
  "check_component optional v = (if v = [] then (if optional then Inr () else raise ValueError)
     else if CHR '':'' \<in> set v then raise ValueError else Inr ())"

definition ledger_key :: "string \<Rightarrow> string \<Rightarrow> string \<Rightarrow> string res" where
  "ledger_key purpose scope_id subject_id =
     bindE (check_component False purpose) (\<lambda>_.
     bindE (check_component False scope_id) (\<lambda>_.
     bindE (check_component (purpose = ''fee'') subject_id) (\<lambda>_.
     bindE (case map_of STRICT_KEY_SHAPES purpose of None \<Rightarrow> Inr ()
            | Some (a, b) \<Rightarrow> bindE (require_prefix scope_id a) (\<lambda>_. require_prefix subject_id b)) (\<lambda>_.
       Inr (purpose @ '':'' @ scope_id @ '':'' @ subject_id)))))"

definition acquirer_capture_key :: "string \<Rightarrow> string \<Rightarrow> string res" where
  "acquirer_capture_key batch_id charge_id =
     bindE (require_id batch_id (fst ACQUIRER_CAPTURE_SHAPE)) (\<lambda>_.
     bindE (require_id charge_id (snd ACQUIRER_CAPTURE_SHAPE)) (\<lambda>_.
       Inr (''capture:'' @ batch_id @ '':'' @ charge_id)))"

definition parse_key :: "string \<Rightarrow> (string \<times> string \<times> string) res" where
  "parse_key key = (case split_on CHR '':'' key of
      [purpose, scope_id, subject_id] \<Rightarrow>
        if purpose = [] \<or> scope_id = [] then raise ValidationError
        else Inr (purpose, scope_id, subject_id)
    | _ \<Rightarrow> raise ValidationError)"

definition is_item_scoped :: "string \<Rightarrow> bool" where
  "is_item_scoped purpose \<longleftrightarrow> purpose \<in> set ITEM_SCOPED"

lemma check_component_ok: "check_component b v = Inr () \<longleftrightarrow> CHR '':'' \<notin> set v \<and> (v = [] \<longrightarrow> b)"
  by (auto simp: check_component_def)

lemma ledger_key_okD:
  assumes "ledger_key p s t = Inr k"
  shows "k = p @ '':'' @ s @ '':'' @ t" "CHR '':'' \<notin> set p" "CHR '':'' \<notin> set s" "CHR '':'' \<notin> set t"
    "p \<noteq> []" "s \<noteq> []" "t = [] \<longrightarrow> p = ''fee''"
  using assms by (auto simp: ledger_key_def bindE_Inr_iff check_component_ok)

lemma ledger_key_plain:
  assumes "p \<noteq> []" "s \<noteq> []" "t \<noteq> []" "CHR '':'' \<notin> set p \<union> set s \<union> set t" "p \<noteq> ''settle''"
  shows "ledger_key p s t = Inr (p @ '':'' @ s @ '':'' @ t)"
  using assms by (simp add: ledger_key_def check_component_def STRICT_KEY_SHAPES_def)

lemma parse_ledger_key: "ledger_key p s t = Inr k \<Longrightarrow> parse_key k = Inr (p, s, t)"
  using ledger_key_okD [of p s t k]
  by (simp add: parse_key_def split_on_append split_on_free)

lemma ledger_key_inj:
  "ledger_key p s t = Inr k \<Longrightarrow> ledger_key p' s' t' = Inr k \<Longrightarrow> p' = p \<and> s' = s \<and> t' = t"
  by (auto dest!: parse_ledger_key)

lemma settle_key_shape:
  assumes "ledger_key ''settle'' s t = Inr k"
  shows "take 3 s = ''sb_''" "take 3 t = ''ri_''"
proof -
  have "fst (partition_at CHR ''_'' v) = p \<Longrightarrow> CHR ''_'' \<in> set v \<Longrightarrow> take (Suc (length p)) v = p @ ''_''" for v p
    by (induction v arbitrary: p) (auto simp: partition_at_def)
  moreover have "partition_at CHR ''_'' s = (''sb'', True, snd (snd (partition_at CHR ''_'' s)))"
    "partition_at CHR ''_'' t = (''ri'', True, snd (snd (partition_at CHR ''_'' t)))"
    "CHR ''_'' \<in> set s" "CHR ''_'' \<in> set t"
    using assms
    by (auto simp: ledger_key_def bindE_Inr_iff require_prefix_def STRICT_KEY_SHAPES_def partition_at_def split: if_splits)
  ultimately show "take 3 s = ''sb_''" "take 3 t = ''ri_''"
    by (metis Suc_numeral fst_conv length_Cons list.size(3) append_Cons append_Nil
        eval_nat_numeral(3) numeral_2_eq_2)+
qed

end
