(* ===== verification/Store.thy ===== *)
theory Store
  imports Postings Ids
begin

text \<open>
  The tables of the ledger proper (\<^verbatim>\<open>src/app/models/\<close>: \<^verbatim>\<open>account\<close>, \<^verbatim>\<open>ledger_transaction\<close>,
  \<^verbatim>\<open>ledger_entry\<close>, \<^verbatim>\<open>merchant_balance_cache\<close>, \<^verbatim>\<open>event_outbox\<close>) as one record, and the statements the
  repositories run against them. A table is a list of rows in insertion order; a unique index
  is a check of the insert, which raises \<^verbatim>\<open>IntegrityError\<close>. An operation that runs in a session
  takes the database and returns its result with the new database; when it raises, the caller
  keeps the old one, which is the rollback of \<^verbatim>\<open>src/app/db/session.py\<close>. What lies outside the
  service is the record \<^verbatim>\<open>env\<close>: the tables of \<^verbatim>\<open>payzeno_contracts\<close>, the bodies the package \<^verbatim>\<open>ulid\<close>
  mints, the clock and the correlation id of the current request.
\<close>

section \<open>Rows\<close>

record account =
  acct_id :: string
  acct_merchant :: "string option"
  acct_type :: string
  acct_currency :: string
  acct_normal :: direction
  acct_status :: string
  acct_livemode :: bool
  acct_updated_at :: int

record ledger_transaction =
  txn_id :: string
  txn_key :: string
  txn_fingerprint :: string
  txn_purpose :: string
  txn_merchant :: "string option"
  txn_currency :: string
  txn_livemode :: bool
  txn_reference_type :: string
  txn_reference_id :: string
  txn_reverses :: "string option"
  txn_created_by :: string
  txn_posted_at :: int

record ledger_entry =
  le_id :: string
  le_transaction :: string
  le_account :: string
  le_direction :: direction
  le_amount :: int
  le_currency :: string
  le_livemode :: bool
  le_sequence :: nat
  le_created_at :: int

record balance_row =
  available_minor :: int
  pending_minor :: int
  reserved_minor :: int
  disputed_minor :: int
  negative_balance_minor :: int
  last_transaction_id :: "string option"
  computed_at :: int

type_synonym balance_key = "string \<times> string \<times> bool"
type_synonym payload = "(string \<times> json_value) list"

record outbox_row =
  ev_id :: string
  ev_type :: string
  ev_version :: int
  ev_payload :: payload
  ev_merchant :: "string option"
  ev_correlation :: string
  ev_causation :: "string option"
  ev_occurred_at :: int
  ev_livemode :: bool
  ev_attempt_count :: nat
  ev_published_at :: "int option"
  ev_next_attempt_at :: int
  ev_dead_at :: "int option"
  ev_claimed_at :: "int option"
  ev_claimed_by :: "string option"
  ev_last_error :: "string option"

record ledger =
  accounts :: "account list"
  transactions :: "ledger_transaction list"
  entries :: "ledger_entry list"
  balance_cache :: "(balance_key \<times> balance_row) list"
  outbox :: "outbox_row list"
  id_supply :: nat

record env =
  env_contracts :: contracts
  env_ulid :: "nat \<Rightarrow> string"
  env_now :: int
  env_correlation :: "string option"

definition is_postable :: "account \<Rightarrow> bool" where
  "is_postable a \<longleftrightarrow> acct_status a = ''active''"

definition is_platform :: "account \<Rightarrow> bool" where
  "is_platform a \<longleftrightarrow> acct_merchant a = None"

definition entry_signed_minor :: "ledger_entry \<Rightarrow> int" where
  "entry_signed_minor e = (if le_direction e = Debit then le_amount e else - le_amount e)"

definition is_debit :: "ledger_entry \<Rightarrow> bool" where
  "is_debit e \<longleftrightarrow> le_direction e = Debit"

definition is_reversal :: "ledger_transaction \<Rightarrow> bool" where
  "is_reversal t \<longleftrightarrow> txn_reverses t \<noteq> None"

definition scope_key :: "ledger_transaction \<Rightarrow> string" where
  "scope_key t = (let parts = split_on CHR '':'' (txn_key t) in if 2 \<le> length parts then parts ! 1 else [])"

definition is_negative :: "balance_row \<Rightarrow> bool" where
  "is_negative b \<longleftrightarrow> negative_balance_minor b > 0"

definition total_held_minor :: "balance_row \<Rightarrow> int" where
  "total_held_minor b = pending_minor b + reserved_minor b + disputed_minor b"

section \<open>Identifiers and inserts\<close>

text \<open>\<^verbatim>\<open>new_id(prefix)\<close> with the next ULID of the supply.\<close>

definition mint :: "env \<Rightarrow> string \<Rightarrow> 'a ledger_scheme \<Rightarrow> (string \<times> 'a ledger_scheme) res" where
  "mint E prefix s = mapE (\<lambda>i. (i, s\<lparr>id_supply := Suc (id_supply s)\<rparr>))
     (new_id prefix (env_ulid E (id_supply s)))"

text \<open>The natural key of an account, and the two unique indexes that guard it.\<close>

definition account_key :: "account \<Rightarrow> string option \<times> string \<times> string \<times> bool" where
  "account_key a = (acct_merchant a, acct_type a, acct_currency a, acct_livemode a)"

definition insert_account :: "account \<Rightarrow> 'a ledger_scheme \<Rightarrow> ('a ledger_scheme) res" where
  "insert_account a s =
    (if \<exists>b\<in>set (accounts s). acct_id b = acct_id a \<or> account_key b = account_key a
     then raise IntegrityError else Inr (s\<lparr>accounts := accounts s @ [a]\<rparr>))"

text \<open>\<^verbatim>\<open>LedgerEntryRepository.add_all\<close>: primary key, \<^verbatim>\<open>uq_ledger_entry_txn_sequence\<close>, \<^verbatim>\<open>amount_positive\<close>.\<close>

definition insert_entries :: "ledger_entry list \<Rightarrow> 'a ledger_scheme \<Rightarrow> ('a ledger_scheme) res" where
  "insert_entries es s =
    (let rows = entries s @ es in
     if distinct (map le_id rows) \<and> distinct (map (\<lambda>e. (le_transaction e, le_sequence e)) rows)
        \<and> (\<forall>e\<in>set es. 0 < le_amount e)
     then Inr (s\<lparr>entries := rows\<rparr>) else raise IntegrityError)"

definition insert_outbox :: "outbox_row \<Rightarrow> 'a ledger_scheme \<Rightarrow> ('a ledger_scheme) res" where
  "insert_outbox r s =
    (if ev_id r \<in> set (map ev_id (outbox s)) then raise IntegrityError
     else Inr (s\<lparr>outbox := outbox s @ [r]\<rparr>))"

definition find_account :: "string \<Rightarrow> 'a ledger_scheme \<Rightarrow> account option" where
  "find_account i s = find_first (\<lambda>a. acct_id a = i) (accounts s)"

definition find_transaction :: "string \<Rightarrow> 'a ledger_scheme \<Rightarrow> ledger_transaction option" where
  "find_transaction i s = find_first (\<lambda>t. txn_id t = i) (transactions s)"

text \<open>\<^verbatim>\<open>get_or_raise\<close> of the two repositories.\<close>

definition get_account_or_raise :: "string \<Rightarrow> 'a ledger_scheme \<Rightarrow> account res" where
  "get_account_or_raise i s = (case find_account i s of None \<Rightarrow> raise AccountNotFoundError | Some a \<Rightarrow> Inr a)"

definition get_transaction_or_raise :: "string \<Rightarrow> 'a ledger_scheme \<Rightarrow> ledger_transaction res" where
  "get_transaction_or_raise i s =
    (case find_transaction i s of None \<Rightarrow> raise TransactionNotFoundError | Some t \<Rightarrow> Inr t)"

section \<open>The outbox publisher\<close>

definition TOPIC_BY_EVENT_TYPE :: "contracts \<Rightarrow> (string \<times> string) list" where
  "TOPIC_BY_EVENT_TYPE K = concat (map (\<lambda>(topic, types). map (\<lambda>t. (t, topic)) types) (EVENT_TOPICS K))"

text \<open>A later entry of a dictionary display replaces an earlier one.\<close>

definition topic_for :: "contracts \<Rightarrow> string \<Rightarrow> string res" where
  "topic_for K t = (case map_of (rev (TOPIC_BY_EVENT_TYPE K)) t of None \<Rightarrow> raise KeyError | Some x \<Rightarrow> Inr x)"

definition resolve_correlation :: "env \<Rightarrow> string \<Rightarrow> 'a ledger_scheme \<Rightarrow> (string \<times> 'a ledger_scheme) res" where
  "resolve_correlation E cid s =
    (if cid \<noteq> [] then Inr (cid, s)
     else case env_correlation E of
       Some c \<Rightarrow> if c \<noteq> [] then Inr (c, s) else mint E ''cor'' s
     | None \<Rightarrow> mint E ''cor'' s)"

definition publish :: "env \<Rightarrow> string \<Rightarrow> payload \<Rightarrow> string option \<Rightarrow> string \<Rightarrow> string option \<Rightarrow> bool
    \<Rightarrow> 'a ledger_scheme \<Rightarrow> (string \<times> 'a ledger_scheme) res" where
  "publish E event_type payload merchant cid causation livemode s =
     bindE (resolve_correlation E cid s) (\<lambda>(corr, s1).
     bindE (mint E ''evt'' s1) (\<lambda>(i, s2).
     bindE (topic_for (env_contracts E) event_type) (\<lambda>_.
     bindE (insert_outbox \<lparr>ev_id = i, ev_type = event_type,
         ev_version = (case map_of (EVENT_SCHEMA_VERSIONS (env_contracts E)) event_type of None \<Rightarrow> 1 | Some v \<Rightarrow> v),
         ev_payload = payload, ev_merchant = merchant, ev_correlation = corr, ev_causation = causation,
         ev_occurred_at = env_now E, ev_livemode = livemode, ev_attempt_count = 0,
         ev_published_at = None, ev_next_attempt_at = env_now E, ev_dead_at = None,
         ev_claimed_at = None, ev_claimed_by = None, ev_last_error = None\<rparr> s2) (\<lambda>s3.
       Inr (i, s3)))))"

section \<open>Frame lemmas\<close>

text \<open>Two databases that agree on the tables of the ledger, apart from the outbox and the supply.\<close>

definition same_books :: "'a ledger_scheme \<Rightarrow> 'a ledger_scheme \<Rightarrow> bool" where
  "same_books s t \<longleftrightarrow> accounts t = accounts s \<and> transactions t = transactions s \<and> entries t = entries s
     \<and> balance_cache t = balance_cache s \<and> ledger.more t = ledger.more s"

lemma same_books_refl [simp]: "same_books s s"
  by (simp add: same_books_def)

lemma mint_same: "mint E p s = Inr (i, t) \<Longrightarrow> same_books s t \<and> outbox t = outbox s"
  by (auto simp: mint_def mapE_Inr_iff same_books_def)

lemma publish_same:
  assumes "publish E ty pl m cid ca lm s = Inr (i, t)"
  shows "same_books s t" and "\<exists>r. outbox t = outbox s @ [r] \<and> ev_id r = i \<and> ev_type r = ty \<and> ev_payload r = pl \<and> ev_merchant r = m"
  using assms
  by (auto simp: publish_def bindE_Inr_iff resolve_correlation_def insert_outbox_def same_books_def
      split: if_splits option.splits dest!: mint_same)

end
