(* ===== verification/Accounts.thy ===== *)
theory Accounts
  imports Store
begin

text \<open>
  The chart of accounts: the tables of \<^verbatim>\<open>src/app/models/account.py\<close>, the reads and writes of
  \<^verbatim>\<open>src/app/repositories/account.py\<close> and \<^verbatim>\<open>AccountResolver\<close> of \<^verbatim>\<open>src/app/services/accounts.py\<close>. The
  locale \<^verbatim>\<open>account_resolver\<close> states what the poster relies on: the account that comes back is the
  one account of its (merchant, type, currency, livemode), and no other row changes.
\<close>

definition NORMAL_BALANCE_BY_TYPE :: "(string \<times> direction) list" where
  "NORMAL_BALANCE_BY_TYPE =
    [(''processor_clearing'', Debit), (''merchant_receivable'', Debit), (''authorization_hold'', Credit),
     (''merchant_payable'', Credit), (''platform_fee_revenue'', Credit), (''interchange_expense'', Debit),
     (''scheme_fee_expense'', Debit), (''acquirer_fee_expense'', Debit), (''reserve'', Credit),
     (''chargeback_liability'', Credit), (''cash'', Debit), (''rounding_adjustment'', Credit),
     (''fx_clearing'', Debit), (''fx_revenue'', Credit)]"

definition PLATFORM_ACCOUNT_TYPES :: "string list" where
  "PLATFORM_ACCOUNT_TYPES = [''cash'', ''platform_fee_revenue'', ''interchange_expense'', ''scheme_fee_expense'',
     ''acquirer_fee_expense'', ''rounding_adjustment'', ''fx_clearing'', ''fx_revenue'']"

definition MERCHANT_ACCOUNT_TYPES :: "string list" where
  "MERCHANT_ACCOUNT_TYPES = [''merchant_receivable'', ''authorization_hold'', ''merchant_payable'', ''reserve'',
     ''chargeback_liability'', ''processor_clearing'']"

definition expected_normal_balance :: "account \<Rightarrow> direction option" where
  "expected_normal_balance a = map_of NORMAL_BALANCE_BY_TYPE (acct_type a)"

section \<open>Reads\<close>

definition find_one :: "string option \<Rightarrow> string \<Rightarrow> string \<Rightarrow> bool \<Rightarrow> 'a ledger_scheme \<Rightarrow> account option" where
  "find_one m t c l s = find_first (\<lambda>a. acct_type a = t \<and> acct_currency a = c \<and> acct_livemode a = l
      \<and> acct_merchant a = m) (accounts s)"

section \<open>Resolution\<close>

text \<open>
  \<^verbatim>\<open>get_or_create\<close>. Between its \<^verbatim>\<open>SELECT\<close> and its \<^verbatim>\<open>INSERT\<close> another connection may commit an
  account (\<^verbatim>\<open>race\<close>); the unique index then rejects the insert inside its savepoint and the row is
  read again.
\<close>

definition new_account :: "env \<Rightarrow> string \<Rightarrow> string option \<Rightarrow> string \<Rightarrow> direction \<Rightarrow> string \<Rightarrow> bool \<Rightarrow> account" where
  "new_account E i m t nb c l = \<lparr>acct_id = i, acct_merchant = m, acct_type = t, acct_currency = c,
     acct_normal = nb, acct_status = ''active'', acct_livemode = l, acct_updated_at = env_now E\<rparr>"

definition get_or_create_racing ::
    "env \<Rightarrow> account option \<Rightarrow> string option \<Rightarrow> string \<Rightarrow> string \<Rightarrow> bool \<Rightarrow> 'a ledger_scheme \<Rightarrow> (account \<times> 'a ledger_scheme) res" where
  "get_or_create_racing E race m t c l s =
    (case map_of NORMAL_BALANCE_BY_TYPE t of
       None \<Rightarrow> raise ValidationError
     | Some nb \<Rightarrow> (case find_one m t c l s of
         Some a \<Rightarrow> Inr (a, s)
       | None \<Rightarrow> bindE (mint E ''acct'' s) (\<lambda>(i, s1).
           let a = new_account E i m t nb c l;
               s2 = (case race of None \<Rightarrow> s1 | Some w \<Rightarrow> s1\<lparr>accounts := accounts s1 @ [w]\<rparr>)
           in case insert_account a s2 of
                Inr s3 \<Rightarrow> Inr (a, s3)
              | Inl e \<Rightarrow> if caught_by e IntegrityError
                  then (case find_one m t c l s2 of None \<Rightarrow> Inl e | Some w \<Rightarrow> Inr (w, s2))
                  else Inl e)))"

definition get_or_create ::
    "env \<Rightarrow> string option \<Rightarrow> string \<Rightarrow> string \<Rightarrow> bool \<Rightarrow> 'a ledger_scheme \<Rightarrow> (account \<times> 'a ledger_scheme) res" where
  "get_or_create E m t c l s = get_or_create_racing E None m t c l s"

fun bootstrap_types :: "env \<Rightarrow> string list \<Rightarrow> string \<Rightarrow> string \<Rightarrow> bool \<Rightarrow> 'a ledger_scheme \<Rightarrow> (account list \<times> 'a ledger_scheme) res" where
  "bootstrap_types E [] m c l s = Inr ([], s)"
| "bootstrap_types E (t # ts) m c l s =
     bindE (get_or_create E (Some m) t c l s) (\<lambda>(a, s1).
     bindE (bootstrap_types E ts m c l s1) (\<lambda>(as, s2). Inr (a # as, s2)))"

definition bootstrap :: "env \<Rightarrow> string \<Rightarrow> string \<Rightarrow> bool \<Rightarrow> 'a ledger_scheme \<Rightarrow> (account list \<times> 'a ledger_scheme) res" where
  "bootstrap E m c l s = bootstrap_types E MERCHANT_ACCOUNT_TYPES m c l s"

section \<open>Status changes\<close>

definition update_account :: "string \<Rightarrow> (account \<Rightarrow> account) \<Rightarrow> 'a ledger_scheme \<Rightarrow> 'a ledger_scheme" where
  "update_account i f s = s\<lparr>accounts := update_where (\<lambda>a. acct_id a = i) f (accounts s)\<rparr>"

definition freeze :: "env \<Rightarrow> string \<Rightarrow> 'a ledger_scheme \<Rightarrow> (account \<times> 'a ledger_scheme) res" where
  "freeze E i s =
    (case find_account i s of
       None \<Rightarrow> raise AccountNotFoundError
     | Some a \<Rightarrow> if acct_status a = ''closed'' then raise AccountFrozenError
         else let f = (\<lambda>a. a\<lparr>acct_status := ''frozen'', acct_updated_at := env_now E\<rparr>)
              in Inr (f a, update_account i f s))"

definition set_status :: "string \<Rightarrow> string \<Rightarrow> 'a ledger_scheme \<Rightarrow> (account \<times> 'a ledger_scheme) res" where
  "set_status i st s = bindE (get_account_or_raise i s) (\<lambda>a.
     Inr (a\<lparr>acct_status := st\<rparr>, update_account i (\<lambda>a. a\<lparr>acct_status := st\<rparr>) s))"

section \<open>The invariant of the chart\<close>

definition accounts_ok :: "'a ledger_scheme \<Rightarrow> bool" where
  "accounts_ok s \<longleftrightarrow> distinct (map acct_id (accounts s)) \<and> distinct (map account_key (accounts s))
     \<and> list_all (\<lambda>a. expected_normal_balance a = Some (acct_normal a)) (accounts s)"

lemma find_one_key: "find_one m t c l s = find_first (\<lambda>a. account_key a = (m, t, c, l)) (accounts s)"
  unfolding find_one_def account_key_def by (rule arg_cong [where f = "\<lambda>P. find_first P (accounts s)"]) auto

lemma find_one_SomeD:
  "find_one m t c l s = Some a \<Longrightarrow> a \<in> set (accounts s) \<and> account_key a = (m, t, c, l)"
  by (auto simp: find_one_key dest: find_first_SomeD)

lemma insert_account_ok:
  assumes "insert_account a s = Inr t"
  shows "t = s\<lparr>accounts := accounts s @ [a]\<rparr>" "acct_id a \<notin> acct_id ` set (accounts s)"
    "account_key a \<notin> account_key ` set (accounts s)"
  using assms by (auto simp: insert_account_def split: if_splits)

lemma insert_account_inv:
  assumes "insert_account a s = Inr t" "accounts_ok s" "expected_normal_balance a = Some (acct_normal a)"
  shows "accounts_ok t"
  using insert_account_ok [OF assms(1)] assms(2,3) by (auto simp: accounts_ok_def)

lemma find_one_supply [simp]: "find_one m t c l (s\<lparr>id_supply := n\<rparr>) = find_one m t c l s"
  by (simp add: find_one_def)

lemma find_one_None: "find_one m t c l s = None \<longleftrightarrow> (m, t, c, l) \<notin> account_key ` set (accounts s)"
  by (force simp: find_one_key find_first_None)

lemma get_or_create_cases:
  assumes "get_or_create E m t c l s = Inr (a, s')"
  shows "(s' = s \<and> a \<in> set (accounts s) \<and> account_key a = (m, t, c, l))
    \<or> (\<exists>i nb. a = new_account E i m t nb c l \<and> map_of NORMAL_BALANCE_BY_TYPE t = Some nb
        \<and> insert_account a (s\<lparr>id_supply := Suc (id_supply s)\<rparr>) = Inr s'
        \<and> i = ''acct_'' @ env_ulid E (id_supply s))"
  using assms
  by (auto simp: get_or_create_def get_or_create_racing_def mint_def mapE_Inr_iff new_id_def bindE_Inr_iff
      Let_def find_one_SomeD OWNED_PREFIXES_def insert_account_def caught_by_def subclass_of_def mro.simps exn_def
      split: option.splits if_splits sum.splits dest: find_one_SomeD)

lemma account_key_new [simp]: "account_key (new_account E i m t nb c l) = (m, t, c, l)"
  by (simp add: account_key_def new_account_def)

lemma new_account_normal:
  "map_of NORMAL_BALANCE_BY_TYPE t = Some nb \<Longrightarrow>
   expected_normal_balance (new_account E i m t nb c l) = Some (acct_normal (new_account E i m t nb c l))"
  by (simp add: expected_normal_balance_def new_account_def)

section \<open>The interface of the resolver\<close>

locale account_resolver =
  fixes resolve :: "string option \<Rightarrow> string \<Rightarrow> string \<Rightarrow> bool \<Rightarrow> 'a ledger_scheme \<Rightarrow> (account \<times> 'a ledger_scheme) res"
  assumes resolve_chart: "resolve m t c l s = Inr (a, s') \<Longrightarrow> accounts_ok s \<Longrightarrow> accounts_ok s'"
    and resolve_keyed: "resolve m t c l s = Inr (a, s') \<Longrightarrow> a \<in> set (accounts s') \<and> account_key a = (m, t, c, l)"
    and resolve_grows: "resolve m t c l s = Inr (a, s') \<Longrightarrow> \<exists>new. accounts s' = accounts s @ new"
    and resolve_frame: "resolve m t c l s = Inr (a, s') \<Longrightarrow> transactions s' = transactions s \<and> entries s' = entries s
        \<and> balance_cache s' = balance_cache s \<and> outbox s' = outbox s \<and> ledger.more s' = ledger.more s"
    and resolve_found: "accounts_ok s \<Longrightarrow> a \<in> set (accounts s) \<Longrightarrow> account_key a = (m, t, c, l) \<Longrightarrow>
        resolve m t c l s = Inr (a, s)"
begin

lemma resolve_known_type:
  assumes "resolve m t c l s = Inr (a, s')" "accounts_ok s"
  shows "map_of NORMAL_BALANCE_BY_TYPE t = Some (acct_normal a)"
proof -
  have "a \<in> set (accounts s')" "acct_type a = t"
    using resolve_keyed [OF assms(1)] by (auto simp: account_key_def)
  then show ?thesis using resolve_chart [OF assms] by (auto simp: accounts_ok_def list_all_iff expected_normal_balance_def)
qed

lemma resolve_again:
  assumes "resolve m t c l s = Inr (a, s')" "accounts_ok s"
  shows "resolve m t c l s' = Inr (a, s')"
  using resolve_found [OF resolve_chart [OF assms]] resolve_keyed [OF assms(1)] by blast

lemma resolve_find_stable:
  assumes "resolve m t c l s = Inr (a, s')" "find_account i s = Some b"
  shows "find_account i s' = Some b"
  using resolve_grows [OF assms(1)] assms(2) by (auto simp: find_account_def)

lemma resolve_find:
  assumes "resolve m t c l s = Inr (a, s')" "accounts_ok s"
  shows "find_account (acct_id a) s' = Some a"
  unfolding find_account_def using resolve_chart [OF assms] resolve_keyed [OF assms(1)]
  by (intro find_first_unique [where key = acct_id]) (auto simp: accounts_ok_def)

end

lemma accounts_ok_supply [simp]: "accounts_ok (s\<lparr>id_supply := n\<rparr>) = accounts_ok s"
  by (simp add: accounts_ok_def)

lemma find_one_unique:
  assumes "accounts_ok s" "a \<in> set (accounts s)" "account_key a = (m, t, c, l)"
  shows "find_one m t c l s = Some a"
  using find_first_unique [of account_key "accounts s" a] assms by (simp add: find_one_key accounts_ok_def)

interpretation resolver: account_resolver "get_or_create E" for E
proof unfold_locales
  fix m t c l a and s s' :: "'a ledger_scheme"
  assume r: "get_or_create E m t c l s = Inr (a, s')"
  note rc = get_or_create_cases [OF r]
  show "a \<in> set (accounts s') \<and> account_key a = (m, t, c, l)"
    using rc by (auto dest: insert_account_ok)
  show "\<exists>new. accounts s' = accounts s @ new"
    using rc by (auto dest: insert_account_ok)
  show "transactions s' = transactions s \<and> entries s' = entries s \<and> balance_cache s' = balance_cache s
      \<and> outbox s' = outbox s \<and> ledger.more s' = ledger.more s"
    using rc by (auto dest: insert_account_ok)
  show "accounts_ok s'" if "accounts_ok s"
    using rc that by (auto simp: new_account_normal intro: insert_account_inv)
next
  fix m t c l a and s :: "'a ledger_scheme"
  assume a: "accounts_ok s" "a \<in> set (accounts s)" "account_key a = (m, t, c, l)"
  moreover from this have "map_of NORMAL_BALANCE_BY_TYPE t = Some (acct_normal a)"
    by (auto simp: accounts_ok_def list_all_iff expected_normal_balance_def account_key_def)
  ultimately show "get_or_create E m t c l s = Inr (a, s)"
    by (simp add: get_or_create_def get_or_create_racing_def find_one_unique)
qed

text \<open>
  Under a race the loser takes the winner's row: whatever row the other connection committed
  for the same natural key, the chart still has one account per key.
\<close>

lemma get_or_create_race:
  assumes "accounts_ok s" "find_one m t c l s = None" "map_of NORMAL_BALANCE_BY_TYPE t = Some nb"
    and w: "account_key w = (m, t, c, l)" "acct_normal w = nb" "acct_id w \<notin> acct_id ` set (accounts s)"
  shows "\<exists>s'. get_or_create_racing E (Some w) m t c l s = Inr (w, s') \<and> accounts s' = accounts s @ [w] \<and> accounts_ok s'"
proof -
  have k: "(m, t, c, l) \<notin> account_key ` set (accounts s)" using assms(2) by (simp add: find_one_None)
  let ?s1 = "s\<lparr>id_supply := Suc (id_supply s)\<rparr>"
  let ?s2 = "?s1\<lparr>accounts := accounts s @ [w]\<rparr>"
  have ok: "accounts_ok ?s2"
    using assms(1,3) w k by (auto simp: accounts_ok_def expected_normal_balance_def account_key_def)
  have f: "find_one m t c l ?s2 = Some w" by (rule find_one_unique [OF ok]) (use w in auto)
  have "get_or_create_racing E (Some w) m t c l s = Inr (w, ?s2)"
    using assms(2,3) w f
    by (simp add: get_or_create_racing_def mint_def new_id_def OWNED_PREFIXES_def insert_account_def Let_def
        raise_def caught_by_def subclass_of_def mro.simps)
  then show ?thesis using ok by auto
qed

end
