(* ===== verification/Ledger.thy ===== *)
theory Ledger
  imports Accounts "HOL-Library.Char_ord" "HOL-Library.List_Lexorder"
begin

text \<open>
  The one writer of transactions and entries: \<^verbatim>\<open>LedgerPoster\<close> of \<^verbatim>\<open>src/app/services/transactions.py\<close>
  with the idempotency claim of \<^verbatim>\<open>src/app/repositories/ledger_transaction.py\<close>, the balance cache of
  \<^verbatim>\<open>src/app/repositories/balance_cache.py\<close> and the sums of \<^verbatim>\<open>src/app/repositories/ledger_entry.py\<close>.
  The invariant \<^verbatim>\<open>ledger_ok\<close> says that keys and ids are unique, that every transaction is balanced
  and of one currency and mode, and that the balance cache equals the sums of the entries;
  every operation that writes keeps it.
\<close>

section \<open>Buckets\<close>

definition BUCKET_ACCOUNT_TYPES :: "(string \<times> string) list" where
  "BUCKET_ACCOUNT_TYPES = [(''merchant_payable'', ''merchant_payable''), (''merchant_receivable'', ''merchant_pending''),
     (''reserve'', ''merchant_reserve''), (''chargeback_liability'', ''merchant_disputed'')]"

definition account_types_in :: "string \<Rightarrow> string list" where
  "account_types_in bucket = map fst (filter (\<lambda>(t, name). name = bucket) BUCKET_ACCOUNT_TYPES)"

definition AVAILABLE_ACCOUNT_TYPES :: "string list" where "AVAILABLE_ACCOUNT_TYPES = account_types_in ''merchant_payable''"
definition PENDING_ACCOUNT_TYPES :: "string list" where "PENDING_ACCOUNT_TYPES = account_types_in ''merchant_pending''"
definition RESERVED_ACCOUNT_TYPES :: "string list" where "RESERVED_ACCOUNT_TYPES = account_types_in ''merchant_reserve''"
definition DISPUTED_ACCOUNT_TYPES :: "string list" where "DISPUTED_ACCOUNT_TYPES = account_types_in ''merchant_disputed''"

definition normal_of :: "string \<Rightarrow> direction" where
  "normal_of t = (case map_of NORMAL_BALANCE_BY_TYPE t of None \<Rightarrow> Credit | Some d \<Rightarrow> d)"

definition signed_total :: "posting_line list \<Rightarrow> string list \<Rightarrow> int" where
  "signed_total lines types = sum_list (map (\<lambda>l. if account_type l \<notin> set types then 0
      else if direction l = normal_of (account_type l) then line_amount l else - line_amount l) lines)"

definition is_platform_account :: "string \<Rightarrow> bool" where
  "is_platform_account t \<longleftrightarrow> t \<in> set PLATFORM_ACCOUNT_TYPES"

section \<open>The idempotency claim\<close>

record idempotency_claim =
  claim_transaction_id :: string
  claim_created :: bool
  claim_fingerprint_matches :: bool

datatype on_conflict = RaiseConflict | ReturnExisting

record post_request =
  pr_key :: string
  pr_purpose :: string
  pr_merchant :: "string option"
  pr_currency :: string
  pr_livemode :: bool
  pr_reference_type :: string
  pr_reference_id :: string
  pr_lines :: "posting_line list"
  pr_created_by :: string
  pr_fingerprint :: string
  pr_on_conflict :: on_conflict

definition find_by_idempotency_key :: "string \<Rightarrow> 'a ledger_scheme \<Rightarrow> ledger_transaction option" where
  "find_by_idempotency_key k s = find_first (\<lambda>t. txn_key t = k) (transactions s)"

definition claim_row :: "env \<Rightarrow> string \<Rightarrow> post_request \<Rightarrow> ledger_transaction" where
  "claim_row E i r = \<lparr>txn_id = i, txn_key = pr_key r, txn_fingerprint = pr_fingerprint r, txn_purpose = pr_purpose r,
     txn_merchant = pr_merchant r, txn_currency = pr_currency r, txn_livemode = pr_livemode r,
     txn_reference_type = pr_reference_type r, txn_reference_id = pr_reference_id r, txn_reverses = None,
     txn_created_by = pr_created_by r, txn_posted_at = env_now E\<rparr>"

text \<open>
  \<^verbatim>\<open>INSERT ... ON CONFLICT (idempotency_key) DO NOTHING RETURNING id\<close>: nothing is inserted when the
  key is taken; a clash of the primary key alone is an error.
\<close>

definition claim_idempotency_key :: "env \<Rightarrow> post_request \<Rightarrow> 'a ledger_scheme \<Rightarrow> (idempotency_claim \<times> 'a ledger_scheme) res" where
  "claim_idempotency_key E r s =
     bindE (mint E ''txn'' s) (\<lambda>(i, s1).
       case find_by_idempotency_key (pr_key r) s1 of
         None \<Rightarrow> if i \<in> set (map txn_id (transactions s1)) then raise IntegrityError
           else Inr (\<lparr>claim_transaction_id = i, claim_created = True, claim_fingerprint_matches = True\<rparr>,
                     s1\<lparr>transactions := transactions s1 @ [claim_row E i r]\<rparr>)
       | Some t \<Rightarrow> Inr (\<lparr>claim_transaction_id = txn_id t, claim_created = False,
                        claim_fingerprint_matches = (txn_fingerprint t = pr_fingerprint r)\<rparr>, s1))"

section \<open>Posting\<close>

definition assert_invariants :: "posting_line list \<Rightarrow> unit res" where
  "assert_invariants lines =
    (if length lines < 2 then raise UnbalancedTransactionError
     else if sum_list (map line_amount (filter (\<lambda>l. direction l = Debit) lines)) \<noteq>
             sum_list (map line_amount (filter (\<lambda>l. direction l = Credit) lines))
       then raise UnbalancedTransactionError
     else if \<exists>l\<in>set lines. line_amount l \<le> 0 then raise NegativeAmountError
     else Inr ())"

fun materialise_entries :: "env \<Rightarrow> string \<Rightarrow> string option \<Rightarrow> string \<Rightarrow> bool \<Rightarrow> nat \<Rightarrow> posting_line list
    \<Rightarrow> 'a ledger_scheme \<Rightarrow> (ledger_entry list \<times> 'a ledger_scheme) res" where
  "materialise_entries E tid m c lm n [] s = Inr ([], s)"
| "materialise_entries E tid m c lm n (l # ls) s =
     bindE (get_or_create E (if is_platform_account (account_type l) then None else m) (account_type l) c lm s) (\<lambda>(a, s1).
       if acct_status a \<in> {''frozen'', ''closed''} then raise AccountFrozenError
       else bindE (mint E ''le'' s1) (\<lambda>(i, s2).
            bindE (materialise_entries E tid m c lm (Suc n) ls s2) (\<lambda>(es, s3).
              Inr (\<lparr>le_id = i, le_transaction = tid, le_account = acct_id a, le_direction = direction l,
                    le_amount = line_amount l, le_currency = c, le_livemode = lm, le_sequence = n,
                    le_created_at = env_now E\<rparr> # es, s3))))"

definition apply_delta :: "env \<Rightarrow> balance_key \<Rightarrow> int \<Rightarrow> int \<Rightarrow> int \<Rightarrow> int \<Rightarrow> string \<Rightarrow> 'a ledger_scheme \<Rightarrow> 'a ledger_scheme" where
  "apply_delta E k av pe re di tid s =
    (let row = (case map_of (balance_cache s) k of
        None \<Rightarrow> \<lparr>available_minor = av, pending_minor = pe, reserved_minor = re, disputed_minor = di,
                 negative_balance_minor = max 0 (- av), last_transaction_id = Some tid, computed_at = env_now E\<rparr>
      | Some b \<Rightarrow> \<lparr>available_minor = available_minor b + av, pending_minor = pending_minor b + pe,
                 reserved_minor = reserved_minor b + re, disputed_minor = disputed_minor b + di,
                 negative_balance_minor = max 0 (- (available_minor b + av)),
                 last_transaction_id = Some tid, computed_at = env_now E\<rparr>)
     in s\<lparr>balance_cache := dict_set k row (balance_cache s)\<rparr>)"

definition apply_balance_delta :: "env \<Rightarrow> string option \<Rightarrow> string \<Rightarrow> bool \<Rightarrow> posting_line list \<Rightarrow> string
    \<Rightarrow> 'a ledger_scheme \<Rightarrow> 'a ledger_scheme" where
  "apply_balance_delta E m c lm lines tid s =
    (case m of None \<Rightarrow> s
     | Some mid \<Rightarrow>
        let av = signed_total lines AVAILABLE_ACCOUNT_TYPES; pe = signed_total lines PENDING_ACCOUNT_TYPES;
            re = signed_total lines RESERVED_ACCOUNT_TYPES; di = signed_total lines DISPUTED_ACCOUNT_TYPES
        in if av = 0 \<and> pe = 0 \<and> re = 0 \<and> di = 0 then s
           else apply_delta E (mid, c, lm) av pe re di tid s)"

definition opt_str :: "string option \<Rightarrow> json_value" where
  "opt_str m = (case m of None \<Rightarrow> JNull | Some x \<Rightarrow> JStr x)"

definition posted_payload :: "ledger_transaction \<Rightarrow> ledger_entry list \<Rightarrow> payload" where
  "posted_payload t es =
    [(''transaction_id'', JStr (txn_id t)), (''idempotency_key'', JStr (txn_key t)), (''purpose'', JStr (txn_purpose t)),
     (''merchant_id'', opt_str (txn_merchant t)), (''currency'', JStr (txn_currency t)),
     (''reference_type'', JStr (txn_reference_type t)), (''reference_id'', JStr (txn_reference_id t)),
     (''created_by'', JStr (txn_created_by t)), (''entry_count'', JInt (int (length es))),
     (''amount_minor'', JInt (sum_list (map le_amount (filter is_debit es)))),
     (''posted_at'', JTime (txn_posted_at t))]"

definition publish_posted :: "env \<Rightarrow> ledger_transaction \<Rightarrow> ledger_entry list \<Rightarrow> 'a ledger_scheme \<Rightarrow> (string \<times> 'a ledger_scheme) res" where
  "publish_posted E t es s =
     publish E ''ledger.transaction_posted'' (posted_payload t es) (txn_merchant t) (txn_id t) None (txn_livemode t) s"

record post_result =
  result_transaction :: ledger_transaction
  result_created :: bool

definition post :: "env \<Rightarrow> post_request \<Rightarrow> 'a ledger_scheme \<Rightarrow> (post_result \<times> 'a ledger_scheme) res" where
  "post E r s =
     bindE (assert_invariants (pr_lines r)) (\<lambda>_.
     bindE (claim_idempotency_key E r s) (\<lambda>(claim, s1).
       if \<not> claim_created claim then
         bindE (get_transaction_or_raise (claim_transaction_id claim) s1) (\<lambda>existing.
           if pr_on_conflict r = ReturnExisting
           then Inr (\<lparr>result_transaction = existing, result_created = False\<rparr>, s1)
           else raise DuplicateSettlementError)
       else
         bindE (get_transaction_or_raise (claim_transaction_id claim) s1) (\<lambda>t.
         bindE (materialise_entries E (txn_id t) (pr_merchant r) (pr_currency r) (pr_livemode r) 1 (pr_lines r) s1) (\<lambda>(es, s2).
         bindE (insert_entries es s2) (\<lambda>s3.
         let s4 = apply_balance_delta E (pr_merchant r) (pr_currency r) (pr_livemode r) (pr_lines r) (txn_id t) s3 in
         bindE (publish_posted E t es s4) (\<lambda>(_, s5).
           Inr (\<lparr>result_transaction = t, result_created = True\<rparr>, s5)))))))"

section \<open>Reversal\<close>

text \<open>The legs of one transaction in the order of their sequence.\<close>

definition list_for_transaction :: "string \<Rightarrow> 'a ledger_scheme \<Rightarrow> ledger_entry list" where
  "list_for_transaction tid s = sort_key le_sequence (filter (\<lambda>e. le_transaction e = tid) (entries s))"

definition flipped_line :: "'a ledger_scheme \<Rightarrow> ledger_entry \<Rightarrow> posting_line res" where
  "flipped_line s e = bindE (get_account_or_raise (le_account e) s) (\<lambda>a.
     Inr \<lparr>account_type = acct_type a, direction = flip_direction (le_direction e), line_amount = le_amount e\<rparr>)"

definition reverse :: "env \<Rightarrow> ledger_transaction \<Rightarrow> string \<Rightarrow> string \<Rightarrow> 'a ledger_scheme \<Rightarrow> (post_result \<times> 'a ledger_scheme) res" where
  "reverse E original key created_by s =
     bindE (traverse (flipped_line s) (list_for_transaction (txn_id original) s)) (\<lambda>flipped.
     bindE (post E \<lparr>pr_key = key, pr_purpose = ''reversal'', pr_merchant = txn_merchant original,
              pr_currency = txn_currency original, pr_livemode = txn_livemode original,
              pr_reference_type = ''ledger_transaction'', pr_reference_id = txn_id original,
              pr_lines = flipped, pr_created_by = created_by, pr_fingerprint = txn_fingerprint original,
              pr_on_conflict = RaiseConflict\<rparr> s) (\<lambda>(res, s1).
       let t = (result_transaction res)\<lparr>txn_reverses := Some (txn_id original)\<rparr> in
       Inr (res\<lparr>result_transaction := t\<rparr>,
            s1\<lparr>transactions := update_where (\<lambda>x. txn_id x = txn_id t)
                  (\<lambda>x. x\<lparr>txn_reverses := Some (txn_id original)\<rparr>) (transactions s1)\<rparr>)))"

section \<open>Sums over the entries\<close>

text \<open>A row is inside an optional \<^verbatim>\<open>as_of\<close> bound.\<close>

definition until :: "int option \<Rightarrow> int \<Rightarrow> bool" where
  "until as_of t \<longleftrightarrow> (case as_of of None \<Rightarrow> True | Some b \<Rightarrow> t \<le> b)"

definition sum_for_account :: "string \<Rightarrow> string option \<Rightarrow> direction option \<Rightarrow> int option \<Rightarrow> 'a ledger_scheme \<Rightarrow> int" where
  "sum_for_account aid purpose dir as_of s =
    (let es = filter (\<lambda>e. le_account e = aid \<and> (dir = None \<or> dir = Some (le_direction e)) \<and> until as_of (le_created_at e)) (entries s)
     in case purpose of None \<Rightarrow> sum_list (map le_amount es)
        | Some p \<Rightarrow> sum_list (concat (map (\<lambda>e. map (\<lambda>t. le_amount e)
              (filter (\<lambda>t. txn_id t = le_transaction e \<and> txn_purpose t = p) (transactions s))) es)))"

text \<open>The join of entries and accounts behind \<^verbatim>\<open>_sum_buckets\<close>, and its four totals.\<close>

definition bucket_rows :: "string \<Rightarrow> string \<Rightarrow> bool \<Rightarrow> int option \<Rightarrow> 'a ledger_scheme \<Rightarrow> (string \<times> ledger_entry) list" where
  "bucket_rows m c l as_of s = concat (map (\<lambda>e. map (\<lambda>a. (acct_type a, e))
     (filter (\<lambda>a. acct_id a = le_account e \<and> acct_merchant a = Some m \<and> le_currency e = c \<and> le_livemode e = l
        \<and> acct_type a \<in> set (map fst BUCKET_ACCOUNT_TYPES) \<and> until as_of (le_created_at e)) (accounts s))) (entries s))"

definition credit_positive :: "string \<Rightarrow> (string \<times> ledger_entry) list \<Rightarrow> int" where
  "credit_positive t rows =
     sum_list (map (\<lambda>(t', e). if t' = t \<and> le_direction e = Credit then le_amount e else 0) rows)
   - sum_list (map (\<lambda>(t', e). if t' = t \<and> le_direction e = Debit then le_amount e else 0) rows)"

definition sum_buckets :: "string \<Rightarrow> string \<Rightarrow> bool \<Rightarrow> int option \<Rightarrow> 'a ledger_scheme \<Rightarrow> (string \<times> int) list" where
  "sum_buckets m c l as_of s =
    (let rows = bucket_rows m c l as_of s in
     map (\<lambda>(t, bucket). (bucket, if map_of NORMAL_BALANCE_BY_TYPE t = Some Debit
        then - credit_positive t rows else credit_positive t rows)) BUCKET_ACCOUNT_TYPES)"

datatype entry_sum = AccountTotal int | BucketTotals "(string \<times> int) list"

definition sum_by_account_and_purpose :: "string option \<Rightarrow> string option \<Rightarrow> direction option \<Rightarrow> string option
    \<Rightarrow> string option \<Rightarrow> bool option \<Rightarrow> int option \<Rightarrow> 'a ledger_scheme \<Rightarrow> entry_sum res" where
  "sum_by_account_and_purpose aid purpose dir m c l as_of s =
    (case aid of Some i \<Rightarrow> Inr (AccountTotal (sum_for_account i purpose dir as_of s))
     | None \<Rightarrow> (case (m, c) of
         (Some m', Some c') \<Rightarrow> Inr (BucketTotals (sum_buckets m' c' (l = Some True) as_of s))
       | _ \<Rightarrow> raise ValueError))"

record trial_balance_row =
  tb_livemode :: bool
  tb_debit_minor :: int
  tb_credit_minor :: int

definition delta_minor :: "trial_balance_row \<Rightarrow> int" where
  "delta_minor r = tb_debit_minor r - tb_credit_minor r"

definition side_total :: "direction \<Rightarrow> ledger_entry list \<Rightarrow> int" where
  "side_total d es = sum_list (map (\<lambda>e. if le_direction e = d then le_amount e else 0) es)"

text \<open>One row per mode that has entries, test mode first (\<^verbatim>\<open>GROUP BY livemode ORDER BY livemode\<close>).\<close>

definition trial_balance_rows :: "string \<Rightarrow> bool option \<Rightarrow> int option \<Rightarrow> 'a ledger_scheme \<Rightarrow> trial_balance_row list" where
  "trial_balance_rows c lm as_of s = concat (map (\<lambda>l.
     let es = filter (\<lambda>e. le_currency e = c \<and> le_livemode e = l \<and> (lm = None \<or> lm = Some (le_livemode e))
                 \<and> until as_of (le_created_at e)) (entries s)
     in if es = [] then []
        else [\<lparr>tb_livemode = l, tb_debit_minor = side_total Debit es, tb_credit_minor = side_total Credit es\<rparr>]) [False, True])"

record trial_balance_totals =
  tt_currency :: string
  tt_debit_minor :: int
  tt_credit_minor :: int
  tt_rows :: "trial_balance_row list"

definition trial_balance_by_currency :: "string \<Rightarrow> bool option \<Rightarrow> int option \<Rightarrow> 'a ledger_scheme \<Rightarrow> trial_balance_totals" where
  "trial_balance_by_currency c lm as_of s =
    (let rows = trial_balance_rows c lm as_of s in
     \<lparr>tt_currency = c, tt_debit_minor = sum_list (map tb_debit_minor rows),
      tt_credit_minor = sum_list (map tb_credit_minor rows), tt_rows = rows\<rparr>)"

definition sample_unbalanced_transactions :: "string \<Rightarrow> int option \<Rightarrow> nat \<Rightarrow> 'a ledger_scheme \<Rightarrow> string list" where
  "sample_unbalanced_transactions c as_of limit s =
    (let es = filter (\<lambda>e. le_currency e = c \<and> until as_of (le_created_at e)) (entries s) in
     take limit (filter (\<lambda>tid. let g = filter (\<lambda>e. le_transaction e = tid) es in side_total Debit g - side_total Credit g \<noteq> 0)
       (remdups (map le_transaction es))))"

definition count_for_account :: "string \<Rightarrow> 'a ledger_scheme \<Rightarrow> nat" where
  "count_for_account aid s = length (filter (\<lambda>e. le_account e = aid) (entries s))"

record duplicate_key_row =
  dk_key :: string
  dk_count :: nat
  dk_currency :: string
  dk_sample_transaction_id :: string

definition list_duplicate_idempotency_keys :: "string \<Rightarrow> int \<Rightarrow> 'a ledger_scheme \<Rightarrow> duplicate_key_row list" where
  "list_duplicate_idempotency_keys purpose since s =
    (let rows = filter (\<lambda>t. txn_purpose t = purpose \<and> since \<le> txn_posted_at t) (transactions s);
         group = (\<lambda>k. filter (\<lambda>t. txn_key t = k) rows)
     in sort_key (\<lambda>d. - int (dk_count d))
          (map (\<lambda>k. \<lparr>dk_key = k, dk_count = length (group k), dk_currency = Min (set (map txn_currency (group k))),
                     dk_sample_transaction_id = Min (set (map txn_id (group k)))\<rparr>)
            (filter (\<lambda>k. 1 < length (group k)) (remdups (map txn_key rows)))))"

definition find_reversal_of :: "string \<Rightarrow> 'a ledger_scheme \<Rightarrow> ledger_transaction option" where
  "find_reversal_of tid s = find_first (\<lambda>t. txn_reverses t = Some tid) (transactions s)"

section \<open>Repair of the cache\<close>

definition overwrite :: "balance_key \<Rightarrow> int \<Rightarrow> int \<Rightarrow> int \<Rightarrow> int \<Rightarrow> int \<Rightarrow> 'a ledger_scheme \<Rightarrow> 'a ledger_scheme" where
  "overwrite k av pe re di now s =
     s\<lparr>balance_cache := dict_set k
        \<lparr>available_minor = av, pending_minor = pe, reserved_minor = re, disputed_minor = di,
         negative_balance_minor = max 0 (- av),
         last_transaction_id = (case map_of (balance_cache s) k of None \<Rightarrow> None | Some b \<Rightarrow> last_transaction_id b),
         computed_at = now\<rparr> (balance_cache s)\<rparr>"

end
