(* ===== verification/Ledger_Inv.thy ===== *)
theory Ledger_Inv
  imports Ledger
begin

text \<open>
  The invariant of the books and its preservation by \<^verbatim>\<open>post\<close> and \<^verbatim>\<open>reverse\<close>: unique ids and keys,
  balanced transactions of one currency and mode, entries on existing accounts of the right
  merchant, and a balance cache equal to the sums of the entries.
\<close>

section \<open>The invariant\<close>

definition entries_of :: "string \<Rightarrow> 'a ledger_scheme \<Rightarrow> ledger_entry list" where
  "entries_of tid s = filter (\<lambda>e. le_transaction e = tid) (entries s)"

definition txn_balanced :: "'a ledger_scheme \<Rightarrow> ledger_transaction \<Rightarrow> bool" where
  "txn_balanced s t \<longleftrightarrow> 2 \<le> length (entries_of (txn_id t) s)
     \<and> sum_list (map entry_signed_minor (entries_of (txn_id t) s)) = 0"

text \<open>The account an entry stands on belongs to the entry's transaction.\<close>

definition entry_placed :: "'a ledger_scheme \<Rightarrow> ledger_entry \<Rightarrow> bool" where
  "entry_placed s e \<longleftrightarrow> 0 < le_amount e \<and> (\<exists>t\<in>set (transactions s). \<exists>a.
      txn_id t = le_transaction e \<and> find_account (le_account e) s = Some a
      \<and> le_currency e = txn_currency t \<and> le_livemode e = txn_livemode t \<and> le_created_at e = txn_posted_at t
      \<and> account_key a = (if is_platform_account (acct_type a) then None else txn_merchant t,
                         acct_type a, txn_currency t, txn_livemode t))"

text \<open>The balance of one bucket, on the normal side of its account type.\<close>

definition on_normal_side :: "string \<Rightarrow> direction \<Rightarrow> int \<Rightarrow> int" where
  "on_normal_side t d a = (if d = normal_of t then a else - a)"

definition bucket_part :: "'a ledger_scheme \<Rightarrow> string \<Rightarrow> balance_key \<Rightarrow> ledger_entry \<Rightarrow> int" where
  "bucket_part s t k e = (case find_account (le_account e) s of None \<Rightarrow> 0
     | Some a \<Rightarrow> if acct_type a = t \<and> acct_merchant a = Some (fst k) \<and> (le_currency e, le_livemode e) = snd k
                then on_normal_side t (le_direction e) (le_amount e) else 0)"

definition bucket_balance :: "'a ledger_scheme \<Rightarrow> string \<Rightarrow> balance_key \<Rightarrow> int" where
  "bucket_balance s t k = sum_list (map (bucket_part s t k) (entries s))"

definition zero_balance :: balance_row where
  "zero_balance = \<lparr>available_minor = 0, pending_minor = 0, reserved_minor = 0, disputed_minor = 0,
     negative_balance_minor = 0, last_transaction_id = None, computed_at = 0\<rparr>"

definition cached :: "'a ledger_scheme \<Rightarrow> balance_key \<Rightarrow> balance_row" where
  "cached s k = (case map_of (balance_cache s) k of None \<Rightarrow> zero_balance | Some b \<Rightarrow> b)"

definition row_agrees :: "'a ledger_scheme \<Rightarrow> balance_key \<Rightarrow> bool" where
  "row_agrees s k \<longleftrightarrow> available_minor (cached s k) = bucket_balance s ''merchant_payable'' k
     \<and> pending_minor (cached s k) = bucket_balance s ''merchant_receivable'' k
     \<and> reserved_minor (cached s k) = bucket_balance s ''reserve'' k
     \<and> disputed_minor (cached s k) = bucket_balance s ''chargeback_liability'' k
     \<and> negative_balance_minor (cached s k) = max 0 (- available_minor (cached s k))"

definition cache_agrees :: "'a ledger_scheme \<Rightarrow> bool" where
  "cache_agrees s \<longleftrightarrow> (\<forall>k. row_agrees s k)"

definition ledger_ok :: "'a ledger_scheme \<Rightarrow> bool" where
  "ledger_ok s \<longleftrightarrow> accounts_ok s \<and> distinct (map txn_id (transactions s)) \<and> distinct (map txn_key (transactions s))
     \<and> distinct (map le_id (entries s)) \<and> distinct (map (\<lambda>e. (le_transaction e, le_sequence e)) (entries s))
     \<and> (\<forall>t\<in>set (transactions s). txn_balanced s t) \<and> (\<forall>e\<in>set (entries s). entry_placed s e)
     \<and> cache_agrees s"

definition empty_ledger :: ledger where
  "empty_ledger = \<lparr>accounts = [], transactions = [], entries = [], balance_cache = [], outbox = [], id_supply = 0\<rparr>"

lemma empty_ledger_ok: "ledger_ok empty_ledger"
  by (simp add: ledger_ok_def empty_ledger_def accounts_ok_def cache_agrees_def row_agrees_def cached_def
      zero_balance_def bucket_balance_def)

section \<open>Materialised entries\<close>

definition entry_for_line :: "'a ledger_scheme \<Rightarrow> int \<Rightarrow> string \<Rightarrow> string option \<Rightarrow> string \<Rightarrow> bool \<Rightarrow> posting_line \<Rightarrow> ledger_entry \<Rightarrow> bool" where
  "entry_for_line s now tid m c lm l e \<longleftrightarrow> le_transaction e = tid \<and> le_created_at e = now \<and> le_direction e = direction l \<and> le_amount e = line_amount l
     \<and> le_currency e = c \<and> le_livemode e = lm
     \<and> (\<exists>a. find_account (le_account e) s = Some a \<and> acct_status a \<notin> {''frozen'', ''closed''}
          \<and> account_key a = (if is_platform_account (account_type l) then None else m, account_type l, c, lm))"

definition same_rows :: "'a ledger_scheme \<Rightarrow> 'a ledger_scheme \<Rightarrow> bool" where
  "same_rows s t \<longleftrightarrow> transactions t = transactions s \<and> entries t = entries s \<and> balance_cache t = balance_cache s
     \<and> outbox t = outbox s \<and> ledger.more t = ledger.more s"

lemma find_account_supply [simp]: "find_account i (s\<lparr>id_supply := n\<rparr>) = find_account i s"
  by (simp add: find_account_def)

lemma find_account_grow:
  "accounts t = accounts s @ new \<Longrightarrow> find_account i s = Some a \<Longrightarrow> find_account i t = Some a"
  by (auto simp: find_account_def)

lemma mint_ok:
  "mint E p s = Inr (i, t) \<longleftrightarrow> p \<in> set OWNED_PREFIXES \<and> i = p @ ''_'' @ env_ulid E (id_supply s)
     \<and> t = s\<lparr>id_supply := Suc (id_supply s)\<rparr>"
  by (auto simp: mint_def mapE_Inr_iff new_id_def split: if_splits)

lemma materialise_spec:
  assumes "materialise_entries E tid m c lm n ls s = Inr (es, s')" "accounts_ok s"
  shows "accounts_ok s' \<and> (\<exists>new. accounts s' = accounts s @ new) \<and> same_rows s s'
    \<and> list_all2 (entry_for_line s' (env_now E) tid m c lm) ls es \<and> map le_sequence es = [n ..< n + length ls]"
  using assms
proof (induction ls arbitrary: n s es)
  case (Cons l ls)
  let ?m = "if is_platform_account (account_type l) then None else m"
  from Cons.prems obtain a s1 i es' where
    g: "get_or_create E ?m (account_type l) c lm s = Inr (a, s1)"
    and st: "acct_status a \<notin> {''frozen'', ''closed''}"
    and rest: "materialise_entries E tid m c lm (Suc n) ls (s1\<lparr>id_supply := Suc (id_supply s1)\<rparr>) = Inr (es', s')"
    and es: "es = \<lparr>le_id = i, le_transaction = tid, le_account = acct_id a, le_direction = direction l,
                 le_amount = line_amount l, le_currency = c, le_livemode = lm, le_sequence = n,
                 le_created_at = env_now E\<rparr> # es'"
    by (auto simp: bindE_Inr_iff mint_ok split: if_splits)
  have ok1: "accounts_ok s1" using resolver.resolve_chart [OF g] Cons.prems(2) by simp
  note IH = Cons.IH [OF rest]
  have ih: "accounts_ok s'" "\<exists>new. accounts s' = accounts s1 @ new" "same_rows s1 s'"
    "list_all2 (entry_for_line s' (env_now E) tid m c lm) ls es'" "map le_sequence es' = [Suc n ..< Suc n + length ls]"
    using IH ok1 by (auto simp: same_rows_def)
  have fa: "find_account (acct_id a) s' = Some a"
    using ih(2) resolver.resolve_find [OF g Cons.prems(2)] find_account_grow by blast
  have key: "account_key a = (?m, account_type l, c, lm)" using resolver.resolve_keyed [OF g] by simp
  have grow: "\<exists>new. accounts s' = accounts s @ new"
    using resolver.resolve_grows [OF g] ih(2) by auto
  have frame: "same_rows s s'"
    using resolver.resolve_frame [OF g] ih(3) by (simp add: same_rows_def)
  have e1: "entry_for_line s' (env_now E) tid m c lm l (hd es)"
    using fa key st by (simp add: entry_for_line_def es)
  show ?case using ih(1) grow frame e1 ih(4,5) by (simp add: es upt_rec)
qed (auto simp: same_rows_def)

section \<open>What a successful post writes\<close>

lemma sum_signed_sides:
  "sum_list (map signed_minor ls) = sum_list (map line_amount (filter (\<lambda>l. direction l = Debit) ls))
     - sum_list (map line_amount (filter (\<lambda>l. direction l = Credit) ls))"
proof (induction ls)
  case (Cons l ls)
  then show ?case by (cases "direction l") (simp_all add: signed_minor_def)
qed simp

lemma assert_invariants_iff: "assert_invariants ls = Inr () \<longleftrightarrow> well_formed_lines ls"
  unfolding assert_invariants_def well_formed_lines_def sum_signed_sides by (auto simp: not_less not_le)

lemma apply_balance_delta_frame [simp]:
  "accounts (apply_balance_delta E m c lm ls tid s) = accounts s"
  "transactions (apply_balance_delta E m c lm ls tid s) = transactions s"
  "entries (apply_balance_delta E m c lm ls tid s) = entries s"
  "outbox (apply_balance_delta E m c lm ls tid s) = outbox s"
  "ledger.more (apply_balance_delta E m c lm ls tid s) = ledger.more s"
  by (auto simp: apply_balance_delta_def apply_delta_def Let_def split: option.splits)

lemma apply_balance_delta_cong:
  "balance_cache s = balance_cache t \<Longrightarrow>
   balance_cache (apply_balance_delta E m c lm ls tid s) = balance_cache (apply_balance_delta E m c lm ls tid t)"
  by (auto simp: apply_balance_delta_def apply_delta_def Let_def split: option.splits)

lemma find_by_key_supply [simp]:
  "find_by_idempotency_key k (s\<lparr>id_supply := n\<rparr>) = find_by_idempotency_key k s"
  by (simp add: find_by_idempotency_key_def)

lemma claim_cases:
  assumes "claim_idempotency_key E r s = Inr (claim, s1)"
  obtains (fresh) i where "find_by_idempotency_key (pr_key r) s = None" "i \<notin> txn_id ` set (transactions s)"
      "i = ''txn_'' @ env_ulid E (id_supply s)"
      "claim = \<lparr>claim_transaction_id = i, claim_created = True, claim_fingerprint_matches = True\<rparr>"
      "s1 = s\<lparr>id_supply := Suc (id_supply s), transactions := transactions s @ [claim_row E i r]\<rparr>"
    | (taken) t where "find_by_idempotency_key (pr_key r) s = Some t"
      "claim = \<lparr>claim_transaction_id = txn_id t, claim_created = False,
                claim_fingerprint_matches = (txn_fingerprint t = pr_fingerprint r)\<rparr>"
      "s1 = s\<lparr>id_supply := Suc (id_supply s)\<rparr>"
  using assms
  by (auto simp: claim_idempotency_key_def bindE_Inr_iff mint_ok OWNED_PREFIXES_def split: option.splits if_splits)

definition posted :: "env \<Rightarrow> post_request \<Rightarrow> ledger_transaction \<Rightarrow> ledger_entry list \<Rightarrow> 'a ledger_scheme \<Rightarrow> 'a ledger_scheme \<Rightarrow> bool" where
  "posted E r t es s s' \<longleftrightarrow>
     find_by_idempotency_key (pr_key r) s = None \<and> txn_id t \<notin> txn_id ` set (transactions s)
   \<and> t = claim_row E (txn_id t) r \<and> well_formed_lines (pr_lines r)
   \<and> transactions s' = transactions s @ [t] \<and> entries s' = entries s @ es
   \<and> accounts_ok s' \<and> (\<exists>new. accounts s' = accounts s @ new)
   \<and> list_all2 (entry_for_line s' (env_now E) (txn_id t) (pr_merchant r) (pr_currency r) (pr_livemode r)) (pr_lines r) es
   \<and> map le_sequence es = [1 ..< 1 + length (pr_lines r)]
   \<and> distinct (map le_id (entries s'))
   \<and> distinct (map (\<lambda>e. (le_transaction e, le_sequence e)) (entries s'))
   \<and> balance_cache s' = balance_cache (apply_balance_delta E (pr_merchant r) (pr_currency r) (pr_livemode r) (pr_lines r) (txn_id t) s)
   \<and> (\<exists>ev. outbox s' = outbox s @ [ev] \<and> ev_type ev = ''ledger.transaction_posted'' \<and> ev_payload ev = posted_payload t es)
   \<and> ledger.more s' = ledger.more s"

lemma entry_for_line_cong:
  "accounts s = accounts t \<Longrightarrow> entry_for_line s = entry_for_line t"
  by (intro ext) (simp add: entry_for_line_def find_account_def)

lemma post_created:
  assumes p: "post E r s = Inr (res, s')" and c: "result_created res" and ok: "accounts_ok s"
  shows "\<exists>es. posted E r (result_transaction res) es s s'"
proof -
  from p obtain claim s1 where wf: "well_formed_lines (pr_lines r)"
    and cl: "claim_idempotency_key E r s = Inr (claim, s1)"
    by (auto simp: post_def bindE_Inr_iff assert_invariants_iff)
  from cl show ?thesis
  proof (cases rule: claim_cases)
    case (taken t)
    then show ?thesis using p c cl by (auto simp: post_def bindE_Inr_iff split: if_splits)
  next
    case (fresh i)
    let ?t = "claim_row E i r"
    have ti: "txn_id ?t = i" by (simp add: claim_row_def)
    have "\<forall>x\<in>set (transactions s). txn_id x \<noteq> i" using fresh(2) by auto
    then have get: "get_transaction_or_raise i s1 = Inr ?t"
      by (simp add: get_transaction_or_raise_def find_transaction_def fresh(5) ti find_first_None [THEN iffD2])
    from p cl get obtain es s2 s3 x where
      m: "materialise_entries E i (pr_merchant r) (pr_currency r) (pr_livemode r) 1 (pr_lines r) s1 = Inr (es, s2)"
      and ins: "insert_entries es s2 = Inr s3"
      and pub: "publish_posted E ?t es (apply_balance_delta E (pr_merchant r) (pr_currency r) (pr_livemode r) (pr_lines r) i s3) = Inr (x, s')"
      and res: "res = \<lparr>result_transaction = ?t, result_created = True\<rparr>"
      by (auto simp: post_def bindE_Inr_iff fresh(4) ti Let_def)
    have "accounts_ok s1" using ok by (simp add: fresh(5) accounts_ok_def)
    note ms = materialise_spec [OF m this]
    have s3: "s3 = s2\<lparr>entries := entries s2 @ es\<rparr>" "distinct (map le_id (entries s3))"
      "distinct (map (\<lambda>e. (le_transaction e, le_sequence e)) (entries s3))"
      using ins by (auto simp: insert_entries_def Let_def split: if_splits)
    note ps = publish_same [OF pub [unfolded publish_posted_def]]
    have a: "accounts s' = accounts s2" "entries s' = entries s3" "transactions s' = transactions s1"
      "entries s2 = entries s" "balance_cache s3 = balance_cache s" "ledger.more s' = ledger.more s"
      using ps ms by (auto simp: same_books_def same_rows_def s3(1) fresh(5))
    have "outbox s3 = outbox s" using ms by (simp add: same_rows_def s3(1) fresh(5))
    then have out: "\<exists>ev. outbox s' = outbox s @ [ev] \<and> ev_type ev = ''ledger.transaction_posted'' \<and> ev_payload ev = posted_payload ?t es"
      using ps(2) by auto
    have cache: "balance_cache s' = balance_cache (apply_balance_delta E (pr_merchant r) (pr_currency r) (pr_livemode r) (pr_lines r) i s)"
      using ps(1) a(5) apply_balance_delta_cong [of s3 s] by (simp add: same_books_def)
    have "posted E r ?t es s s'"
      unfolding posted_def ti using fresh ms s3 a wf out cache entry_for_line_cong [OF a(1)]
      by (auto simp: accounts_ok_def)
    then show ?thesis by (auto simp: res)
  qed
qed

lemma post_existing:
  assumes p: "post E r s = Inr (res, s')" and c: "\<not> result_created res"
  shows "same_books s s'" "outbox s' = outbox s" "pr_on_conflict r = ReturnExisting"
    "\<exists>t. find_by_idempotency_key (pr_key r) s = Some t \<and> find_transaction (txn_id t) s = Some (result_transaction res)"
proof -
  from p obtain claim s1 where cl: "claim_idempotency_key E r s = Inr (claim, s1)"
    by (auto simp: post_def bindE_Inr_iff)
  from cl have "same_books s s' \<and> outbox s' = outbox s \<and> pr_on_conflict r = ReturnExisting \<and>
    (\<exists>t. find_by_idempotency_key (pr_key r) s = Some t \<and> find_transaction (txn_id t) s = Some (result_transaction res))"
  proof (cases rule: claim_cases)
    case (fresh i)
    then show ?thesis using p c cl by (auto simp: post_def bindE_Inr_iff Let_def split: if_splits)
  next
    case (taken t)
    then show ?thesis using p cl
      by (auto simp: post_def bindE_Inr_iff same_books_def get_transaction_or_raise_def find_transaction_def
          split: if_splits option.splits)
  qed
  then show "same_books s s'" "outbox s' = outbox s" "pr_on_conflict r = ReturnExisting"
    "\<exists>t. find_by_idempotency_key (pr_key r) s = Some t \<and> find_transaction (txn_id t) s = Some (result_transaction res)"
    by blast+
qed

section \<open>The cache after a post\<close>

definition same_key :: "string option \<Rightarrow> string \<Rightarrow> bool \<Rightarrow> balance_key \<Rightarrow> bool" where
  "same_key m c lm k \<longleftrightarrow> m = Some (fst k) \<and> (c, lm) = snd k"

lemma bucket_types [simp]:
  "AVAILABLE_ACCOUNT_TYPES = [''merchant_payable'']" "PENDING_ACCOUNT_TYPES = [''merchant_receivable'']"
  "RESERVED_ACCOUNT_TYPES = [''reserve'']" "DISPUTED_ACCOUNT_TYPES = [''chargeback_liability'']"
  by (simp_all add: AVAILABLE_ACCOUNT_TYPES_def PENDING_ACCOUNT_TYPES_def RESERVED_ACCOUNT_TYPES_def
      DISPUTED_ACCOUNT_TYPES_def account_types_in_def BUCKET_ACCOUNT_TYPES_def)

lemma buckets_not_platform [simp]:
  "\<not> is_platform_account ''merchant_payable''" "\<not> is_platform_account ''merchant_receivable''"
  "\<not> is_platform_account ''reserve''" "\<not> is_platform_account ''chargeback_liability''"
  by (simp_all add: is_platform_account_def PLATFORM_ACCOUNT_TYPES_def)

lemma cached_apply_delta:
  "cached (apply_delta E k0 av pe re di tid s) k = (if k = k0 then
     \<lparr>available_minor = available_minor (cached s k0) + av, pending_minor = pending_minor (cached s k0) + pe,
      reserved_minor = reserved_minor (cached s k0) + re, disputed_minor = disputed_minor (cached s k0) + di,
      negative_balance_minor = max 0 (- (available_minor (cached s k0) + av)),
      last_transaction_id = Some tid, computed_at = env_now E\<rparr> else cached s k)"
  by (cases "map_of (balance_cache s) k0") (simp_all add: cached_def apply_delta_def store_simps zero_balance_def)

definition shifted :: "balance_row \<Rightarrow> balance_row \<Rightarrow> int \<Rightarrow> int \<Rightarrow> int \<Rightarrow> int \<Rightarrow> bool" where
  "shifted b b' av pe re di \<longleftrightarrow> available_minor b' = available_minor b + av \<and> pending_minor b' = pending_minor b + pe
     \<and> reserved_minor b' = reserved_minor b + re \<and> disputed_minor b' = disputed_minor b + di
     \<and> negative_balance_minor b' = max 0 (- available_minor b')"

lemma cached_apply:
  assumes neg: "negative_balance_minor (cached s k) = max 0 (- available_minor (cached s k))"
  shows "shifted (cached s k) (cached (apply_balance_delta E m c lm ls tid s) k)
    (if same_key m c lm k then signed_total ls [''merchant_payable''] else 0)
    (if same_key m c lm k then signed_total ls [''merchant_receivable''] else 0)
    (if same_key m c lm k then signed_total ls [''reserve''] else 0)
    (if same_key m c lm k then signed_total ls [''chargeback_liability''] else 0)"
proof (cases m)
  case None
  then show ?thesis using neg by (simp add: apply_balance_delta_def same_key_def shifted_def)
next
  case (Some mid)
  have sk: "same_key m c lm k \<longleftrightarrow> k = (mid, c, lm)" by (cases k) (auto simp: same_key_def Some)
  show ?thesis
    unfolding apply_balance_delta_def Some option.case Let_def bucket_types
    using neg by (auto simp: sk [unfolded Some] cached_apply_delta shifted_def)
qed

lemma bucket_part_grow:
  assumes "accounts s' = accounts s @ new" "find_account (le_account e) s \<noteq> None"
  shows "bucket_part s' t k e = bucket_part s t k e"
  using assms find_account_grow by (fastforce simp: bucket_part_def)

lemma bucket_part_line:
  assumes "entry_for_line s now tid m c lm l e" "\<not> is_platform_account t"
  shows "bucket_part s t k e = (if same_key m c lm k then signed_total [l] [t] else 0)"
  using assms by (auto simp: entry_for_line_def bucket_part_def account_key_def signed_total_def same_key_def on_normal_side_def)

lemma signed_total_Cons: "signed_total (l # ls) ts = signed_total [l] ts + signed_total ls ts"
  by (simp add: signed_total_def)

lemma bucket_part_lines:
  assumes "list_all2 (entry_for_line s now tid m c lm) ls es" "\<not> is_platform_account t"
  shows "sum_list (map (bucket_part s t k) es) = (if same_key m c lm k then signed_total ls [t] else 0)"
  using assms(1)
proof (induction rule: list_all2_induct)
  case (Cons l ls e es)
  then show ?case
    using bucket_part_line [OF Cons(1) assms(2), of k] signed_total_Cons [of l ls] by simp
qed (simp add: signed_total_def)

lemma bucket_balance_posted:
  assumes "posted E r x es s s'" "\<forall>e\<in>set (entries s). entry_placed s e" "\<not> is_platform_account t"
  shows "bucket_balance s' t k = bucket_balance s t k
    + (if same_key (pr_merchant r) (pr_currency r) (pr_livemode r) k then signed_total (pr_lines r) [t] else 0)"
proof -
  obtain new where new: "accounts s' = accounts s @ new" and ent: "entries s' = entries s @ es"
    and l2: "list_all2 (entry_for_line s' (env_now E) (txn_id x) (pr_merchant r) (pr_currency r) (pr_livemode r)) (pr_lines r) es"
    using assms(1) by (auto simp: posted_def)
  have "map (bucket_part s' t k) (entries s) = map (bucket_part s t k) (entries s)"
  proof (intro map_cong refl bucket_part_grow [OF new])
    fix e assume "e \<in> set (entries s)"
    then show "find_account (le_account e) s \<noteq> None" using assms(2) by (auto simp: entry_placed_def)
  qed
  then have "sum_list (map (bucket_part s' t k) (entries s)) = sum_list (map (bucket_part s t k) (entries s))"
    by (rule arg_cong)
  then show ?thesis using bucket_part_lines [OF l2 assms(3)] by (simp add: bucket_balance_def ent)
qed

lemma cache_agrees_posted:
  assumes "posted E r x es s s'" "\<forall>e\<in>set (entries s). entry_placed s e" "cache_agrees s"
  shows "cache_agrees s'"
proof -
  have cs: "cached s' = cached (apply_balance_delta E (pr_merchant r) (pr_currency r) (pr_livemode r) (pr_lines r) (txn_id x) s)"
    using assms(1) by (intro ext) (simp add: posted_def cached_def)
  have ra: "row_agrees s k" for k using assms(3) by (simp add: cache_agrees_def del: split_paired_All)
  have "row_agrees s' k" for k
  proof -
    have neg: "negative_balance_minor (cached s k) = max 0 (- available_minor (cached s k))"
      using ra [of k] by (simp add: row_agrees_def)
    show ?thesis
      using ra [of k] cached_apply [OF neg, of E "pr_merchant r" "pr_currency r" "pr_livemode r" "pr_lines r" "txn_id x"]
      unfolding row_agrees_def cs shifted_def by (simp add: bucket_balance_posted [OF assms(1,2)])
  qed
  then show ?thesis unfolding cache_agrees_def by blast
qed

section \<open>Preservation\<close>

lemma list_all2_signed:
  assumes "list_all2 (entry_for_line s now tid m c lm) ls es"
  shows "map entry_signed_minor es = map signed_minor ls"
  using assms by (induction rule: list_all2_induct) (auto simp: entry_for_line_def entry_signed_minor_def signed_minor_def)

lemma posted_entries_of:
  assumes "posted E r t es s s'" "\<forall>e\<in>set (entries s). entry_placed s e"
  shows "entries_of (txn_id t) s' = es" "i \<noteq> txn_id t \<Longrightarrow> entries_of i s' = entries_of i s"
proof -
  have l2: "list_all2 (entry_for_line s' (env_now E) (txn_id t) (pr_merchant r) (pr_currency r) (pr_livemode r)) (pr_lines r) es"
    and ent: "entries s' = entries s @ es" and fr: "txn_id t \<notin> txn_id ` set (transactions s)"
    using assms(1) by (auto simp: posted_def)
  have es: "\<forall>e\<in>set es. le_transaction e = txn_id t"
    using l2 by (auto simp: list_all2_conv_all_nth in_set_conv_nth entry_for_line_def)
  have old: "\<forall>e\<in>set (entries s). le_transaction e \<noteq> txn_id t"
  proof
    fix e assume "e \<in> set (entries s)"
    then obtain u where "u \<in> set (transactions s)" "txn_id u = le_transaction e"
      using assms(2) by (auto simp: entry_placed_def)
    then show "le_transaction e \<noteq> txn_id t" using fr by (metis imageI)
  qed
  show "entries_of (txn_id t) s' = es" using es old by (simp add: entries_of_def ent filter_id_conv)
  show "i \<noteq> txn_id t \<Longrightarrow> entries_of i s' = entries_of i s" using es by (simp add: entries_of_def ent filter_empty_conv)
qed

lemma entry_placed_grow:
  assumes "entry_placed s e" "accounts s' = accounts s @ new" "transactions s' = transactions s @ ts"
  shows "entry_placed s' e"
  using assms find_account_grow [OF assms(2)] by (fastforce simp: entry_placed_def)

lemma entry_for_line_placed:
  assumes "entry_for_line s (txn_posted_at t) (txn_id t) (txn_merchant t) (txn_currency t) (txn_livemode t) l e"
    "t \<in> set (transactions s)" "0 < line_amount l"
  shows "entry_placed s e"
  using assms unfolding entry_placed_def entry_for_line_def
  by (auto intro!: bexI [of _ t] simp: account_key_def)

lemma posted_ledger_ok:
  assumes p: "posted E r t es s s'" and ok: "ledger_ok s"
  shows "ledger_ok s'"
proof -
  obtain new where new: "accounts s' = accounts s @ new" and tr: "transactions s' = transactions s @ [t]"
    and ent: "entries s' = entries s @ es" and wf: "well_formed_lines (pr_lines r)"
    and l2: "list_all2 (entry_for_line s' (env_now E) (txn_id t) (pr_merchant r) (pr_currency r) (pr_livemode r)) (pr_lines r) es"
    and t: "t = claim_row E (txn_id t) r" and fr: "txn_id t \<notin> txn_id ` set (transactions s)"
    and key: "find_by_idempotency_key (pr_key r) s = None"
    using p by (auto simp: posted_def)
  have pl: "\<forall>e\<in>set (entries s). entry_placed s e" using ok by (simp add: ledger_ok_def)
  have tf: "txn_merchant t = pr_merchant r" "txn_currency t = pr_currency r" "txn_livemode t = pr_livemode r" "txn_key t = pr_key r" "txn_posted_at t = env_now E"
    by (subst t, simp add: claim_row_def)+
  have nk: "txn_key t \<notin> txn_key ` set (transactions s)"
    using key unfolding tf(4) by (force simp: find_by_idempotency_key_def find_first_None)
  have len: "length es = length (pr_lines r)" using l2 by (simp add: list_all2_lengthD)
  have "txn_balanced s' t"
    unfolding txn_balanced_def posted_entries_of(1) [OF p pl] list_all2_signed [OF l2] len
    using wf by (simp add: well_formed_lines_def)
  moreover have "txn_balanced s' x" if "x \<in> set (transactions s)" for x
  proof -
    have "txn_id x \<noteq> txn_id t" using fr that by (metis imageI)
    then show ?thesis using ok that posted_entries_of(2) [OF p pl] by (simp add: txn_balanced_def ledger_ok_def)
  qed
  moreover have "entry_placed s' e" if "e \<in> set es" for e
  proof -
    obtain l where "l \<in> set (pr_lines r)" "entry_for_line s' (env_now E) (txn_id t) (pr_merchant r) (pr_currency r) (pr_livemode r) l e"
      using l2 \<open>e \<in> set es\<close> by (metis list_all2_conv_all_nth in_set_conv_nth)
    then show ?thesis using wf tf entry_for_line_placed [of s' t l e] by (auto simp: tr well_formed_lines_def)
  qed
  moreover have "entry_placed s' e" if "e \<in> set (entries s)" for e
    using entry_placed_grow [OF _ new tr] pl that by blast
  moreover have "cache_agrees s'" using cache_agrees_posted [OF p pl] ok by (simp add: ledger_ok_def)
  ultimately show ?thesis
    using ok p nk fr by (auto simp: ledger_ok_def tr ent posted_def)
qed

lemma same_books_ledger_ok:
  assumes "same_books s s'" "ledger_ok s" shows "ledger_ok s'"
  using assms
  by (simp add: ledger_ok_def same_books_def accounts_ok_def txn_balanced_def entries_of_def entry_placed_def
      find_account_def cache_agrees_def row_agrees_def cached_def bucket_balance_def bucket_part_def [abs_def])

lemma post_ledger_ok:
  assumes "post E r s = Inr (res, s')" "ledger_ok s" shows "ledger_ok s'"
proof (cases "result_created res")
  case True
  have "accounts_ok s" using assms(2) by (simp add: ledger_ok_def)
  then show ?thesis using post_created [OF assms(1) True] posted_ledger_ok assms(2) by blast
next
  case False
  then show ?thesis using post_existing(1) [OF assms(1) False] same_books_ledger_ok assms(2) by blast
qed

end
