(* ===== verification/Books.thy ===== *)
theory Books
  imports Ledger_Inv "HOL-Library.Multiset"
begin

text \<open>
  What the invariant of the books gives: the nightly checks of \<^verbatim>\<open>LedgerAuditService\<close> read zero
  (trial balance, cache drift, duplicate keys), a key posts once, a reversal moves every account
  back, and \<^verbatim>\<open>post\<close> succeeds whenever its lines are well formed. The step relation \<^verbatim>\<open>ledger_step\<close>
  collects the operations that write to the books; its reachable states satisfy the invariant.
\<close>

section \<open>The trial balance\<close>

lemma sum_by_transaction:
  fixes f :: "ledger_entry \<Rightarrow> int"
  assumes "distinct (map txn_id ts)" "\<forall>e\<in>set es. le_transaction e \<in> txn_id ` set ts"
  shows "sum_list (map f es) = (\<Sum>t\<leftarrow>ts. sum_list (map f (filter (\<lambda>e. le_transaction e = txn_id t) es)))"
  using assms(2)
proof (induction es)
  case (Cons e es)
  obtain t where t: "t \<in> set ts" "txn_id t = le_transaction e" using Cons.prems by auto
  have one: "(\<Sum>t\<leftarrow>ts. if le_transaction e = txn_id t then f e else 0) = f e"
    using assms(1) t
  proof (induction ts)
    case (Cons x ts)
    show ?case
    proof (cases "x = t")
      case True
      then have "\<forall>y\<in>set ts. le_transaction e \<noteq> txn_id y" using Cons.prems t by (metis distinct.simps(2) imageI list.simps(9) set_map)
      then have "map (\<lambda>t. if le_transaction e = txn_id t then f e else 0) ts = map (\<lambda>_. 0) ts" by simp
      then have "(\<Sum>t\<leftarrow>ts. if le_transaction e = txn_id t then f e else 0) = 0" by (simp only: sum_list_0)
      then show ?thesis using True t by simp
    next
      case False
      then have "txn_id x \<noteq> le_transaction e" using Cons.prems t by (metis distinct.simps(2) imageI list.set_intros(1) list.simps(9) set_ConsD set_map)
      then show ?thesis using Cons False by auto
    qed
  qed simp
  have "(\<Sum>t\<leftarrow>ts. sum_list (map f (filter (\<lambda>e. le_transaction e = txn_id t) (e # es)))) =
      (\<Sum>t\<leftarrow>ts. (if le_transaction e = txn_id t then f e else 0) + sum_list (map f (filter (\<lambda>e. le_transaction e = txn_id t) es)))"
    by (intro arg_cong [where f = sum_list] map_cong) auto
  then show ?case using Cons one by (simp add: sum_list_addf)
qed simp

definition entry_net :: "ledger_entry list \<Rightarrow> int" where
  "entry_net es = sum_list (map entry_signed_minor es)"

lemma side_total_net: "side_total Debit es - side_total Credit es = entry_net es"
proof (induction es)
  case (Cons e es)
  then show ?case by (cases "le_direction e") (simp_all add: side_total_def entry_net_def entry_signed_minor_def)
qed (simp add: side_total_def entry_net_def)

text \<open>Whatever depends only on the transaction selects entries that net to zero.\<close>

lemma selected_net_zero:
  assumes ok: "ledger_ok s" and P: "\<And>e t. e \<in> set (entries s) \<Longrightarrow> t \<in> set (transactions s) \<Longrightarrow> le_transaction e = txn_id t \<Longrightarrow> P e = Q t"
  shows "entry_net (filter P (entries s)) = 0"
proof -
  let ?sel = "filter P (entries s)"
  have own: "\<forall>e\<in>set ?sel. le_transaction e \<in> txn_id ` set (transactions s)"
    using ok by (force simp: ledger_ok_def entry_placed_def)
  have zero: "sum_list (map entry_signed_minor (filter (\<lambda>e. le_transaction e = txn_id t) ?sel)) = 0"
    if t: "t \<in> set (transactions s)" for t
  proof -
    have "filter (\<lambda>e. le_transaction e = txn_id t) ?sel = (if Q t then entries_of (txn_id t) s else [])"
      using P [OF _ t] by (auto simp: entries_of_def filter_empty_conv intro!: filter_cong)
    then show ?thesis using ok t by (simp add: ledger_ok_def txn_balanced_def)
  qed
  have "distinct (map txn_id (transactions s))" using ok by (simp add: ledger_ok_def)
  from sum_by_transaction [OF this own, of entry_signed_minor]
  have "entry_net ?sel = (\<Sum>t\<leftarrow>transactions s. sum_list (map entry_signed_minor (filter (\<lambda>e. le_transaction e = txn_id t) ?sel)))"
    by (simp add: entry_net_def)
  also have "\<dots> = (\<Sum>t\<leftarrow>transactions s. 0)" using zero by (intro arg_cong [where f = sum_list] map_cong) auto
  finally show ?thesis by simp
qed

lemma entry_facts:
  assumes "ledger_ok s" "e \<in> set (entries s)" "t \<in> set (transactions s)" "le_transaction e = txn_id t"
  shows "le_currency e = txn_currency t" "le_livemode e = txn_livemode t" "le_created_at e = txn_posted_at t"
    "\<exists>a. find_account (le_account e) s = Some a \<and> account_key a =
      (if is_platform_account (acct_type a) then None else txn_merchant t, acct_type a, txn_currency t, txn_livemode t)"
proof -
  obtain u a where u: "u \<in> set (transactions s)" "txn_id u = le_transaction e" "find_account (le_account e) s = Some a"
    "le_currency e = txn_currency u" "le_livemode e = txn_livemode u" "le_created_at e = txn_posted_at u"
    "account_key a = (if is_platform_account (acct_type a) then None else txn_merchant u, acct_type a, txn_currency u, txn_livemode u)"
    using assms(1,2) by (auto simp: ledger_ok_def entry_placed_def)
  have "distinct (map txn_id (transactions s))" using assms(1) by (simp add: ledger_ok_def)
  then have "u = t" using u(1,2) assms(3,4) by (auto simp: distinct_map inj_on_def)
  then show "le_currency e = txn_currency t" "le_livemode e = txn_livemode t" "le_created_at e = txn_posted_at t"
    "\<exists>a. find_account (le_account e) s = Some a \<and> account_key a =
      (if is_platform_account (acct_type a) then None else txn_merchant t, acct_type a, txn_currency t, txn_livemode t)"
    using u by auto
qed

lemma trial_balance_zero:
  assumes "ledger_ok s"
  shows "\<forall>r\<in>set (trial_balance_rows c lm as_of s). delta_minor r = 0"
    and "tt_debit_minor (trial_balance_by_currency c lm as_of s) = tt_credit_minor (trial_balance_by_currency c lm as_of s)"
proof -
  have net: "entry_net (filter (\<lambda>e. le_currency e = c \<and> le_livemode e = l \<and> (lm = None \<or> lm = Some (le_livemode e))
      \<and> until as_of (le_created_at e)) (entries s)) = 0" for l
    by (rule selected_net_zero [OF assms, where Q = "\<lambda>t. txn_currency t = c \<and> txn_livemode t = l
        \<and> (lm = None \<or> lm = Some (txn_livemode t)) \<and> until as_of (txn_posted_at t)"])
       (simp add: entry_facts [OF assms])
  then have side: "side_total Debit (filter (F l) (entries s)) = side_total Credit (filter (F l) (entries s))"
    if "F = (\<lambda>l e. le_currency e = c \<and> le_livemode e = l \<and> (lm = None \<or> lm = Some (le_livemode e))
      \<and> until as_of (le_created_at e))" for F l
    unfolding that side_total_net [symmetric] by (simp only: right_minus_eq)
  show rows: "\<forall>r\<in>set (trial_balance_rows c lm as_of s). delta_minor r = 0"
  proof
    fix r assume "r \<in> set (trial_balance_rows c lm as_of s)"
    then show "delta_minor r = 0"
      unfolding trial_balance_rows_def set_concat set_map Let_def
      by (elim UN_E imageE) (simp add: delta_minor_def side [OF refl] split: if_splits)
  qed
  have "(\<Sum>r\<leftarrow>rs. tb_debit_minor r) = (\<Sum>r\<leftarrow>rs. tb_credit_minor r)" if "\<forall>r\<in>set rs. delta_minor r = 0" for rs
    using that by (induction rs) (auto simp: delta_minor_def)
  then show "tt_debit_minor (trial_balance_by_currency c lm as_of s) = tt_credit_minor (trial_balance_by_currency c lm as_of s)"
    using rows by (simp add: trial_balance_by_currency_def Let_def)
qed

lemma no_unbalanced_sample:
  assumes "ledger_ok s" shows "sample_unbalanced_transactions c as_of n s = []"
proof -
  have "entry_net (filter (\<lambda>e. le_transaction e = tid) (filter (\<lambda>e. le_currency e = c \<and> until as_of (le_created_at e)) (entries s))) = 0" for tid
    unfolding filter_filter
    by (rule selected_net_zero [OF assms, where Q = "\<lambda>t. txn_currency t = c \<and> until as_of (txn_posted_at t) \<and> txn_id t = tid"])
       (auto simp: entry_facts [OF assms])
  then show ?thesis by (simp add: sample_unbalanced_transactions_def Let_def side_total_net)
qed

lemma no_duplicate_keys:
  assumes "ledger_ok s" shows "list_duplicate_idempotency_keys p since s = []"
proof -
  have "length (filter (\<lambda>t. txn_key t = k) xs) \<le> 1" if "distinct (map txn_key xs)" for k and xs :: "ledger_transaction list"
    using that
  proof (induction xs)
    case (Cons x xs)
    then have "txn_key x = k \<Longrightarrow> filter (\<lambda>t. txn_key t = k) xs = []"
      by (auto simp: filter_empty_conv image_iff)
    then show ?case using Cons by auto
  qed simp
  moreover have "distinct (map txn_key (filter Q (transactions s)))" for Q
    using assms by (simp add: ledger_ok_def distinct_map_filter)
  ultimately have "\<not> 1 < length (filter (\<lambda>t. txn_key t = k) (filter Q (transactions s)))" for k Q
    by (meson not_less)
  then have none: "filter (\<lambda>k. 1 < length (filter (\<lambda>t. txn_key t = k) (filter Q (transactions s)))) ks = []" for Q ks
    by simp
  show ?thesis unfolding list_duplicate_idempotency_keys_def Let_def none by simp
qed

section \<open>Balances recomputed from the entries\<close>

lemma filter_by_id:
  assumes "distinct (map acct_id as)"
  shows "filter (\<lambda>a. acct_id a = i \<and> P a) as =
    (case find_first (\<lambda>a. acct_id a = i) as of None \<Rightarrow> [] | Some a \<Rightarrow> if P a then [a] else [])"
  using assms
proof (induction as)
  case (Cons a as)
  have "acct_id a = i \<Longrightarrow> filter (\<lambda>a. acct_id a = i \<and> P a) as = []"
    using Cons.prems by (auto simp: filter_empty_conv image_iff)
  then show ?case using Cons by auto
qed simp

lemma credit_positive_one:
  "credit_positive t rows = sum_list (map (\<lambda>(t', e). if t' = t then (if le_direction e = Credit then le_amount e else - le_amount e) else 0) rows)"
proof (induction rows)
  case (Cons r rows)
  then show ?case by (cases r; cases "le_direction (snd r)") (auto simp: credit_positive_def)
qed (simp add: credit_positive_def)

lemma sum_list_concat_map:
  fixes h :: "'b \<Rightarrow> int"
  shows "sum_list (map h (concat (map R es))) = (\<Sum>e\<leftarrow>es. sum_list (map h (R e)))"
  by (induction es) simp_all

lemma normal_of_alt: "normal_of t = (if map_of NORMAL_BALANCE_BY_TYPE t = Some Debit then Debit else Credit)"
proof (cases "map_of NORMAL_BALANCE_BY_TYPE t")
  case (Some d)
  then show ?thesis by (cases d) (simp_all add: normal_of_def)
qed (simp add: normal_of_def)

lemma credit_positive_rows:
  assumes "accounts_ok s" "t \<in> set (map fst BUCKET_ACCOUNT_TYPES)"
  shows "(if map_of NORMAL_BALANCE_BY_TYPE t = Some Debit then - credit_positive t (bucket_rows m c l None s)
          else credit_positive t (bucket_rows m c l None s)) = bucket_balance s t (m, c, l)"
proof -
  have d: "distinct (map acct_id (accounts s))" using assms(1) by (simp add: accounts_ok_def)
  define g :: "ledger_entry \<Rightarrow> int" where "g = (\<lambda>e. case find_account (le_account e) s of None \<Rightarrow> 0
     | Some a \<Rightarrow> if acct_type a = t \<and> acct_merchant a = Some m \<and> le_currency e = c \<and> le_livemode e = l
               then (if le_direction e = Credit then le_amount e else - le_amount e) else 0)"
  have "credit_positive t (bucket_rows m c l None s) = sum_list (map g (entries s))"
    unfolding credit_positive_one bucket_rows_def filter_by_id [OF d] sum_list_concat_map g_def find_account_def
    by (intro arg_cong [where f = sum_list] map_cong refl)
       (use assms(2) in \<open>auto simp: until_def split: option.splits\<close>)
  moreover have "bucket_part s t (m, c, l) = (\<lambda>e. if map_of NORMAL_BALANCE_BY_TYPE t = Some Debit then - g e else g e)"
  proof
    fix e
    show "bucket_part s t (m, c, l) e = (if map_of NORMAL_BALANCE_BY_TYPE t = Some Debit then - g e else g e)"
      by (cases "le_direction e") (auto simp: g_def bucket_part_def on_normal_side_def normal_of_alt split: option.splits)
  qed
  ultimately show ?thesis
    by (simp add: bucket_balance_def sum_list_uminus)
qed

lemma sum_buckets_spec:
  assumes "accounts_ok s"
  shows "sum_buckets m c l None s = map (\<lambda>(t, b). (b, bucket_balance s t (m, c, l))) BUCKET_ACCOUNT_TYPES"
  unfolding sum_buckets_def Let_def
  by (intro map_cong refl) (use credit_positive_rows [OF assms] in force)

section \<open>A key posts once\<close>

lemma find_transaction_in:
  assumes "distinct (map txn_id (transactions s))" "t \<in> set (transactions s)"
  shows "find_transaction (txn_id t) s = Some t"
  unfolding find_transaction_def using find_first_unique [OF assms] .

lemma post_duplicate:
  assumes wf: "well_formed_lines (pr_lines r)" and ok: "ledger_ok s"
    and k: "find_by_idempotency_key (pr_key r) s = Some t"
  shows "post E r s = (if pr_on_conflict r = ReturnExisting
    then Inr (\<lparr>result_transaction = t, result_created = False\<rparr>, s\<lparr>id_supply := Suc (id_supply s)\<rparr>)
    else raise DuplicateSettlementError)"
proof -
  have "t \<in> set (transactions s)" using k by (auto simp: find_by_idempotency_key_def dest: find_first_SomeD)
  then have f: "find_transaction (txn_id t) s = Some t" using ok find_transaction_in by (auto simp: ledger_ok_def)
  show ?thesis
    using wf [folded assert_invariants_iff] k f
    by (simp add: post_def claim_idempotency_key_def mint_def new_id_def OWNED_PREFIXES_def
        get_transaction_or_raise_def find_transaction_def)
qed

lemma posted_key: "posted E r t es s s' \<Longrightarrow> ledger_ok s \<Longrightarrow> find_by_idempotency_key (pr_key r) s' = Some t"
proof -
  assume p: "posted E r t es s s'" and ok: "ledger_ok s"
  have "txn_key t = pr_key r" using p unfolding posted_def by (metis claim_row_def ledger_transaction.select_convs(2))
  then show ?thesis using p by (simp add: posted_def find_by_idempotency_key_def)
qed

text \<open>Keys are never given up: whoever posts later, a taken key stays taken by the same row.\<close>

lemma post_key_stable:
  assumes "post E r s = Inr (res, s')" "accounts_ok s" "find_by_idempotency_key k s = Some t"
  shows "find_by_idempotency_key k s' = Some t"
proof (cases "result_created res")
  case True
  then show ?thesis using post_created [OF assms(1) True assms(2)] assms(3)
    by (auto simp: posted_def find_by_idempotency_key_def)
next
  case False
  then show ?thesis using post_existing(1) [OF assms(1) False] assms(3)
    by (simp add: same_books_def find_by_idempotency_key_def)
qed

section \<open>Reversal\<close>

definition account_balance :: "'a ledger_scheme \<Rightarrow> string \<Rightarrow> int" where
  "account_balance s aid = entry_net (filter (\<lambda>e. le_account e = aid) (entries s))"

lemma traverse_list_all2: "traverse f xs = Inr ys \<Longrightarrow> list_all2 (\<lambda>x y. f x = Inr y) xs ys"
  by (induction xs arbitrary: ys) (auto simp: bindE_Inr_iff)

lemma ledger_ok_update_reverses:
  assumes "ledger_ok s"
  shows "ledger_ok (s\<lparr>transactions := update_where P (\<lambda>x. x\<lparr>txn_reverses := v\<rparr>) (transactions s)\<rparr>)"
proof -
  let ?f = "\<lambda>x. if P x then x\<lparr>txn_reverses := v\<rparr> else x"
  let ?s = "s\<lparr>transactions := update_where P (\<lambda>x. x\<lparr>txn_reverses := v\<rparr>) (transactions s)\<rparr>"
  have f: "txn_id (?f x) = txn_id x" "txn_merchant (?f x) = txn_merchant x" "txn_currency (?f x) = txn_currency x"
    "txn_livemode (?f x) = txn_livemode x" "txn_posted_at (?f x) = txn_posted_at x" for x by auto
  have acc: "find_account i ?s = find_account i s" for i by (simp add: find_account_def)
  have keep: "map txn_id (transactions ?s) = map txn_id (transactions s)" "map txn_key (transactions ?s) = map txn_key (transactions s)"
    by (simp_all add: update_where_map)
  have "entry_placed ?s e" if pl: "entry_placed s e" for e
  proof -
    obtain t a where "t \<in> set (transactions s)" and h: "0 < le_amount e" "txn_id t = le_transaction e"
      "find_account (le_account e) s = Some a" "le_currency e = txn_currency t" "le_livemode e = txn_livemode t"
      "le_created_at e = txn_posted_at t" "account_key a =
        (if is_platform_account (acct_type a) then None else txn_merchant t, acct_type a, txn_currency t, txn_livemode t)"
      using pl by (auto simp: entry_placed_def)
    then have "?f t \<in> set (transactions ?s)" by (simp add: update_where_def)
    then show ?thesis unfolding entry_placed_def acc using h f by (intro conjI bexI [of _ "?f t"] exI [of _ a]) (simp_all only: f)
  qed
  moreover have "txn_balanced ?s t" if t: "t \<in> set (transactions ?s)" for t
  proof -
    obtain x where "x \<in> set (transactions s)" "t = ?f x" using t by (auto simp: update_where_def)
    then show ?thesis using assms f(1) by (auto simp: ledger_ok_def txn_balanced_def entries_of_def)
  qed
  moreover have "cache_agrees ?s"
  proof -
    have "row_agrees ?s = row_agrees s"
      by (intro ext) (simp add: row_agrees_def cached_def bucket_balance_def bucket_part_def [abs_def] find_account_def)
    then show ?thesis using assms by (simp add: ledger_ok_def cache_agrees_def del: split_paired_All)
  qed
  ultimately show ?thesis
    using assms keep by (simp add: ledger_ok_def accounts_ok_def)
qed

lemma reversed_entries:
  assumes ok: "ledger_ok s" and t: "t \<in> set (transactions s)"
    and fl: "list_all2 (\<lambda>e l. flipped_line s e = Inr l) L ls" and L: "set L \<subseteq> set (entries_of (txn_id t) s)"
    and p: "list_all2 (entry_for_line s' now tid (txn_merchant t) (txn_currency t) (txn_livemode t)) ls es"
    and s': "accounts_ok s'" "accounts s' = accounts s @ new"
  shows "list_all2 (\<lambda>e e'. le_account e' = le_account e \<and> entry_signed_minor e' = - entry_signed_minor e) L es"
proof -
  have len: "length L = length ls" "length es = length ls" using fl p by (auto simp: list_all2_lengthD)
  show ?thesis
  proof (rule list_all2_all_nthI)
    show "length L = length es" using len by simp
    fix i assume i: "i < length L"
    let ?e = "L ! i" and ?l = "ls ! i" and ?e' = "es ! i"
    have e: "?e \<in> set (entries s)" "le_transaction ?e = txn_id t"
      using L i by (force simp: entries_of_def)+
    obtain a where a: "find_account (le_account ?e) s = Some a" "account_key a =
        (if is_platform_account (acct_type a) then None else txn_merchant t, acct_type a, txn_currency t, txn_livemode t)"
      using entry_facts(4) [OF ok e(1) t e(2)] by blast
    have l: "?l = \<lparr>account_type = acct_type a, direction = flip_direction (le_direction ?e), line_amount = le_amount ?e\<rparr>"
      using list_all2_nthD [OF fl i] a(1) by (auto simp: flipped_line_def get_account_or_raise_def)
    obtain a' where a': "find_account (le_account ?e') s' = Some a'" "account_key a' = account_key a"
      and d: "le_direction ?e' = direction ?l" "le_amount ?e' = line_amount ?l"
      using list_all2_nthD [OF p, of i] i len a(2) by (auto simp: entry_for_line_def l)
    have in': "a \<in> set (accounts s')" "a' \<in> set (accounts s')" "acct_id a = le_account ?e" "acct_id a' = le_account ?e'"
      using find_first_SomeD [OF a(1) [unfolded find_account_def]] find_first_SomeD [OF a'(1) [unfolded find_account_def]] s'(2)
      by auto
    then have "a' = a" using s'(1) a'(2) by (auto simp: accounts_ok_def distinct_map inj_on_def)
    then show "le_account ?e' = le_account ?e \<and> entry_signed_minor ?e' = - entry_signed_minor ?e"
      using in' d by (cases "le_direction ?e") (simp_all add: l entry_signed_minor_def flip_direction_def)
  qed
qed

lemma net_of_mirror:
  assumes "list_all2 (\<lambda>e e'. le_account e' = le_account e \<and> entry_signed_minor e' = - entry_signed_minor e) L es"
  shows "entry_net (filter (\<lambda>e. le_account e = aid) es) = - entry_net (filter (\<lambda>e. le_account e = aid) L)"
  using assms by (induction rule: list_all2_induct) (auto simp: entry_net_def)

lemma net_sort: "entry_net (filter P (sort_key f xs)) = entry_net (filter P xs)"
proof -
  have "mset (map entry_signed_minor (filter P (sort_key f xs))) = mset (map entry_signed_minor (filter P xs))"
    by (simp add: mset_filter)
  then show ?thesis unfolding entry_net_def by (metis sum_mset_sum_list)
qed

lemma reverse_spec:
  assumes r: "reverse E t key by s = Inr (res, s')" and ok: "ledger_ok s" and t: "t \<in> set (transactions s)"
  shows "ledger_ok s'" "result_created res" "txn_reverses (result_transaction res) = Some (txn_id t)"
    "account_balance s' aid = account_balance s aid - entry_net (filter (\<lambda>e. le_account e = aid) (entries_of (txn_id t) s))"
proof -
  define L where "L = list_for_transaction (txn_id t) s"
  obtain ls res0 s1 where tr: "traverse (flipped_line s) L = Inr ls"
    and po: "post E \<lparr>pr_key = key, pr_purpose = ''reversal'', pr_merchant = txn_merchant t,
              pr_currency = txn_currency t, pr_livemode = txn_livemode t,
              pr_reference_type = ''ledger_transaction'', pr_reference_id = txn_id t,
              pr_lines = ls, pr_created_by = by, pr_fingerprint = txn_fingerprint t,
              pr_on_conflict = RaiseConflict\<rparr> s = Inr (res0, s1)"
    and res: "res = res0\<lparr>result_transaction := (result_transaction res0)\<lparr>txn_reverses := Some (txn_id t)\<rparr>\<rparr>"
    and s': "s' = s1\<lparr>transactions := update_where (\<lambda>x. txn_id x = txn_id (result_transaction res0))
                  (\<lambda>x. x\<lparr>txn_reverses := Some (txn_id t)\<rparr>) (transactions s1)\<rparr>"
    using r by (auto simp: reverse_def bindE_Inr_iff Let_def L_def)
  have cr: "result_created res0" using post_existing(3) [OF po] by auto
  have aok: "accounts_ok s" using ok by (simp add: ledger_ok_def)
  obtain es where p: "posted E \<lparr>pr_key = key, pr_purpose = ''reversal'', pr_merchant = txn_merchant t,
              pr_currency = txn_currency t, pr_livemode = txn_livemode t,
              pr_reference_type = ''ledger_transaction'', pr_reference_id = txn_id t,
              pr_lines = ls, pr_created_by = by, pr_fingerprint = txn_fingerprint t,
              pr_on_conflict = RaiseConflict\<rparr> (result_transaction res0) es s s1"
    using post_created [OF po cr aok] by blast
  then obtain new where new: "accounts s1 = accounts s @ new" and aok1: "accounts_ok s1" and ent: "entries s1 = entries s @ es"
    and l2: "list_all2 (entry_for_line s1 (env_now E) (txn_id (result_transaction res0)) (txn_merchant t) (txn_currency t) (txn_livemode t)) ls es"
    by (auto simp: posted_def)
  have L: "set L \<subseteq> set (entries_of (txn_id t) s)" by (auto simp: L_def list_for_transaction_def entries_of_def)
  note mir = net_of_mirror [OF reversed_entries [OF ok t traverse_list_all2 [OF tr] L l2 aok1 new]]
  show "ledger_ok s'" unfolding s' by (intro ledger_ok_update_reverses posted_ledger_ok [OF p ok])
  show "result_created res" using cr by (simp add: res)
  show "txn_reverses (result_transaction res) = Some (txn_id t)" by (simp add: res)
  have "entry_net (filter (\<lambda>e. le_account e = aid) L) = entry_net (filter (\<lambda>e. le_account e = aid) (entries_of (txn_id t) s))"
    unfolding L_def list_for_transaction_def entries_of_def by (rule net_sort)
  then show "account_balance s' aid = account_balance s aid - entry_net (filter (\<lambda>e. le_account e = aid) (entries_of (txn_id t) s))"
    using mir [of aid] by (simp add: account_balance_def s' ent entry_net_def)
qed

section \<open>Success\<close>

text \<open>
  The package \<^verbatim>\<open>ulid\<close> never repeats a body: the supply is injective and no identifier it will
  still mint is in use.
\<close>

definition supply_fresh :: "env \<Rightarrow> 'a ledger_scheme \<Rightarrow> bool" where
  "supply_fresh E s \<longleftrightarrow> inj (env_ulid E) \<and> (\<forall>n \<ge> id_supply s.
      ''acct_'' @ env_ulid E n \<notin> acct_id ` set (accounts s) \<and> ''txn_'' @ env_ulid E n \<notin> txn_id ` set (transactions s)
    \<and> ''le_'' @ env_ulid E n \<notin> le_id ` set (entries s) \<and> ''evt_'' @ env_ulid E n \<notin> ev_id ` set (outbox s))"

definition line_key :: "string option \<Rightarrow> string \<Rightarrow> bool \<Rightarrow> posting_line \<Rightarrow> string option \<times> string \<times> string \<times> bool" where
  "line_key m c lm l = (if is_platform_account (account_type l) then None else m, account_type l, c, lm)"

text \<open>Every line names a known account type and no account it would use is frozen or closed.\<close>

definition lines_postable :: "string option \<Rightarrow> string \<Rightarrow> bool \<Rightarrow> posting_line list \<Rightarrow> 'a ledger_scheme \<Rightarrow> bool" where
  "lines_postable m c lm ls s \<longleftrightarrow> (\<forall>l\<in>set ls. map_of NORMAL_BALANCE_BY_TYPE (account_type l) \<noteq> None
     \<and> (\<forall>a\<in>set (accounts s). account_key a = line_key m c lm l \<longrightarrow> acct_status a \<notin> {''frozen'', ''closed''}))"

lemma new_account_fields [simp]:
  "acct_id (new_account E i m t nb c l) = i" "acct_status (new_account E i m t nb c l) = ''active''"
  by (simp_all add: new_account_def)

lemma get_or_create_ok:
  assumes "supply_fresh E s" "map_of NORMAL_BALANCE_BY_TYPE t = Some nb"
  shows "\<exists>a s'. get_or_create E m t c l s = Inr (a, s') \<and> (s' = s \<or>
    (a = new_account E (''acct_'' @ env_ulid E (id_supply s)) m t nb c l
     \<and> s' = s\<lparr>accounts := accounts s @ [a], id_supply := Suc (id_supply s)\<rparr>))"
proof (cases "find_one m t c l s")
  case None
  have i: "\<forall>b\<in>set (accounts s). acct_id b \<noteq> ''acct_'' @ env_ulid E (id_supply s)"
    using assms(1) by (force simp: supply_fresh_def)
  have k: "\<forall>b\<in>set (accounts s). account_key b \<noteq> (m, t, c, l)"
    using None by (force simp: find_one_None)
  show ?thesis using None assms(2) i k
    by (simp add: get_or_create_def get_or_create_racing_def mint_def new_id_def OWNED_PREFIXES_def Let_def
        insert_account_def)
qed (use assms in \<open>simp add: get_or_create_def get_or_create_racing_def\<close>)

lemma supply_fresh_account:
  assumes "supply_fresh E s" "acct_id a = ''acct_'' @ env_ulid E (id_supply s)"
  shows "supply_fresh E (s\<lparr>accounts := accounts s @ [a], id_supply := Suc (id_supply s)\<rparr>)"
  using assms by (auto simp: supply_fresh_def inj_def) (metis Suc_n_not_le_n)

lemma supply_fresh_Suc: "supply_fresh E s \<Longrightarrow> supply_fresh E (s\<lparr>id_supply := Suc (id_supply s)\<rparr>)"
  by (simp add: supply_fresh_def)

lemma materialise_ok:
  assumes "supply_fresh E s" "lines_postable m c lm ls s" "accounts_ok s"
  shows "\<exists>es s'. materialise_entries E tid m c lm n ls s = Inr (es, s') \<and> supply_fresh E s' \<and> id_supply s \<le> id_supply s'
    \<and> (\<exists>ns. map le_id es = map (\<lambda>n. ''le_'' @ env_ulid E n) ns \<and> distinct ns
          \<and> (\<forall>n\<in>set ns. id_supply s \<le> n \<and> n < id_supply s'))"
  using assms
proof (induction ls arbitrary: n s)
  case (Cons l ls)
  let ?m = "if is_platform_account (account_type l) then None else m"
  obtain nb where nb: "map_of NORMAL_BALANCE_BY_TYPE (account_type l) = Some nb"
    using Cons.prems(2) by (auto simp: lines_postable_def)
  obtain a s1 where g: "get_or_create E ?m (account_type l) c lm s = Inr (a, s1)"
    and s1: "s1 = s \<or> (a = new_account E (''acct_'' @ env_ulid E (id_supply s)) ?m (account_type l) nb c lm
        \<and> s1 = s\<lparr>accounts := accounts s @ [a], id_supply := Suc (id_supply s)\<rparr>)"
    using get_or_create_ok [OF Cons.prems(1) nb, of ?m c lm] by blast
  have key: "account_key a = line_key m c lm l" "a \<in> set (accounts s1)"
    using resolver.resolve_keyed [OF g] by (simp_all add: line_key_def)
  have fr1: "supply_fresh E s1" using s1 Cons.prems(1) supply_fresh_account new_account_fields(1) by metis
  have st: "acct_status a \<notin> {''frozen'', ''closed''}"
    using s1 key Cons.prems(2) by (auto simp: lines_postable_def)
  let ?s2 = "s1\<lparr>id_supply := Suc (id_supply s1)\<rparr>"
  have post2: "lines_postable m c lm ls ?s2"
    using s1 Cons.prems(2) by (auto simp: lines_postable_def)
  have "accounts_ok ?s2" using resolver.resolve_chart [OF g Cons.prems(3)] by simp
  from Cons.IH [OF supply_fresh_Suc [OF fr1] post2 this, of "Suc n"] obtain es s' ns where
    ih: "materialise_entries E tid m c lm (Suc n) ls ?s2 = Inr (es, s')" "supply_fresh E s'" "Suc (id_supply s1) \<le> id_supply s'"
      "map le_id es = map (\<lambda>n. ''le_'' @ env_ulid E n) ns" "distinct ns" "\<forall>n\<in>set ns. Suc (id_supply s1) \<le> n \<and> n < id_supply s'"
    by auto
  have mint: "mint E ''le'' s1 = Inr (''le_'' @ env_ulid E (id_supply s1), ?s2)"
    by (simp add: mint_def new_id_def OWNED_PREFIXES_def)
  have le: "id_supply s \<le> id_supply s1" using s1 by auto
  let ?e = "\<lparr>le_id = ''le_'' @ env_ulid E (id_supply s1), le_transaction = tid, le_account = acct_id a, le_direction = direction l,
      le_amount = line_amount l, le_currency = c, le_livemode = lm, le_sequence = n, le_created_at = env_now E\<rparr>"
  have "materialise_entries E tid m c lm n (l # ls) s = Inr (?e # es, s')"
    using g st mint ih(1) by simp
  moreover have "map le_id (?e # es) = map (\<lambda>n. ''le_'' @ env_ulid E n) (id_supply s1 # ns)" using ih(4) by simp
  moreover have "distinct (id_supply s1 # ns)" "\<forall>n\<in>set (id_supply s1 # ns). id_supply s \<le> n \<and> n < id_supply s'"
    using ih(3,5,6) le by fastforce+
  moreover have "id_supply s \<le> id_supply s'" using le ih(3) by simp
  ultimately show ?case using ih(2) by blast
qed (auto intro: exI [of _ "[]"])

lemma claim_row_id [simp]: "txn_id (claim_row E i r) = i"
  by (simp add: claim_row_def)

lemma post_succeeds:
  assumes ok: "ledger_ok s" and fr: "supply_fresh E s" and wf: "well_formed_lines (pr_lines r)"
    and key: "find_by_idempotency_key (pr_key r) s = None"
    and po: "lines_postable (pr_merchant r) (pr_currency r) (pr_livemode r) (pr_lines r) s"
    and topic: "is_ok (topic_for (env_contracts E) ''ledger.transaction_posted'')"
  shows "\<exists>res s'. post E r s = Inr (res, s') \<and> result_created res"
proof -
  let ?i = "''txn_'' @ env_ulid E (id_supply s)" and ?ls = "pr_lines r"
  let ?t = "claim_row E ?i r"
  let ?s1 = "s\<lparr>id_supply := Suc (id_supply s), transactions := transactions s @ [?t]\<rparr>"
  have ti: "txn_id ?t = ?i" by (simp add: claim_row_def)
  have new: "\<forall>x\<in>set (transactions s). txn_id x \<noteq> ?i" using fr by (force simp: supply_fresh_def)
  have claim: "claim_idempotency_key E r s = Inr (\<lparr>claim_transaction_id = ?i, claim_created = True, claim_fingerprint_matches = True\<rparr>, ?s1)"
    using key new by (auto simp: claim_idempotency_key_def mint_def new_id_def OWNED_PREFIXES_def)
  have get: "get_transaction_or_raise ?i ?s1 = Inr ?t"
    using new by (simp add: get_transaction_or_raise_def find_transaction_def find_first_None [THEN iffD2] ti [simplified])
  have fr1: "supply_fresh E ?s1" using fr ti by (auto simp: supply_fresh_def inj_def) (metis Suc_n_not_le_n)
  have "accounts_ok ?s1" using ok by (simp add: ledger_ok_def accounts_ok_def)
  moreover have "lines_postable (pr_merchant r) (pr_currency r) (pr_livemode r) ?ls ?s1" using po by (simp add: lines_postable_def)
  ultimately obtain es s2 ns where
    m: "materialise_entries E ?i (pr_merchant r) (pr_currency r) (pr_livemode r) 1 ?ls ?s1 = Inr (es, s2)" and fr2: "supply_fresh E s2"
    and ns: "map le_id es = map (\<lambda>n. ''le_'' @ env_ulid E n) ns" "distinct ns" "\<forall>n\<in>set ns. id_supply ?s1 \<le> n"
    using materialise_ok [OF fr1, of "pr_merchant r" "pr_currency r" "pr_livemode r" ?ls ?i 1] by blast
  note ms = materialise_spec [OF m \<open>accounts_ok ?s1\<close>]
  have e2: "entries s2 = entries s" "outbox s2 = outbox s" using ms by (auto simp: same_rows_def)
  have l2: "list_all2 (entry_for_line s2 (env_now E) ?i (pr_merchant r) (pr_currency r) (pr_livemode r)) ?ls es" using ms by blast
  have ids: "distinct (map le_id (entries s @ es))"
  proof -
    have "distinct (map le_id es)" unfolding ns(1) using ns(2) fr
      by (auto simp: distinct_map inj_on_def supply_fresh_def inj_def)
    moreover have "x \<notin> le_id ` set (entries s)" if "x \<in> le_id ` set es" for x
    proof -
      have "x \<in> set (map le_id es)" using that by simp
      then obtain n where "n \<in> set ns" "x = ''le_'' @ env_ulid E n" unfolding ns(1) by auto
      moreover from this have "id_supply s \<le> n" using ns(3) by fastforce
      then have "''le_'' @ env_ulid E n \<notin> le_id ` set (entries s)" using fr by (simp add: supply_fresh_def)
      ultimately show ?thesis by simp
    qed
    ultimately show ?thesis using ok by (auto simp: ledger_ok_def)
  qed
  have tid: "\<forall>e\<in>set es. le_transaction e = ?i \<and> 0 < le_amount e"
  proof
    fix e assume "e \<in> set es"
    then obtain j where "j < length ?ls" "entry_for_line s2 (env_now E) ?i (pr_merchant r) (pr_currency r) (pr_livemode r) (?ls ! j) e"
      using l2 by (metis in_set_conv_nth list_all2_conv_all_nth)
    then show "le_transaction e = ?i \<and> 0 < le_amount e"
      using wf by (simp add: entry_for_line_def well_formed_lines_def)
  qed
  have seqs: "distinct (map (\<lambda>e. (le_transaction e, le_sequence e)) (entries s @ es))"
  proof -
    have "distinct (map le_sequence es)" using ms by (metis distinct_upt)
    then have "distinct (map (\<lambda>e. (le_transaction e, le_sequence e)) es)"
      by (auto simp: distinct_map inj_on_def)
    moreover have "\<forall>e\<in>set (entries s). le_transaction e \<noteq> ?i"
      using ok new by (fastforce simp: ledger_ok_def entry_placed_def)
    ultimately show ?thesis using ok tid by (auto simp: ledger_ok_def)
  qed
  have ins: "insert_entries es s2 = Inr (s2\<lparr>entries := entries s @ es\<rparr>)"
    using ids seqs tid by (simp add: insert_entries_def e2 Let_def)
  let ?s4 = "apply_balance_delta E (pr_merchant r) (pr_currency r) (pr_livemode r) ?ls ?i (s2\<lparr>entries := entries s @ es\<rparr>)"
  have "id_supply ?s4 = id_supply s2"
    by (auto simp: apply_balance_delta_def apply_delta_def Let_def split: option.splits)
  then have ev: "''evt_'' @ env_ulid E (id_supply ?s4) \<notin> set (map ev_id (outbox ?s4))"
    using fr2 by (simp add: supply_fresh_def)
  have "txn_id ?t \<noteq> []" by (simp add: claim_row_def)
  then have "\<exists>x s5. publish_posted E ?t es ?s4 = Inr (x, s5)"
    using ev topic
    by (auto simp: publish_posted_def publish_def resolve_correlation_def mint_def new_id_def OWNED_PREFIXES_def
        insert_outbox_def is_ok_def split: sum.splits)
  then show ?thesis
    using wf [folded assert_invariants_iff] claim get m ins by (auto simp: post_def ti Let_def)
qed

section \<open>Reachable books\<close>

lemma find_account_update:
  "(\<And>a. acct_id (f a) = acct_id a) \<Longrightarrow>
   find_account j (update_account i f s) = map_option (\<lambda>a. if acct_id a = i then f a else a) (find_account j s)"
proof -
  assume f: "\<And>a. acct_id (f a) = acct_id a"
  have "find_first (\<lambda>a. acct_id a = j) (update_where (\<lambda>a. acct_id a = i) f as) =
      map_option (\<lambda>a. if acct_id a = i then f a else a) (find_first (\<lambda>a. acct_id a = j) as)" for as
    by (induction as) (auto simp: update_where_def f)
  then show ?thesis by (simp add: find_account_def update_account_def)
qed

lemma ledger_ok_update_account:
  assumes ok: "ledger_ok s" and f: "\<And>a. acct_id (f a) = acct_id a" "\<And>a. account_key (f a) = account_key a"
    "\<And>a. acct_normal (f a) = acct_normal a"
  shows "ledger_ok (update_account i f s)"
proof -
  let ?s = "update_account i f s" and ?g = "\<lambda>a. if acct_id a = i then f a else a"
  have g: "acct_type (?g a) = acct_type a" "acct_merchant (?g a) = acct_merchant a" "account_key (?g a) = account_key a" for a
    using f(2) [of a] by (auto simp: account_key_def)
  have rows: "entries ?s = entries s" "transactions ?s = transactions s" "balance_cache ?s = balance_cache s"
    by (simp_all add: update_account_def)
  have fa: "find_account j ?s = map_option ?g (find_account j s)" for j by (rule find_account_update [OF f(1)])
  have "accounts_ok ?s"
    using ok g f unfolding ledger_ok_def accounts_ok_def update_account_def
    by (auto simp: update_where_map list_all_iff update_where_set expected_normal_balance_def)
  moreover have "entry_placed ?s e" if pl: "entry_placed s e" for e
  proof -
    obtain t a where "t \<in> set (transactions s)" and h: "0 < le_amount e" "txn_id t = le_transaction e"
      "find_account (le_account e) s = Some a" "le_currency e = txn_currency t" "le_livemode e = txn_livemode t"
      "le_created_at e = txn_posted_at t" "account_key a =
        (if is_platform_account (acct_type a) then None else txn_merchant t, acct_type a, txn_currency t, txn_livemode t)"
      using pl by (auto simp: entry_placed_def)
    then show ?thesis unfolding entry_placed_def rows fa
      by (intro conjI bexI [of _ t] exI [of _ "?g a"]) (simp_all only: g h option.map)
  qed
  moreover have "bucket_part ?s t k = bucket_part s t k" for t k
    by (intro ext) (auto simp: bucket_part_def fa g split: option.splits)
  then have "cache_agrees ?s"
    using ok by (simp add: ledger_ok_def cache_agrees_def row_agrees_def cached_def bucket_balance_def rows del: split_paired_All)
  ultimately show ?thesis using ok by (simp add: ledger_ok_def rows txn_balanced_def entries_of_def)
qed

lemma grow_ledger_ok:
  assumes ok: "ledger_ok s" and a: "accounts_ok s'" "accounts s' = accounts s @ new"
    and same: "transactions s' = transactions s" "entries s' = entries s" "balance_cache s' = balance_cache s"
  shows "ledger_ok s'"
proof -
  have pl: "\<forall>e\<in>set (entries s). entry_placed s e" using ok by (simp add: ledger_ok_def)
  have "bucket_balance s' t k = bucket_balance s t k" for t k
    unfolding bucket_balance_def same
    by (intro arg_cong [where f = sum_list] map_cong refl bucket_part_grow [OF a(2)]) (use pl in \<open>auto simp: entry_placed_def\<close>)
  then have "cache_agrees s'"
    using ok by (simp add: ledger_ok_def cache_agrees_def row_agrees_def cached_def same del: split_paired_All)
  moreover have "entry_placed s' e" if "e \<in> set (entries s)" for e
    using entry_placed_grow [of s e s' new "[]"] pl that a(2) same(1) by simp
  ultimately show ?thesis using ok a same by (simp add: ledger_ok_def txn_balanced_def entries_of_def)
qed

lemma get_or_create_ledger_ok: "get_or_create E m t c l s = Inr (a, s') \<Longrightarrow> ledger_ok s \<Longrightarrow> ledger_ok s'"
  using resolver.resolve_grows resolver.resolve_frame resolver.resolve_chart grow_ledger_ok
  by (metis ledger_ok_def)

lemma bootstrap_types_ledger_ok:
  "bootstrap_types E ts m c l s = Inr (as, s') \<Longrightarrow> ledger_ok s \<Longrightarrow> ledger_ok s'"
  by (induction ts arbitrary: s as) (auto simp: bindE_Inr_iff intro: get_or_create_ledger_ok)

inductive ledger_step :: "'a ledger_scheme \<Rightarrow> 'a ledger_scheme \<Rightarrow> bool" where
  step_post: "post E r s = Inr (res, s') \<Longrightarrow> ledger_step s s'"
| step_reverse: "t \<in> set (transactions s) \<Longrightarrow> reverse E t key by s = Inr (res, s') \<Longrightarrow> ledger_step s s'"
| step_resolve: "get_or_create E m t c l s = Inr (a, s') \<Longrightarrow> ledger_step s s'"
| step_bootstrap: "bootstrap E m c l s = Inr (as, s') \<Longrightarrow> ledger_step s s'"
| step_freeze: "freeze E i s = Inr (a, s') \<Longrightarrow> ledger_step s s'"
| step_status: "set_status i st s = Inr (a, s') \<Longrightarrow> ledger_step s s'"
| step_publish: "publish E ty pl m cid ca lm s = Inr (i, s') \<Longrightarrow> ledger_step s s'"

inductive_cases ledger_stepE: "ledger_step s s'"

inductive reachable_books :: "'a ledger_scheme \<Rightarrow> bool" where
  books_init: "\<lbrakk>accounts s = []; transactions s = []; entries s = []; balance_cache s = []\<rbrakk> \<Longrightarrow> reachable_books s"
| books_step: "reachable_books s \<Longrightarrow> ledger_step s s' \<Longrightarrow> reachable_books s'"

lemma ledger_step_ok: "ledger_step s s' \<Longrightarrow> ledger_ok s \<Longrightarrow> ledger_ok s'"
proof (induction rule: ledger_step.induct)
  case (step_freeze E i s a s')
  then show ?case
    by (auto simp: freeze_def Let_def account_key_def split: option.splits if_splits intro!: ledger_ok_update_account)
next
  case (step_status i st s a s')
  then show ?case by (auto simp: set_status_def bindE_Inr_iff account_key_def intro!: ledger_ok_update_account)
qed (auto simp: bootstrap_def intro: post_ledger_ok reverse_spec(1) get_or_create_ledger_ok bootstrap_types_ledger_ok
      same_books_ledger_ok dest: publish_same(1))

lemma blank_books_ok:
  "\<lbrakk>accounts s = []; transactions s = []; entries s = []; balance_cache s = []\<rbrakk> \<Longrightarrow> ledger_ok s"
  by (simp add: ledger_ok_def accounts_ok_def cache_agrees_def row_agrees_def cached_def zero_balance_def bucket_balance_def)

lemma reachable_books_ok: "reachable_books s \<Longrightarrow> ledger_ok s"
  by (induction rule: reachable_books.induct) (auto intro: ledger_step_ok blank_books_ok)

end
