(* ===== verification/Runs.thy ===== *)
theory Runs
  imports Books
begin

text \<open>
  Runs of the books: what stays true over any sequence of steps. The invariant holds at the end
  of a run that starts from books that satisfy it, and a key once taken stays with the same
  transaction; what a successful \<^verbatim>\<open>post\<close> appends is read off row by row.
\<close>

text \<open>Over any run of the books the invariant holds and a taken key stays with its transaction.\<close>

lemma ledger_steps_ok: "ledger_step\<^sup>*\<^sup>* s s' \<Longrightarrow> ledger_ok s \<Longrightarrow> ledger_ok s'"
  by (induction rule: rtranclp_induct) (auto intro: ledger_step_ok)

definition holds_key :: "string \<Rightarrow> string \<Rightarrow> 'a ledger_scheme \<Rightarrow> bool" where
  "holds_key k i s \<longleftrightarrow> (\<exists>t. find_by_idempotency_key k s = Some t \<and> txn_id t = i)"

lemma holds_key_cong: "transactions s' = transactions s \<Longrightarrow> holds_key k i s' = holds_key k i s"
  by (simp add: holds_key_def find_by_idempotency_key_def)

lemma find_first_update_key:
  "find_first (\<lambda>t. txn_key t = k) (update_where P (\<lambda>x. x\<lparr>txn_reverses := v\<rparr>) ts) =
   map_option (\<lambda>t. if P t then t\<lparr>txn_reverses := v\<rparr> else t) (find_first (\<lambda>t. txn_key t = k) ts)"
  by (induction ts) (auto simp: update_where_def)

lemma reverse_key_stable:
  assumes "reverse E t key by s = Inr (res, s')" "accounts_ok s" "holds_key k i s"
  shows "holds_key k i s'"
proof -
  obtain r res0 s1 P where "post E r s = Inr (res0, s1)"
    and s': "s' = s1\<lparr>transactions := update_where P (\<lambda>x. x\<lparr>txn_reverses := Some (txn_id t)\<rparr>) (transactions s1)\<rparr>"
    using assms(1) by (auto simp: reverse_def bindE_Inr_iff Let_def)
  then have "holds_key k i s1" using assms(2,3) post_key_stable by (fastforce simp: holds_key_def)
  then obtain u where "find_first (\<lambda>t. txn_key t = k) (transactions s1) = Some u" "txn_id u = i"
    by (auto simp: holds_key_def find_by_idempotency_key_def)
  then show ?thesis by (simp add: s' holds_key_def find_by_idempotency_key_def find_first_update_key)
qed

lemma bootstrap_types_frame:
  "bootstrap_types E ts m c l s = Inr (as, s') \<Longrightarrow> transactions s' = transactions s"
  by (induction ts arbitrary: s as) (auto simp: bindE_Inr_iff dest: resolver.resolve_frame)

lemma step_key_stable:
  assumes "ledger_step s s'" "accounts_ok s" "holds_key k i s"
  shows "holds_key k i s'"
  using assms
proof cases
  case step_post
  then show ?thesis using assms(2,3) post_key_stable by (fastforce simp: holds_key_def)
next
  case step_reverse
  then show ?thesis using reverse_key_stable assms(2,3) by blast
next
  case step_publish
  then show ?thesis using assms(3) publish_same(1) holds_key_cong by (metis same_books_def)
next
  case step_resolve
  then show ?thesis using assms(3) resolver.resolve_frame holds_key_cong by blast
next
  case step_bootstrap
  then show ?thesis using assms(3) bootstrap_types_frame holds_key_cong unfolding bootstrap_def by blast
next
  case step_freeze
  then have "transactions s' = transactions s"
    by (auto simp: freeze_def Let_def update_account_def split: option.splits if_splits)
  then show ?thesis using assms(3) holds_key_cong by blast
next
  case step_status
  then have "transactions s' = transactions s" by (auto simp: set_status_def bindE_Inr_iff update_account_def)
  then show ?thesis using assms(3) holds_key_cong by blast
qed

lemma steps_key_stable:
  assumes "ledger_step\<^sup>*\<^sup>* s s'" "ledger_ok s \<and> holds_key k i s"
  shows "\<exists>t. find_by_idempotency_key k s' = Some t \<and> txn_id t = i"
proof -
  have "ledger_ok s' \<and> holds_key k i s'" using assms
  proof (induction rule: rtranclp_induct)
    case (step y z)
    then have "accounts_ok y" by (simp add: ledger_ok_def)
    then show ?case using step ledger_step_ok step_key_stable by blast
  qed
  then show ?thesis by (simp add: holds_key_def)
qed

lemma post_takes_key:
  assumes p: "post E r s = Inr (res, s')" and ok: "ledger_ok s"
  shows "ledger_ok s' \<and> holds_key (pr_key r) (txn_id (result_transaction res)) s'"
proof (cases "result_created res")
  case True
  have "accounts_ok s" using ok by (simp add: ledger_ok_def)
  then show ?thesis using posted_key [OF _ ok] post_created [OF p True] post_ledger_ok [OF p ok] by (auto simp: holds_key_def)
next
  case False
  then obtain t where t: "find_by_idempotency_key (pr_key r) s = Some t" "find_transaction (txn_id t) s = Some (result_transaction res)"
    using post_existing(4) [OF p] by blast
  then have "t \<in> set (transactions s)" by (auto simp: find_by_idempotency_key_def dest: find_first_SomeD)
  moreover have "distinct (map txn_id (transactions s))" using ok by (simp add: ledger_ok_def)
  ultimately have "result_transaction res = t" using t(2) find_transaction_in [of s t] by simp
  then show ?thesis using t(1) post_existing(1) [OF p False] post_ledger_ok [OF p ok]
    by (simp add: holds_key_def same_books_def find_by_idempotency_key_def)
qed

lemma posted_rows:
  assumes "posted E r t es s s'"
  shows "transactions s' = transactions s @ [t]" "txn_key t = pr_key r" "entries s' = entries s @ es"
    "map (\<lambda>e. (le_transaction e, le_direction e, le_amount e, le_currency e, le_livemode e)) es =
        map (\<lambda>l. (txn_id t, direction l, line_amount l, pr_currency r, pr_livemode r)) (pr_lines r)"
    "map le_sequence es = [1 ..< Suc (length (pr_lines r))]"
    "\<exists>ev. outbox s' = outbox s @ [ev] \<and> ev_type ev = ''ledger.transaction_posted''"
proof -
  have l2: "list_all2 (entry_for_line s' (env_now E) (txn_id t) (pr_merchant r) (pr_currency r) (pr_livemode r)) (pr_lines r) es"
    and t: "t = claim_row E (txn_id t) r" using assms by (simp_all add: posted_def)
  show "map (\<lambda>e. (le_transaction e, le_direction e, le_amount e, le_currency e, le_livemode e)) es =
        map (\<lambda>l. (txn_id t, direction l, line_amount l, pr_currency r, pr_livemode r)) (pr_lines r)"
    using l2 by (induction rule: list_all2_induct) (auto simp: entry_for_line_def)
  show "txn_key t = pr_key r" by (subst t) (simp add: claim_row_def)
qed (use assms in \<open>auto simp: posted_def\<close>)

text \<open>The cache holds one row per merchant, currency and mode.\<close>

lemma apply_balance_delta_keys:
  "distinct (map fst (balance_cache s)) \<Longrightarrow> distinct (map fst (balance_cache (apply_balance_delta E m c l ls t s)))"
  by (auto simp: apply_balance_delta_def apply_delta_def Let_def split: option.split)

lemma post_cache_keys:
  assumes "post E r s = Inr (res, s')" "accounts_ok s" "distinct (map fst (balance_cache s))"
  shows "distinct (map fst (balance_cache s'))"
proof (cases "result_created res")
  case True
  then show ?thesis using post_created [OF assms(1) True assms(2)] apply_balance_delta_keys [OF assms(3)] by (auto simp: posted_def)
next
  case False
  then show ?thesis using post_existing(1) [OF assms(1)] assms(3) by (simp add: same_books_def)
qed

lemma bootstrap_types_cache:
  "bootstrap_types E ts m c l s = Inr (as, s') \<Longrightarrow> balance_cache s' = balance_cache s"
  by (induction ts arbitrary: s as) (auto simp: bindE_Inr_iff dest: resolver.resolve_frame)

lemma step_cache_keys:
  assumes "ledger_step s s'" "accounts_ok s" "distinct (map fst (balance_cache s))"
  shows "distinct (map fst (balance_cache s'))"
  using assms(1)
proof cases
  case step_post
  then show ?thesis using post_cache_keys assms(2,3) by blast
next
  case (step_reverse t E key b res)
  then obtain r res0 s1 P f where "post E r s = Inr (res0, s1)" "s' = s1\<lparr>transactions := update_where P f (transactions s1)\<rparr>"
    by (auto simp: reverse_def bindE_Inr_iff Let_def)
  then show ?thesis using post_cache_keys assms(2,3) by fastforce
next
  case step_resolve
  then show ?thesis using resolver.resolve_frame assms(3) by metis
next
  case step_bootstrap
  then show ?thesis using bootstrap_types_cache assms(3) unfolding bootstrap_def by metis
next
  case step_freeze
  then have "balance_cache s' = balance_cache s"
    by (auto simp: freeze_def Let_def update_account_def split: option.splits if_splits)
  then show ?thesis using assms(3) by simp
next
  case step_status
  then have "balance_cache s' = balance_cache s" by (auto simp: set_status_def bindE_Inr_iff update_account_def)
  then show ?thesis using assms(3) by simp
next
  case step_publish
  then show ?thesis using publish_same(1) assms(3) by (metis same_books_def)
qed

lemma reachable_cache_keys: "reachable_books s \<Longrightarrow> distinct (map fst (balance_cache s))"
proof (induction rule: reachable_books.induct)
  case (books_step s s')
  then have "accounts_ok s" using reachable_books_ok by (auto simp: ledger_ok_def)
  then show ?case using step_cache_keys books_step by blast
qed simp

end
