(* ===== verification/Examples.thy ===== *)
theory Examples
  imports Runs Fx
begin

text \<open>
  Concrete instances for the witnesses of the root theory: the tables of \<^verbatim>\<open>payzeno_contracts\<close> with
  the five currencies the documentation names, a supply of ULID bodies that counts, a clock, and
  small books built by running the operations of the model. Nothing here models code.
\<close>

definition demo_contracts :: contracts where
  "demo_contracts = \<lparr>CURRENCIES = [''USD'', ''EUR'', ''GBP'', ''ILS'', ''JPY''],
     CURRENCY_EXPONENT = map_of [(''USD'', 2), (''EUR'', 2), (''GBP'', 2), (''ILS'', 2), (''JPY'', 0)],
     EVENT_TOPICS = [(''ledger'', [''ledger.transaction_posted'', ''ledger.imbalance_detected'']), (''balances'', [''balance.updated'']),
       (''payouts'', [''payout.scheduled'', ''payout.paid'', ''payout.failed'', ''payout.returned'']),
       (''settlements'', [''settlement.batch_closed'', ''settlement.item_settled'', ''settlement.completed'', ''settlement.reconciliation_failed'',
         ''settlement.duplicate_detected'', ''settlement.variance_detected''])],
     EVENT_SCHEMA_VERSIONS = []\<rparr>"

definition demo_ulid :: "nat \<Rightarrow> string" where
  "demo_ulid n = replicate (26 - length (str_nat n)) CHR ''0'' @ str_nat n"

definition demo_env :: env where
  "demo_env = \<lparr>env_contracts = demo_contracts, env_ulid = demo_ulid, env_now = 1700000000, env_correlation = None\<rparr>"

definition run_post :: "post_request \<Rightarrow> ledger \<Rightarrow> ledger" where
  "run_post r s = (case post demo_env r s of Inr (_, s') \<Rightarrow> s' | Inl _ \<Rightarrow> s)"

definition demo_ctx :: posting_context where
  "demo_ctx = \<lparr>ctx_merchant_id = Some ''mch_1'', ctx_currency = ''USD'', ctx_livemode = True, gross_minor = 10000,
     fee_minor = 180, net_minor = 9820, interchange_minor = 120, scheme_fee_minor = 20, reserve_bps = 500,
     platform_fee_bps = 290, platform_fee_fixed_minor = 30\<rparr>"

definition auth_lines :: "posting_line list" where
  "auth_lines = [debit ''merchant_receivable'' 10000, credit ''authorization_hold'' 10000]"

definition capture_lines :: "posting_line list" where
  "capture_lines = [debit ''processor_clearing'' 10000, credit ''merchant_payable'' 9180, credit ''platform_fee_revenue'' 320,
     credit ''reserve'' 500, debit ''authorization_hold'' 10000, credit ''merchant_receivable'' 10000]"

definition demo_request :: "string \<Rightarrow> string \<Rightarrow> posting_line list \<Rightarrow> post_request" where
  "demo_request purpose item ls = \<lparr>pr_key = purpose @ '':mch_1:'' @ item, pr_purpose = purpose, pr_merchant = Some ''mch_1'',
     pr_currency = ''USD'', pr_livemode = True, pr_reference_type = ''charge'', pr_reference_id = item, pr_lines = ls,
     pr_created_by = ''system'', pr_fingerprint = ''f'', pr_on_conflict = RaiseConflict\<rparr>"

definition auth_request :: post_request where "auth_request = demo_request ''auth'' ''ch_1'' auth_lines"

definition capture_request :: post_request where "capture_request = demo_request ''capture'' ''ch_1'' capture_lines"

definition auth_books :: ledger where "auth_books = run_post auth_request empty_ledger"

definition demo_books :: ledger where "demo_books = run_post capture_request auth_books"

text \<open>A run of \<^verbatim>\<open>post\<close> is a step of the books, whether it committed or rolled back.\<close>

lemma run_post_reachable: "reachable_books s \<Longrightarrow> reachable_books (run_post r s)"
  by (auto simp: run_post_def split: sum.splits intro: books_step step_post)

lemma empty_reachable: "reachable_books empty_ledger"
  by (rule books_init) (simp_all add: empty_ledger_def)

lemma demo_reachable: "reachable_books auth_books" "reachable_books demo_books"
  by (auto simp: auth_books_def demo_books_def intro: run_post_reachable empty_reachable)

lemma demo_bps: "bps_of 10000 290 = 290" "bps_of 10000 500 = 500"
  by code_simp+

text \<open>The lines posted here are the lines the rules build for \<^verbatim>\<open>demo_ctx\<close>.\<close>

lemma demo_currency: "currency_ok demo_ctx" "ctx_currency demo_ctx \<in> SUPPORTED_CURRENCIES demo_contracts"
  by code_simp+

lemma demo_auth_lines: "build demo_contracts AuthPostingRule demo_ctx = Inr auth_lines"
  using built_pair [of "gross_minor demo_ctx" demo_ctx] demo_currency
  by (simp add: AuthPostingRule_build_def auth_lines_def demo_ctx_def)

lemma demo_capture_lines: "build demo_contracts CapturePostingRule demo_ctx = Inr capture_lines"
  using capture_build_spec [of demo_ctx demo_contracts] demo_currency
  by (simp add: demo_ctx_def demo_bps capture_lines_def bigint_def nonzero_lines_def)

lemma demo_ulid_inj: "inj demo_ulid"
  by (rule injI) (metis demo_ulid_def digits_val_zeros str_nat_val)

text \<open>The counting supply is fresh for the books it built: every identifier in use ends in an earlier body.\<close>

definition minted_before :: "'a ledger_scheme \<Rightarrow> bool" where
  "minted_before s \<longleftrightarrow>
     list_all (\<lambda>i. digits_val (drop (length ''txn_'') i) < id_supply s) (map txn_id (transactions s))
     \<and> list_all (\<lambda>i. digits_val (drop (length ''acct_'') i) < id_supply s) (map acct_id (accounts s))
     \<and> list_all (\<lambda>i. digits_val (drop (length ''le_'') i) < id_supply s) (map le_id (entries s))
     \<and> list_all (\<lambda>i. digits_val (drop (length ''evt_'') i) < id_supply s) (map ev_id (outbox s))"

lemma demo_ulid_val [simp]: "digits_val (demo_ulid n) = n"
  by (simp add: demo_ulid_def)

lemma minted_before_fresh: "minted_before s \<Longrightarrow> supply_fresh demo_env s"
proof -
  assume m: "minted_before s"
  have fresh: "p @ demo_ulid n \<notin> f ` set xs"
    if "list_all (\<lambda>i. digits_val (drop (length p) i) < id_supply s) (map f xs)" "id_supply s \<le> n" for p n xs and f :: "'b \<Rightarrow> string"
  proof
    assume "p @ demo_ulid n \<in> f ` set xs"
    then obtain x where "p @ demo_ulid n = f x" "x \<in> set xs" by blast
    moreover from this have "digits_val (drop (length p) (f x)) < id_supply s" using that(1) by (simp add: list_all_iff)
    ultimately show False using that(2) by (metis append_eq_conv_conj demo_ulid_val not_le)
  qed
  have "env_ulid demo_env = demo_ulid" by (simp add: demo_env_def)
  then show "supply_fresh demo_env s"
    unfolding supply_fresh_def using m [unfolded minted_before_def] demo_ulid_inj by (metis fresh)
qed

lemma demo_fresh: "supply_fresh demo_env auth_books"
  by (rule minted_before_fresh) code_simp

end
