(* ===== verification/Calendar.thy ===== *)
theory Calendar
  imports Errors Text
begin

text \<open>
  \<^verbatim>\<open>src/app/domain/calendar.py\<close>: business days per currency and rail. A date is its proleptic
  Gregorian ordinal, as \<^verbatim>\<open>date.toordinal()\<close> gives it, so that adding a \<^verbatim>\<open>timedelta\<close> is addition and
  \<^verbatim>\<open>weekday()\<close> is \<^verbatim>\<open>(ordinal + 6) % 7\<close>; dates past the year 9999 are outside the model. A time of day
  is its minute. Main results: \<^verbatim>\<open>next_business_day\<close> is the first open day on or after its argument,
  and it fails only when 31 days in a row are closed; \<^verbatim>\<open>add_business_days\<close> agrees with
  \<^verbatim>\<open>business_days_between\<close>.
\<close>

type_synonym date = int

text \<open>Instants are microseconds since 1970; their date and time of day in UTC.\<close>

definition SECOND :: int where "SECOND = 1000000"
definition MINUTE :: int where "MINUTE = 60 * SECOND"
definition HOUR :: int where "HOUR = 60 * MINUTE"
definition DAY :: int where "DAY = 24 * HOUR"

definition date_of :: "int \<Rightarrow> date" where "date_of t = t div DAY + 719163"
definition time_of :: "int \<Rightarrow> int" where "time_of t = t mod DAY"
definition midnight :: "int \<Rightarrow> int" where "midnight t = t - t mod DAY"

text \<open>The library's conversion of an ordinal to year, month and day, and the ISO text of a date.\<close>

definition DAYS_BEFORE_MONTH :: "int list" where
  "DAYS_BEFORE_MONTH = [0, 0, 31, 59, 90, 120, 151, 181, 212, 243, 273, 304, 334]"

definition ord2ymd :: "date \<Rightarrow> int \<times> int \<times> int" where
  "ord2ymd d =
    (let n = d - 1; n400 = n div 146097; n = n mod 146097; n100 = n div 36524; n = n mod 36524;
         n4 = n div 1461; n = n mod 1461; n1 = n div 365; n = n mod 365;
         year = n400 * 400 + 1 + n100 * 100 + n4 * 4 + n1
     in if n1 = 4 \<or> n100 = 4 then (year - 1, 12, 31)
        else let leap = (n1 = 3 \<and> (n4 \<noteq> 24 \<or> n100 = 3)); month = (n + 50) div 32;
                 before = (\<lambda>m. DAYS_BEFORE_MONTH ! nat m + (if m > 2 \<and> leap then 1 else 0));
                 month = (if before month > n then month - 1 else month)
             in (year, month, n - before month + 1))"

definition zfill :: "nat \<Rightarrow> int \<Rightarrow> string" where
  "zfill w n = (let s = str_nat (nat n) in replicate (w - length s) CHR ''0'' @ s)"

definition iso_date :: "date \<Rightarrow> string" where
  "iso_date d = (case ord2ymd d of (y, m, dd) \<Rightarrow> zfill 4 y @ ''-'' @ zfill 2 m @ ''-'' @ zfill 2 dd)"

definition month_day :: "date \<Rightarrow> string" where
  "month_day d = (case ord2ymd d of (y, m, dd) \<Rightarrow> zfill 2 m @ zfill 2 dd)"

definition DEFAULT_CUTOFFS :: "(string \<times> int) list" where
  "DEFAULT_CUTOFFS = [(''standard_ach'', 21 * 60), (''same_day_ach'', 15 * 60 + 45), (''sepa'', 15 * 60),
     (''faster_payments'', 17 * 60 + 30), (''debit_ach'', 21 * 60)]"

definition weekday :: "date \<Rightarrow> int" where "weekday d = (d + 6) mod 7"

definition WEEKEND :: "int list" where "WEEKEND = [5, 6]"

definition MAX_LOOKAHEAD_DAYS :: nat where "MAX_LOOKAHEAD_DAYS = 30"

record calendar_day =
  cd_currency :: string
  cd_rail :: string
  cd_date :: date
  cd_is_business_day :: bool
  cd_holiday_name :: "string option"

record calendar =
  cal_days :: "((string \<times> string \<times> date) \<times> calendar_day) list"
  cal_cutoffs :: "(string \<times> int) list"

text \<open>The constructor: a later row replaces an earlier one with the same key, and overrides are layered over the defaults.\<close>

definition mk_calendar :: "calendar_day list \<Rightarrow> (string \<times> int) list \<Rightarrow> calendar" where
  "mk_calendar days cutoffs = \<lparr>cal_days = fold (\<lambda>d. dict_set (cd_currency d, cd_rail d, cd_date d) d) days [],
     cal_cutoffs = fold (\<lambda>(k, v). dict_set k v) cutoffs DEFAULT_CUTOFFS\<rparr>"

definition from_rows :: "calendar_day list \<Rightarrow> calendar" where
  "from_rows rows = mk_calendar (map (\<lambda>r. r\<lparr>cd_currency := strip (cd_currency r)\<rparr>) rows) []"

definition is_business_day :: "calendar \<Rightarrow> date \<Rightarrow> string \<Rightarrow> string \<Rightarrow> bool" where
  "is_business_day cal d c r = (case map_of (cal_days cal) (c, r, d) of
     Some known \<Rightarrow> cd_is_business_day known
   | None \<Rightarrow> weekday d \<notin> set WEEKEND)"

definition holiday_name :: "calendar \<Rightarrow> date \<Rightarrow> string \<Rightarrow> string \<Rightarrow> string option" where
  "holiday_name cal d c r = (case map_of (cal_days cal) (c, r, d) of
     Some known \<Rightarrow> cd_holiday_name known | None \<Rightarrow> None)"

fun look_ahead :: "calendar \<Rightarrow> string \<Rightarrow> string \<Rightarrow> nat \<Rightarrow> date \<Rightarrow> date res" where
  "look_ahead cal c r 0 candidate = raise ValidationError"
| "look_ahead cal c r (Suc n) candidate =
     (if is_business_day cal candidate c r then Inr candidate else look_ahead cal c r n (candidate + 1))"

definition next_business_day :: "calendar \<Rightarrow> date \<Rightarrow> string \<Rightarrow> string \<Rightarrow> date res" where
  "next_business_day cal d c r = look_ahead cal c r (MAX_LOOKAHEAD_DAYS + 1) d"

fun advance :: "calendar \<Rightarrow> string \<Rightarrow> string \<Rightarrow> nat \<Rightarrow> date \<Rightarrow> date res" where
  "advance cal c r 0 cursor = Inr cursor"
| "advance cal c r (Suc n) cursor = bindE (next_business_day cal (cursor + 1) c r) (advance cal c r n)"

definition add_business_days :: "calendar \<Rightarrow> date \<Rightarrow> int \<Rightarrow> string \<Rightarrow> string \<Rightarrow> date res" where
  "add_business_days cal d count c r = (if count < 0 then raise ValidationError
     else bindE (next_business_day cal d c r) (advance cal c r (nat count)))"

definition cutoff_utc :: "calendar \<Rightarrow> string \<Rightarrow> int res" where
  "cutoff_utc cal r = (case map_of (cal_cutoffs cal) r of None \<Rightarrow> raise ValidationError | Some t \<Rightarrow> Inr t)"

function count_days :: "calendar \<Rightarrow> string \<Rightarrow> string \<Rightarrow> date \<Rightarrow> date \<Rightarrow> int \<Rightarrow> int" where
  "count_days cal c r fin cursor n = (if cursor < fin
     then count_days cal c r fin (cursor + 1) (if is_business_day cal cursor c r then n + 1 else n) else n)"
  by pat_completeness auto
termination by (relation "measure (\<lambda>(cal, c, r, fin, cursor, n). nat (fin - cursor))") auto

declare count_days.simps [simp del]

definition business_days_between :: "calendar \<Rightarrow> date \<Rightarrow> date \<Rightarrow> string \<Rightarrow> string \<Rightarrow> int res" where
  "business_days_between cal start fin c r =
     (if fin < start then raise ValidationError else Inr (count_days cal c r fin start 0))"

section \<open>The next business day\<close>

lemma int_range_head:
  fixes d e :: int
  shows "(\<forall>x. d \<le> x \<and> x < e \<longrightarrow> P x) \<longleftrightarrow> (d < e \<longrightarrow> P d) \<and> (\<forall>x. d + 1 \<le> x \<and> x < e \<longrightarrow> P x)"
proof -
  have split: "d \<le> x \<longleftrightarrow> x = d \<or> d + 1 \<le> x" for x by arith
  show ?thesis unfolding split by auto
qed

lemma look_ahead_ok:
  "look_ahead cal c r n d = Inr e \<longleftrightarrow>
     d \<le> e \<and> e < d + int n \<and> is_business_day cal e c r \<and> (\<forall>x. d \<le> x \<and> x < e \<longrightarrow> \<not> is_business_day cal x c r)"
proof (induction n arbitrary: d)
  case (Suc n)
  show ?case
  proof (cases "is_business_day cal d c r")
    case True
    then show ?thesis by (auto intro: order_antisym)
  next
    case False
    have "(\<forall>x. d \<le> x \<and> x < e \<longrightarrow> \<not> is_business_day cal x c r) = (\<forall>x. d + 1 \<le> x \<and> x < e \<longrightarrow> \<not> is_business_day cal x c r)"
      using False by (subst int_range_head) simp
    moreover have "is_business_day cal e c r \<Longrightarrow> (d \<le> e) = (d + 1 \<le> e)" using False by (metis add1_zle_eq order_le_less)
    ultimately show ?thesis using False Suc.IH [of "d + 1"] by auto
  qed
qed auto

lemma look_ahead_fails:
  "(\<exists>e. look_ahead cal c r n d = Inl e) \<longleftrightarrow> (\<forall>x. d \<le> x \<and> x < d + int n \<longrightarrow> \<not> is_business_day cal x c r)"
proof (induction n arbitrary: d)
  case (Suc n)
  have "(\<forall>x. d \<le> x \<and> x < d + int (Suc n) \<longrightarrow> \<not> is_business_day cal x c r) \<longleftrightarrow>
     \<not> is_business_day cal d c r \<and> (\<forall>x. d + 1 \<le> x \<and> x < d + 1 + int n \<longrightarrow> \<not> is_business_day cal x c r)"
    by (subst int_range_head) (simp add: algebra_simps)
  then show ?case using Suc.IH [of "d + 1"] by auto
qed (auto simp: raise_Inl)

lemma look_ahead_error: "look_ahead cal c r n d = Inl e \<Longrightarrow> Inl e = raise ValidationError"
  by (induction n arbitrary: d) (auto simp: raise_def split: if_splits)

lemma next_business_day_ok:
  "next_business_day cal d c r = Inr e \<longleftrightarrow>
     d \<le> e \<and> e \<le> d + 30 \<and> is_business_day cal e c r \<and> (\<forall>x. d \<le> x \<and> x < e \<longrightarrow> \<not> is_business_day cal x c r)"
  by (auto simp: next_business_day_def look_ahead_ok MAX_LOOKAHEAD_DAYS_def)

lemma weekday_gap: "\<exists>k\<in>{0, 1, 2}. weekday (d + k) \<notin> set WEEKEND"
  unfolding weekday_def WEEKEND_def by simp presburger

text \<open>Days the table does not know follow the weekday rule, so a walk can only fail inside the table.\<close>

lemma next_business_day_unknown:
  assumes "\<forall>x. d \<le> x \<and> x \<le> d + 2 \<longrightarrow> map_of (cal_days cal) (c, r, x) = None"
  shows "\<exists>e \<le> d + 2. next_business_day cal d c r = Inr e"
proof -
  obtain k where k: "k \<in> {0, 1, 2}" "weekday (d + k) \<notin> set WEEKEND" using weekday_gap by blast
  then have open_day: "is_business_day cal (d + k) c r" using assms by (auto simp: is_business_day_def)
  then have "\<not> (\<exists>e. next_business_day cal d c r = Inl e)"
    using k unfolding next_business_day_def look_ahead_fails
    by (intro notI, elim allE [of _ "d + k"]) (auto simp: MAX_LOOKAHEAD_DAYS_def)
  then obtain e where e: "next_business_day cal d c r = Inr e" by (metis sum.exhaust)
  then have "\<not> d + k < e" using open_day k by (auto simp: next_business_day_ok)
  then show ?thesis using e k by auto
qed

section \<open>Counting\<close>

lemma count_days_card:
  "count_days cal c r fin cursor n = n + int (card {x. cursor \<le> x \<and> x < fin \<and> is_business_day cal x c r})"
proof (induction cal c r fin cursor n rule: count_days.induct)
  case (1 cal c r fin cursor n)
  let ?S = "\<lambda>a. {x. a \<le> x \<and> x < fin \<and> is_business_day cal x c r}"
  show ?case
  proof (cases "cursor < fin")
    case True
    have "?S cursor = (if is_business_day cal cursor c r then insert cursor (?S (cursor + 1)) else ?S (cursor + 1))"
      using True by (auto) (metis add1_zle_eq order_le_less)+
    moreover have "finite (?S (cursor + 1))" by (rule finite_subset [of _ "{cursor + 1 ..< fin}"]) auto
    ultimately show ?thesis using True 1 by (subst count_days.simps) (simp add: card_insert_if)
  next
    case False
    then have empty: "?S cursor = {}" by auto
    show ?thesis unfolding empty using False by (subst count_days.simps) simp
  qed
qed

definition open_days :: "calendar \<Rightarrow> string \<Rightarrow> string \<Rightarrow> date \<Rightarrow> date \<Rightarrow> date set" where
  "open_days cal c r a b = {x. a \<le> x \<and> x < b \<and> is_business_day cal x c r}"

lemma finite_open_days [simp]: "finite (open_days cal c r a b)"
  by (rule finite_subset [of _ "{a ..< b}"]) (auto simp: open_days_def)

lemma business_days_between_ok:
  "business_days_between cal a b c r = Inr n \<longleftrightarrow> a \<le> b \<and> n = int (card (open_days cal c r a b))"
  by (auto simp: business_days_between_def count_days_card open_days_def)

lemma advance_ok:
  assumes "is_business_day cal d c r" "advance cal c r n d = Inr e"
  shows "d \<le> e \<and> is_business_day cal e c r \<and> card (open_days cal c r d e) = n"
  using assms
proof (induction n arbitrary: d)
  case 0
  moreover have "open_days cal c r d d = {}" by (auto simp: open_days_def)
  ultimately show ?case by simp
next
  case (Suc n)
  obtain d' where d': "next_business_day cal (d + 1) c r = Inr d'" "advance cal c r n d' = Inr e"
    using Suc.prems(2) by (auto simp: bindE_Inr_iff)
  have nb: "d + 1 \<le> d'" "is_business_day cal d' c r" "\<forall>x. d + 1 \<le> x \<and> x < d' \<longrightarrow> \<not> is_business_day cal x c r"
    using d'(1) by (auto simp: next_business_day_ok)
  have ih: "d' \<le> e" "is_business_day cal e c r" "card (open_days cal c r d' e) = n" using Suc.IH [OF nb(2) d'(2)] by auto
  have "open_days cal c r d e = insert d (open_days cal c r d' e)"
  proof (intro set_eqI iffI)
    fix x assume x: "x \<in> open_days cal c r d e"
    then have "x = d \<or> d + 1 \<le> x" by (auto simp: open_days_def)
    then show "x \<in> insert d (open_days cal c r d' e)" using nb(3) x by (force simp: open_days_def)
  qed (use nb ih Suc.prems(1) in \<open>auto simp: open_days_def\<close>)
  moreover have "d \<notin> open_days cal c r d' e" using nb(1) by (simp add: open_days_def)
  ultimately show ?case using ih nb(1) by simp
qed

lemma add_business_days_ok:
  assumes "add_business_days cal d n c r = Inr e"
  shows "0 \<le> n" "d \<le> e" "is_business_day cal e c r" "business_days_between cal d e c r = Inr n"
proof -
  obtain f where f: "next_business_day cal d c r = Inr f" "advance cal c r (nat n) f = Inr e" and n: "0 \<le> n"
    using assms by (auto simp: add_business_days_def bindE_Inr_iff split: if_splits)
  have nf: "d \<le> f" "is_business_day cal f c r" "\<forall>x. d \<le> x \<and> x < f \<longrightarrow> \<not> is_business_day cal x c r"
    using f(1) by (auto simp: next_business_day_ok)
  note a = advance_ok [OF nf(2) f(2)]
  have "open_days cal c r d e = open_days cal c r f e"
    using nf(1,3) a by (fastforce simp: open_days_def not_le)
  then show "0 \<le> n" "d \<le> e" "is_business_day cal e c r" "business_days_between cal d e c r = Inr n"
    using a n nf(1) by (auto simp: business_days_between_ok)
qed

end
