(* ===== verification/Tables.thy ===== *)
theory Tables
  imports Runs Calendar
begin

text \<open>
  The tables around the books that payouts, reserves and manual adjustments use
  (\<^verbatim>\<open>src/app/models/payout.py\<close>, \<^verbatim>\<open>projections.py\<close>, \<^verbatim>\<open>reserve.py\<close>, \<^verbatim>\<open>ledger_adjustment_request.py\<close>), as an
  extension of the record \<^verbatim>\<open>ledger\<close>: every operation on the books runs unchanged on the extended
  database. The environment grows by what these services take from outside: the digest
  \<^verbatim>\<open>sha256_of\<close> of a text, the feature flags, the FX provider, the banking calendar and the settings.
\<close>

section \<open>Rows\<close>

record payout =
  po_id :: string
  po_merchant :: string
  po_bank_account :: string
  po_amount :: int
  po_currency :: string
  po_status :: string
  po_method :: string
  po_available_on :: date
  po_arrival_estimate :: "date option"
  po_descriptor :: string
  po_failure_code :: "string option"
  po_failure_message :: "string option"
  po_ledger_transaction :: "string option"
  po_reversal_transaction :: "string option"
  po_bank_reference :: "string option"
  po_source_amount :: "int option"
  po_source_currency :: "string option"
  po_fx_rate :: "rat option"
  po_fx_spread :: "int option"
  po_initiated_at :: "int option"
  po_paid_at :: "int option"
  po_failed_at :: "int option"
  po_returned_at :: "int option"
  po_livemode :: bool
  po_created_at :: int

definition balance_currency :: "payout \<Rightarrow> string" where
  "balance_currency p = (case po_source_currency p of None \<Rightarrow> po_currency p | Some c \<Rightarrow> if c = [] then po_currency p else c)"

definition balance_amount_minor :: "payout \<Rightarrow> int" where
  "balance_amount_minor p = (case po_source_amount p of None \<Rightarrow> po_amount p | Some a \<Rightarrow> a)"

definition is_converted :: "payout \<Rightarrow> bool" where
  "is_converted p \<longleftrightarrow> po_source_currency p \<noteq> None"

definition IN_FLIGHT_STATUSES :: "string list" where
  "IN_FLIGHT_STATUSES = [''scheduled'', ''in_transit'']"

definition REVERSED_STATUSES :: "string list" where
  "REVERSED_STATUSES = [''failed'', ''returned'']"

definition is_in_flight :: "payout \<Rightarrow> bool" where
  "is_in_flight p \<longleftrightarrow> po_status p \<in> set IN_FLIGHT_STATUSES"

definition requires_reversal :: "payout \<Rightarrow> bool" where
  "requires_reversal p \<longleftrightarrow> po_status p \<in> set REVERSED_STATUSES"

record merchant_projection =
  mp_id :: string
  mp_display_name :: "string option"
  mp_country :: "string option"
  mp_default_currency :: "string option"
  mp_status :: string
  mp_risk_tier :: string
  mp_reserve_bps :: int
  mp_reserve_hold_days :: int
  mp_pricing_model :: string
  mp_platform_fee_bps :: int
  mp_platform_fee_fixed_minor :: int
  mp_payout_delay_days :: int
  mp_settlement_tolerance_minor :: int
  mp_capture_at_settlement :: bool
  mp_payout_schedule :: string
  mp_livemode :: bool
  mp_source_event_id :: string
  mp_source_occurred_at :: int

record bank_account =
  ba_id :: string
  ba_merchant :: string
  ba_currency :: string
  ba_country :: string
  ba_scheme :: string
  ba_account_number_token :: string
  ba_routing_last_four :: "string option"
  ba_iban_last_four :: "string option"
  ba_bic :: "string option"
  ba_sort_code_last_four :: "string option"
  ba_status :: string
  ba_is_default :: bool
  ba_livemode :: bool
  ba_source_event_id :: string
  ba_source_occurred_at :: int

record reserve_hold =
  rh_id :: string
  rh_merchant :: string
  rh_currency :: string
  rh_amount :: int
  rh_held_from :: string
  rh_release_on :: date
  rh_released :: "string option"
  rh_livemode :: bool

definition is_released :: "reserve_hold \<Rightarrow> bool" where
  "is_released h \<longleftrightarrow> rh_released h \<noteq> None"

definition hold_is_due :: "reserve_hold \<Rightarrow> date \<Rightarrow> bool" where
  "hold_is_due h on \<longleftrightarrow> \<not> is_released h \<and> rh_release_on h \<le> on"

record adjustment_request =
  ar_id :: string
  ar_merchant :: "string option"
  ar_currency :: string
  ar_lines :: "(string \<times> json_value) list list"
  ar_reason_code :: string
  ar_requested_by :: string
  ar_requested_at :: int
  ar_approved_by :: "string option"
  ar_approved_at :: "int option"
  ar_posted_transaction :: "string option"
  ar_status :: string
  ar_livemode :: bool

section \<open>The database and the environment\<close>

record db = ledger +
  payouts :: "payout list"
  merchants :: "merchant_projection list"
  banks :: "bank_account list"
  reserve_holds :: "reserve_hold list"
  adjustments :: "adjustment_request list"

record fx_rates =
  fx_base :: string
  fx_table :: "(string \<times> rat) list"
  fx_as_of :: int

record service_env = env +
  env_sha256 :: "string \<Rightarrow> string"
  env_flags :: "string \<Rightarrow> string \<Rightarrow> bool"
  env_calendar :: calendar
  env_fx :: "fx_rates res option"
  env_fx_markup_bps :: int
  env_cutoff_ach :: int
  env_cutoff_same_day_ach :: int
  env_cutoff_sepa :: int
  env_cutoff_faster_payments :: int

abbreviation books_env :: "'e service_env_scheme \<Rightarrow> env" where
  "books_env E \<equiv> env.truncate E"

section \<open>The books inside the database\<close>

lemma ledger_ok_cong:
  assumes "accounts s' = accounts s" "transactions s' = transactions s" "entries s' = entries s" "balance_cache s' = balance_cache s"
  shows "ledger_ok s' = ledger_ok s"
proof -
  have fa: "find_account i s' = find_account i s" for i by (simp add: find_account_def assms)
  have "entry_placed s' e = entry_placed s e" for e by (simp add: entry_placed_def fa assms)
  moreover have "bucket_balance s' t k = bucket_balance s t k" for t k
    by (simp add: bucket_balance_def bucket_part_def [abs_def] fa assms)
  then have "cache_agrees s' = cache_agrees s" by (simp add: cache_agrees_def row_agrees_def cached_def assms)
  ultimately show ?thesis by (simp add: ledger_ok_def accounts_ok_def txn_balanced_def entries_of_def assms)
qed

lemma ledger_ok_tables [simp]:
  "ledger_ok (payouts_update f s) = ledger_ok s" "ledger_ok (merchants_update g s) = ledger_ok s"
  "ledger_ok (banks_update h s) = ledger_ok s" "ledger_ok (reserve_holds_update i s) = ledger_ok s"
  "ledger_ok (adjustments_update j s) = ledger_ok s"
  by (rule ledger_ok_cong; simp)+

text \<open>What lies beyond the books is untouched by an operation that keeps \<^verbatim>\<open>ledger.more\<close>.\<close>

lemma same_tables:
  assumes "ledger.more s' = ledger.more s"
  shows "payouts s' = payouts s" "merchants s' = merchants s" "banks s' = banks s"
    "reserve_holds s' = reserve_holds s" "adjustments s' = adjustments s"
  using assms by (cases s; cases s'; simp)+

lemma post_tables:
  assumes "post E r s = Inr (res, s')" "accounts_ok s"
  shows "ledger.more s' = ledger.more s"
proof (cases "result_created res")
  case True
  then show ?thesis using post_created [OF assms(1) True assms(2)] by (auto simp: posted_def)
next
  case False
  then show ?thesis using post_existing(1) [OF assms(1)] by (simp add: same_books_def)
qed

text \<open>The bucket a post moves, and only for its own merchant, currency and mode.\<close>

lemma bucket_balance_post:
  assumes p: "post E r s = Inr (res, s')" and c: "result_created res" and ok: "ledger_ok s"
    and m: "pr_merchant r = Some m" and t: "t \<in> set (map fst BUCKET_ACCOUNT_TYPES)"
  shows "bucket_balance s' t k = bucket_balance s t k +
    (if k = (m, pr_currency r, pr_livemode r) then signed_total (pr_lines r) [t] else 0)"
proof -
  have a: "accounts_ok s" and pl: "\<forall>e\<in>set (entries s). entry_placed s e" using ok by (simp_all add: ledger_ok_def)
  from post_created [OF p c a] obtain es where po: "posted E r (result_transaction res) es s s'" by blast
  have "\<not> is_platform_account t" using t by (auto simp: BUCKET_ACCOUNT_TYPES_def)
  from bucket_balance_posted [OF po pl this, of k] show ?thesis
    using m by (cases k) (auto simp: same_key_def)
qed

lemma find_first_update:
  "(\<And>x. P (f x) = P x) \<Longrightarrow> find_first P (update_where P f xs) = map_option f (find_first P xs)"
  by (induction xs) (auto simp: update_where_def)

end
