(* ===== verification/Balances.thy ===== *)
theory Balances
  imports Tables
begin

text \<open>
  \<^verbatim>\<open>src/app/services/balances.py\<close> and the queries behind it: the balance of one currency from the
  cache or replayed from the entries, the list of balances, and the bucketed history of the payable
  account. Main results: on books that satisfy the invariant the cached answer and the replay agree,
  and the history adds up to the movement of its window.
\<close>

section \<open>Balances\<close>

definition INTERVALS :: "(string \<times> int) list" where
  "INTERVALS = [(''hour'', HOUR), (''day'', DAY), (''week'', 7 * DAY)]"

definition MAX_BUCKETS :: int where "MAX_BUCKETS = 400"

record balance =
  bal_merchant :: string
  bal_currency :: string
  bal_livemode :: bool
  bal_available :: int
  bal_pending :: int
  bal_reserved :: int
  bal_disputed :: int
  bal_negative :: int
  bal_buckets :: "(string \<times> int) list"
  bal_as_of :: int

definition total_of :: "(string \<times> int) list \<Rightarrow> string \<Rightarrow> int" where
  "total_of totals bucket = (case map_of totals bucket of None \<Rightarrow> 0 | Some n \<Rightarrow> n)"

definition mk_balance :: "string \<Rightarrow> string \<Rightarrow> bool \<Rightarrow> (string \<times> int) list \<Rightarrow> int \<Rightarrow> balance" where
  "mk_balance m c l totals as_of =
    (let payable = total_of totals ''merchant_payable'' in
     \<lparr>bal_merchant = m, bal_currency = c, bal_livemode = l, bal_available = max 0 payable,
      bal_pending = total_of totals ''merchant_pending'', bal_reserved = total_of totals ''merchant_reserve'',
      bal_disputed = total_of totals ''merchant_disputed'', bal_negative = max 0 (- payable),
      bal_buckets = map (\<lambda>(t, bucket). (t, total_of totals bucket)) BUCKET_ACCOUNT_TYPES, bal_as_of = as_of\<rparr>)"

definition row_totals :: "balance_row \<Rightarrow> (string \<times> int) list" where
  "row_totals b = [(''merchant_payable'', available_minor b), (''merchant_pending'', pending_minor b),
     (''merchant_reserve'', reserved_minor b), (''merchant_disputed'', disputed_minor b)]"

definition historical_balance :: "string \<Rightarrow> string \<Rightarrow> bool \<Rightarrow> int \<Rightarrow> 'a ledger_scheme \<Rightarrow> balance" where
  "historical_balance m c l as_of s = mk_balance m c l (sum_buckets m c l (Some as_of) s) as_of"

definition get_balance :: "int \<Rightarrow> string \<Rightarrow> string \<Rightarrow> bool \<Rightarrow> int option \<Rightarrow> 'a ledger_scheme \<Rightarrow> balance" where
  "get_balance now m c l as_of s =
    (case as_of of
       Some t \<Rightarrow> if t < now then historical_balance m c l t s
         else (case map_of (balance_cache s) (m, c, l) of
                 None \<Rightarrow> mk_balance m c l [] now | Some b \<Rightarrow> mk_balance m c l (row_totals b) (computed_at b))
     | None \<Rightarrow> (case map_of (balance_cache s) (m, c, l) of
                 None \<Rightarrow> mk_balance m c l [] now | Some b \<Rightarrow> mk_balance m c l (row_totals b) (computed_at b)))"

definition list_for_merchant :: "string \<Rightarrow> bool \<Rightarrow> 'a ledger_scheme \<Rightarrow> (balance_key \<times> balance_row) list" where
  "list_for_merchant m l s = sort_key (\<lambda>(k, b). fst (snd k)) (filter (\<lambda>(k, b). fst k = m \<and> snd (snd k) = l) (balance_cache s))"

definition list_balances :: "int \<Rightarrow> string \<Rightarrow> bool \<Rightarrow> int option \<Rightarrow> 'a ledger_scheme \<Rightarrow> balance list" where
  "list_balances now m l as_of s =
    (let rows = list_for_merchant m l s in
     case as_of of
       Some t \<Rightarrow> if t < now then map (\<lambda>(k, b). historical_balance m (fst (snd k)) l t s) rows
         else map (\<lambda>(k, b). mk_balance m (fst (snd k)) l (row_totals b) (computed_at b)) rows
     | None \<Rightarrow> map (\<lambda>(k, b). mk_balance m (fst (snd k)) l (row_totals b) (computed_at b)) rows)"

section \<open>History\<close>

definition TRUNC_UNIT :: "(string \<times> int) list" where
  "TRUNC_UNIT = [(''hour'', HOUR), (''day'', DAY)]"

record bucket_row =
  bk_start :: int
  bk_delta :: int
  bk_count :: nat

text \<open>\<^verbatim>\<open>date_trunc\<close> in UTC, grouped and ordered by bucket; the movement counts a credit as positive.\<close>

definition truncated :: "int \<Rightarrow> int \<Rightarrow> int" where "truncated w t = t - t mod w"

definition window :: "string \<Rightarrow> int \<Rightarrow> int \<Rightarrow> 'a ledger_scheme \<Rightarrow> ledger_entry list" where
  "window aid start stop s = filter (\<lambda>e. le_account e = aid \<and> start \<le> le_created_at e \<and> le_created_at e < stop) (entries s)"

definition sum_by_bucket :: "string \<Rightarrow> int \<Rightarrow> int \<Rightarrow> string \<Rightarrow> 'a ledger_scheme \<Rightarrow> bucket_row list res" where
  "sum_by_bucket aid start stop interval s =
    (case map_of TRUNC_UNIT interval of
       None \<Rightarrow> raise ValueError
     | Some w \<Rightarrow> let es = window aid start stop s in
         Inr (map (\<lambda>b. let g = filter (\<lambda>e. truncated w (le_created_at e) = b) es in
                \<lparr>bk_start = b, bk_delta = side_total Credit g - side_total Debit g, bk_count = length g\<rparr>)
           (sort (remdups (map (\<lambda>e. truncated w (le_created_at e)) es)))))"

fun running_points :: "int \<Rightarrow> bucket_row list \<Rightarrow> (int \<times> int \<times> nat) list" where
  "running_points r [] = []"
| "running_points r (b # bs) = (bk_start b, r + bk_delta b, bk_count b) # running_points (r + bk_delta b) bs"

text \<open>\<^verbatim>\<open>int((to - from) / width) + 1\<close>; the quotient of two intervals is exact enough for its floor below the cap.\<close>

definition bucket_count :: "int \<Rightarrow> int \<Rightarrow> int \<Rightarrow> int" where
  "bucket_count start stop width = (stop - start) div width + 1"

definition get_balance_history :: "string \<Rightarrow> string \<Rightarrow> bool \<Rightarrow> int \<Rightarrow> int \<Rightarrow> string \<Rightarrow> 'a ledger_scheme
    \<Rightarrow> (int \<times> int \<times> nat) list res" where
  "get_balance_history m c l start stop interval s =
    (case map_of INTERVALS interval of
       None \<Rightarrow> raise ValidationError
     | Some width \<Rightarrow>
         if stop \<le> start then raise ValidationError
         else if bucket_count start stop width > MAX_BUCKETS then raise ValidationError
         else (case find_one (Some m) ''merchant_payable'' c l s of
                 None \<Rightarrow> Inr []
               | Some a \<Rightarrow> bindE (sum_by_bucket (acct_id a) start stop interval s) (\<lambda>rows. Inr (running_points 0 rows))))"

section \<open>The cache and the replay agree\<close>

lemma until_all:
  assumes "\<forall>e\<in>set (entries s). le_created_at e \<le> t"
  shows "sum_buckets m c l (Some t) s = sum_buckets m c l None s"
proof -
  have "bucket_rows m c l (Some t) s = bucket_rows m c l None s"
    unfolding bucket_rows_def using assms by (intro arg_cong [where f = concat] map_cong refl) (simp add: until_def)
  then show ?thesis by (simp add: sum_buckets_def)
qed

lemma sums_are_cached:
  assumes "ledger_ok s"
  shows "sum_buckets m c l None s = row_totals (cached s (m, c, l))"
proof -
  have a: "accounts_ok s" and r: "row_agrees s (m, c, l)" using assms by (simp_all add: ledger_ok_def cache_agrees_def)
  show ?thesis unfolding sum_buckets_spec [OF a] using r by (simp add: row_totals_def row_agrees_def BUCKET_ACCOUNT_TYPES_def)
qed

lemma balance_fields:
  "bal_available (mk_balance m c l ts t) = bal_available (mk_balance m c l ts t')"
  "bal_buckets (mk_balance m c l ts t) = bal_buckets (mk_balance m c l ts t')"
  by (simp_all add: mk_balance_def Let_def)

lemma mk_balance_zero: "mk_balance m c l (row_totals zero_balance) t = mk_balance m c l [] t"
  by (simp add: mk_balance_def row_totals_def zero_balance_def total_of_def BUCKET_ACCOUNT_TYPES_def)

lemma mk_balance_as_of: "mk_balance m c l ts t = (mk_balance m c l ts t')\<lparr>bal_as_of := t\<rparr>"
  by (simp add: mk_balance_def Let_def)

lemma get_balance_replay:
  assumes ok: "ledger_ok s" and late: "\<forall>e\<in>set (entries s). le_created_at e \<le> t"
  shows "get_balance now m c l None s = (historical_balance m c l t s)\<lparr>bal_as_of := bal_as_of (get_balance now m c l None s)\<rparr>"
proof (cases "map_of (balance_cache s) (m, c, l)")
  case None
  then have "sum_buckets m c l (Some t) s = row_totals zero_balance"
    using until_all [OF late] sums_are_cached [OF ok] by (simp add: cached_def)
  then show ?thesis using None mk_balance_zero by (simp add: get_balance_def historical_balance_def mk_balance_def Let_def)
next
  case (Some b)
  then have "sum_buckets m c l (Some t) s = row_totals b"
    using until_all [OF late] sums_are_cached [OF ok] by (simp add: cached_def)
  then show ?thesis using Some by (simp add: get_balance_def historical_balance_def mk_balance_def Let_def)
qed

section \<open>The history adds up\<close>

lemma running_Nil [simp]: "running_points r rows = [] \<longleftrightarrow> rows = []"
  by (cases rows) auto

lemma running_last:
  "rows \<noteq> [] \<Longrightarrow> fst (snd (last (running_points r rows))) = r + sum_list (map bk_delta rows)"
  by (induction r rows rule: running_points.induct) auto

lemma running_counts: "map (snd \<circ> snd) (running_points r rows) = map bk_count rows"
  by (induction r rows rule: running_points.induct) auto

lemma running_starts: "map fst (running_points r rows) = map bk_start rows"
  by (induction r rows rule: running_points.induct) auto

lemma side_difference: "side_total Credit es - side_total Debit es = sum_list (map (\<lambda>e. - entry_signed_minor e) es)"
proof (induction es)
  case (Cons e es)
  then show ?case by (cases "le_direction e") (simp_all add: side_total_def entry_signed_minor_def)
qed (simp add: side_total_def)

lemma sum_by_bucket_total:
  assumes "sum_by_bucket aid start stop interval s = Inr rows"
  shows "sum_list (map bk_delta rows) = - entry_net (window aid start stop s)"
    and "sum_list (map (int \<circ> bk_count) rows) = int (length (window aid start stop s))"
    and "sorted (map bk_start rows)"
proof -
  let ?es = "window aid start stop s"
  obtain w where w: "rows = map (\<lambda>b. let g = filter (\<lambda>e. truncated w (le_created_at e) = b) ?es in
      \<lparr>bk_start = b, bk_delta = side_total Credit g - side_total Debit g, bk_count = length g\<rparr>)
      (sort (remdups (map (\<lambda>e. truncated w (le_created_at e)) ?es)))"
    using assms by (auto simp: sum_by_bucket_def Let_def split: option.splits)
  let ?ks = "sort (remdups (map (\<lambda>e. truncated w (le_created_at e)) ?es))"
  have ks: "distinct ?ks" "set (map (\<lambda>e. truncated w (le_created_at e)) ?es) \<subseteq> set ?ks" by auto
  show "sum_list (map bk_delta rows) = - entry_net ?es"
    using sum_over_groups [OF ks, of "\<lambda>e. - entry_signed_minor e"]
    by (simp add: w Let_def comp_def side_difference entry_net_def sum_list_uminus)
  have "sum_list (map (\<lambda>_. 1) xs) = int (length xs)" for xs :: "ledger_entry list" by (induction xs) auto
  then show "sum_list (map (int \<circ> bk_count) rows) = int (length ?es)"
    using sum_over_groups [OF ks, of "\<lambda>_. 1 :: int"] by (simp add: w Let_def comp_def)
  have "map bk_start rows = ?ks" by (simp add: w Let_def comp_def)
  then show "sorted (map bk_start rows)" by simp
qed

lemma week_history_fails:
  assumes "find_one (Some m) ''merchant_payable'' c l s = Some a" "start < stop" "stop - start < 7 * DAY"
  shows "get_balance_history m c l start stop ''week'' s = raise ValueError"
proof -
  have "(stop - start) div (7 * DAY) = 0" using assms by (simp add: DAY_def HOUR_def MINUTE_def SECOND_def)
  then show ?thesis using assms
    by (simp add: get_balance_history_def INTERVALS_def bucket_count_def MAX_BUCKETS_def sum_by_bucket_def TRUNC_UNIT_def)
qed

end
