(* ===== verification/Payouts.thy ===== *)
theory Payouts
  imports Rails Balances "HOL-Library.Product_Lexorder"
begin

text \<open>
  \<^verbatim>\<open>src/app/services/payouts.py\<close> with \<^verbatim>\<open>src/app/repositories/payout.py\<close>: the life of a payout. The
  checks before the lock, the in-flight guard, the balance read, the conversion, the row, its
  postings and the rail are one operation; cancelling, failing and returning a payout post its
  reversal. Advisory locks order concurrent requests and have no effect inside one operation.
\<close>

section \<open>Rows and their constraints\<close>

text \<open>The expression of \<^verbatim>\<open>pix_payout_in_flight\<close> and the key it makes unique.\<close>

definition sql_balance_currency :: "payout \<Rightarrow> string" where
  "sql_balance_currency p = (case po_source_currency p of None \<Rightarrow> po_currency p | Some c \<Rightarrow> c)"

definition sql_balance_amount :: "payout \<Rightarrow> int" where
  "sql_balance_amount p = (case po_source_amount p of None \<Rightarrow> po_amount p | Some a \<Rightarrow> a)"

definition in_flight_key :: "payout \<Rightarrow> string \<times> string \<times> bool" where
  "in_flight_key p = (po_merchant p, sql_balance_currency p, po_livemode p)"

definition fx_complete :: "payout \<Rightarrow> bool" where
  "fx_complete p \<longleftrightarrow>
     (po_source_currency p = None \<and> po_source_amount p = None \<and> po_fx_rate p = None \<and> po_fx_spread p = None)
   \<or> (po_source_currency p \<noteq> None \<and> (\<exists>a. po_source_amount p = Some a \<and> 0 < a)
      \<and> (\<exists>r. po_fx_rate p = Some r \<and> 0 < r) \<and> (\<exists>d. po_fx_spread p = Some d \<and> 0 \<le> d))"

definition payout_row_ok :: "payout \<Rightarrow> bool" where
  "payout_row_ok p \<longleftrightarrow> 0 < po_amount p \<and> fx_complete p \<and> (requires_reversal p \<longrightarrow> po_reversal_transaction p \<noteq> None)"

lemma payout_row_ok_code [code]:
  "payout_row_ok p \<longleftrightarrow> 0 < po_amount p
     \<and> ((po_source_currency p = None \<and> po_source_amount p = None \<and> po_fx_rate p = None \<and> po_fx_spread p = None)
       \<or> (po_source_currency p \<noteq> None \<and> (case po_source_amount p of None \<Rightarrow> False | Some a \<Rightarrow> 0 < a)
          \<and> (case po_fx_rate p of None \<Rightarrow> False | Some r \<Rightarrow> 0 < r) \<and> (case po_fx_spread p of None \<Rightarrow> False | Some d \<Rightarrow> 0 \<le> d)))
     \<and> (requires_reversal p \<longrightarrow> po_reversal_transaction p \<noteq> None)"
  by (auto simp: payout_row_ok_def fx_complete_def split: option.splits)

definition payouts_ok :: "payout list \<Rightarrow> bool" where
  "payouts_ok ps \<longleftrightarrow> distinct (map po_id ps) \<and> list_all payout_row_ok ps \<and> distinct (map in_flight_key (filter is_in_flight ps))"

definition insert_payout :: "payout \<Rightarrow> 'a db_scheme \<Rightarrow> ('a db_scheme) res" where
  "insert_payout p s =
    (if po_id p \<in> set (map po_id (payouts s)) \<or> \<not> payout_row_ok p
        \<or> (is_in_flight p \<and> in_flight_key p \<in> set (map in_flight_key (filter is_in_flight (payouts s))))
     then raise IntegrityError else Inr (s\<lparr>payouts := payouts s @ [p]\<rparr>))"

definition find_payout :: "string \<Rightarrow> 'a db_scheme \<Rightarrow> payout option" where
  "find_payout i s = find_first (\<lambda>p. po_id p = i) (payouts s)"

definition get_payout_or_raise :: "string \<Rightarrow> 'a db_scheme \<Rightarrow> payout res" where
  "get_payout_or_raise i s = (case find_payout i s of None \<Rightarrow> raise NotFoundError | Some p \<Rightarrow> Inr p)"

text \<open>The flush of changed attributes of one row, against the check constraints and the unique index.\<close>

definition flush_payout :: "payout \<Rightarrow> 'a db_scheme \<Rightarrow> ('a db_scheme) res" where
  "flush_payout p s =
    (let others = filter (\<lambda>q. po_id q \<noteq> po_id p) (payouts s) in
     if \<not> payout_row_ok p \<or> (is_in_flight p \<and> in_flight_key p \<in> set (map in_flight_key (filter is_in_flight others)))
     then raise IntegrityError
     else Inr (s\<lparr>payouts := update_where (\<lambda>q. po_id q = po_id p) (\<lambda>_. p) (payouts s)\<rparr>))"

section \<open>Queries\<close>

definition in_flight_for :: "string \<Rightarrow> string \<Rightarrow> bool \<Rightarrow> 'a db_scheme \<Rightarrow> payout list" where
  "in_flight_for m c l s = filter (\<lambda>p. po_merchant p = m \<and> sql_balance_currency p = c \<and> po_livemode p = l \<and> is_in_flight p) (payouts s)"

definition sum_in_flight :: "string \<Rightarrow> string \<Rightarrow> bool \<Rightarrow> 'a db_scheme \<Rightarrow> int" where
  "sum_in_flight m c l s = sum_list (map sql_balance_amount (in_flight_for m c l s))"

definition find_in_flight :: "string \<Rightarrow> string \<Rightarrow> bool \<Rightarrow> 'a db_scheme \<Rightarrow> payout option" where
  "find_in_flight m c l s = (case in_flight_for m c l s of [] \<Rightarrow> None | p # _ \<Rightarrow> Some p)"

definition list_due_payouts :: "date \<Rightarrow> nat \<Rightarrow> 'a db_scheme \<Rightarrow> payout list" where
  "list_due_payouts on limit s = take limit (sort_key (\<lambda>p. (po_available_on p, po_created_at p))
     (filter (\<lambda>p. po_status p = ''scheduled'' \<and> po_available_on p \<le> on) (payouts s)))"

definition last_created_at :: "string \<Rightarrow> string \<Rightarrow> bool \<Rightarrow> 'a db_scheme \<Rightarrow> int option" where
  "last_created_at m c l s =
    (case map po_created_at (filter (\<lambda>p. po_merchant p = m \<and> sql_balance_currency p = c \<and> po_livemode p = l) (payouts s)) of
       [] \<Rightarrow> None | ts \<Rightarrow> Some (Max (set ts)))"

definition find_merchant :: "string \<Rightarrow> 'a db_scheme \<Rightarrow> merchant_projection option" where
  "find_merchant m s = find_first (\<lambda>x. mp_id x = m) (merchants s)"

definition find_bank :: "string \<Rightarrow> 'a db_scheme \<Rightarrow> bank_account option" where
  "find_bank i s = find_first (\<lambda>b. ba_id b = i) (banks s)"

definition find_default_bank :: "string \<Rightarrow> string \<Rightarrow> bool \<Rightarrow> 'a db_scheme \<Rightarrow> bank_account option" where
  "find_default_bank m c l s = find_first (\<lambda>b. ba_merchant b = m \<and> ba_currency b = c \<and> ba_livemode b = l \<and> ba_is_default b) (banks s)"

definition list_default_banks :: "string \<Rightarrow> bool \<Rightarrow> 'a db_scheme \<Rightarrow> bank_account list" where
  "list_default_banks m l s = sort_key ba_currency (filter (\<lambda>b. ba_merchant b = m \<and> ba_livemode b = l \<and> ba_is_default b) (banks s))"

section \<open>The calculator\<close>

record available_funds =
  af_amount :: money
  af_posted_minor :: int
  af_in_flight_minor :: int

definition compute_available_detail :: "contracts \<Rightarrow> string \<Rightarrow> string \<Rightarrow> int \<Rightarrow> bool \<Rightarrow> 'a db_scheme \<Rightarrow> available_funds res" where
  "compute_available_detail K m c cutoff l s =
    (let payable = total_of (sum_buckets m c l (Some cutoff) s) ''merchant_payable''; in_flight = sum_in_flight m c l s
     in bindE (mk_money K payable c) (\<lambda>amount.
          Inr \<lparr>af_amount = amount, af_posted_minor = payable, af_in_flight_minor = in_flight\<rparr>))"

definition compute_available :: "contracts \<Rightarrow> string \<Rightarrow> string \<Rightarrow> int \<Rightarrow> bool \<Rightarrow> 'a db_scheme \<Rightarrow> money res" where
  "compute_available K m c cutoff l s = mapE af_amount (compute_available_detail K m c cutoff l s)"

section \<open>Creating a payout\<close>

record payout_req =
  rq_currency :: "string option"
  rq_method :: "string option"
  rq_livemode :: "bool option"
  rq_bank_account :: "string option"
  rq_amount :: "int option"
  rq_descriptor :: "string option"

definition BLOCKED_MERCHANT_STATUSES :: "string list" where
  "BLOCKED_MERCHANT_STATUSES = [''restricted'', ''suspended'', ''closed'']"

definition DEFAULT_METHOD_BY_SCHEME :: "(string \<times> string) list" where
  "DEFAULT_METHOD_BY_SCHEME = [(''aba'', ''standard_ach''), (''iban'', ''sepa''), (''uk_sort_code'', ''faster_payments'')]"

text \<open>\<^verbatim>\<open>min(defaults, key=lambda b: (b.currency != preferred, b.currency))\<close>, the first minimum.\<close>

fun first_min :: "('a \<Rightarrow> 'b::linorder) \<Rightarrow> 'a \<Rightarrow> 'a list \<Rightarrow> 'a" where
  "first_min f b [] = b"
| "first_min f b (x # xs) = (if f x < f b then first_min f x xs else first_min f b xs)"

definition resolve_bank :: "merchant_projection \<Rightarrow> string \<Rightarrow> bool \<Rightarrow> string option \<Rightarrow> 'a db_scheme \<Rightarrow> bank_account res" where
  "resolve_bank merchant c l bank_account_id s =
    (if \<not> blank bank_account_id then
       (case find_bank (the bank_account_id) s of
          None \<Rightarrow> raise BankAccountProjectionNotFoundError
        | Some b \<Rightarrow> if ba_merchant b \<noteq> mp_id merchant then raise ValidationError else Inr b)
     else (case find_default_bank (mp_id merchant) c l s of
         Some b \<Rightarrow> Inr b
       | None \<Rightarrow> (case list_default_banks (mp_id merchant) l s of
           [] \<Rightarrow> raise BankAccountProjectionNotFoundError
         | b # bs \<Rightarrow> Inr (first_min (\<lambda>x. (mp_default_currency merchant \<noteq> Some (ba_currency x), ba_currency x)) b bs))))"

definition rate_for :: "'e service_env_scheme \<Rightarrow> string \<Rightarrow> string \<Rightarrow> fx_cache \<Rightarrow> payout_rate option res \<times> fx_cache" where
  "rate_for E from_currency to_currency cache =
    (if from_currency = to_currency then (Inr None, cache)
     else case env_fx E of
       None \<Rightarrow> (raise ValidationError, cache)
     | Some provider \<Rightarrow> (case fx_payout_rate E provider from_currency to_currency cache of (r, cache') \<Rightarrow> (mapE Some r, cache')))"

text \<open>The lines of the two legs of a conversion.\<close>

definition fx_context :: "payout \<Rightarrow> string \<Rightarrow> int \<Rightarrow> int \<Rightarrow> int \<Rightarrow> posting_context" where
  "fx_context p c gross net fee = \<lparr>ctx_merchant_id = Some (po_merchant p), ctx_currency = c, ctx_livemode = po_livemode p,
     gross_minor = gross, fee_minor = fee, net_minor = net, interchange_minor = 0, scheme_fee_minor = 0, reserve_bps = 0,
     platform_fee_bps = 0, platform_fee_fixed_minor = 0\<rparr>"

definition fx_source_lines :: "payout \<Rightarrow> int \<Rightarrow> posting_line list res" where
  "fx_source_lines p source_minor =
     FxPayoutSourcePostingRule_build (fx_context p (balance_currency p) source_minor source_minor 0)"

definition fx_target_lines :: "payout \<Rightarrow> int \<Rightarrow> int \<Rightarrow> int \<Rightarrow> posting_line list res" where
  "fx_target_lines p mid_minor payout_minor spread =
     FxPayoutTargetPostingRule_build (fx_context p (po_currency p) mid_minor payout_minor spread)"

text \<open>One posting of a payout: its key and the key whose digest is the fingerprint.\<close>

definition post_for_payout :: "'e service_env_scheme \<Rightarrow> string \<Rightarrow> payout \<Rightarrow> string \<Rightarrow> string res \<Rightarrow> string \<Rightarrow> posting_line list
    \<Rightarrow> 'a db_scheme \<Rightarrow> (string \<times> 'a db_scheme) res" where
  "post_for_payout E key_purpose p purpose fp c lines s =
     bindE (ledger_key key_purpose (po_merchant p) (po_id p)) (\<lambda>key.
     bindE fp (\<lambda>fingerprint.
     bindE (post (books_env E) \<lparr>pr_key = key, pr_purpose = purpose, pr_merchant = Some (po_merchant p), pr_currency = c,
        pr_livemode = po_livemode p, pr_reference_type = ''payout'', pr_reference_id = po_id p, pr_lines = lines,
        pr_created_by = ''system'', pr_fingerprint = env_sha256 E fingerprint, pr_on_conflict = RaiseConflict\<rparr> s) (\<lambda>(res, s1).
       Inr (txn_id (result_transaction res), s1))))"

definition post_payout :: "'e service_env_scheme \<Rightarrow> payout \<Rightarrow> 'a db_scheme \<Rightarrow> (string \<times> 'a db_scheme) res" where
  "post_payout E p s = post_for_payout E ''payout'' p ''payout'' (ledger_key ''payoutfp'' (po_merchant p) (po_id p)) (po_currency p)
     [debit ''merchant_payable'' (po_amount p), credit ''cash'' (po_amount p)] s"

definition post_converted_payout :: "'e service_env_scheme \<Rightarrow> payout \<Rightarrow> fx_conversion \<Rightarrow> 'a db_scheme \<Rightarrow> (string \<times> 'a db_scheme) res" where
  "post_converted_payout E p conv s =
     bindE (fx_source_lines p (amount_minor (fx_source conv))) (\<lambda>source_lines.
     bindE (fx_target_lines p (fx_mid_target_minor conv) (amount_minor (fx_target conv)) (spread_minor conv)) (\<lambda>target_lines.
     bindE (post_for_payout E ''payout'' p ''payout'' (ledger_key ''payoutfp'' (po_merchant p) (po_id p))
              (currency (fx_source conv)) source_lines s) (\<lambda>(tid, s1).
     bindE (post_for_payout E ''payoutfx'' p ''payout'' (ledger_key ''payoutfxfp'' (po_id p) (format_rate (fx_rate conv)))
              (currency (fx_target conv)) target_lines s1) (\<lambda>(_, s2).
       Inr (tid, s2)))))"

definition scheduled_payload :: "payout \<Rightarrow> int \<Rightarrow> payload" where
  "scheduled_payload p now =
    [(''payout_id'', JStr (po_id p)), (''merchant_id'', JStr (po_merchant p)), (''bank_account_id'', JStr (po_bank_account p)),
     (''amount_minor'', JInt (po_amount p)), (''currency'', JStr (po_currency p)), (''method'', JStr (po_method p)),
     (''available_on'', JStr (iso_date (po_available_on p))), (''scheduled_at'', JTime now)]"

text \<open>Everything before the lock: the request, the merchant, the bank account and the rail.\<close>

definition payout_target :: "'e service_env_scheme \<Rightarrow> string \<Rightarrow> payout_req \<Rightarrow> 'a db_scheme \<Rightarrow> (string \<times> bool \<times> bank_account \<times> string) res" where
  "payout_target E m req s =
    (let c = upper (case rq_currency req of None \<Rightarrow> [] | Some x \<Rightarrow> x) in
     if c = [] then raise ValidationError
     else if c \<notin> SUPPORTED_CURRENCIES (env_contracts E) then raise ValidationError
     else if rq_method req = Some ''same_day_ach'' \<and> \<not> env_flags E ''payout_same_day_ach'' m then raise PayoutBlockedError
     else case find_merchant m s of
       None \<Rightarrow> raise NotFoundError
     | Some merchant \<Rightarrow>
         let l = (case rq_livemode req of None \<Rightarrow> mp_livemode merchant | Some b \<Rightarrow> b) in
         if mp_status merchant \<in> set BLOCKED_MERCHANT_STATUSES then raise PayoutBlockedError
         else bindE (resolve_bank merchant c l (rq_bank_account req) s) (\<lambda>b.
           let method = (if blank (rq_method req)
                 then (case map_of DEFAULT_METHOD_BY_SCHEME (ba_scheme b) of None \<Rightarrow> ''standard_ach'' | Some x \<Rightarrow> x)
                 else the (rq_method req))
           in if method \<notin> set PAYOUT_METHODS then raise ValidationError else Inr (c, l, b, method)))"

text \<open>Under the lock: the balance, the conversion, the row, the postings, the rail and the event.\<close>

definition requested_amount :: "payout_req \<Rightarrow> int \<Rightarrow> int" where
  "requested_amount req available = (case rq_amount req of None \<Rightarrow> available | Some a \<Rightarrow> if a = 0 then available else a)"

definition new_payout :: "'e service_env_scheme \<Rightarrow> string \<Rightarrow> string \<Rightarrow> payout_req \<Rightarrow> bool \<Rightarrow> bank_account \<Rightarrow> string \<Rightarrow> money
    \<Rightarrow> fx_conversion option \<Rightarrow> date \<Rightarrow> payout" where
  "new_payout E i m req l b method landed conv available_on =
     \<lparr>po_id = i, po_merchant = m, po_bank_account = ba_id b, po_amount = amount_minor landed, po_currency = currency landed,
      po_status = ''scheduled'', po_method = method, po_available_on = available_on, po_arrival_estimate = None,
      po_descriptor = take 22 (text_or (rq_descriptor req) ''PAYZENO PAYOUT''), po_failure_code = None, po_failure_message = None,
      po_ledger_transaction = None, po_reversal_transaction = None, po_bank_reference = None,
      po_source_amount = map_option (\<lambda>q. amount_minor (fx_source q)) conv, po_source_currency = map_option (\<lambda>q. currency (fx_source q)) conv,
      po_fx_rate = map_option fx_rate conv, po_fx_spread = map_option spread_minor conv, po_initiated_at = None,
      po_paid_at = None, po_failed_at = None, po_returned_at = None, po_livemode = l, po_created_at = env_now E\<rparr>"

definition create_under_lock :: "'e service_env_scheme \<Rightarrow> string \<Rightarrow> payout_req \<Rightarrow> string \<Rightarrow> bool \<Rightarrow> bank_account \<Rightarrow> string
    \<Rightarrow> payout_rate option \<Rightarrow> 'a db_scheme \<Rightarrow> (payout \<times> 'a db_scheme) res" where
  "create_under_lock E m req c l b method rate s =
    (if find_in_flight m c l s \<noteq> None then raise PayoutBlockedError
     else bindE (compute_available_detail (env_contracts E) m c (env_now E) l s) (\<lambda>funds.
       let available = amount_minor (af_amount funds); requested = requested_amount req available in
       if available \<le> 0 \<or> requested > available then raise InsufficientBalanceError
       else if requested \<le> 0 then raise ValidationError
       else bindE (mk_money (env_contracts E) requested c) (\<lambda>source.
            bindE (case rate of None \<Rightarrow> Inr None | Some r \<Rightarrow> mapE Some (fx_convert (env_contracts E) source r)) (\<lambda>conv.
            let landed = (case conv of None \<Rightarrow> source | Some q \<Rightarrow> fx_target q) in
            bindE (next_business_day (env_calendar E) (date_of (env_now E)) (currency landed) method) (\<lambda>available_on.
            bindE (mint (books_env E) ''po'' s) (\<lambda>(i, s1).
            let p = new_payout E i m req l b method landed conv available_on in
            bindE (insert_payout p s1) (\<lambda>s2.
            bindE (case conv of None \<Rightarrow> post_payout E p s2 | Some q \<Rightarrow> post_converted_payout E p q s2) (\<lambda>(tid, s3).
            let p1 = p\<lparr>po_ledger_transaction := Some tid\<rparr> in
            bindE (initiate E method p1 b) (\<lambda>ir.
            let p2 = p1\<lparr>po_arrival_estimate := Some (ir_arrival_estimate ir), po_bank_reference := Some (ir_rail_reference ir),
                        po_initiated_at := Some (ir_submitted_at ir)\<rparr> in
            bindE (flush_payout p2 s3) (\<lambda>s4.
            bindE (publish (books_env E) ''payout.scheduled'' (scheduled_payload p2 (env_now E)) (Some m) (po_id p2) None l s4) (\<lambda>(_, s5).
              Inr (p2, s5))))))))))))"

definition create_payout :: "'e service_env_scheme \<Rightarrow> string \<Rightarrow> payout_req \<Rightarrow> fx_cache \<Rightarrow> 'a db_scheme
    \<Rightarrow> (payout \<times> 'a db_scheme) res \<times> fx_cache" where
  "create_payout E m req cache s =
    (case payout_target E m req s of
       Inl e \<Rightarrow> (Inl e, cache)
     | Inr (c, l, b, method) \<Rightarrow> (case rate_for E c (ba_currency b) cache of
         (Inl e, cache') \<Rightarrow> (Inl e, cache')
       | (Inr rate, cache') \<Rightarrow> (create_under_lock E m req c l b method rate s, cache')))"

section \<open>The end of a payout\<close>

definition reverse_converted_payout :: "'e service_env_scheme \<Rightarrow> payout \<Rightarrow> string \<Rightarrow> 'a db_scheme \<Rightarrow> (string \<times> 'a db_scheme) res" where
  "reverse_converted_payout E p reason s =
    (let spread = (case po_fx_spread p of None \<Rightarrow> 0 | Some d \<Rightarrow> d) in
     bindE (mapE mirrored (fx_target_lines p (po_amount p + spread) (po_amount p) spread)) (\<lambda>target_lines.
     bindE (post_for_payout E ''payoutfxrev'' p ''payout_reversal'' (ledger_key ''payoutfxrevfp'' (po_id p) reason)
              (po_currency p) target_lines s) (\<lambda>(_, s1).
     bindE (mapE mirrored (fx_source_lines p (balance_amount_minor p))) (\<lambda>source_lines.
       post_for_payout E ''payoutrev'' p ''payout_reversal'' (ledger_key ''payoutrevfp'' (po_id p) reason)
              (balance_currency p) source_lines s1))))"

definition reverse_payout_posting :: "'e service_env_scheme \<Rightarrow> payout \<Rightarrow> string \<Rightarrow> 'a db_scheme \<Rightarrow> (string \<times> 'a db_scheme) res" where
  "reverse_payout_posting E p reason s =
    (if is_converted p then reverse_converted_payout E p reason s
     else post_for_payout E ''payoutrev'' p ''payout_reversal'' (ledger_key ''payoutrevfp'' (po_id p) reason) (po_currency p)
            [debit ''cash'' (po_amount p), credit ''merchant_payable'' (po_amount p)] s)"

definition cancel_payout :: "'e service_env_scheme \<Rightarrow> string \<Rightarrow> 'a db_scheme \<Rightarrow> (payout \<times> 'a db_scheme) res" where
  "cancel_payout E i s =
     bindE (get_payout_or_raise i s) (\<lambda>p.
       if po_status p \<noteq> ''scheduled'' then raise PayoutBlockedError
       else let p1 = p\<lparr>po_status := ''canceled''\<rparr> in
         bindE (flush_payout p1 s) (\<lambda>s1.
         bindE (reverse_payout_posting E p1 ''canceled'' s1) (\<lambda>(rid, s2).
         let p2 = p1\<lparr>po_reversal_transaction := Some rid\<rparr> in
         bindE (flush_payout p2 s2) (\<lambda>s3. Inr (p2, s3)))))"

definition mark_paid :: "'e service_env_scheme \<Rightarrow> string \<Rightarrow> int \<Rightarrow> string \<Rightarrow> 'a db_scheme \<Rightarrow> (payout \<times> 'a db_scheme) res" where
  "mark_paid E i paid_at bank_reference s =
     bindE (get_payout_or_raise i s) (\<lambda>p.
       if po_status p = ''paid'' then Inr (p, s)
       else let p1 = p\<lparr>po_status := ''paid'', po_paid_at := Some paid_at, po_bank_reference := Some bank_reference\<rparr> in
         bindE (flush_payout p1 s) (\<lambda>s1.
         bindE (publish (books_env E) ''payout.paid''
            [(''payout_id'', JStr (po_id p1)), (''merchant_id'', JStr (po_merchant p1)), (''amount_minor'', JInt (po_amount p1)),
             (''currency'', JStr (po_currency p1)), (''ledger_transaction_id'', opt_str (po_ledger_transaction p1)), (''paid_at'', JTime paid_at)]
            (Some (po_merchant p1)) (po_id p1) None True s1) (\<lambda>(_, s2). Inr (p1, s2))))"

definition failure_payload :: "payout \<Rightarrow> string \<Rightarrow> string \<Rightarrow> string \<Rightarrow> payload" where
  "failure_payload p code message rid =
    [(''payout_id'', JStr (po_id p)), (''merchant_id'', JStr (po_merchant p)), (''bank_account_id'', JStr (po_bank_account p)),
     (''amount_minor'', JInt (po_amount p)), (''currency'', JStr (po_currency p)), (''failure_code'', JStr code),
     (''failure_message'', JStr message), (''reversal_transaction_id'', JStr rid)]"

definition mark_returned :: "'e service_env_scheme \<Rightarrow> payout \<Rightarrow> string \<Rightarrow> string \<Rightarrow> 'a db_scheme \<Rightarrow> (payout \<times> 'a db_scheme) res" where
  "mark_returned E p code message s =
     bindE (reverse_payout_posting E p code s) (\<lambda>(rid, s1).
     let p1 = p\<lparr>po_status := ''returned'', po_failure_code := Some code, po_failure_message := Some message,
                po_reversal_transaction := Some rid, po_returned_at := Some (env_now E)\<rparr> in
     bindE (flush_payout p1 s1) (\<lambda>s2.
     bindE (publish (books_env E) ''payout.returned''
        (failure_payload p1 code message rid @ [(''bank_reference'', opt_str (po_bank_reference p1)), (''returned_at'', JTime (env_now E))])
        (Some (po_merchant p1)) (po_id p1) None (po_livemode p1) s2) (\<lambda>(_, s3). Inr (p1, s3))))"

definition mark_failed :: "'e service_env_scheme \<Rightarrow> string \<Rightarrow> string \<Rightarrow> string \<Rightarrow> 'a db_scheme \<Rightarrow> (payout \<times> 'a db_scheme) res" where
  "mark_failed E i code message s =
     bindE (get_payout_or_raise i s) (\<lambda>p.
       if po_status p \<in> {''failed'', ''returned''} then Inr (p, s)
       else if po_status p \<in> {''paid'', ''in_transit''} then mark_returned E p code message s
       else bindE (reverse_payout_posting E p code s) (\<lambda>(rid, s1).
         let p1 = p\<lparr>po_status := ''failed'', po_failure_code := Some code, po_failure_message := Some message,
                    po_failed_at := Some (env_now E), po_reversal_transaction := Some rid\<rparr> in
         bindE (flush_payout p1 s1) (\<lambda>s2.
         bindE (publish (books_env E) ''payout.failed''
            (failure_payload p1 code message rid
             @ [(''requires_merchant_action'', JBool (code \<in> {''account_closed'', ''invalid_details''})), (''retry_scheduled_for'', JNull),
                (''failed_at'', JTime (env_now E))])
            (Some (po_merchant p1)) (po_id p1) None True s2) (\<lambda>(_, s3). Inr (p1, s3)))))"

section \<open>The jobs\<close>

text \<open>\<^verbatim>\<open>PayoutSchedulerJob.run_once\<close>: every due payout of the pass goes to \<^verbatim>\<open>in_transit\<close> in one transaction.\<close>

fun advance_all :: "payout list \<Rightarrow> nat \<Rightarrow> 'a db_scheme \<Rightarrow> (nat \<times> 'a db_scheme) res" where
  "advance_all [] n s = Inr (n, s)"
| "advance_all (p # ps) n s = (if po_status p \<noteq> ''scheduled'' then advance_all ps n s
     else bindE (flush_payout (p\<lparr>po_status := ''in_transit''\<rparr>) s) (advance_all ps (Suc n)))"

definition scheduler_job :: "'e service_env_scheme \<Rightarrow> 'a db_scheme \<Rightarrow> (nat \<times> 'a db_scheme) res" where
  "scheduler_job E s = advance_all (list_due_payouts (date_of (env_now E)) 500 s) 0 s"

definition period_start :: "string \<Rightarrow> int \<Rightarrow> int" where
  "period_start schedule now =
    (let mid = midnight now in
     if schedule = ''weekly'' then mid - weekday (date_of now) * DAY
     else if schedule = ''monthly'' then (case ord2ymd (date_of now) of (y, m, d) \<Rightarrow> mid - (d - 1) * DAY)
     else mid)"

definition list_payable :: "nat \<Rightarrow> 'a ledger_scheme \<Rightarrow> (balance_key \<times> balance_row) list" where
  "list_payable limit s = take limit (sort_key (\<lambda>(k, b). (fst k, fst (snd k))) (filter (\<lambda>(k, b). 0 < available_minor b) (balance_cache s)))"

text \<open>One balance, one transaction; an error of the service's own tree is logged and the pass goes on.\<close>

definition sweep_one :: "'e service_env_scheme \<Rightarrow> balance_key \<Rightarrow> int \<Rightarrow> fx_cache \<Rightarrow> 'a db_scheme \<Rightarrow> (bool \<times> 'a db_scheme) res \<times> fx_cache" where
  "sweep_one E k since cache s = (case k of (m, c, l) \<Rightarrow>
     (case last_created_at m c l s of
        Some t \<Rightarrow> if since \<le> t then (Inr (False, s), cache)
          else (case create_payout E m \<lparr>rq_currency = Some c, rq_method = None, rq_livemode = Some l, rq_bank_account = None,
                  rq_amount = None, rq_descriptor = None\<rparr> cache s of (r, cache') \<Rightarrow> (mapE (\<lambda>(p, s'). (True, s')) r, cache'))
      | None \<Rightarrow> (case create_payout E m \<lparr>rq_currency = Some c, rq_method = None, rq_livemode = Some l, rq_bank_account = None,
                  rq_amount = None, rq_descriptor = None\<rparr> cache s of (r, cache') \<Rightarrow> (mapE (\<lambda>(p, s'). (True, s')) r, cache'))))"

definition sweepable :: "balance_key \<Rightarrow> 'a db_scheme \<Rightarrow> string option" where
  "sweepable k s = (case find_merchant (fst k) s of None \<Rightarrow> None
   | Some x \<Rightarrow> if mp_status x = ''active'' \<and> mp_payout_schedule x \<in> {''daily'', ''weekly'', ''monthly''}
              then Some (mp_payout_schedule x) else None)"

fun sweep_all :: "'e service_env_scheme \<Rightarrow> (balance_key \<times> string) list \<Rightarrow> nat \<Rightarrow> fx_cache \<Rightarrow> 'a db_scheme \<Rightarrow> nat res \<times> fx_cache \<times> 'a db_scheme" where
  "sweep_all E [] n cache s = (Inr n, cache, s)"
| "sweep_all E ((k, schedule) # rest) n cache s =
     (case sweep_one E k (period_start schedule (env_now E)) cache s of
        (Inr (created, s'), cache') \<Rightarrow> sweep_all E rest (if created then Suc n else n) cache' s'
      | (Inl e, cache') \<Rightarrow> if caught_by e PayzenoLedgerError then sweep_all E rest n cache' s else (Inl e, cache', s))"

definition sweep_candidates :: "'a db_scheme \<Rightarrow> (balance_key \<times> string) list" where
  "sweep_candidates s = concat (map (\<lambda>(k, b). case sweepable k s of None \<Rightarrow> [] | Some schedule \<Rightarrow> [(k, schedule)]) (list_payable 500 s))"

definition sweep_job :: "'e service_env_scheme \<Rightarrow> fx_cache \<Rightarrow> 'a db_scheme \<Rightarrow> nat res \<times> fx_cache \<times> 'a db_scheme" where
  "sweep_job E cache s = sweep_all E (sweep_candidates s) 0 cache s"

section \<open>Pulling a negative balance\<close>

definition MAX_PULL_MINOR :: int where "MAX_PULL_MINOR = 2500000"

definition assert_pullable :: "bank_account \<Rightarrow> unit res" where
  "assert_pullable b = (if ba_status b \<noteq> ''verified'' then raise BankAccountUnusableError
     else if blank (ba_routing_last_four b) then raise BankAccountUnusableError else Inr ())"

record debit_pull_result =
  dp_rail_reference :: string
  dp_amount :: int
  dp_effective_date :: date
  dp_submitted_at :: int
  dp_transaction :: string

definition pull :: "'e service_env_scheme \<Rightarrow> string \<Rightarrow> string \<Rightarrow> int \<Rightarrow> string \<Rightarrow> 'a db_scheme \<Rightarrow> (debit_pull_result \<times> 'a db_scheme) res" where
  "pull E m c amount reason s =
    (if amount \<le> 0 then raise ValueError
     else case find_default_bank m c True s of
       None \<Rightarrow> raise BankAccountProjectionNotFoundError
     | Some b \<Rightarrow>
       bindE (assert_pullable b) (\<lambda>_.
       let capped = min amount MAX_PULL_MINOR in
       bindE (next_business_day (env_calendar E) (date_of (env_now E) + 1) c ''ach'') (\<lambda>effective.
       let rail_reference = ''DR'' @ upper (last_chars 10 m) @ month_day effective in
       bindE (ledger_key ''debitpull'' m rail_reference) (\<lambda>key.
       bindE (ledger_key ''debitpullfp'' m reason) (\<lambda>fp.
       bindE (post (books_env E) \<lparr>pr_key = key, pr_purpose = ''adjustment'', pr_merchant = Some m, pr_currency = c, pr_livemode = True,
          pr_reference_type = ''merchant'', pr_reference_id = m, pr_lines = [debit ''cash'' capped, credit ''merchant_payable'' capped],
          pr_created_by = ''system'', pr_fingerprint = env_sha256 E fp, pr_on_conflict = RaiseConflict\<rparr> s) (\<lambda>(res, s1).
         Inr (\<lparr>dp_rail_reference = rail_reference, dp_amount = capped, dp_effective_date = effective, dp_submitted_at = env_now E,
               dp_transaction = txn_id (result_transaction res)\<rparr>, s1)))))))"

definition NEGATIVE_THRESHOLD_MINOR :: int where "NEGATIVE_THRESHOLD_MINOR = 500000"

definition list_negative :: "int \<Rightarrow> nat \<Rightarrow> 'a ledger_scheme \<Rightarrow> (balance_key \<times> balance_row) list" where
  "list_negative threshold limit s = take limit (sort_key (\<lambda>(k, b). - negative_balance_minor b)
     (filter (\<lambda>(k, b). 0 < negative_balance_minor b \<and> threshold \<le> negative_balance_minor b) (balance_cache s)))"

fun pull_all :: "'e service_env_scheme \<Rightarrow> (string \<times> string \<times> int) list \<Rightarrow> nat \<Rightarrow> 'a db_scheme \<Rightarrow> nat res \<times> 'a db_scheme" where
  "pull_all E [] n s = (Inr n, s)"
| "pull_all E ((m, c, owed) # rest) n s = (case pull E m c owed ''negative_balance_recovery'' s of
     Inr (r, s') \<Rightarrow> pull_all E rest (Suc n) s'
   | Inl e \<Rightarrow> if caught_by e PayzenoLedgerError then pull_all E rest n s else (Inl e, s))"

definition negative_balance_job :: "'e service_env_scheme \<Rightarrow> 'a db_scheme \<Rightarrow> nat res \<times> 'a db_scheme" where
  "negative_balance_job E s = pull_all E
     (map (\<lambda>(k, b). (fst k, fst (snd k), \<bar>available_minor b\<bar>)) (list_negative NEGATIVE_THRESHOLD_MINOR 50 s)) 0 s"

end
