(* ===== verification/Payouts_Inv.thy ===== *)
theory Payouts_Inv
  imports Payouts
begin

text \<open>
  What payouts promise: the books stay sound, a balance is never paid out twice or below zero, one
  payout per balance is in flight, a payout that fails or returns carries its reversal, and the
  reversal gives back exactly what the payout took.
\<close>

section \<open>The table of payouts\<close>

lemma update_where_append: "update_where P f (xs @ y # ys) = update_where P f xs @ (if P y then f y else y) # update_where P f ys"
  by (simp add: update_where_def)

lemma update_one:
  assumes "distinct (map po_id ps)" "p \<in> set ps"
  obtains xs ys where "ps = xs @ p # ys" "\<forall>q\<in>set (xs @ ys). po_id q \<noteq> po_id p"
proof -
  obtain xs ys where "ps = xs @ p # ys" using split_list [OF assms(2)] by blast
  then show ?thesis using assms(1) by (intro that) (auto simp: image_iff)
qed

lemma flush_payout_ok:
  assumes f: "flush_payout p s = Inr s'" and ok: "payouts_ok (payouts s)"
  shows "payouts_ok (payouts s')"
proof (cases "\<exists>q\<in>set (payouts s). po_id q = po_id p")
  case True
  then obtain q where q: "q \<in> set (payouts s)" "po_id q = po_id p" by blast
  have d: "distinct (map po_id (payouts s))" using ok by (simp add: payouts_ok_def)
  from update_one [OF d q(1)] q(2) obtain xs ys where ps: "payouts s = xs @ q # ys" and ne: "\<forall>x\<in>set (xs @ ys). po_id x \<noteq> po_id p"
    by auto
  have "update_where (\<lambda>q. po_id q = po_id p) (\<lambda>_. p) (payouts s) = xs @ p # ys"
    using ne q(2) by (simp add: ps update_where_append update_where_none)
  then have up: "payouts s' = xs @ p # ys"
    using f by (auto simp: flush_payout_def Let_def split: if_splits)
  have "filter (\<lambda>x. po_id x \<noteq> po_id p) (payouts s) = xs @ ys" using ps q(2) ne by (auto simp: filter_id_conv)
  then have row: "payout_row_ok p" "is_in_flight p \<longrightarrow> in_flight_key p \<notin> set (map in_flight_key (filter is_in_flight (xs @ ys)))"
    using f by (auto simp: flush_payout_def Let_def split: if_splits)
  show ?thesis using ok row q(2) unfolding payouts_ok_def up ps by (auto split: if_splits)
next
  case False
  then have "payouts s' = payouts s"
    using f update_where_none [of "payouts s" "\<lambda>q. po_id q = po_id p" "\<lambda>_. p"]
    by (auto simp: flush_payout_def Let_def split: if_splits)
  then show ?thesis using ok by simp
qed

lemma insert_payout_ok: "insert_payout p s = Inr s' \<Longrightarrow> payouts_ok (payouts s) \<Longrightarrow> payouts_ok (payouts s')"
  by (auto simp: insert_payout_def payouts_ok_def split: if_splits)

lemma flush_frame:
  "flush_payout p s = Inr s' \<Longrightarrow> s' = s\<lparr>payouts := update_where (\<lambda>q. po_id q = po_id p) (\<lambda>_. p) (payouts s)\<rparr>"
  by (auto simp: flush_payout_def Let_def split: if_splits)

lemma flush_find:
  assumes "flush_payout p s = Inr s'" "find_payout (po_id p) s \<noteq> None"
  shows "find_payout (po_id p) s' = Some p"
proof -
  have "find_first (\<lambda>q. po_id q = po_id p) (update_where (\<lambda>q. po_id q = po_id p) (\<lambda>_. p) xs) =
      map_option (\<lambda>_. p) (find_first (\<lambda>q. po_id q = po_id p) xs)" for xs
    by (induction xs) (auto simp: update_where_def)
  then show ?thesis using assms(2) by (auto simp: flush_frame [OF assms(1)] find_payout_def)
qed

section \<open>Postings of a payout\<close>

lemma books_only [simp]:
  "bucket_balance (payouts_update f s) t k = bucket_balance s t k"
  "bucket_balance (id_supply_update g s) t k = bucket_balance s t k"
  by (simp_all add: bucket_balance_def bucket_part_def [abs_def] find_account_def)

lemma bucket_same_books: "same_books s s' \<Longrightarrow> bucket_balance s' t k = bucket_balance s t k"
  by (simp add: bucket_balance_def bucket_part_def [abs_def] find_account_def same_books_def)

text \<open>
  Between two states the payable balance of one merchant, currency and mode changes by \<^term>\<open>d\<close>, no
  other does, and every key that was taken is still with its transaction.
\<close>

definition moves :: "'a db_scheme \<Rightarrow> 'a db_scheme \<Rightarrow> balance_key \<Rightarrow> int \<Rightarrow> bool" where
  "moves s s' k d \<longleftrightarrow> ledger_ok s' \<and> (\<forall>key i. holds_key key i s \<longrightarrow> holds_key key i s')
     \<and> (\<forall>k'. bucket_balance s' ''merchant_payable'' k' = bucket_balance s ''merchant_payable'' k' + (if k' = k then d else 0))"

lemma moves_trans: "moves s s1 k 0 \<Longrightarrow> moves s1 s2 k' d \<Longrightarrow> moves s s2 k' d" "moves s s1 k d \<Longrightarrow> moves s1 s2 k' 0 \<Longrightarrow> moves s s2 k d"
  by (auto simp: moves_def)

lemma moves_okD: "moves s s' k d \<Longrightarrow> ledger_ok s'" by (simp add: moves_def)

lemma moves_same_books:
  assumes "same_books s s'" "ledger_ok s" shows "moves s s' k 0"
proof -
  have "holds_key key i s' = holds_key key i s" for key i using assms(1) by (intro holds_key_cong) (simp add: same_books_def)
  then show ?thesis using same_books_ledger_ok [OF assms] by (simp add: moves_def bucket_same_books [OF assms(1)])
qed

lemma moves_payouts: "ledger_ok s \<Longrightarrow> moves s (payouts_update f s) k 0"
  by (simp add: moves_def holds_key_def find_by_idempotency_key_def)

lemma flush_moves: "flush_payout p s = Inr s' \<Longrightarrow> ledger_ok s \<Longrightarrow> moves s s' k 0"
  by (drule flush_frame) (simp add: moves_payouts)

lemma post_for_payout_moves:
  assumes p: "post_for_payout E kp p pu fp c lines s = Inr (tid, s')" and ok: "ledger_ok s"
  shows "moves s s' (po_merchant p, c, po_livemode p) (signed_total lines [''merchant_payable''])"
    and "\<exists>key. ledger_key kp (po_merchant p) (po_id p) = Inr key \<and> holds_key key tid s'"
    and "\<exists>key. ledger_key kp (po_merchant p) (po_id p) = Inr key \<and> find_by_idempotency_key key s = None"
proof -
  obtain key f res where key: "ledger_key kp (po_merchant p) (po_id p) = Inr key" and tid: "tid = txn_id (result_transaction res)"
    and po: "post (books_env E) \<lparr>pr_key = key, pr_purpose = pu, pr_merchant = Some (po_merchant p), pr_currency = c,
        pr_livemode = po_livemode p, pr_reference_type = ''payout'', pr_reference_id = po_id p, pr_lines = lines,
        pr_created_by = ''system'', pr_fingerprint = env_sha256 E f, pr_on_conflict = RaiseConflict\<rparr> s = Inr (res, s')"
    using p by (auto simp: post_for_payout_def bindE_Inr_iff)
  have c: "result_created res" using post_existing(3) [OF po] by auto
  have a: "accounts_ok s" using ok by (simp add: ledger_ok_def)
  show "moves s s' (po_merchant p, c, po_livemode p) (signed_total lines [''merchant_payable''])"
    using bucket_balance_post [OF po c ok, of "po_merchant p" "''merchant_payable''"] post_ledger_ok [OF po ok]
      post_key_stable [OF po a]
    by (auto simp: moves_def holds_key_def BUCKET_ACCOUNT_TYPES_def)
  show "\<exists>key. ledger_key kp (po_merchant p) (po_id p) = Inr key \<and> holds_key key tid s'"
    using post_takes_key [OF po ok] key tid by auto
  show "\<exists>key. ledger_key kp (po_merchant p) (po_id p) = Inr key \<and> find_by_idempotency_key key s = None"
    using post_created [OF po c a] key by (auto simp: posted_def)
qed

lemma post_for_payout_frame:
  "post_for_payout E kp p pu fp c lines s = Inr (tid, s') \<Longrightarrow> accounts_ok s \<Longrightarrow> ledger.more s' = ledger.more s"
  using post_tables by (fastforce simp: post_for_payout_def bindE_Inr_iff)

lemma payable_lines:
  "signed_total [debit ''merchant_payable'' a, credit ''cash'' a] [''merchant_payable''] = - a"
  "signed_total [debit ''cash'' a, credit ''merchant_payable'' a] [''merchant_payable''] = a"
  by (simp_all add: signed_total_def normal_of_def NORMAL_BALANCE_BY_TYPE_def)

lemma payable_filter:
  "signed_total (filter (\<lambda>l. line_amount l \<noteq> 0) ls) ts = signed_total ls ts"
  by (induction ls) (auto simp: signed_total_def)

lemma payable_mirrored: "signed_total (mirrored ls) ts = - signed_total ls ts"
proof (induction ls)
  case (Cons l ls)
  have flip: "flip_direction (direction l) = normal_of t \<longleftrightarrow> direction l \<noteq> normal_of t" for t
    by (cases "direction l"; cases "normal_of t") (simp_all add: flip_direction_def)
  show ?case using Cons by (auto simp: signed_total_def mirrored_def flip)
qed (simp add: signed_total_def mirrored_def)

lemma built_lines: "built ctx ls = Inr out \<Longrightarrow> out = filter (\<lambda>l. line_amount l \<noteq> 0) ls"
  by (auto simp: built_def Let_def bindE_Inr_iff split: if_splits)

lemma fx_source_payable:
  "fx_source_lines p a = Inr ls \<Longrightarrow> signed_total ls [''merchant_payable''] = - a"
proof -
  assume "fx_source_lines p a = Inr ls"
  then have "ls = filter (\<lambda>l. line_amount l \<noteq> 0) [debit ''merchant_payable'' a, credit ''fx_clearing'' a]"
    by (auto simp: fx_source_lines_def FxPayoutSourcePostingRule_build_def fx_context_def dest!: built_lines split: if_splits)
  then show ?thesis unfolding payable_filter by (simp add: payable_filter signed_total_def normal_of_def NORMAL_BALANCE_BY_TYPE_def)
qed

lemma fx_target_payable:
  "fx_target_lines p g n f = Inr ls \<Longrightarrow> signed_total ls [''merchant_payable''] = 0"
proof -
  assume "fx_target_lines p g n f = Inr ls"
  then have "ls = filter (\<lambda>l. line_amount l \<noteq> 0) [debit ''fx_clearing'' g, credit ''cash'' n, credit ''fx_revenue'' f]"
    by (auto simp: fx_target_lines_def FxPayoutTargetPostingRule_build_def fx_context_def dest!: built_lines split: if_splits)
  then show ?thesis by (simp add: payable_filter signed_total_def)
qed

section \<open>Reversal gives back what the payout took\<close>

lemma reverse_payout_moves:
  assumes r: "reverse_payout_posting E p reason s = Inr (rid, s')" and ok: "ledger_ok s" and fx: "fx_complete p" "po_source_currency p \<noteq> Some []"
  shows "moves s s' (po_merchant p, balance_currency p, po_livemode p) (balance_amount_minor p)"
    and "\<exists>key. ledger_key ''payoutrev'' (po_merchant p) (po_id p) = Inr key \<and> holds_key key rid s'"
proof -
  have both: "moves s s' (po_merchant p, balance_currency p, po_livemode p) (balance_amount_minor p)
    \<and> (\<exists>key. ledger_key ''payoutrev'' (po_merchant p) (po_id p) = Inr key \<and> holds_key key rid s')"
  proof (cases "is_converted p")
    case False
    then have "po_source_amount p = None" "po_source_currency p = None" using fx by (auto simp: is_converted_def fx_complete_def)
    then have bal: "balance_amount_minor p = po_amount p" "balance_currency p = po_currency p"
      by (simp_all add: balance_amount_minor_def balance_currency_def)
    have po: "post_for_payout E ''payoutrev'' p ''payout_reversal'' (ledger_key ''payoutrevfp'' (po_id p) reason) (po_currency p)
            [debit ''cash'' (po_amount p), credit ''merchant_payable'' (po_amount p)] s = Inr (rid, s')"
      using r False by (simp add: reverse_payout_posting_def)
    show ?thesis
      using post_for_payout_moves(1,2) [OF po ok] by (simp add: bal payable_lines)
  next
    case True
    then obtain tl x s1 sl where t: "fx_target_lines p (po_amount p + (case po_fx_spread p of None \<Rightarrow> 0 | Some d \<Rightarrow> d)) (po_amount p)
          (case po_fx_spread p of None \<Rightarrow> 0 | Some d \<Rightarrow> d) = Inr tl"
      and p1: "post_for_payout E ''payoutfxrev'' p ''payout_reversal'' (ledger_key ''payoutfxrevfp'' (po_id p) reason)
              (po_currency p) (mirrored tl) s = Inr (x, s1)"
      and sl: "fx_source_lines p (balance_amount_minor p) = Inr sl"
      and p2: "post_for_payout E ''payoutrev'' p ''payout_reversal'' (ledger_key ''payoutrevfp'' (po_id p) reason)
              (balance_currency p) (mirrored sl) s1 = Inr (rid, s')"
      using r by (auto simp: reverse_payout_posting_def reverse_converted_payout_def Let_def bindE_Inr_iff mapE_Inr_iff)
    have m1: "moves s s1 (po_merchant p, po_currency p, po_livemode p) 0"
      using post_for_payout_moves(1) [OF p1 ok] fx_target_payable [OF t] by (simp add: payable_mirrored)
    then have ok1: "ledger_ok s1" by (simp add: moves_def)
    have "moves s1 s' (po_merchant p, balance_currency p, po_livemode p) (balance_amount_minor p)"
      using post_for_payout_moves(1) [OF p2 ok1] fx_source_payable [OF sl] by (simp add: payable_mirrored)
    then show ?thesis using moves_trans(1) [OF m1] post_for_payout_moves(2) [OF p2 ok1] by blast
  qed
  then show "moves s s' (po_merchant p, balance_currency p, po_livemode p) (balance_amount_minor p)"
    "\<exists>key. ledger_key ''payoutrev'' (po_merchant p) (po_id p) = Inr key \<and> holds_key key rid s'" by blast+
qed

text \<open>A reversal needs the key \<^verbatim>\<open>payoutrev\<close>; once it is taken, no later attempt goes through.\<close>

lemma reversal_needs_key:
  assumes "ledger_ok s" "holds_key key x s" "ledger_key ''payoutrev'' (po_merchant p) (po_id p) = Inr key"
  shows "\<not> is_ok (reverse_payout_posting E p reason s)"
proof
  assume "is_ok (reverse_payout_posting E p reason s)"
  then obtain rid s' where r: "reverse_payout_posting E p reason s = Inr (rid, s')" by (auto simp: is_ok_def split: sum.splits)
  show False
  proof (cases "is_converted p")
    case False
    then show False using r post_for_payout_moves(3) [OF _ assms(1)] assms(2,3)
      by (fastforce simp: reverse_payout_posting_def holds_key_def)
  next
    case True
    then obtain tl y s1 sl where
      p1: "post_for_payout E ''payoutfxrev'' p ''payout_reversal'' (ledger_key ''payoutfxrevfp'' (po_id p) reason) (po_currency p) (mirrored tl) s = Inr (y, s1)"
      and p2: "post_for_payout E ''payoutrev'' p ''payout_reversal'' (ledger_key ''payoutrevfp'' (po_id p) reason)
              (balance_currency p) (mirrored sl) s1 = Inr (rid, s')"
      using r by (auto simp: reverse_payout_posting_def reverse_converted_payout_def Let_def bindE_Inr_iff mapE_Inr_iff)
    have ok1: "ledger_ok s1" using post_for_payout_moves(1) [OF p1 assms(1)] by (simp add: moves_def)
    have "holds_key key x s1" using post_for_payout_moves(1) [OF p1 assms(1)] assms(2) by (simp add: moves_def)
    then show False using post_for_payout_moves(3) [OF p2 ok1] assms(3) by (auto simp: holds_key_def)
  qed
qed

end
