(* ===== verification/Payout_Life.thy ===== *)
theory Payout_Life
  imports Payouts_Inv
begin

text \<open>
  The life of a payout over whole runs: what creating one does to the balance it is paid from, what
  ending one gives back, and the step relation of the payout operations beside the steps of the
  books, with its invariant. Main results: a payout is never larger than the payable balance, one
  balance has at most one payout in flight, and a payout with a recorded reversal is never reversed
  a second time, whatever runs in between.
\<close>

section \<open>Creating\<close>

lemma post_payout_moves:
  assumes "post_payout E p s = Inr (tid, s')" "ledger_ok s"
  shows "moves s s' (po_merchant p, po_currency p, po_livemode p) (- po_amount p)"
  using post_for_payout_moves(1) [OF assms(1) [unfolded post_payout_def] assms(2)] by (simp add: payable_lines)

lemma post_converted_moves:
  assumes p: "post_converted_payout E p q s = Inr (tid, s')" and ok: "ledger_ok s"
  shows "moves s s' (po_merchant p, currency (fx_source q), po_livemode p) (- amount_minor (fx_source q))"
    and "ledger.more s' = ledger.more s"
proof -
  obtain sl tl s1 x where sl: "fx_source_lines p (amount_minor (fx_source q)) = Inr sl"
    and tl: "fx_target_lines p (fx_mid_target_minor q) (amount_minor (fx_target q)) (spread_minor q) = Inr tl"
    and p1: "post_for_payout E ''payout'' p ''payout'' (ledger_key ''payoutfp'' (po_merchant p) (po_id p))
              (currency (fx_source q)) sl s = Inr (tid, s1)"
    and p2: "post_for_payout E ''payoutfx'' p ''payout'' (ledger_key ''payoutfxfp'' (po_id p) (format_rate (fx_rate q)))
              (currency (fx_target q)) tl s1 = Inr (x, s')"
    using p by (auto simp: post_converted_payout_def bindE_Inr_iff)
  note m1 = post_for_payout_moves(1) [OF p1 ok]
  note ok1 = moves_okD [OF m1]
  have "moves s1 s' (po_merchant p, currency (fx_target q), po_livemode p) 0"
    using post_for_payout_moves(1) [OF p2 ok1] fx_target_payable [OF tl] by simp
  then show "moves s s' (po_merchant p, currency (fx_source q), po_livemode p) (- amount_minor (fx_source q))"
    using moves_trans(2) [OF m1] fx_source_payable [OF sl] by simp
  show "ledger.more s' = ledger.more s"
    using post_for_payout_frame [OF p1] post_for_payout_frame [OF p2] ok ok1 by (simp add: ledger_ok_def)
qed

lemma post_payout_more: "post_payout E p s = Inr (tid, s') \<Longrightarrow> ledger_ok s \<Longrightarrow> ledger.more s' = ledger.more s"
  using post_for_payout_frame by (auto simp: post_payout_def ledger_ok_def)

lemma quote_source: "fx_convert K source r = Inr q \<Longrightarrow> fx_source q = source"
  by (auto simp: fx_convert_def quote_payout_conversion_def bindE_Inr_iff split: if_splits)

text \<open>Everything \<^verbatim>\<open>create\<close> does under the lock, in the order the code does it.\<close>

lemma create_cases:
  assumes "create_under_lock E m req c l b method rate s = Inr (p, s')"
  obtains a conv landed d i s1 s2 tid s3 ir s4 ev p0 p1 where
    "find_in_flight m c l s = None"
    "a = requested_amount req (total_of (sum_buckets m c l (Some (env_now E)) s) ''merchant_payable'')"
    "0 < a" "a \<le> total_of (sum_buckets m c l (Some (env_now E)) s) ''merchant_payable''"
    "case conv of None \<Rightarrow> landed = \<lparr>amount_minor = a, currency = c\<rparr>
       | Some q \<Rightarrow> fx_source q = \<lparr>amount_minor = a, currency = c\<rparr> \<and> landed = fx_target q"
    "mint (books_env E) ''po'' s = Inr (i, s1)"
    "p0 = new_payout E i m req l b method landed conv d"
    "insert_payout p0 s1 = Inr s2"
    "(case conv of None \<Rightarrow> post_payout E p0 s2 | Some q \<Rightarrow> post_converted_payout E p0 q s2) = Inr (tid, s3)"
    "p1 = p0\<lparr>po_ledger_transaction := Some tid\<rparr>"
    "initiate E method p1 b = Inr ir"
    "p = p1\<lparr>po_arrival_estimate := Some (ir_arrival_estimate ir), po_bank_reference := Some (ir_rail_reference ir),
                        po_initiated_at := Some (ir_submitted_at ir)\<rparr>"
    "flush_payout p s3 = Inr s4"
    "publish (books_env E) ''payout.scheduled'' (scheduled_payload p (env_now E)) (Some m) (po_id p) None l s4 = Inr (ev, s')"
proof -
  let ?pay = "total_of (sum_buckets m c l (Some (env_now E)) s) ''merchant_payable''"
  let ?a = "requested_amount req ?pay"
  from assms obtain conv d i s1 s2 tid s3 ir s4 ev where
    1: "find_in_flight m c l s = None" "0 < ?a" "?a \<le> ?pay"
    and cv: "(case rate of None \<Rightarrow> Inr None | Some r \<Rightarrow> mapE Some (fx_convert (env_contracts E) \<lparr>amount_minor = ?a, currency = c\<rparr> r)) = Inr conv"
    and 2: "mint (books_env E) ''po'' s = Inr (i, s1)"
      "insert_payout (new_payout E i m req l b method (case conv of None \<Rightarrow> \<lparr>amount_minor = ?a, currency = c\<rparr> | Some q \<Rightarrow> fx_target q) conv d) s1 = Inr s2"
      "(case conv of None \<Rightarrow> post_payout E (new_payout E i m req l b method (case conv of None \<Rightarrow> \<lparr>amount_minor = ?a, currency = c\<rparr> | Some q \<Rightarrow> fx_target q) conv d) s2
         | Some q \<Rightarrow> post_converted_payout E (new_payout E i m req l b method (case conv of None \<Rightarrow> \<lparr>amount_minor = ?a, currency = c\<rparr> | Some q \<Rightarrow> fx_target q) conv d) q s2) = Inr (tid, s3)"
      "initiate E method ((new_payout E i m req l b method (case conv of None \<Rightarrow> \<lparr>amount_minor = ?a, currency = c\<rparr> | Some q \<Rightarrow> fx_target q) conv d)\<lparr>po_ledger_transaction := Some tid\<rparr>) b = Inr ir"
      "flush_payout p s3 = Inr s4"
      "publish (books_env E) ''payout.scheduled'' (scheduled_payload p (env_now E)) (Some m) (po_id p) None l s4 = Inr (ev, s')"
    and pp: "p = (new_payout E i m req l b method (case conv of None \<Rightarrow> \<lparr>amount_minor = ?a, currency = c\<rparr> | Some q \<Rightarrow> fx_target q) conv d)\<lparr>po_ledger_transaction := Some tid,
        po_arrival_estimate := Some (ir_arrival_estimate ir), po_bank_reference := Some (ir_rail_reference ir),
                        po_initiated_at := Some (ir_submitted_at ir)\<rparr>"
    unfolding create_under_lock_def compute_available_detail_def Let_def
    by (auto simp: bindE_Inr_iff mk_money_Inr_iff not_le not_less split: if_splits)
  have "case conv of None \<Rightarrow> (case conv of None \<Rightarrow> \<lparr>amount_minor = ?a, currency = c\<rparr> | Some q \<Rightarrow> fx_target q) = \<lparr>amount_minor = ?a, currency = c\<rparr>
       | Some q \<Rightarrow> fx_source q = \<lparr>amount_minor = ?a, currency = c\<rparr> \<and> (case conv of None \<Rightarrow> \<lparr>amount_minor = ?a, currency = c\<rparr> | Some q \<Rightarrow> fx_target q) = fx_target q"
    using cv by (auto simp: mapE_Inr_iff quote_source split: option.splits)
  from that [OF 1(1) refl 1(2,3) this 2(1) refl 2(2,3) refl 2(4) _ 2(5,6)] pp show ?thesis by simp
qed

lemma create_spec:
  assumes cr: "create_under_lock E m req c l b method rate s = Inr (p, s')" and ok: "ledger_ok s" and ps: "payouts_ok (payouts s)"
  defines "pay \<equiv> total_of (sum_buckets m c l (Some (env_now E)) s) ''merchant_payable''"
  shows "0 < sql_balance_amount p \<and> sql_balance_amount p \<le> pay \<and> sql_balance_amount p = requested_amount req pay"
    and "moves s s' (m, c, l) (- sql_balance_amount p)"
    and "payouts_ok (payouts s')"
    and "in_flight_for m c l s = [] \<and> is_in_flight p \<and> in_flight_key p = (m, c, l) \<and> payouts s' = payouts s @ [p]"
    and "ba_status b = ''verified'' \<and> po_reversal_transaction p = None \<and> po_id p \<notin> po_id ` set (payouts s)"
proof -
  from cr obtain a conv landed d i s1 s2 tid s3 ir s4 ev p0 p1 where
    g: "find_in_flight m c l s = None" "0 < a" "a \<le> pay" "a = requested_amount req pay"
    and cv: "case conv of None \<Rightarrow> landed = \<lparr>amount_minor = a, currency = c\<rparr>
       | Some q \<Rightarrow> fx_source q = \<lparr>amount_minor = a, currency = c\<rparr> \<and> landed = fx_target q"
    and mi: "mint (books_env E) ''po'' s = Inr (i, s1)"
    and p0: "p0 = new_payout E i m req l b method landed conv d"
    and ins: "insert_payout p0 s1 = Inr s2"
    and po: "(case conv of None \<Rightarrow> post_payout E p0 s2 | Some q \<Rightarrow> post_converted_payout E p0 q s2) = Inr (tid, s3)"
    and p1: "p1 = p0\<lparr>po_ledger_transaction := Some tid\<rparr>"
    and ini: "initiate E method p1 b = Inr ir"
    and pp: "p = p1\<lparr>po_arrival_estimate := Some (ir_arrival_estimate ir), po_bank_reference := Some (ir_rail_reference ir),
                        po_initiated_at := Some (ir_submitted_at ir)\<rparr>"
    and fl: "flush_payout p s3 = Inr s4"
    and pub: "publish (books_env E) ''payout.scheduled'' (scheduled_payload p (env_now E)) (Some m) (po_id p) None l s4 = Inr (ev, s')"
    unfolding pay_def by (rule create_cases) blast
  have amt: "sql_balance_amount p = a" "sql_balance_amount p0 = a" "sql_balance_currency p = c" "sql_balance_currency p0 = c"
    using cv by (auto simp: pp p1 p0 new_payout_def sql_balance_amount_def sql_balance_currency_def split: option.splits)
  then show "0 < sql_balance_amount p \<and> sql_balance_amount p \<le> pay \<and> sql_balance_amount p = requested_amount req pay" using g by simp
  have row: "po_id p = po_id p0" "po_merchant p0 = m" "po_livemode p0 = l" "po_merchant p = m" "po_livemode p = l" "po_status p = ''scheduled''"
    "po_reversal_transaction p = None" by (simp_all add: pp p1 p0 new_payout_def)
  have s1: "s1 = s\<lparr>id_supply := Suc (id_supply s)\<rparr>" using mi by (simp add: mint_ok)
  have s2: "s2 = s1\<lparr>payouts := payouts s1 @ [p0]\<rparr>" and new: "po_id p0 \<notin> po_id ` set (payouts s1)" using ins by (auto simp: insert_payout_def split: if_splits)
  have pay1: "payouts s1 = payouts s" by (simp add: s1)
  have m2: "moves s s2 (m, c, l) 0"
    using ok by (simp add: moves_def s2 s1 holds_key_def find_by_idempotency_key_def ledger_ok_cong [of "s\<lparr>id_supply := Suc (id_supply s)\<rparr>" s])
  note ok2 = moves_okD [OF m2]
  have m3: "moves s2 s3 (m, c, l) (- a)" and more3: "ledger.more s3 = ledger.more s2"
  proof -
    have "moves s2 s3 (m, c, l) (- a) \<and> ledger.more s3 = ledger.more s2"
    proof (cases conv)
      case None
      then have "po_amount p0 = a" "po_currency p0 = c" using cv by (simp_all add: p0 new_payout_def)
      then show ?thesis using post_payout_moves [OF _ ok2] post_payout_more [OF _ ok2] po None row(2,3) by force
    next
      case (Some q)
      then show ?thesis using post_converted_moves [OF _ ok2] po cv row(2,3) by force
    qed
    then show "moves s2 s3 (m, c, l) (- a)" "ledger.more s3 = ledger.more s2" by blast+
  qed
  note ok3 = moves_okD [OF m3]
  have m4: "moves s3 s4 (m, c, l) 0" by (rule flush_moves [OF fl ok3])
  have sb: "same_books s4 s'" by (rule publish_same(1) [OF pub])
  have m5: "moves s4 s' (m, c, l) 0" by (rule moves_same_books [OF sb moves_okD [OF m4]])
  show "moves s s' (m, c, l) (- sql_balance_amount p)"
    using moves_trans(2) [OF moves_trans(2) [OF moves_trans(1) [OF m2 m3] m4] m5] by (simp add: amt)
  have p3: "payouts s3 = payouts s @ [p0]" using same_tables(1) [OF more3] by (simp add: s2 pay1)
  have p5: "payouts s' = payouts s4" using same_tables(1) [of s' s4] sb by (simp add: same_books_def)
  have "payouts_ok (payouts s2)" using insert_payout_ok [OF ins] ps by (simp add: pay1)
  then have "payouts_ok (payouts s3)" using same_tables(1) [OF more3] by simp
  then show "payouts_ok (payouts s')" using flush_payout_ok [OF fl] by (simp add: p5)
  have "payouts s4 = update_where (\<lambda>q. po_id q = po_id p) (\<lambda>_. p) (payouts s3)" using flush_frame [OF fl] by simp
  moreover have "update_where (\<lambda>q. po_id q = po_id p) (\<lambda>_. p) (payouts s) = payouts s"
    using new by (intro update_where_none) (auto simp: pay1 row(1) image_iff)
  ultimately have "payouts s4 = payouts s @ [p]" by (simp add: p3 update_where_append row(1)) (simp add: update_where_def)
  then show "in_flight_for m c l s = [] \<and> is_in_flight p \<and> in_flight_key p = (m, c, l) \<and> payouts s' = payouts s @ [p]"
    using g(1) amt(3) row by (auto simp: find_in_flight_def in_flight_key_def is_in_flight_def IN_FLIGHT_STATUSES_def p5 split: list.splits)
  show "ba_status b = ''verified'' \<and> po_reversal_transaction p = None \<and> po_id p \<notin> po_id ` set (payouts s)"
    using rail.rail_verified [OF ini] row new by (simp add: pay1)
qed

lemma create_bank: "create_under_lock E m req c l b method rate s = Inr (p, s') \<Longrightarrow> po_bank_account p = ba_id b"
  by (erule create_cases) (simp add: new_payout_def)

lemma first_min_in: "first_min f b xs \<in> set (b # xs)"
  by (induction xs arbitrary: b) (auto split: if_splits)

lemma default_bank_of: "b \<in> set (list_default_banks m l s) \<Longrightarrow> b \<in> set (banks s) \<and> ba_merchant b = m"
  by (auto simp: list_default_banks_def)

lemma resolve_bank_own:
  assumes "resolve_bank x c l i s = Inr b" shows "b \<in> set (banks s) \<and> ba_merchant b = mp_id x"
proof (cases "blank i")
  case False
  then show ?thesis using assms by (auto simp: resolve_bank_def find_bank_def split: option.splits if_splits dest: find_first_SomeD)
next
  case True
  show ?thesis
  proof (cases "find_default_bank (mp_id x) c l s")
    case None
    then obtain y ys where "list_default_banks (mp_id x) l s = y # ys"
      "b = first_min (\<lambda>z. (mp_default_currency x \<noteq> Some (ba_currency z), ba_currency z)) y ys"
      using assms True by (auto simp: resolve_bank_def split: list.splits)
    then have "b \<in> set (list_default_banks (mp_id x) l s)" using first_min_in by metis
    then show ?thesis by (rule default_bank_of)
  next
    case (Some y)
    then show ?thesis using assms True by (auto simp: resolve_bank_def find_default_bank_def dest: find_first_SomeD)
  qed
qed

lemma payout_target_bank:
  "payout_target E m req s = Inr (c, l, b, method) \<Longrightarrow> b \<in> set (banks s) \<and> ba_merchant b = m"
  using resolve_bank_own by (fastforce simp: payout_target_def Let_def bindE_Inr_iff find_merchant_def split: if_splits option.splits dest: find_first_SomeD)

section \<open>Ending\<close>

text \<open>What every end of a payout does to its table and its balance: nothing, or a recorded reversal.\<close>

definition reversal_recorded :: "payout \<Rightarrow> 'a db_scheme \<Rightarrow> bool" where
  "reversal_recorded p s \<longleftrightarrow> (\<forall>r. po_reversal_transaction p = Some r \<longrightarrow>
     (\<exists>key. ledger_key ''payoutrev'' (po_merchant p) (po_id p) = Inr key \<and> holds_key key r s))"

definition reverses :: "payout \<Rightarrow> payout \<Rightarrow> 'a db_scheme \<Rightarrow> 'a db_scheme \<Rightarrow> bool" where
  "reverses p p' s s' \<longleftrightarrow> moves s s' (po_merchant p, balance_currency p, po_livemode p) (balance_amount_minor p)
     \<and> po_id p' = po_id p \<and> po_merchant p' = po_merchant p \<and> po_reversal_transaction p' \<noteq> None \<and> reversal_recorded p' s'
     \<and> \<not> is_in_flight p' \<and> payouts_ok (payouts s')
     \<and> payouts s' = update_where (\<lambda>q. po_id q = po_id p) (\<lambda>_. p') (payouts s)"

lemma payout_row_fx: "payouts_ok ps \<Longrightarrow> p \<in> set ps \<Longrightarrow> fx_complete p"
  by (auto simp: payouts_ok_def payout_row_ok_def list_all_iff)

lemma find_payoutD: "find_payout i s = Some p \<Longrightarrow> p \<in> set (payouts s) \<and> po_id p = i"
  by (auto simp: find_payout_def dest: find_first_SomeD)

lemma reverse_posting_frame:
  assumes r: "reverse_payout_posting E p reason s = Inr (rid, s')" and ok: "ledger_ok s"
  shows "ledger.more s' = ledger.more s"
proof -
  have a: "accounts_ok s" using ok by (simp add: ledger_ok_def)
  show ?thesis
  proof (cases "is_converted p")
    case False
    then show ?thesis using r post_for_payout_frame [OF _ a] by (simp add: reverse_payout_posting_def)
  next
    case True
    then obtain tl x s1 sl where
      p1: "post_for_payout E ''payoutfxrev'' p ''payout_reversal'' (ledger_key ''payoutfxrevfp'' (po_id p) reason)
              (po_currency p) (mirrored tl) s = Inr (x, s1)"
      and p2: "post_for_payout E ''payoutrev'' p ''payout_reversal'' (ledger_key ''payoutrevfp'' (po_id p) reason)
              (balance_currency p) (mirrored sl) s1 = Inr (rid, s')"
      using r by (auto simp: reverse_payout_posting_def reverse_converted_payout_def Let_def bindE_Inr_iff mapE_Inr_iff)
    have "accounts_ok s1" using post_for_payout_moves(1) [OF p1 ok] by (simp add: moves_def ledger_ok_def)
    then show ?thesis using post_for_payout_frame [OF p1 a] post_for_payout_frame [OF p2] by simp
  qed
qed

text \<open>Posting the reversal, then writing the row, is the whole of an ending.\<close>

lemma reversal_then_flush:
  assumes r: "reverse_payout_posting E p reason s = Inr (rid, s1)" and f: "flush_payout p' s1 = Inr s2"
    and ok: "ledger_ok s" and ps: "payouts_ok (payouts s)" and fx: "fx_complete p" "po_source_currency p \<noteq> Some []"
    and p': "po_id p' = po_id p" "po_merchant p' = po_merchant p" "po_reversal_transaction p' = Some rid" "\<not> is_in_flight p'"
  shows "reverses p p' s s2"
proof -
  note m1 = reverse_payout_moves(1) [OF r ok fx]
  note m2 = flush_moves [OF f moves_okD [OF m1]]
  have pay: "payouts s1 = payouts s" using same_tables(1) [OF reverse_posting_frame [OF r ok]] .
  have "transactions s2 = transactions s1" using flush_frame [OF f] by simp
  note keys = holds_key_cong [OF this]
  have "reversal_recorded p' s2"
    using reverse_payout_moves(2) [OF r ok fx] by (auto simp: reversal_recorded_def p' keys)
  moreover have "payouts_ok (payouts s2)" using flush_payout_ok [OF f] ps pay by simp
  moreover have "payouts s2 = update_where (\<lambda>q. po_id q = po_id p) (\<lambda>_. p') (payouts s)" using flush_frame [OF f] pay by (simp add: p')
  ultimately show ?thesis using moves_trans(2) [OF m1 m2] by (simp add: reverses_def p')
qed

lemma reverses_publish:
  assumes "reverses p p' s s1" "publish Ev ty pl m cid ca lm s1 = Inr (x, s2)"
  shows "reverses p p' s s2"
proof -
  have sb: "same_books s1 s2" by (rule publish_same(1) [OF assms(2)])
  then have "payouts s2 = payouts s1" using same_tables(1) [of s2 s1] by (simp add: same_books_def)
  moreover have "reversal_recorded p' s2 = reversal_recorded p' s1"
    using sb holds_key_cong [of s2 s1] by (simp add: reversal_recorded_def same_books_def)
  moreover have "moves s s1 k d \<Longrightarrow> moves s s2 k d" for k d
    using same_books_ledger_ok [OF sb] holds_key_cong [of s2 s1] sb by (auto simp: moves_def bucket_same_books [OF sb] same_books_def)
  ultimately show ?thesis using assms(1) by (auto simp: reverses_def)
qed

lemma cancel_reverses:
  assumes c: "cancel_payout E i s = Inr (p', s')" and ok: "ledger_ok s" and ps: "payouts_ok (payouts s)"
    and nb: "\<forall>p\<in>set (payouts s). po_source_currency p \<noteq> Some []"
  shows "\<exists>p. find_payout i s = Some p \<and> po_status p = ''scheduled'' \<and> po_status p' = ''canceled'' \<and> reverses p p' s s'"
proof -
  obtain p rid s1 s2 where f: "find_payout i s = Some p" "po_status p = ''scheduled''"
    and s1: "flush_payout (p\<lparr>po_status := ''canceled''\<rparr>) s = Inr s1"
    and r: "reverse_payout_posting E (p\<lparr>po_status := ''canceled''\<rparr>) ''canceled'' s1 = Inr (rid, s2)"
    and p': "p' = p\<lparr>po_status := ''canceled'', po_reversal_transaction := Some rid\<rparr>" and s3: "flush_payout p' s2 = Inr s'"
    using c by (auto simp: cancel_payout_def get_payout_or_raise_def bindE_Inr_iff Let_def split: option.splits if_splits)
  let ?p1 = "p\<lparr>po_status := ''canceled''\<rparr>"
  have inp: "p \<in> set (payouts s)" "po_id p = i" using find_payoutD [OF f(1)] by auto
  have fx: "fx_complete ?p1" "po_source_currency ?p1 \<noteq> Some []"
    using payout_row_fx [OF ps inp(1)] nb inp(1) by (simp_all add: fx_complete_def)
  have m1: "moves s s1 k 0" for k by (rule flush_moves [OF s1 ok])
  have pays1: "payouts s1 = update_where (\<lambda>q. po_id q = po_id p) (\<lambda>_. ?p1) (payouts s)" using flush_frame [OF s1] by simp
  have rev: "reverses ?p1 p' s1 s'"
    using reversal_then_flush [OF r s3 moves_okD [OF m1] flush_payout_ok [OF s1 ps] fx] by (simp add: p' is_in_flight_def IN_FLIGHT_STATUSES_def)
  have "payouts s' = update_where (\<lambda>q. po_id q = po_id p) (\<lambda>_. p') (payouts s)"
    using rev by (auto simp: reverses_def pays1 p' update_where_def)
  moreover have "balance_currency ?p1 = balance_currency p" "balance_amount_minor ?p1 = balance_amount_minor p"
    by (simp_all add: balance_currency_def balance_amount_minor_def split: option.split)
  ultimately have "reverses p p' s s'"
    using rev moves_trans(1) [OF m1] by (auto simp: reverses_def)
  then show ?thesis using f by (auto simp: p')
qed

lemma failed_reverses:
  assumes c: "mark_failed E i code message s = Inr (p', s')" and ok: "ledger_ok s" and ps: "payouts_ok (payouts s)"
    and nb: "\<forall>p\<in>set (payouts s). po_source_currency p \<noteq> Some []"
  shows "\<exists>p. find_payout i s = Some p \<and> (if po_status p \<in> {''failed'', ''returned''} then s' = s \<and> p' = p
     else po_status p' = (if po_status p \<in> {''paid'', ''in_transit''} then ''returned'' else ''failed'') \<and> reverses p p' s s')"
proof -
  obtain p where f: "find_payout i s = Some p" using c by (auto simp: mark_failed_def get_payout_or_raise_def bindE_Inr_iff split: option.splits)
  have inp: "p \<in> set (payouts s)" "po_id p = i" using find_payoutD [OF f] by auto
  have fx: "fx_complete p" "po_source_currency p \<noteq> Some []"
    using payout_row_fx [OF ps inp(1)] nb inp(1) by simp_all
  note done1 = reversal_then_flush [OF _ _ ok ps fx]
  consider (over) "po_status p \<in> {''failed'', ''returned''}" | (ret) "po_status p \<in> {''paid'', ''in_transit''}"
    | (fail) "po_status p \<notin> {''failed'', ''returned'', ''paid'', ''in_transit''}" by blast
  then show ?thesis
  proof cases
    case over
    then show ?thesis using c f by (auto simp: mark_failed_def get_payout_or_raise_def)
  next
    case ret
    then have "mark_returned E p code message s = Inr (p', s')" using c f by (auto simp: mark_failed_def get_payout_or_raise_def)
    then obtain rid s1 s2 x pl where r: "reverse_payout_posting E p code s = Inr (rid, s1)"
      and p': "p' = p\<lparr>po_status := ''returned'', po_failure_code := Some code, po_failure_message := Some message,
                po_reversal_transaction := Some rid, po_returned_at := Some (env_now E)\<rparr>"
      and fl: "flush_payout p' s1 = Inr s2" and pu: "publish (books_env E) ''payout.returned'' pl (Some (po_merchant p')) (po_id p') None (po_livemode p') s2 = Inr (x, s')"
      by (auto simp: mark_returned_def bindE_Inr_iff Let_def)
    have "reverses p p' s s'" using reverses_publish [OF done1 [OF r fl] pu] by (simp add: p' is_in_flight_def IN_FLIGHT_STATUSES_def)
    then show ?thesis using f ret by (auto simp: p')
  next
    case fail
    then obtain rid s1 s2 x pl where r: "reverse_payout_posting E p code s = Inr (rid, s1)"
      and p': "p' = p\<lparr>po_status := ''failed'', po_failure_code := Some code, po_failure_message := Some message,
                    po_failed_at := Some (env_now E), po_reversal_transaction := Some rid\<rparr>"
      and fl: "flush_payout p' s1 = Inr s2" and pu: "publish (books_env E) ''payout.failed'' pl (Some (po_merchant p')) (po_id p') None True s2 = Inr (x, s')"
      using c f by (auto simp: mark_failed_def get_payout_or_raise_def bindE_Inr_iff Let_def split: if_splits)
    have "reverses p p' s s'" using reverses_publish [OF done1 [OF r fl] pu] by (simp add: p' is_in_flight_def IN_FLIGHT_STATUSES_def)
    then show ?thesis using f fail by (auto simp: p')
  qed
qed

section \<open>Runs\<close>

text \<open>
  One committed operation. \<^verbatim>\<open>step_books\<close> is any operation of the books (a post of another service, an
  event, an account), \<^verbatim>\<open>step_other\<close> a change of rows that are neither books nor payouts.
\<close>

inductive payout_step :: "'a db_scheme \<Rightarrow> 'a db_scheme \<Rightarrow> bool" where
  step_create: "create_payout (E :: service_env) m req cache s = (Inr (p, s'), cache') \<Longrightarrow> payout_step s s'"
| step_cancel: "cancel_payout (E :: service_env) i s = Inr (p, s') \<Longrightarrow> payout_step s s'"
| step_paid: "mark_paid (E :: service_env) i at_time bank s = Inr (p, s') \<Longrightarrow> payout_step s s'"
| step_failed: "mark_failed (E :: service_env) i code message s = Inr (p, s') \<Longrightarrow> payout_step s s'"
| step_scheduler: "scheduler_job (E :: service_env) s = Inr (n, s') \<Longrightarrow> payout_step s s'"
| step_books: "ledger_step s s' \<Longrightarrow> payout_step s s'"
| step_other: "\<lbrakk>accounts s' = accounts s; transactions s' = transactions s; entries s' = entries s; balance_cache s' = balance_cache s;
     payouts s' = payouts s\<rbrakk> \<Longrightarrow> payout_step s s'"

inductive_cases payout_stepE: "payout_step s s'"

inductive reachable_payouts :: "'a db_scheme \<Rightarrow> bool" where
  payouts_init: "\<lbrakk>accounts s = []; transactions s = []; entries s = []; balance_cache s = []; payouts s = []\<rbrakk> \<Longrightarrow> reachable_payouts s"
| payouts_step: "reachable_payouts s \<Longrightarrow> payout_step s s' \<Longrightarrow> reachable_payouts s'"

definition payouts_inv :: "'a db_scheme \<Rightarrow> bool" where
  "payouts_inv s \<longleftrightarrow> ledger_ok s \<and> payouts_ok (payouts s)
     \<and> (\<forall>p\<in>set (payouts s). reversal_recorded p s \<and> po_source_currency p \<noteq> Some [])"

lemma payouts_invD:
  "payouts_inv s \<Longrightarrow> ledger_ok s" "payouts_inv s \<Longrightarrow> payouts_ok (payouts s)"
  "payouts_inv s \<Longrightarrow> \<forall>p\<in>set (payouts s). po_source_currency p \<noteq> Some []"
  by (simp_all add: payouts_inv_def)

lemma recorded_stable: "moves s s' k d \<Longrightarrow> reversal_recorded p s \<Longrightarrow> reversal_recorded p s'"
  by (fastforce simp: reversal_recorded_def moves_def)

text \<open>The operations of the books leave every other table alone.\<close>

lemma bootstrap_types_tables:
  "bootstrap_types E ts m c l s = Inr (as, s') \<Longrightarrow> ledger.more s' = ledger.more s"
  by (induction ts arbitrary: s as) (auto simp: bindE_Inr_iff dest: resolver.resolve_frame)

lemma ledger_step_tables:
  assumes "ledger_step s s'" "accounts_ok s"
  shows "ledger.more s' = ledger.more s"
  using assms(1)
proof cases
  case step_post
  then show ?thesis using post_tables assms(2) by blast
next
  case (step_reverse t E key b res)
  then obtain r res0 s1 P f where p: "post E r s = Inr (res0, s1)" "s' = s1\<lparr>transactions := update_where P f (transactions s1)\<rparr>"
    by (auto simp: reverse_def bindE_Inr_iff Let_def)
  then show ?thesis using post_tables [OF p(1) assms(2)] by simp
next
  case step_resolve
  then show ?thesis using resolver.resolve_frame by metis
next
  case step_bootstrap
  then show ?thesis using bootstrap_types_tables unfolding bootstrap_def by metis
next
  case step_freeze
  then show ?thesis by (auto simp: freeze_def Let_def update_account_def split: option.splits if_splits)
next
  case step_status
  then show ?thesis by (auto simp: set_status_def bindE_Inr_iff update_account_def)
next
  case step_publish
  then show ?thesis using publish_same(1) by (metis same_books_def)
qed

lemma reverses_inv:
  assumes r: "reverses p p' s s'" and inv: "payouts_inv s" and p: "p \<in> set (payouts s)" and c: "po_source_currency p' = po_source_currency p"
  shows "payouts_inv s'"
proof -
  have m: "moves s s' (po_merchant p, balance_currency p, po_livemode p) (balance_amount_minor p)" and rec: "reversal_recorded p' s'"
    and ps: "payouts_ok (payouts s')" and pay: "payouts s' = update_where (\<lambda>q. po_id q = po_id p) (\<lambda>_. p') (payouts s)"
    using r unfolding reverses_def by blast+
  have "reversal_recorded q s' \<and> po_source_currency q \<noteq> Some []" if "q \<in> set (payouts s')" for q
  proof -
    from that obtain x where x: "x \<in> set (payouts s)" "q = (if po_id x = po_id p then p' else x)" by (auto simp: pay update_where_set)
    show ?thesis using x(2) rec c inv x(1) p recorded_stable [OF m] by (auto simp: payouts_inv_def)
  qed
  then show ?thesis using moves_okD [OF m] ps by (simp add: payouts_inv_def)
qed

lemma flush_inv:
  assumes f: "flush_payout p' s = Inr s'" and inv: "payouts_inv s" and p: "p \<in> set (payouts s)"
    and c: "po_source_currency p' = po_source_currency p" "po_reversal_transaction p' = po_reversal_transaction p"
      "po_merchant p' = po_merchant p" "po_id p' = po_id p"
  shows "payouts_inv s'"
proof -
  have m: "moves s s' k 0" for k by (rule flush_moves [OF f payouts_invD(1) [OF inv]])
  have pay: "payouts s' = update_where (\<lambda>q. po_id q = po_id p') (\<lambda>_. p') (payouts s)" using flush_frame [OF f] by simp
  have "reversal_recorded p s" using inv p by (simp add: payouts_inv_def)
  then have rec: "reversal_recorded p' s'" using recorded_stable [OF m] by (simp add: reversal_recorded_def c)
  have "reversal_recorded q s' \<and> po_source_currency q \<noteq> Some []" if "q \<in> set (payouts s')" for q
  proof -
    from that obtain x where x: "x \<in> set (payouts s)" "q = (if po_id x = po_id p' then p' else x)" by (auto simp: pay update_where_set)
    show ?thesis using x(2) rec c inv x(1) p recorded_stable [OF m] by (auto simp: payouts_inv_def)
  qed
  then show ?thesis using moves_okD [OF m] flush_payout_ok [OF f payouts_invD(2) [OF inv]] by (simp add: payouts_inv_def)
qed

lemma same_books_inv:
  assumes "same_books s s'" "payouts_inv s" shows "payouts_inv s'"
proof -
  have "payouts s' = payouts s" using assms(1) same_tables(1) [of s' s] by (simp add: same_books_def)
  then show ?thesis using assms same_books_ledger_ok recorded_stable [OF moves_same_books [OF assms(1) payouts_invD(1) [OF assms(2)]]]
    by (auto simp: payouts_inv_def)
qed

lemma create_inv:
  assumes c: "create_payout E m req cache s = (Inr (p, s'), cache')" and inv: "payouts_inv s"
  shows "payouts_inv s'"
proof -
  obtain c l b meth rate where t: "payout_target E m req s = Inr (c, l, b, meth)"
    and cr: "create_under_lock E m req c l b meth rate s = Inr (p, s')"
    using c by (auto simp: create_payout_def split: sum.splits prod.splits)
  have ne: "c \<noteq> []" using t by (auto simp: payout_target_def Let_def bindE_Inr_iff split: if_splits option.splits)
  note spec = create_spec [OF cr payouts_invD(1,2) [OF inv]]
  have "sql_balance_currency p = c" using spec(4) by (simp add: in_flight_key_def)
  then have "po_source_currency p \<noteq> Some []" using ne by (auto simp: sql_balance_currency_def)
  moreover have "reversal_recorded p s'" using spec(5) by (simp add: reversal_recorded_def)
  moreover have "\<forall>q\<in>set (payouts s). reversal_recorded q s' \<and> po_source_currency q \<noteq> Some []"
    using inv recorded_stable [OF spec(2)] by (simp add: payouts_inv_def)
  ultimately show ?thesis using spec(3,4) moves_okD [OF spec(2)] by (simp add: payouts_inv_def)
qed

lemma cancel_inv:
  assumes c: "cancel_payout E i s = Inr (p', s')" and inv: "payouts_inv s" shows "payouts_inv s'"
proof -
  obtain p where p: "find_payout i s = Some p" "reverses p p' s s'" using cancel_reverses [OF c payouts_invD [OF inv]] by blast
  have "po_source_currency p' = po_source_currency p"
    using c p(1) by (auto simp: cancel_payout_def get_payout_or_raise_def bindE_Inr_iff Let_def split: if_splits)
  then show ?thesis using reverses_inv [OF p(2) inv] find_payoutD [OF p(1)] by blast
qed

lemma failed_inv:
  assumes c: "mark_failed E i code message s = Inr (p', s')" and inv: "payouts_inv s" shows "payouts_inv s'"
proof -
  obtain p where p: "find_payout i s = Some p" "s' = s \<or> reverses p p' s s'"
    using failed_reverses [OF c payouts_invD [OF inv]] by (auto split: if_splits)
  have "po_source_currency p' = po_source_currency p"
    using c p(1) by (auto simp: mark_failed_def mark_returned_def get_payout_or_raise_def bindE_Inr_iff Let_def split: if_splits)
  then show ?thesis using p(2) inv reverses_inv [OF _ inv] find_payoutD [OF p(1)] by blast
qed

lemma paid_inv:
  assumes c: "mark_paid E i t bank s = Inr (p', s')" and inv: "payouts_inv s" shows "payouts_inv s'"
proof -
  obtain p where p: "find_payout i s = Some p" using c by (auto simp: mark_paid_def get_payout_or_raise_def bindE_Inr_iff split: option.splits)
  show ?thesis
  proof (cases "po_status p = ''paid''")
    case True
    then show ?thesis using c p inv by (auto simp: mark_paid_def get_payout_or_raise_def)
  next
    case False
    then obtain s1 ty pl m cid ca lm x where f: "flush_payout (p\<lparr>po_status := ''paid'', po_paid_at := Some t, po_bank_reference := Some bank\<rparr>) s = Inr s1"
      and pu: "publish (books_env E) ty pl m cid ca lm s1 = Inr (x, s')"
      using c p by (auto simp: mark_paid_def get_payout_or_raise_def bindE_Inr_iff Let_def)
    have "payouts_inv s1" using flush_inv [OF f inv, of p] find_payoutD [OF p] by simp
    then show ?thesis using same_books_inv [OF publish_same(1) [OF pu]] by blast
  qed
qed

lemma advance_inv:
  assumes "advance_all ps n s = Inr (k, s')" "payouts_inv s" "distinct (map po_id ps)" "set ps \<subseteq> set (payouts s)"
  shows "payouts_inv s'"
  using assms
proof (induction ps n s rule: advance_all.induct)
  case (2 p ps n s)
  show ?case
  proof (cases "po_status p = ''scheduled''")
    case True
    then obtain s1 where f: "flush_payout (p\<lparr>po_status := ''in_transit''\<rparr>) s = Inr s1" and r: "advance_all ps (Suc n) s1 = Inr (k, s')"
      using "2.prems"(1) by (auto simp: bindE_Inr_iff)
    have inv: "payouts_inv s1" using flush_inv [OF f "2.prems"(2), of p] "2.prems"(4) by simp
    have pay: "payouts s1 = update_where (\<lambda>q. po_id q = po_id p) (\<lambda>_. p\<lparr>po_status := ''in_transit''\<rparr>) (payouts s)"
      using flush_frame [OF f] by simp
    have "set ps \<subseteq> set (payouts s1)"
    proof
      fix q assume q: "q \<in> set ps"
      then have "po_id q \<noteq> po_id p" using "2.prems"(3) by (auto simp: image_iff)
      then show "q \<in> set (payouts s1)" using q "2.prems"(4) by (auto simp: pay update_where_set)
    qed
    then show ?thesis using "2.IH"(2) True f r inv "2.prems"(3) by simp
  next
    case False
    then show ?thesis using 2 by simp
  qed
qed simp

lemma due_rows:
  assumes "payouts_ok (payouts s)"
  shows "distinct (map po_id (list_due_payouts on k s))" "set (list_due_payouts on k s) \<subseteq> set (payouts s)"
proof -
  have "distinct (map po_id (payouts s))" using assms by (simp add: payouts_ok_def)
  then have "distinct (map po_id (sort_key f (filter P (payouts s))))" for f :: "payout \<Rightarrow> int \<times> int" and P
    by (simp add: distinct_map inj_on_def)
  then show "distinct (map po_id (list_due_payouts on k s))" by (simp add: list_due_payouts_def take_map [symmetric] distinct_take)
  show "set (list_due_payouts on k s) \<subseteq> set (payouts s)" unfolding list_due_payouts_def using set_take_subset by fastforce
qed

lemma scheduler_inv: "scheduler_job E s = Inr (n, s') \<Longrightarrow> payouts_inv s \<Longrightarrow> payouts_inv s'"
  using advance_inv due_rows [OF payouts_invD(2)] unfolding scheduler_job_def by blast

lemma payout_step_inv:
  assumes "payout_step s s'" "payouts_inv s" shows "payouts_inv s'"
  using assms(1)
proof cases
  case step_books
  have ok: "ledger_ok s" "accounts_ok s" using payouts_invD(1) [OF assms(2)] by (simp_all add: ledger_ok_def)
  have "payouts s' = payouts s" using same_tables(1) [OF ledger_step_tables [OF step_books ok(2)]] .
  moreover have "reversal_recorded p s \<Longrightarrow> reversal_recorded p s'" for p
    using step_key_stable [OF step_books ok(2)] by (fastforce simp: reversal_recorded_def)
  ultimately show ?thesis using assms(2) ledger_step_ok [OF step_books ok(1)] by (simp add: payouts_inv_def)
next
  case step_other
  then show ?thesis using assms(2) ledger_ok_cong [of s' s] holds_key_cong [of s' s] by (simp add: payouts_inv_def reversal_recorded_def)
next
  case step_create
  then show ?thesis using create_inv assms(2) by blast
next
  case step_cancel
  then show ?thesis using cancel_inv assms(2) by blast
next
  case step_paid
  then show ?thesis using paid_inv assms(2) by blast
next
  case step_failed
  then show ?thesis using failed_inv assms(2) by blast
next
  case step_scheduler
  then show ?thesis using scheduler_inv assms(2) by blast
qed

theorem reachable_payouts_inv: "reachable_payouts s \<Longrightarrow> payouts_inv s"
proof (induction rule: reachable_payouts.induct)
  case (payouts_init s)
  then show ?case using blank_books_ok [of s] by (simp add: payouts_inv_def payouts_ok_def)
qed (rule payout_step_inv)

lemma payout_steps_inv: "payout_step\<^sup>*\<^sup>* s s' \<Longrightarrow> payouts_inv s \<Longrightarrow> payouts_inv s'"
  by (induction rule: rtranclp_induct) (auto intro: payout_step_inv)

section \<open>At most one reversal\<close>

definition reversed_row :: "string \<Rightarrow> string \<Rightarrow> 'a db_scheme \<Rightarrow> bool" where
  "reversed_row i m s \<longleftrightarrow> (\<exists>p. find_payout i s = Some p \<and> po_merchant p = m \<and> po_reversal_transaction p \<noteq> None)"

lemma no_second_reversal:
  assumes inv: "payouts_inv s" and r: "reversed_row i m s"
  shows "\<not> is_ok (cancel_payout E i s)" and "mark_failed E i code message s = Inr (q, s') \<Longrightarrow> s' = s"
proof -
  obtain p x where p: "find_payout i s = Some p" "po_reversal_transaction p = Some x" using r by (auto simp: reversed_row_def)
  have inp: "p \<in> set (payouts s)" using find_payoutD [OF p(1)] by simp
  then obtain key where key: "ledger_key ''payoutrev'' (po_merchant p) (po_id p) = Inr key" "holds_key key x s"
    using inv p(2) by (auto simp: payouts_inv_def reversal_recorded_def)
  note ok = payouts_invD(1) [OF inv]
  show "\<not> is_ok (cancel_payout E i s)"
  proof
    let ?p1 = "p\<lparr>po_status := ''canceled''\<rparr>"
    assume "is_ok (cancel_payout E i s)"
    then obtain s1 y where f: "flush_payout ?p1 s = Inr s1" and rv: "reverse_payout_posting E ?p1 ''canceled'' s1 = Inr y"
      using p(1) by (auto simp: is_ok_def cancel_payout_def get_payout_or_raise_def bindE_Inr_iff Let_def split: sum.splits if_splits)
    have "ledger_ok s1" "holds_key key x s1" using flush_moves [OF f ok] key(2) by (auto simp: moves_def)
    then show False using reversal_needs_key [of s1 key x ?p1 E "''canceled''"] key(1) rv by simp
  qed
  have "\<not> is_ok (reverse_payout_posting E p code s)" by (rule reversal_needs_key [OF ok key(2,1)])
  then show "s' = s" if "mark_failed E i code message s = Inr (q, s')"
    using that p(1) by (auto simp: mark_failed_def mark_returned_def get_payout_or_raise_def bindE_Inr_iff is_ok_def split: if_splits sum.splits)
qed

lemma find_payout_update:
  assumes "find_payout i s = Some p" "payouts s' = update_where (\<lambda>q. po_id q = j) (\<lambda>_. p') (payouts s)" "po_id p' = j"
  shows "find_payout i s' = Some (if i = j then p' else p)"
proof -
  have "find_first (\<lambda>q. po_id q = i) (update_where (\<lambda>q. po_id q = j) (\<lambda>_. p') xs) =
      map_option (\<lambda>q. if i = j then p' else q) (find_first (\<lambda>q. po_id q = i) xs)" for xs
    using assms(3) by (induction xs) (auto simp: update_where_def)
  then show ?thesis using assms(1) by (simp add: find_payout_def assms(2))
qed

lemma reversed_row_flush:
  assumes f: "flush_payout p' s = Inr s'" and r: "reversed_row i m s"
    and p: "find_payout (po_id p') s = Some p" "po_merchant p' = po_merchant p" "po_reversal_transaction p' = po_reversal_transaction p"
  shows "reversed_row i m s'"
proof -
  obtain x where x: "find_payout i s = Some x" "po_merchant x = m" "po_reversal_transaction x \<noteq> None" using r by (auto simp: reversed_row_def)
  have "payouts s' = update_where (\<lambda>q. po_id q = po_id p') (\<lambda>_. p') (payouts s)" using flush_frame [OF f] by simp
  from find_payout_update [OF x(1) this refl] show ?thesis using x p by (auto simp: reversed_row_def)
qed

lemma reversed_row_cong: "payouts s' = payouts s \<Longrightarrow> reversed_row i m s \<Longrightarrow> reversed_row i m s'"
  by (simp add: reversed_row_def find_payout_def)

lemma find_payout_in: "payouts_ok (payouts s) \<Longrightarrow> p \<in> set (payouts s) \<Longrightarrow> find_payout (po_id p) s = Some p"
  using find_first_unique [of po_id "payouts s" p] by (simp add: payouts_ok_def find_payout_def)

lemma reversed_row_reverses:
  assumes v: "reverses p p' s s'" and r: "reversed_row i m s" and p: "find_payout j s = Some p"
  shows "reversed_row i m s'"
proof -
  obtain x where x: "find_payout i s = Some x" "po_merchant x = m" using r by (auto simp: reversed_row_def)
  have j: "po_id p = j" using find_payoutD [OF p] by simp
  have pay: "payouts s' = update_where (\<lambda>q. po_id q = j) (\<lambda>_. p') (payouts s)" "po_id p' = j" "po_merchant p' = po_merchant p"
    "po_reversal_transaction p' \<noteq> None" using v j by (auto simp: reverses_def)
  from find_payout_update [OF x(1) pay(1,2)] show ?thesis using r x p pay by (auto simp: reversed_row_def)
qed

lemma advance_reversed:
  assumes "advance_all ps n s = Inr (k, s')" "payouts_inv s" "distinct (map po_id ps)" "set ps \<subseteq> set (payouts s)" "reversed_row i m s"
  shows "reversed_row i m s'"
  using assms
proof (induction ps n s rule: advance_all.induct)
  case (2 p ps n s)
  show ?case
  proof (cases "po_status p = ''scheduled''")
    case True
    let ?p = "p\<lparr>po_status := ''in_transit''\<rparr>"
    obtain s1 where f: "flush_payout ?p s = Inr s1" and r: "advance_all ps (Suc n) s1 = Inr (k, s')"
      using "2.prems"(1) True by (auto simp: bindE_Inr_iff)
    have inv: "payouts_inv s1" using flush_inv [OF f "2.prems"(2), of p] "2.prems"(4) by simp
    have fp: "find_payout (po_id p) s = Some p" using find_payout_in [OF payouts_invD(2) [OF "2.prems"(2)]] "2.prems"(4) by simp
    have "reversed_row i m s1" using reversed_row_flush [OF f "2.prems"(5), of p] fp by simp
    moreover have "set ps \<subseteq> set (payouts s1)"
    proof
      fix q assume q: "q \<in> set ps"
      then have "po_id q \<noteq> po_id p" using "2.prems"(3) by (auto simp: image_iff)
      then show "q \<in> set (payouts s1)" using q "2.prems"(4) flush_frame [OF f] by (auto simp: update_where_set)
    qed
    ultimately show ?thesis using "2.IH"(2) True f r inv "2.prems"(3) by simp
  next
    case False
    then show ?thesis using 2 by simp
  qed
qed simp

lemma step_reversed:
  assumes "payout_step s s'" "payouts_inv s" "reversed_row i m s" shows "reversed_row i m s'"
  using assms(1)
proof cases
  case (step_create E m' req cache p cache')
  then obtain c l b meth rate where "create_under_lock E m' req c l b meth rate s = Inr (p, s')"
    by (auto simp: create_payout_def split: sum.splits prod.splits)
  from create_spec(4) [OF this payouts_invD(1,2) [OF assms(2)]] have "payouts s' = payouts s @ [p]" by simp
  then show ?thesis using assms(3) by (auto simp: reversed_row_def find_payout_def)
next
  case step_cancel
  then show ?thesis using cancel_reverses [OF _ payouts_invD [OF assms(2)]] reversed_row_reverses [OF _ assms(3)] by blast
next
  case step_failed
  then show ?thesis using failed_reverses [OF _ payouts_invD [OF assms(2)]] reversed_row_reverses [OF _ assms(3)] assms(3) by metis
next
  case (step_paid E j t bank p')
  then obtain p where p: "find_payout j s = Some p" by (auto simp: mark_paid_def get_payout_or_raise_def bindE_Inr_iff split: option.splits)
  show ?thesis
  proof (cases "po_status p = ''paid''")
    case True
    then show ?thesis using step_paid p assms(3) by (auto simp: mark_paid_def get_payout_or_raise_def)
  next
    case False
    let ?p = "p\<lparr>po_status := ''paid'', po_paid_at := Some t, po_bank_reference := Some bank\<rparr>"
    obtain s1 ty pl m' cid ca lm x where f: "flush_payout ?p s = Inr s1"
      and pu: "publish (books_env E) ty pl m' cid ca lm s1 = Inr (x, s')"
      using step_paid p False by (auto simp: mark_paid_def get_payout_or_raise_def bindE_Inr_iff Let_def)
    have "payouts s' = payouts s1" using publish_same(1) [OF pu] same_tables(1) [of s' s1] by (simp add: same_books_def)
    moreover have "reversed_row i m s1" using reversed_row_flush [OF f assms(3), of p] p find_payoutD [OF p] by simp
    ultimately show ?thesis using reversed_row_cong by blast
  qed
next
  case step_scheduler
  then show ?thesis using advance_reversed [OF _ assms(2) due_rows [OF payouts_invD(2) [OF assms(2)]] assms(3)] unfolding scheduler_job_def by blast
next
  case step_books
  have "accounts_ok s" using payouts_invD(1) [OF assms(2)] by (simp add: ledger_ok_def)
  then show ?thesis using reversed_row_cong [OF same_tables(1) [OF ledger_step_tables [OF step_books]]] assms(3) by blast
next
  case step_other
  then show ?thesis using reversed_row_cong assms(3) by blast
qed

lemma run_reversed:
  assumes "payout_step\<^sup>*\<^sup>* s s'" "payouts_inv s \<and> reversed_row i m s"
  shows "payouts_inv s' \<and> reversed_row i m s'"
  using assms by (induction rule: rtranclp_induct) (auto intro: payout_step_inv step_reversed)

lemma reversed_after:
  assumes "reverses p p' s s'" "find_payout i s = Some p"
  shows "reversed_row i (po_merchant p) s'"
proof -
  have i: "po_id p = i" using find_payoutD [OF assms(2)] by simp
  have r: "payouts s' = update_where (\<lambda>q. po_id q = i) (\<lambda>_. p') (payouts s)" "po_id p' = i" "po_merchant p' = po_merchant p"
    "po_reversal_transaction p' \<noteq> None" using assms(1) i by (auto simp: reverses_def)
  from find_payout_update [OF assms(2) r(1,2)] r(3,4) show ?thesis by (simp add: reversed_row_def)
qed

lemma cancel_keeps:
  assumes "cancel_payout E i s = Inr (p', s')" "find_payout i s = Some p"
  shows "po_merchant p' = po_merchant p" "balance_currency p' = balance_currency p" "po_livemode p' = po_livemode p"
    "balance_amount_minor p' = balance_amount_minor p"
  using assms by (auto simp: cancel_payout_def get_payout_or_raise_def bindE_Inr_iff Let_def balance_currency_def balance_amount_minor_def
      split: if_splits option.splits)

end
