(* ===== verification/AuditChecks.thy ===== *)
theory AuditChecks
  imports Balances
begin

text \<open>
  \<^verbatim>\<open>src/app/services/audit.py\<close>: the nightly checks of \<^verbatim>\<open>LedgerAuditService\<close> and the maker-checker
  \<^verbatim>\<open>AdjustmentService\<close>. On books that satisfy the invariant each check passes and publishes nothing;
  on any books the checks count exactly the violations they look for. An adjustment filed by
  \<^verbatim>\<open>request\<close> cannot be approved: its identifier contains the separator that \<^verbatim>\<open>ledger_key\<close> refuses.
\<close>

section \<open>The nightly checks\<close>

definition DUPLICATE_LOOKBACK :: int where "DUPLICATE_LOOKBACK = 2 * DAY"

record trial_balance_result =
  tr_currency :: string
  tr_as_of :: int
  tr_debit_minor :: int
  tr_credit_minor :: int
  tr_balanced :: bool

definition result_delta_minor :: "trial_balance_result \<Rightarrow> int" where
  "result_delta_minor r = tr_debit_minor r - tr_credit_minor r"

definition publish_imbalance :: "env \<Rightarrow> string \<Rightarrow> string \<Rightarrow> int \<Rightarrow> int \<Rightarrow> string list \<Rightarrow> string option
    \<Rightarrow> 'a ledger_scheme \<Rightarrow> ('a ledger_scheme) res" where
  "publish_imbalance E check c expected actual samples m s =
     mapE snd (publish E ''ledger.imbalance_detected''
       [(''check'', JStr check), (''merchant_id'', opt_str m), (''currency'', JStr c), (''expected_minor'', JInt expected),
        (''actual_minor'', JInt actual), (''delta_minor'', JInt (actual - expected)),
        (''sample_transaction_ids'', JStrs samples), (''detected_at'', JTime (env_now E))]
       m (''audit:'' @ check @ '':'' @ c) None True s)"

text \<open>The event of a failed check commits before the error is raised; the pair is the committed state and the outcome.\<close>

definition run_trial_balance :: "env \<Rightarrow> string \<Rightarrow> int option \<Rightarrow> 'a ledger_scheme
    \<Rightarrow> trial_balance_result res \<times> 'a ledger_scheme" where
  "run_trial_balance E c as_of s =
    (let stamp = (case as_of of None \<Rightarrow> env_now E | Some t \<Rightarrow> t);
         tot = trial_balance_by_currency c None (Some stamp) s;
         r = \<lparr>tr_currency = c, tr_as_of = stamp, tr_debit_minor = tt_debit_minor tot, tr_credit_minor = tt_credit_minor tot,
              tr_balanced = (tt_debit_minor tot = tt_credit_minor tot)\<rparr>
     in if tr_balanced r then (Inr r, s)
        else case publish_imbalance E ''trial_balance'' c (tt_credit_minor tot) (tt_debit_minor tot)
                    (sample_unbalanced_transactions c (Some stamp) 10 s) None s of
               Inl e \<Rightarrow> (Inl e, s)
             | Inr s' \<Rightarrow> (raise LedgerIntegrityError, s'))"

definition check_duplicate_settlements :: "env \<Rightarrow> int option \<Rightarrow> 'a ledger_scheme \<Rightarrow> (nat \<times> 'a ledger_scheme) res" where
  "check_duplicate_settlements E since s =
    (let start = (case since of None \<Rightarrow> env_now E - DUPLICATE_LOOKBACK | Some t \<Rightarrow> t);
         dups = list_duplicate_idempotency_keys ''settle'' start s
     in if dups = [] then Inr (0, s)
        else mapE (\<lambda>s'. (length dups, s'))
          (publish_imbalance E ''batch_total'' (dk_currency (hd dups)) (int (length dups)) (sum_list (map (int \<circ> dk_count) dups))
             (map dk_sample_transaction_id (take 10 dups)) None s))"

definition list_stale :: "nat \<Rightarrow> 'a ledger_scheme \<Rightarrow> (balance_key \<times> balance_row) list" where
  "list_stale limit s = take limit (sort_key (\<lambda>(k, b). computed_at b) (balance_cache s))"

fun drift_loop :: "env \<Rightarrow> (balance_key \<times> balance_row) list \<Rightarrow> 'a ledger_scheme \<Rightarrow> (nat \<times> 'a ledger_scheme) res" where
  "drift_loop E [] s = Inr (0, s)"
| "drift_loop E (((m, c, l), b) # rows) s =
     (let expected = total_of (sum_buckets m c l (Some (env_now E)) s) ''merchant_payable'' in
      if expected = available_minor b then drift_loop E rows s
      else bindE (publish_imbalance E ''merchant_balance'' c expected (available_minor b) [] (Some m) s) (\<lambda>s1.
           bindE (drift_loop E rows s1) (\<lambda>(n, s2). Inr (Suc n, s2))))"

definition check_balance_cache_drift :: "env \<Rightarrow> nat \<Rightarrow> 'a ledger_scheme \<Rightarrow> (nat \<times> 'a ledger_scheme) res" where
  "check_balance_cache_drift E limit s = drift_loop E (list_stale limit s) s"

text \<open>
  \<^verbatim>\<open>LedgerAuditJob.run_once\<close>: an imbalance in one currency is a finding and does not stop the others;
  any other error ends the pass. What was committed before it stays.
\<close>

definition AUDITED_CURRENCIES :: "string list" where "AUDITED_CURRENCIES = [''USD'', ''EUR'', ''GBP'', ''ILS'']"

fun audit_currencies :: "env \<Rightarrow> string list \<Rightarrow> nat \<Rightarrow> 'a ledger_scheme \<Rightarrow> nat res \<times> 'a ledger_scheme" where
  "audit_currencies E [] n s = (Inr n, s)"
| "audit_currencies E (c # cs) n s = (case run_trial_balance E c None s of
     (Inl e, s') \<Rightarrow> if caught_by e LedgerIntegrityError then audit_currencies E cs (Suc n) s' else (Inl e, s')
   | (Inr r, s') \<Rightarrow> audit_currencies E cs (if tr_balanced r then n else Suc n) s')"

definition ledger_audit_job :: "env \<Rightarrow> 'a ledger_scheme \<Rightarrow> nat res \<times> 'a ledger_scheme" where
  "ledger_audit_job E s = (case audit_currencies E AUDITED_CURRENCIES 0 s of
     (Inl e, s1) \<Rightarrow> (Inl e, s1)
   | (Inr n, s1) \<Rightarrow> (case check_duplicate_settlements E None s1 of
       Inl e \<Rightarrow> (Inl e, s1)
     | Inr (d, s2) \<Rightarrow> (case check_balance_cache_drift E 500 s2 of
         Inl e \<Rightarrow> (Inl e, s2)
       | Inr (k, s3) \<Rightarrow> (Inr (n + d + k), s3))))"

section \<open>Manual adjustments\<close>

text \<open>\<^verbatim>\<open>LedgerAdjustmentRequestRepository.add\<close>: the primary key and the dual-control constraint.\<close>

definition insert_adjustment :: "adjustment_request \<Rightarrow> 'a db_scheme \<Rightarrow> ('a db_scheme) res" where
  "insert_adjustment r s =
    (if ar_id r \<in> set (map ar_id (adjustments s)) then raise IntegrityError
     else if ar_approved_by r = Some (ar_requested_by r) then raise IntegrityError
     else Inr (s\<lparr>adjustments := adjustments s @ [r]\<rparr>))"

definition request_adjustment :: "env \<Rightarrow> string option \<Rightarrow> string \<Rightarrow> (string \<times> json_value) list list \<Rightarrow> string \<Rightarrow> string
    \<Rightarrow> 'a db_scheme \<Rightarrow> (adjustment_request \<times> 'a db_scheme) res" where
  "request_adjustment E m c lines reason requested_by s =
    (if lines = [] then raise ValidationError
     else if reason = [] then raise ValidationError
     else bindE (ledger_key ''lar'' requested_by reason) (\<lambda>key.
       let r = \<lparr>ar_id = take 26 key, ar_merchant = m, ar_currency = c, ar_lines = lines, ar_reason_code = reason,
                ar_requested_by = requested_by, ar_requested_at = env_now E, ar_approved_by = None, ar_approved_at = None,
                ar_posted_transaction = None, ar_status = ''pending'', ar_livemode = True\<rparr>
       in bindE (insert_adjustment r s) (\<lambda>s'. Inr (r, s'))))"

text \<open>
  The decoding of one stored line: \<^verbatim>\<open>str(line['account_type'])\<close>, \<^verbatim>\<open>int(line['amount_minor'])\<close> and so on. A
  missing key is a \<^verbatim>\<open>KeyError\<close>, an amount that is no integer a \<^verbatim>\<open>ValueError\<close> or \<^verbatim>\<open>TypeError\<close>, and a direction
  that is neither debit nor credit is refused by the enumeration of the database. The text of a
  list or an object is some bracketed text, which is no account type and no direction.
\<close>

definition line_text :: "json_value \<Rightarrow> string" where
  "line_text v = (case v of JStr t \<Rightarrow> t | JInt n \<Rightarrow> str_int n | JBool b \<Rightarrow> if b then ''True'' else ''False''
     | JNull \<Rightarrow> ''None'' | _ \<Rightarrow> ''[]'')"

definition line_int :: "json_value \<Rightarrow> int res" where
  "line_int v = (case v of JInt n \<Rightarrow> Inr n | JBool b \<Rightarrow> Inr (if b then 1 else 0)
     | JStr t \<Rightarrow> (case py_int t of None \<Rightarrow> raise ValueError | Some n \<Rightarrow> Inr n) | _ \<Rightarrow> raise TypeError)"

definition line_key_of :: "string \<Rightarrow> (string \<times> json_value) list \<Rightarrow> json_value res" where
  "line_key_of k line = (case map_of line k of None \<Rightarrow> raise KeyError | Some v \<Rightarrow> Inr v)"

definition decode_line :: "(string \<times> json_value) list \<Rightarrow> posting_line res" where
  "decode_line line =
     bindE (mapE line_text (line_key_of ''account_type'' line)) (\<lambda>t.
     bindE (mapE line_text (line_key_of ''direction'' line)) (\<lambda>d.
     bindE (bindE (line_key_of ''amount_minor'' line) line_int) (\<lambda>a.
       if d = ''debit'' then Inr (debit t a) else if d = ''credit'' then Inr (credit t a) else raise IntegrityError)))"

definition find_adjustment :: "string \<Rightarrow> 'a db_scheme \<Rightarrow> adjustment_request option" where
  "find_adjustment i s = find_first (\<lambda>r. ar_id r = i) (adjustments s)"

definition approve_adjustment :: "'e service_env_scheme \<Rightarrow> string \<Rightarrow> string \<Rightarrow> 'a db_scheme
    \<Rightarrow> (adjustment_request \<times> 'a db_scheme) res" where
  "approve_adjustment E i approved_by s =
    (case find_adjustment i s of
       None \<Rightarrow> raise NotFoundError
     | Some r \<Rightarrow>
         if ar_status r \<noteq> ''pending'' then raise ValidationError
         else if approved_by = ar_requested_by r then raise DualControlRequiredError
         else bindE (traverse decode_line (ar_lines r)) (\<lambda>lines.
              bindE (ledger_key ''adjustment'' (ar_id r) (ar_reason_code r)) (\<lambda>key.
              bindE (ledger_key ''adjustmentfp'' (ar_id r) approved_by) (\<lambda>fp.
              bindE (post (books_env E) \<lparr>pr_key = key, pr_purpose = ''adjustment'', pr_merchant = ar_merchant r,
                 pr_currency = ar_currency r, pr_livemode = ar_livemode r, pr_reference_type = ''ledger_adjustment_request'',
                 pr_reference_id = ar_id r, pr_lines = lines, pr_created_by = ''admin'', pr_fingerprint = env_sha256 E fp,
                 pr_on_conflict = RaiseConflict\<rparr> s) (\<lambda>(res, s1).
                let r' = r\<lparr>ar_approved_by := Some approved_by, ar_approved_at := Some (env_now E), ar_status := ''posted'',
                           ar_posted_transaction := Some (txn_id (result_transaction res))\<rparr>
                in Inr (r', s1\<lparr>adjustments := update_where (\<lambda>x. ar_id x = i) (\<lambda>_. r') (adjustments s1)\<rparr>))))))"

section \<open>The checks on sound books\<close>

lemma run_trial_balance_ok:
  assumes "ledger_ok s"
  shows "\<exists>r. run_trial_balance E c as_of s = (Inr r, s) \<and> tr_balanced r \<and> result_delta_minor r = 0"
  using trial_balance_zero(2) [OF assms] by (simp add: run_trial_balance_def Let_def result_delta_minor_def)

lemma check_duplicates_ok: "ledger_ok s \<Longrightarrow> check_duplicate_settlements E since s = Inr (0, s)"
  by (simp add: check_duplicate_settlements_def Let_def no_duplicate_keys)

lemma payable_total: "total_of (row_totals b) ''merchant_payable'' = available_minor b"
  by (simp add: total_of_def row_totals_def)

lemma drift_loop_ok:
  assumes "ledger_ok s" "\<forall>e\<in>set (entries s). le_created_at e \<le> env_now E"
    "\<forall>(k, b)\<in>set rows. map_of (balance_cache s) k = Some b"
  shows "drift_loop E rows s = Inr (0, s)"
  using assms(3)
proof (induction rows)
  case (Cons row rows)
  obtain m c l b where row: "row = ((m, c, l), b)" by (metis prod.exhaust)
  have "map_of (balance_cache s) (m, c, l) = Some b" using Cons.prems row by auto
  then have "total_of (sum_buckets m c l (Some (env_now E)) s) ''merchant_payable'' = available_minor b"
    using until_all [OF assms(2)] sums_are_cached [OF assms(1)] by (simp add: cached_def payable_total)
  then show ?case using Cons row by simp
qed simp

lemma check_drift_ok:
  assumes "ledger_ok s" "\<forall>e\<in>set (entries s). le_created_at e \<le> env_now E" "distinct (map fst (balance_cache s))"
  shows "check_balance_cache_drift E limit s = Inr (0, s)"
  unfolding check_balance_cache_drift_def
proof (rule drift_loop_ok [OF assms(1,2)], safe)
  fix m c l b assume "((m, c, l), b) \<in> set (list_stale limit s)"
  then have "((m, c, l), b) \<in> set (balance_cache s)" by (auto simp: list_stale_def dest: in_set_takeD)
  then show "map_of (balance_cache s) (m, c, l) = Some b" using assms(3) by simp
qed

text \<open>On any books the drift check counts the rows whose cached amount differs from the recomputed one.\<close>

definition drifted :: "env \<Rightarrow> 'a ledger_scheme \<Rightarrow> balance_key \<times> balance_row \<Rightarrow> bool" where
  "drifted E s row = (case row of ((m, c, l), b) \<Rightarrow>
     total_of (sum_buckets m c l (Some (env_now E)) s) ''merchant_payable'' \<noteq> available_minor b)"

lemma sum_buckets_same_books: "same_books s s' \<Longrightarrow> sum_buckets m c l t s' = sum_buckets m c l t s"
  by (simp add: sum_buckets_def bucket_rows_def same_books_def)

text \<open>On sound books the whole nightly pass reports nothing and writes nothing.\<close>

lemma audit_currencies_ok: "ledger_ok s \<Longrightarrow> audit_currencies E cs n s = (Inr n, s)"
proof (induction cs arbitrary: n)
  case (Cons c cs)
  then show ?case using run_trial_balance_ok [of s E c None] by auto
qed simp

lemma audit_job_ok:
  assumes "ledger_ok s" "\<forall>e\<in>set (entries s). le_created_at e \<le> env_now E" "distinct (map fst (balance_cache s))"
  shows "ledger_audit_job E s = (Inr 0, s)"
  by (simp add: ledger_audit_job_def audit_currencies_ok [OF assms(1)] check_duplicates_ok [OF assms(1)] check_drift_ok [OF assms])

lemma drift_loop_counts:
  "drift_loop E rows s = Inr (n, s') \<Longrightarrow> n = length (filter (drifted E s) rows) \<and> same_books s s'"
proof (induction rows arbitrary: s n)
  case (Cons row rows)
  obtain m c l b where row: "row = ((m, c, l), b)" by (metis prod.exhaust)
  show ?case
  proof (cases "drifted E s row")
    case True
    then obtain s1 n' where p: "publish_imbalance E ''merchant_balance'' c
        (total_of (sum_buckets m c l (Some (env_now E)) s) ''merchant_payable'') (available_minor b) [] (Some m) s = Inr s1"
      "drift_loop E rows s1 = Inr (n', s')" "n = Suc n'"
      using Cons.prems by (auto simp: row drifted_def Let_def bindE_Inr_iff)
    have sb: "same_books s s1" using p(1) by (auto simp: publish_imbalance_def mapE_Inr_iff dest: publish_same(1))
    then have "drifted E s1 = drifted E s" by (auto simp: drifted_def [abs_def] sum_buckets_same_books)
    then show ?thesis using Cons.IH [OF p(2)] p(3) True sb by (simp add: same_books_def)
  next
    case False
    then show ?thesis using Cons by (auto simp: row drifted_def Let_def)
  qed
qed simp

section \<open>Adjustments filed by request cannot be approved\<close>

lemma take_has_separator:
  assumes "ledger_key ''lar'' by reason = Inr key"
  shows "CHR '':'' \<in> set (take 26 key)"
proof -
  have "key = ''lar'' @ '':'' @ by @ '':'' @ reason" using ledger_key_okD(1) [OF assms] .
  then show ?thesis by simp
qed

lemma approve_needs_plain_id:
  assumes "approve_adjustment E i by s = Inr (r, s')" shows "CHR '':'' \<notin> set i"
proof -
  obtain q where q: "find_adjustment i s = Some q"
    using assms by (auto simp: approve_adjustment_def split: option.splits)
  then have "ar_id q = i" by (auto simp: find_adjustment_def dest: find_first_SomeD)
  moreover obtain key where "ledger_key ''adjustment'' (ar_id q) (ar_reason_code q) = Inr key"
    using assms q by (auto simp: approve_adjustment_def bindE_Inr_iff split: if_splits)
  ultimately show ?thesis using ledger_key_okD(3) by blast
qed

lemma requested_never_approved:
  assumes "request_adjustment E m c lines reason by s = Inr (r, s')"
  shows "\<not> is_ok (approve_adjustment E' (ar_id r) by' s'')"
proof -
  obtain key where "ledger_key ''lar'' by reason = Inr key" "ar_id r = take 26 key"
    using assms by (auto simp: request_adjustment_def Let_def bindE_Inr_iff split: if_splits)
  then have "CHR '':'' \<in> set (ar_id r)" using take_has_separator by metis
  then show ?thesis using approve_needs_plain_id by (fastforce simp: is_ok_def split: sum.splits)
qed

text \<open>An approval that goes through has two persons behind it and posts the stored lines under the books' rules.\<close>

lemma approve_adjustment_ok:
  assumes a: "approve_adjustment E i by s = Inr (r, s')" and ok: "ledger_ok s"
  shows "ledger_ok s'" "ar_approved_by r = Some by" "by \<noteq> ar_requested_by r" "ar_status r = ''posted''"
    "\<exists>t\<in>set (transactions s'). Some (txn_id t) = ar_posted_transaction r"
proof -
  obtain q req res s1 where q: "find_adjustment i s = Some q" "by \<noteq> ar_requested_by q"
    and p: "post (books_env E) req s = Inr (res, s1)"
    and r: "r = q\<lparr>ar_approved_by := Some by, ar_approved_at := Some (env_now E), ar_status := ''posted'',
                  ar_posted_transaction := Some (txn_id (result_transaction res))\<rparr>"
    and s': "s' = s1\<lparr>adjustments := update_where (\<lambda>x. ar_id x = i) (\<lambda>_. r) (adjustments s1)\<rparr>"
    using a by (auto simp: approve_adjustment_def bindE_Inr_iff Let_def split: option.splits if_splits)
  show "ledger_ok s'" using post_ledger_ok [OF p ok] by (simp add: s')
  show "ar_approved_by r = Some by" "by \<noteq> ar_requested_by r" "ar_status r = ''posted''" using q by (simp_all add: r)
  have "holds_key (pr_key req) (txn_id (result_transaction res)) s1" using post_takes_key [OF p ok] by blast
  then obtain t where "find_by_idempotency_key (pr_key req) s1 = Some t" "txn_id t = txn_id (result_transaction res)"
    by (auto simp: holds_key_def)
  then show "\<exists>t\<in>set (transactions s'). Some (txn_id t) = ar_posted_transaction r"
    by (auto simp: s' r find_by_idempotency_key_def dest!: find_first_SomeD)
qed

end
