(* ===== verification/Reserves.thy ===== *)
theory Reserves
  imports Tables
begin

text \<open>
  \<^verbatim>\<open>src/app/services/reserves.py\<close> with its repository: rolling reserve holds and their release. A
  release posts once per hold and pays back exactly what was held. A pass stops at the first hold
  whose release raises, and a hold made by \<^verbatim>\<open>create_hold\<close> always raises: its identifier contains the
  separator that \<^verbatim>\<open>ledger_key\<close> refuses.
\<close>

definition find_hold :: "string \<Rightarrow> 'a db_scheme \<Rightarrow> reserve_hold option" where
  "find_hold i s = find_first (\<lambda>h. rh_id h = i) (reserve_holds s)"

definition insert_hold :: "reserve_hold \<Rightarrow> 'a db_scheme \<Rightarrow> ('a db_scheme) res" where
  "insert_hold h s =
    (if rh_id h \<in> set (map rh_id (reserve_holds s)) then raise IntegrityError
     else if rh_amount h \<le> 0 then raise IntegrityError
     else if rh_held_from h \<notin> set (map txn_id (transactions s)) then raise IntegrityError
     else Inr (s\<lparr>reserve_holds := reserve_holds s @ [h]\<rparr>))"

definition list_due_holds :: "date \<Rightarrow> nat \<Rightarrow> 'a db_scheme \<Rightarrow> reserve_hold list" where
  "list_due_holds on limit s = take limit (sort_key rh_release_on
     (filter (\<lambda>h. rh_released h = None \<and> rh_release_on h \<le> on) (reserve_holds s)))"

definition list_outstanding :: "string \<Rightarrow> string option \<Rightarrow> 'a db_scheme \<Rightarrow> reserve_hold list" where
  "list_outstanding m c s = sort_key rh_release_on
     (filter (\<lambda>h. rh_merchant h = m \<and> rh_released h = None \<and> (c = None \<or> c = Some (rh_currency h))) (reserve_holds s))"

definition sum_outstanding :: "string \<Rightarrow> string \<Rightarrow> 'a db_scheme \<Rightarrow> int" where
  "sum_outstanding m c s = sum_list (map rh_amount
     (filter (\<lambda>h. rh_merchant h = m \<and> rh_currency h = c \<and> rh_released h = None) (reserve_holds s)))"

definition outstanding_for_merchant :: "string \<Rightarrow> string \<Rightarrow> 'a db_scheme \<Rightarrow> int" where
  "outstanding_for_merchant m c s = sum_list (map rh_amount (list_outstanding m (Some c) s))"

definition create_hold :: "string \<Rightarrow> string \<Rightarrow> int \<Rightarrow> string \<Rightarrow> date \<Rightarrow> bool \<Rightarrow> 'a db_scheme \<Rightarrow> (reserve_hold \<times> 'a db_scheme) res" where
  "create_hold m c amount held_from release_on livemode s =
    (if amount \<le> 0 then raise ValidationError
     else bindE (ledger_key ''rh'' held_from (str_int amount)) (\<lambda>key.
       let h = \<lparr>rh_id = take 26 key, rh_merchant = m, rh_currency = c, rh_amount = amount, rh_held_from = held_from,
                rh_release_on = release_on, rh_released = None, rh_livemode = livemode\<rparr>
       in bindE (insert_hold h s) (\<lambda>s'. Inr (h, s'))))"

definition release_request :: "'e service_env_scheme \<Rightarrow> reserve_hold \<Rightarrow> post_request res" where
  "release_request E h =
     bindE (ledger_key ''reserverelease'' (rh_merchant h) (rh_id h)) (\<lambda>key.
     bindE (ledger_key ''reservereleasefp'' (rh_id h) (iso_date (rh_release_on h))) (\<lambda>fp.
       Inr \<lparr>pr_key = key, pr_purpose = ''reserve_release'', pr_merchant = Some (rh_merchant h), pr_currency = rh_currency h,
            pr_livemode = rh_livemode h, pr_reference_type = ''reserve_hold'', pr_reference_id = rh_id h,
            pr_lines = [debit ''reserve'' (rh_amount h), credit ''merchant_payable'' (rh_amount h)],
            pr_created_by = ''system'', pr_fingerprint = env_sha256 E fp, pr_on_conflict = RaiseConflict\<rparr>))"

definition release_one :: "'e service_env_scheme \<Rightarrow> string \<Rightarrow> 'a db_scheme \<Rightarrow> (bool \<times> 'a db_scheme) res" where
  "release_one E i s =
    (case find_hold i s of
       None \<Rightarrow> raise NotFoundError
     | Some h \<Rightarrow> if rh_released h \<noteq> None then Inr (False, s)
         else bindE (release_request E h) (\<lambda>req.
              bindE (post (books_env E) req s) (\<lambda>(res, s1).
                Inr (True, s1\<lparr>reserve_holds := update_where (\<lambda>x. rh_id x = i)
                   (\<lambda>x. x\<lparr>rh_released := Some (txn_id (result_transaction res))\<rparr>) (reserve_holds s1)\<rparr>))))"

text \<open>
  One transaction per hold; an exception ends the loop and leaves what was committed before it. The
  result is the number released and the outcome of the pass.
\<close>

fun release_all :: "'e service_env_scheme \<Rightarrow> string list \<Rightarrow> nat \<Rightarrow> 'a db_scheme \<Rightarrow> nat res \<times> 'a db_scheme" where
  "release_all E [] n s = (Inr n, s)"
| "release_all E (i # is) n s = (case release_one E i s of
     Inl e \<Rightarrow> (Inl e, s)
   | Inr (done, s') \<Rightarrow> release_all E is (if done then Suc n else n) s')"

definition release_due :: "'e service_env_scheme \<Rightarrow> date option \<Rightarrow> nat \<Rightarrow> 'a db_scheme \<Rightarrow> nat res \<times> 'a db_scheme" where
  "release_due E on limit s =
    (let d = (case on of None \<Rightarrow> date_of (env_now E) | Some x \<Rightarrow> x) in release_all E (map rh_id (list_due_holds d limit s)) 0 s)"

definition reserve_release_job :: "'e service_env_scheme \<Rightarrow> 'a db_scheme \<Rightarrow> nat res \<times> 'a db_scheme" where
  "reserve_release_job E s = release_due E (Some (date_of (env_now E))) 500 s"

section \<open>What a release does\<close>

lemma outstanding_is_sum: "outstanding_for_merchant m c s = sum_outstanding m c s"
proof -
  have "filter (\<lambda>h. rh_merchant h = m \<and> rh_released h = None \<and> (Some c = None \<or> Some c = Some (rh_currency h))) (reserve_holds s) =
      filter (\<lambda>h. rh_merchant h = m \<and> rh_currency h = c \<and> rh_released h = None) (reserve_holds s)"
    by (rule filter_cong) auto
  then have "mset (map rh_amount (list_outstanding m (Some c) s)) =
      mset (map rh_amount (filter (\<lambda>h. rh_merchant h = m \<and> rh_currency h = c \<and> rh_released h = None) (reserve_holds s)))"
    unfolding list_outstanding_def by (simp only: mset_map mset_sort)
  from arg_cong [OF this, of sum_mset] show ?thesis
    unfolding outstanding_for_merchant_def sum_outstanding_def by (simp only: sum_mset_sum_list)
qed

lemma release_one_cases:
  assumes "release_one E i s = Inr (b, s')"
  obtains (released) h where "find_hold i s = Some h" "rh_released h \<noteq> None" "b = False" "s' = s"
  | (posted) h req res s1 where "find_hold i s = Some h" "rh_released h = None" "b = True" "release_request E h = Inr req"
      "post (books_env E) req s = Inr (res, s1)"
      "s' = s1\<lparr>reserve_holds := update_where (\<lambda>x. rh_id x = i)
          (\<lambda>x. x\<lparr>rh_released := Some (txn_id (result_transaction res))\<rparr>) (reserve_holds s1)\<rparr>"
  using assms by (auto simp: release_one_def bindE_Inr_iff split: option.splits if_splits)

lemma release_one_ok: "release_one E i s = Inr (b, s') \<Longrightarrow> ledger_ok s \<Longrightarrow> ledger_ok s'"
  by (erule release_one_cases) (auto intro: post_ledger_ok)

lemma release_request_lines:
  "release_request E h = Inr req \<Longrightarrow> pr_lines req = [debit ''reserve'' (rh_amount h), credit ''merchant_payable'' (rh_amount h)]
     \<and> pr_merchant req = Some (rh_merchant h) \<and> pr_currency req = rh_currency h \<and> pr_livemode req = rh_livemode h
     \<and> pr_on_conflict req = RaiseConflict"
  by (auto simp: release_request_def bindE_Inr_iff)

lemma release_all_ok: "ledger_ok s \<Longrightarrow> ledger_ok (snd (release_all E is n s))"
  by (induction "is" arbitrary: n s) (auto split: sum.splits prod.splits intro: release_one_ok)

lemma release_moves_held_amount:
  assumes r: "release_one E i s = Inr (True, s')" and ok: "ledger_ok s" and h: "find_hold i s = Some h"
  shows "bucket_balance s' ''reserve'' k = bucket_balance s ''reserve'' k
      - (if k = (rh_merchant h, rh_currency h, rh_livemode h) then rh_amount h else 0)"
    and "bucket_balance s' ''merchant_payable'' k = bucket_balance s ''merchant_payable'' k
      + (if k = (rh_merchant h, rh_currency h, rh_livemode h) then rh_amount h else 0)"
    and "\<exists>h'. find_hold i s' = Some h' \<and> rh_released h' \<noteq> None"
proof -
  obtain req res s1 where req: "release_request E h = Inr req" and p: "post (books_env E) req s = Inr (res, s1)"
    and s': "s' = s1\<lparr>reserve_holds := update_where (\<lambda>x. rh_id x = i)
          (\<lambda>x. x\<lparr>rh_released := Some (txn_id (result_transaction res))\<rparr>) (reserve_holds s1)\<rparr>"
    using r h by (auto elim: release_one_cases)
  note L = release_request_lines [OF req]
  have c: "result_created res" using post_existing(3) [OF p] L by auto
  have st: "signed_total (pr_lines req) [''reserve''] = - rh_amount h" "signed_total (pr_lines req) [''merchant_payable''] = rh_amount h"
    by (simp_all add: L signed_total_def normal_of_def NORMAL_BALANCE_BY_TYPE_def)
  have bb: "bucket_balance s' t k = bucket_balance s1 t k" for t
    by (simp add: s' bucket_balance_def bucket_part_def [abs_def] find_account_def)
  show "bucket_balance s' ''reserve'' k = bucket_balance s ''reserve'' k
      - (if k = (rh_merchant h, rh_currency h, rh_livemode h) then rh_amount h else 0)"
    "bucket_balance s' ''merchant_payable'' k = bucket_balance s ''merchant_payable'' k
      + (if k = (rh_merchant h, rh_currency h, rh_livemode h) then rh_amount h else 0)"
    unfolding bb using bucket_balance_post [OF p c ok, of "rh_merchant h" _ k] L st by (simp_all add: BUCKET_ACCOUNT_TYPES_def)
  have "accounts_ok s" using ok by (simp add: ledger_ok_def)
  then have "reserve_holds s1 = reserve_holds s" using post_tables [OF p] same_tables by blast
  then have "find_first (\<lambda>x. rh_id x = i) (reserve_holds s1) = Some h" using h by (simp add: find_hold_def)
  then show "\<exists>h'. find_hold i s' = Some h' \<and> rh_released h' \<noteq> None"
    by (simp add: s' find_hold_def find_first_update [of "\<lambda>x. rh_id x = i"])
qed

lemma release_twice:
  assumes "release_one E i s = Inr (True, s')" "ledger_ok s"
  shows "release_one E' i s' = Inr (False, s')"
proof -
  obtain h where "find_hold i s = Some h" using assms(1) by (auto elim: release_one_cases)
  from release_moves_held_amount(3) [OF assms this] show ?thesis by (auto simp: release_one_def)
qed

section \<open>Holds made by create\_hold cannot be released\<close>

lemma created_hold_unreleasable:
  assumes "create_hold m c a t d l s = Inr (h, s')" "find_hold (rh_id h) s'' = Some h'" "rh_released h' = None"
  shows "\<not> is_ok (release_one E (rh_id h) s'')"
proof -
  obtain key where key: "ledger_key ''rh'' t (str_int a) = Inr key" "rh_id h = take 26 key"
    using assms(1) by (auto simp: create_hold_def Let_def bindE_Inr_iff split: if_splits)
  have "key = ''rh'' @ '':'' @ t @ '':'' @ str_int a" using ledger_key_okD(1) [OF key(1)] .
  then have sep: "CHR '':'' \<in> set (rh_id h)" using key(2) by simp
  have id: "rh_id h' = rh_id h" using assms(2) by (auto simp: find_hold_def dest: find_first_SomeD)
  have "\<not> is_ok (release_request E h')"
  proof
    assume "is_ok (release_request E h')"
    then obtain k where "ledger_key ''reserverelease'' (rh_merchant h') (rh_id h') = Inr k"
      by (auto simp: is_ok_def release_request_def bindE_Inr_iff split: sum.splits)
    then show False using ledger_key_okD(4) sep id by metis
  qed
  then show ?thesis using assms(2,3) by (auto simp: release_one_def is_ok_def bindE_Inr_iff split: sum.splits)
qed

text \<open>A hold that raises stops the pass: those after it are not tried.\<close>

lemma release_pass_stops:
  assumes "release_one E i s = Inl e" shows "release_all E (i # is) n s = (Inl e, s)"
  using assms by simp

end
