(* ===== verification/SettlementFile.thy ===== *)
theory SettlementFile
  imports Money
begin

text \<open>
  \<^verbatim>\<open>src/app/services/settlement_parser.py\<close>: the two settlement file formats. The bytes of a file are
  modelled after decoding: Nordpay's files are Latin-1, where decoding is the identity on code
  points, and for Worldflow's UTF-8 files the model covers texts of Latin-1 characters. The reader
  of the \<^verbatim>\<open>csv\<close> module (excel dialect) is modelled as its state machine, \<^verbatim>\<open>str.splitlines\<close> with the
  Latin-1 line boundaries. Main results: the fixed-width parser inverts the record layout its
  docstring documents, and the CSV reader inverts \<^verbatim>\<open>csv.writer\<close>'s plain rows.
\<close>

section \<open>Line types\<close>

definition LINE_TYPE_BY_CODE :: "(string \<times> string) list" where
  "LINE_TYPE_BY_CODE = [(''SL'', ''sale''), (''RF'', ''refund''), (''CB'', ''chargeback''), (''CR'', ''chargeback_reversal''),
     (''SF'', ''scheme_fee''), (''AD'', ''adjustment''), (''RH'', ''reserve_hold''), (''RL'', ''reserve_release'')]"

record parsed_line =
  pl_acquirer_reference :: string
  pl_network_reference :: "string option"
  pl_line_type :: string
  pl_gross_minor :: int
  pl_fee_minor :: int
  pl_interchange_minor :: int
  pl_scheme_fee_minor :: int
  pl_net_minor :: int
  pl_currency :: string

definition line_type :: "string \<Rightarrow> string res" where
  "line_type code = (case map_of LINE_TYPE_BY_CODE (upper (strip code)) of
     Some t \<Rightarrow> Inr t
   | None \<Rightarrow> let lowered = lower (strip code) in
       if lowered \<in> set (map snd LINE_TYPE_BY_CODE) then Inr lowered else raise ValidationError)"

section \<open>The fixed-width format\<close>

definition is_line_break :: "char \<Rightarrow> bool" where
  "is_line_break c \<longleftrightarrow> (let n = of_char c :: nat in (10 \<le> n \<and> n \<le> 13) \<or> (28 \<le> n \<and> n \<le> 30) \<or> n = 133)"

text \<open>\<^verbatim>\<open>str.splitlines\<close>: a carriage return and line feed together are one break, and no empty line follows a final break.\<close>

fun splitlines_from :: "string \<Rightarrow> string \<Rightarrow> string list" where
  "splitlines_from acc [] = (if acc = [] then [] else [rev acc])"
| "splitlines_from acc (c # cs) = (if is_line_break c
     then rev acc # splitlines_from [] (if c = CHR 0x0D \<and> cs \<noteq> [] \<and> hd cs = CHR 0x0A then tl cs else cs)
     else splitlines_from (c # acc) cs)"

definition splitlines :: "string \<Rightarrow> string list" where "splitlines s = splitlines_from [] s"

definition RECORD_LENGTH :: nat where "RECORD_LENGTH = 105"

definition cut :: "nat \<Rightarrow> nat \<Rightarrow> string \<Rightarrow> string" where "cut i j s = drop i (take j s)"

definition is_skipped_record :: "string \<Rightarrow> bool" where
  "is_skipped_record r \<longleftrightarrow> strip r = [] \<or> take 3 r = ''HDR'' \<or> take 3 r = ''TRL''"

definition parse_fixed_record :: "contracts \<Rightarrow> string \<Rightarrow> parsed_line res" where
  "parse_fixed_record K r =
    (if length r < RECORD_LENGTH then raise ValidationError
     else let c = or_else (upper (strip (cut 102 105 r))) ''EUR'' in
     bindE (line_type (cut 40 42 r)) (\<lambda>lt.
     bindE (to_minor K (strip (cut 42 54 r)) c) (\<lambda>gross.
     bindE (to_minor K (or_else (strip (cut 54 66 r)) ''0'') c) (\<lambda>fee.
     bindE (to_minor K (or_else (strip (cut 66 78 r)) ''0'') c) (\<lambda>interchange.
     bindE (to_minor K (or_else (strip (cut 78 90 r)) ''0'') c) (\<lambda>scheme_fee.
     bindE (to_minor K (strip (cut 90 102 r)) c) (\<lambda>net.
       Inr \<lparr>pl_acquirer_reference = strip (cut 0 20 r), pl_network_reference = or_none (strip (cut 20 40 r)),
            pl_line_type = lt, pl_gross_minor = gross, pl_fee_minor = fee, pl_interchange_minor = interchange,
            pl_scheme_fee_minor = scheme_fee, pl_net_minor = net, pl_currency = c\<rparr>)))))))"

definition parse_fixed_width :: "contracts \<Rightarrow> string \<Rightarrow> parsed_line list res" where
  "parse_fixed_width K text = traverse (parse_fixed_record K) (filter (\<lambda>r. \<not> is_skipped_record r) (splitlines text))"

section \<open>The csv module\<close>

datatype csv_state = StartRecord | StartField | InField | InQuotedField | QuoteInQuotedField | EatCrnl

text \<open>One row being read: the state, the current field reversed, the finished fields reversed.\<close>

type_synonym csv_row = "csv_state \<times> string \<times> string list"

definition end_field :: "csv_state \<Rightarrow> string \<Rightarrow> string list \<Rightarrow> csv_row" where
  "end_field st f fs = (st, [], rev f # fs)"

definition is_crnl :: "char \<Rightarrow> bool" where "is_crnl c \<longleftrightarrow> c = CHR 0x0A \<or> c = CHR 0x0D"

definition csv_start_field :: "char \<Rightarrow> string \<Rightarrow> string list \<Rightarrow> csv_row" where
  "csv_start_field c f fs =
    (if is_crnl c then end_field EatCrnl f fs else if c = CHR 0x22 then (InQuotedField, f, fs)
     else if c = CHR '','' then end_field StartField f fs else (InField, c # f, fs))"

text \<open>A character of the line; a row is read to the end of the physical line, and further lines while a quote is open.\<close>

fun csv_char :: "char \<Rightarrow> csv_row \<Rightarrow> csv_row res" where
  "csv_char c (StartRecord, f, fs) = Inr (if is_crnl c then (EatCrnl, f, fs) else csv_start_field c f fs)"
| "csv_char c (StartField, f, fs) = Inr (csv_start_field c f fs)"
| "csv_char c (InField, f, fs) =
     Inr (if is_crnl c then end_field EatCrnl f fs else if c = CHR '','' then end_field StartField f fs else (InField, c # f, fs))"
| "csv_char c (InQuotedField, f, fs) =
     Inr (if c = CHR 0x22 then (QuoteInQuotedField, f, fs) else (InQuotedField, c # f, fs))"
| "csv_char c (QuoteInQuotedField, f, fs) =
     Inr (if c = CHR 0x22 then (InQuotedField, c # f, fs) else if c = CHR '','' then end_field StartField f fs
          else if is_crnl c then end_field EatCrnl f fs else (InField, c # f, fs))"
| "csv_char c (EatCrnl, f, fs) = (if is_crnl c then Inr (EatCrnl, f, fs) else raise CsvError)"

fun csv_eol :: "csv_row \<Rightarrow> csv_row" where
  "csv_eol (StartRecord, f, fs) = (StartRecord, f, fs)"
| "csv_eol (InQuotedField, f, fs) = (InQuotedField, f, fs)"
| "csv_eol (EatCrnl, f, fs) = (StartRecord, f, fs)"
| "csv_eol (st, f, fs) = end_field StartRecord f fs"

fun csv_line :: "string \<Rightarrow> csv_row \<Rightarrow> csv_row res" where
  "csv_line [] row = Inr (csv_eol row)"
| "csv_line (c # cs) row = bindE (csv_char c row) (csv_line cs)"

text \<open>\<^verbatim>\<open>io.StringIO\<close> yields lines that end in a line feed.\<close>

fun stringio_lines :: "string \<Rightarrow> string list" where
  "stringio_lines [] = []"
| "stringio_lines (c # cs) = (if c = CHR 0x0A then [c] # stringio_lines cs
     else (case stringio_lines cs of [] \<Rightarrow> [[c]] | l # ls \<Rightarrow> (c # l) # ls))"

text \<open>
  The rows of the remaining lines, read lazily: the rows before an error, and the error. An open
  quote at the end of the input closes the last field.
\<close>

fun csv_rows :: "string list \<Rightarrow> csv_row \<Rightarrow> string list list \<times> error option" where
  "csv_rows [] (st, f, fs) = (if f \<noteq> [] \<or> st = InQuotedField then [rev (rev f # fs)] else [], None)"
| "csv_rows (l # ls) row = (case csv_line l row of
     Inl e \<Rightarrow> ([], Some e)
   | Inr (st, f, fs) \<Rightarrow> if st = StartRecord
       then (case csv_rows ls (StartRecord, [], []) of (rows, e) \<Rightarrow> (rev fs # rows, e))
       else csv_rows ls (st, f, fs))"

definition csv_reader :: "string \<Rightarrow> string list list \<times> error option" where
  "csv_reader text = csv_rows (stringio_lines text) (StartRecord, [], [])"

section \<open>The CSV format\<close>

definition REQUIRED_COLUMNS :: "string list" where
  "REQUIRED_COLUMNS = [''acquirer_reference'', ''gross_minor'', ''net_minor'', ''currency'', ''line_type'']"

text \<open>A row of \<^verbatim>\<open>csv.DictReader\<close>: columns past the end of a short row are \<^verbatim>\<open>None\<close>, surplus fields have no name.\<close>

definition dict_row :: "string list \<Rightarrow> string list \<Rightarrow> (string \<times> string option) list" where
  "dict_row fieldnames row = fold (\<lambda>k. dict_set k None) (drop (length row) fieldnames)
     (fold (\<lambda>(k, v). dict_set k (Some v)) (zip fieldnames row) [])"

definition get_field :: "string \<Rightarrow> (string \<times> string option) list \<Rightarrow> string option" where
  "get_field k row = (case map_of row k of None \<Rightarrow> None | Some v \<Rightarrow> v)"

definition int_field :: "string option \<Rightarrow> int res" where
  "int_field raw = (case raw of None \<Rightarrow> Inr 0
   | Some s \<Rightarrow> if s = [] then Inr 0 else case py_int s of None \<Rightarrow> raise ValidationError | Some n \<Rightarrow> Inr n)"

definition parse_csv_row :: "(string \<times> string option) list \<Rightarrow> parsed_line option res" where
  "parse_csv_row row = (case text_or (get_field ''acquirer_reference'' row) [] of
     [] \<Rightarrow> Inr None
   | reference \<Rightarrow>
       bindE (case map_of row ''line_type'' of None \<Rightarrow> raise KeyError | Some None \<Rightarrow> raise AttributeError
              | Some (Some code) \<Rightarrow> line_type code) (\<lambda>lt.
       bindE (int_field (get_field ''gross_minor'' row)) (\<lambda>gross.
       bindE (int_field (get_field ''fee_minor'' row)) (\<lambda>fee.
       bindE (int_field (get_field ''interchange_minor'' row)) (\<lambda>interchange.
       bindE (int_field (get_field ''scheme_fee_minor'' row)) (\<lambda>scheme_fee.
       bindE (int_field (get_field ''net_minor'' row)) (\<lambda>net.
         Inr (Some \<lparr>pl_acquirer_reference = strip reference,
           pl_network_reference = or_none (strip (text_or (get_field ''network_reference'' row) [])),
           pl_line_type = lt, pl_gross_minor = gross, pl_fee_minor = fee, pl_interchange_minor = interchange,
           pl_scheme_fee_minor = scheme_fee, pl_net_minor = net,
           pl_currency = upper (strip (text_or (get_field ''currency'' row) ''USD''))\<rparr>))))))))"

definition parse_csv :: "string \<Rightarrow> parsed_line list res" where
  "parse_csv text = (case csv_reader text of
     ([], Some e) \<Rightarrow> Inl e
   | ([], None) \<Rightarrow> raise ValidationError
   | (fieldnames # rows, e) \<Rightarrow>
       if \<not> set REQUIRED_COLUMNS \<subseteq> strip ` set fieldnames then raise ValidationError
       else bindE (traverse (\<lambda>r. parse_csv_row (dict_row fieldnames r)) (filter (\<lambda>r. r \<noteq> []) rows)) (\<lambda>ls.
            case e of Some err \<Rightarrow> Inl err | None \<Rightarrow> Inr (concat (map (\<lambda>l. case l of None \<Rightarrow> [] | Some x \<Rightarrow> [x]) ls))))"

definition parse_settlement_file :: "contracts \<Rightarrow> string \<Rightarrow> string \<Rightarrow> parsed_line list res" where
  "parse_settlement_file K acquirer text =
    (if acquirer = ''worldflow'' then parse_csv text else if acquirer = ''nordpay'' then parse_fixed_width K text
     else raise ValidationError)"

section \<open>The fixed-width layout read back\<close>

lemma strip_pad: "strip (s @ replicate k CHR '' '') = strip s"
proof (cases "\<forall>c\<in>set s. is_space c")
  case True
  have sp: "is_space CHR '' ''" by (simp add: is_space_def)
  then have "\<forall>c\<in>set (s @ replicate k CHR '' ''). is_space c" using True by auto
  then show ?thesis using True unfolding strip_def dropWhile_eq_Nil_conv [THEN iffD2] by (simp only: dropWhile_eq_Nil_conv [THEN iffD2])
next
  case False
  have sp: "is_space CHR '' ''" by (simp add: is_space_def)
  have "dropWhile is_space (s @ replicate k CHR '' '') = dropWhile is_space s @ replicate k CHR '' ''"
    using False by (metis dropWhile_append1)
  moreover have "dropWhile is_space (replicate k CHR '' '' @ t) = dropWhile is_space t" for t
    by (rule dropWhile_append2) (simp add: sp)
  ultimately show ?thesis by (simp add: strip_def)
qed

definition ljust :: "nat \<Rightarrow> string \<Rightarrow> string" where "ljust n s = s @ replicate (n - length s) CHR '' ''"

lemma length_ljust [simp]: "length s \<le> n \<Longrightarrow> length (ljust n s) = n"
  by (simp add: ljust_def)

lemma strip_ljust [simp]: "strip (ljust n s) = strip s"
  by (simp add: ljust_def strip_pad)

text \<open>The record layout of the docstring: nine left-justified columns.\<close>

definition minor_text :: "contracts \<Rightarrow> string \<Rightarrow> int \<Rightarrow> string" where
  "minor_text K c n = (case from_minor K n c of Inr t \<Rightarrow> t | Inl _ \<Rightarrow> [])"

definition fixed_record :: "contracts \<Rightarrow> string \<Rightarrow> parsed_line \<Rightarrow> string" where
  "fixed_record K code l = ljust 20 (pl_acquirer_reference l)
     @ ljust 20 (case pl_network_reference l of None \<Rightarrow> [] | Some n \<Rightarrow> n) @ code
     @ ljust 12 (minor_text K (pl_currency l) (pl_gross_minor l)) @ ljust 12 (minor_text K (pl_currency l) (pl_fee_minor l))
     @ ljust 12 (minor_text K (pl_currency l) (pl_interchange_minor l)) @ ljust 12 (minor_text K (pl_currency l) (pl_scheme_fee_minor l))
     @ ljust 12 (minor_text K (pl_currency l) (pl_net_minor l)) @ pl_currency l"

definition fixed_fits :: "contracts \<Rightarrow> string \<Rightarrow> parsed_line \<Rightarrow> bool" where
  "fixed_fits K code l \<longleftrightarrow>
     length (pl_acquirer_reference l) \<le> 20 \<and> strip (pl_acquirer_reference l) = pl_acquirer_reference l
   \<and> (case pl_network_reference l of None \<Rightarrow> True | Some n \<Rightarrow> n \<noteq> [] \<and> length n \<le> 20 \<and> strip n = n)
   \<and> length code = 2 \<and> line_type code = Inr (pl_line_type l)
   \<and> list_all (\<lambda>n. \<bar>n\<bar> < 10 ^ 28 \<and> length (minor_text K (pl_currency l) n) \<le> 12)
       [pl_gross_minor l, pl_fee_minor l, pl_interchange_minor l, pl_scheme_fee_minor l, pl_net_minor l]
   \<and> pl_currency l \<in> SUPPORTED_CURRENCIES K \<and> length (pl_currency l) = 3 \<and> upper (strip (pl_currency l)) = pl_currency l
   \<and> \<not> is_skipped_record (fixed_record K code l) \<and> list_all (\<lambda>c. \<not> is_line_break c) (fixed_record K code l)"

lemma parse_decimal_Nil: "parse_decimal [] = None"
  by (simp add: parse_decimal_def strip_def take_sign_def parse_special_def Let_def)

lemma strip_Nil [simp]: "strip [] = []"
  by (simp add: strip_def)

lemma amount_column:
  assumes K: "contracts_documented K" "c \<in> SUPPORTED_CURRENCIES K" and n: "\<bar>n\<bar> < 10 ^ 28"
  shows "to_minor K (strip (minor_text K c n)) c = Inr n" "strip (minor_text K c n) \<noteq> []"
proof -
  have "bindE (from_minor K n c) (\<lambda>s. to_minor K s c) = Inr n"
    by (rule to_minor_from_minor [OF documented_exponent [OF K] _ n]) simp
  then have "to_minor K (minor_text K c n) c = Inr n" by (auto simp: minor_text_def bindE_Inr_iff)
  then show t: "to_minor K (strip (minor_text K c n)) c = Inr n" by (simp add: to_minor_def)
  show "strip (minor_text K c n) \<noteq> []"
  proof
    assume "strip (minor_text K c n) = []"
    then show False using t by (auto simp: to_minor_def bindE_Inr_iff parse_decimal_Nil)
  qed
qed

lemma parse_fixed_record_layout:
  assumes K: "contracts_documented K" and fits: "fixed_fits K code l"
  shows "parse_fixed_record K (fixed_record K code l) = Inr l"
proof -
  let ?c = "pl_currency l" and ?r = "fixed_record K code l"
  have c: "?c \<in> SUPPORTED_CURRENCIES K" "upper (strip ?c) = ?c" "?c \<noteq> []" using fits by (auto simp: fixed_fits_def)
  have amounts: "to_minor K (strip (minor_text K ?c n)) ?c = Inr n \<and> strip (minor_text K ?c n) \<noteq> []
      \<and> length (minor_text K ?c n) \<le> 12"
    if "n \<in> {pl_gross_minor l, pl_fee_minor l, pl_interchange_minor l, pl_scheme_fee_minor l, pl_net_minor l}" for n
  proof -
    have "\<bar>n\<bar> < 10 ^ 28" "length (minor_text K ?c n) \<le> 12" using fits that by (auto simp: fixed_fits_def)
    then show ?thesis using amount_column [OF K c(1)] by blast
  qed
  have lens: "length (ljust 12 (minor_text K ?c n)) = 12"
    if "n \<in> {pl_gross_minor l, pl_fee_minor l, pl_interchange_minor l, pl_scheme_fee_minor l, pl_net_minor l}" for n
    using amounts [OF that] by simp
  let ?ref = "ljust 20 (pl_acquirer_reference l)"
  let ?net = "ljust 20 (case pl_network_reference l of None \<Rightarrow> [] | Some n \<Rightarrow> n)"
  have heads: "length ?ref = 20" "length ?net = 20" "length code = 2" "length ?c = 3"
    using fits by (auto simp: fixed_fits_def split: option.splits)
  have cuts: "cut 0 20 ?r = ?ref" "cut 20 40 ?r = ?net" "cut 40 42 ?r = code"
    "cut 42 54 ?r = ljust 12 (minor_text K ?c (pl_gross_minor l))" "cut 54 66 ?r = ljust 12 (minor_text K ?c (pl_fee_minor l))"
    "cut 66 78 ?r = ljust 12 (minor_text K ?c (pl_interchange_minor l))" "cut 78 90 ?r = ljust 12 (minor_text K ?c (pl_scheme_fee_minor l))"
    "cut 90 102 ?r = ljust 12 (minor_text K ?c (pl_net_minor l))" "cut 102 105 ?r = ?c" "length ?r = RECORD_LENGTH"
    by (simp_all add: fixed_record_def cut_def heads lens RECORD_LENGTH_def)
  have net: "or_none (strip ?net) = pl_network_reference l" and ref: "strip ?ref = pl_acquirer_reference l"
    using fits by (auto simp: fixed_fits_def or_none_def split: option.splits)
  show ?thesis
    unfolding parse_fixed_record_def cuts net ref using fits c amounts
    by (simp add: or_else_def fixed_fits_def)
qed

lemma splitlines_from_line:
  "list_all (\<lambda>c. \<not> is_line_break c) r \<Longrightarrow> splitlines_from acc (r @ CHR 0x0A # t) = (rev acc @ r) # splitlines_from [] t"
  by (induction r arbitrary: acc) (auto simp: is_line_break_def)

lemma splitlines_concat:
  "list_all (list_all (\<lambda>c. \<not> is_line_break c)) rs \<Longrightarrow> splitlines (concat (map (\<lambda>r. r @ [CHR 0x0A]) rs)) = rs"
  unfolding splitlines_def by (induction rs) (auto simp: splitlines_from_line)

lemma parse_fixed_width_layout:
  assumes K: "contracts_documented K" and fits: "list_all (\<lambda>(code, l). fixed_fits K code l) cls"
  shows "parse_fixed_width K (concat (map (\<lambda>(code, l). fixed_record K code l @ [CHR 0x0A]) cls)) = Inr (map snd cls)"
proof -
  let ?rs = "map (\<lambda>(code, l). fixed_record K code l) cls"
  have rendered: "map (\<lambda>(code, l). fixed_record K code l @ [CHR 0x0A]) cls = map (\<lambda>r. r @ [CHR 0x0A]) ?rs" by auto
  have lb: "list_all (list_all (\<lambda>c. \<not> is_line_break c)) ?rs" using fits by (auto simp: list_all_iff fixed_fits_def)
  have "filter (\<lambda>r. \<not> is_skipped_record r) ?rs = ?rs" using fits by (auto simp: filter_id_conv list_all_iff fixed_fits_def)
  moreover have "traverse (parse_fixed_record K) ?rs = Inr (map snd cls)"
    using fits parse_fixed_record_layout [OF K] by (induction cls) auto
  ultimately show ?thesis unfolding parse_fixed_width_def rendered splitlines_concat [OF lb] by simp
qed

section \<open>A CSV file read back\<close>

text \<open>A row as \<^verbatim>\<open>csv.writer\<close> prints it with every field quoted.\<close>

definition quoted :: "string \<Rightarrow> string" where
  "quoted f = CHR 0x22 # concat (map (\<lambda>c. if c = CHR 0x22 then [c, c] else [c]) f) @ [CHR 0x22]"

fun csv_text :: "string list \<Rightarrow> string" where
  "csv_text [] = [CHR 0x0D, CHR 0x0A]"
| "csv_text [f] = quoted f @ [CHR 0x0D, CHR 0x0A]"
| "csv_text (f # fs) = quoted f @ CHR '','' # csv_text fs"

lemma csv_line_quoted_body:
  "csv_line (concat (map (\<lambda>c. if c = CHR 0x22 then [c, c] else [c]) f) @ CHR 0x22 # cs) (InQuotedField, acc, fs) =
   csv_line cs (QuoteInQuotedField, rev f @ acc, fs)"
  by (induction f arbitrary: acc) auto

lemma csv_line_quoted:
  "csv_line (quoted f @ cs) (StartField, [], fs) = csv_line cs (QuoteInQuotedField, rev f, fs)"
  "csv_line (quoted f @ cs) (StartRecord, [], fs) = csv_line cs (QuoteInQuotedField, rev f, fs)"
  by (simp_all add: quoted_def csv_start_field_def is_crnl_def csv_line_quoted_body)

lemma csv_line_fields:
  "fs \<noteq> [] \<Longrightarrow> csv_line (csv_text fs) (StartField, [], done) = Inr (StartRecord, [], rev fs @ done)"
  by (induction fs arbitrary: "done" rule: csv_text.induct) (simp_all add: csv_line_quoted end_field_def is_crnl_def)

lemma csv_line_row:
  "fs \<noteq> [] \<Longrightarrow> csv_line (csv_text fs) (StartRecord, [], []) = Inr (StartRecord, [], rev fs)"
  by (cases fs rule: csv_text.cases) (simp_all add: csv_line_quoted end_field_def is_crnl_def csv_line_fields)

definition one_line :: "string \<Rightarrow> bool" where "one_line f \<longleftrightarrow> CHR 0x0A \<notin> set f"

lemma stringio_lines_line:
  "CHR 0x0A \<notin> set l \<Longrightarrow> stringio_lines (l @ CHR 0x0A # t) = (l @ [CHR 0x0A]) # stringio_lines t"
  by (induction l) auto

lemma csv_text_line:
  "list_all one_line fs \<Longrightarrow> \<exists>l. csv_text fs = l @ [CHR 0x0A] \<and> CHR 0x0A \<notin> set l"
proof (induction fs rule: csv_text.induct)
  case 1
  then show ?case by (intro exI [of _ "[CHR 0x0D]"]) simp
next
  case (2 f)
  then show ?case by (intro exI [of _ "quoted f @ [CHR 0x0D]"]) (auto simp: quoted_def one_line_def split: if_splits)
next
  case (3 f g fs)
  then obtain l where "csv_text (g # fs) = l @ [CHR 0x0A]" "CHR 0x0A \<notin> set l" by auto
  then show ?case using 3 by (intro exI [of _ "quoted f @ CHR '','' # l"]) (auto simp: quoted_def one_line_def split: if_splits)
qed

lemma csv_reader_rows:
  "list_all (\<lambda>r. r \<noteq> [] \<and> list_all one_line r) rows \<Longrightarrow> csv_reader (concat (map csv_text rows)) = (rows, None)"
  unfolding csv_reader_def
proof (induction rows)
  case (Cons r rows)
  obtain l where l: "csv_text r = l @ [CHR 0x0A]" "CHR 0x0A \<notin> set l" using Cons.prems csv_text_line [of r] by auto
  then have "stringio_lines (concat (map csv_text (r # rows))) = csv_text r # stringio_lines (concat (map csv_text rows))"
    using stringio_lines_line by simp
  then show ?case using Cons csv_line_row [of r] by simp
qed simp

lemma dict_row_get:
  assumes "k \<in> set hdr" shows "map_of (dict_row hdr (map g hdr)) k = Some (Some (g k))"
proof -
  have "map_of (fold (\<lambda>(k, v). dict_set k (Some v)) (zip xs (map g xs)) d) k =
      (if k \<in> set xs then Some (Some (g k)) else map_of d k)" for xs d
    by (induction xs arbitrary: d) (auto simp: map_of_dict_set)
  then show ?thesis using assms by (simp add: dict_row_def)
qed

text \<open>The column a line fills under a name, and the lines whose text survives \<^verbatim>\<open>strip\<close> and \<^verbatim>\<open>upper\<close>.\<close>

definition csv_column :: "parsed_line \<Rightarrow> string \<Rightarrow> string" where
  "csv_column l name =
    (if name = ''acquirer_reference'' then pl_acquirer_reference l
     else if name = ''network_reference'' then (case pl_network_reference l of None \<Rightarrow> [] | Some n \<Rightarrow> n)
     else if name = ''line_type'' then pl_line_type l else if name = ''gross_minor'' then str_int (pl_gross_minor l)
     else if name = ''fee_minor'' then str_int (pl_fee_minor l) else if name = ''interchange_minor'' then str_int (pl_interchange_minor l)
     else if name = ''scheme_fee_minor'' then str_int (pl_scheme_fee_minor l) else if name = ''net_minor'' then str_int (pl_net_minor l)
     else if name = ''currency'' then pl_currency l else [])"

definition CSV_COLUMNS :: "string list" where
  "CSV_COLUMNS = REQUIRED_COLUMNS @ [''network_reference'', ''fee_minor'', ''interchange_minor'', ''scheme_fee_minor'']"

definition csv_fits :: "parsed_line \<Rightarrow> bool" where
  "csv_fits l \<longleftrightarrow> pl_acquirer_reference l \<noteq> [] \<and> strip (pl_acquirer_reference l) = pl_acquirer_reference l
   \<and> (case pl_network_reference l of None \<Rightarrow> True | Some n \<Rightarrow> n \<noteq> [] \<and> strip n = n \<and> one_line n)
   \<and> pl_line_type l \<in> set (map snd LINE_TYPE_BY_CODE) \<and> pl_currency l \<noteq> [] \<and> upper (strip (pl_currency l)) = pl_currency l
   \<and> list_all one_line [pl_acquirer_reference l, pl_currency l]
   \<and> list_all (\<lambda>n. length (str_nat (nat \<bar>n\<bar>)) \<le> 4300)
       [pl_gross_minor l, pl_fee_minor l, pl_interchange_minor l, pl_scheme_fee_minor l, pl_net_minor l]"

lemma str_int_signed: "str_int n = signed (n < 0) (str_nat (nat \<bar>n\<bar>))"
  by (simp add: str_int_def signed_def)

lemma int_field_str_int:
  assumes "length (str_nat (nat \<bar>n\<bar>)) \<le> 4300"
  shows "int_field (Some (str_int n)) = Inr n" "one_line (str_int n)" "str_int n \<noteq> []"
proof -
  let ?d = "str_nat (nat \<bar>n\<bar>)"
  have d: "list_all is_digit ?d" by (auto simp: list_all_iff dest: str_nat_digits)
  then have hd: "is_digit (hd ?d)" by (metis hd_in_set list_all_iff str_nat_not_Nil)
  have us: "CHR ''_'' \<notin> set ?d" "CHR 0x0A \<notin> set ?d" using d by (auto simp: list_all_iff is_digit_def)
  have strip: "strip (str_int n) = str_int n" by (rule strip_str_int)
  have "py_int (str_int n) = Some n"
    unfolding py_int_def strip
    unfolding str_int_signed take_sign_signed [OF str_nat_not_Nil hd] prod.case split_on_free [OF us(1)]
    using d assms by (simp add: Let_def)
  moreover show "str_int n \<noteq> []" by (simp add: str_int_def)
  ultimately show "int_field (Some (str_int n)) = Inr n" by (simp add: int_field_def)
  show "one_line (str_int n)" using us(2) by (auto simp: str_int_signed signed_def one_line_def)
qed

lemma line_type_name: "t \<in> set (map snd LINE_TYPE_BY_CODE) \<Longrightarrow> line_type t = Inr t \<and> one_line t"
  by (simp only: LINE_TYPE_BY_CODE_def list.map snd_conv set_simps insert_iff empty_iff, elim disjE)
     (simp_all add: line_type_def LINE_TYPE_BY_CODE_def upper_def lower_def upper_latin_def lower_latin_def strip_def is_space_def one_line_def Let_def)

lemma parse_csv_row_column:
  assumes fits: "csv_fits l" and hdr: "set CSV_COLUMNS \<subseteq> set hdr"
  shows "parse_csv_row (dict_row hdr (map (csv_column l) hdr)) = Inr (Some l)"
proof -
  have col: "map_of (dict_row hdr (map (csv_column l) hdr)) k = Some (Some (csv_column l k))" if "k \<in> set CSV_COLUMNS" for k
    using dict_row_get hdr that by blast
  have net: "or_none (strip (text_or (Some (csv_column l ''network_reference'')) [])) = pl_network_reference l"
    using fits by (auto simp: csv_fits_def csv_column_def text_or_def or_else_def or_none_def split: option.splits)
  have lt: "line_type (pl_line_type l) = Inr (pl_line_type l)" using fits line_type_name by (simp add: csv_fits_def)
  obtain x xs where ref: "pl_acquirer_reference l = x # xs" using fits by (cases "pl_acquirer_reference l") (auto simp: csv_fits_def)
  have cur: "upper (strip (text_or (Some (pl_currency l)) ''USD'')) = pl_currency l"
    using fits by (simp add: csv_fits_def text_or_def or_else_def)
  have refs: "strip (x # xs) = x # xs" using fits ref by (simp add: csv_fits_def)
  have ints: "int_field (Some (str_int n)) = Inr n"
    if "n \<in> {pl_gross_minor l, pl_fee_minor l, pl_interchange_minor l, pl_scheme_fee_minor l, pl_net_minor l}" for n
    using fits that int_field_str_int(1) by (auto simp: csv_fits_def)
  show ?thesis
    unfolding parse_csv_row_def get_field_def
    using net [unfolded csv_column_def] lt cur ints refs
    by (simp add: col CSV_COLUMNS_def REQUIRED_COLUMNS_def csv_column_def ref text_or_def or_else_def)
qed

lemma csv_column_one_line: "csv_fits l \<Longrightarrow> one_line (csv_column l k)"
proof -
  assume fits: "csv_fits l"
  have "one_line (str_int n)"
    if "n \<in> {pl_gross_minor l, pl_fee_minor l, pl_interchange_minor l, pl_scheme_fee_minor l, pl_net_minor l}" for n
    using fits that int_field_str_int(2) by (auto simp: csv_fits_def)
  moreover have "one_line (pl_line_type l)" using fits line_type_name by (simp add: csv_fits_def)
  moreover have "one_line []" by (simp add: one_line_def)
  ultimately show ?thesis using fits by (auto simp: csv_fits_def csv_column_def split: option.splits)
qed

lemma parse_csv_file:
  assumes hdr: "set CSV_COLUMNS \<subseteq> set hdr" "list_all one_line hdr" "\<forall>c\<in>set CSV_COLUMNS. strip c = c"
    and fits: "list_all csv_fits ls"
  shows "parse_csv (concat (map csv_text (hdr # map (\<lambda>l. map (csv_column l) hdr) ls))) = Inr ls"
proof -
  have ne: "hdr \<noteq> []" using hdr(1) by (auto simp: CSV_COLUMNS_def REQUIRED_COLUMNS_def)
  let ?rows = "map (\<lambda>l. map (csv_column l) hdr) ls"
  have "list_all (\<lambda>r. r \<noteq> [] \<and> list_all one_line r) (hdr # ?rows)"
    using ne hdr(2) fits csv_column_one_line by (auto simp: list_all_iff)
  from csv_reader_rows [OF this] have rd: "csv_reader (concat (map csv_text (hdr # ?rows))) = (hdr # ?rows, None)" .
  have req: "set REQUIRED_COLUMNS \<subseteq> strip ` set hdr"
  proof
    fix c assume "c \<in> set REQUIRED_COLUMNS"
    then have "c \<in> set CSV_COLUMNS" by (simp add: CSV_COLUMNS_def)
    then show "c \<in> strip ` set hdr" using hdr by (metis image_eqI subsetD)
  qed
  have "filter (\<lambda>r. r \<noteq> []) ?rows = ?rows" using ne by (auto simp: filter_id_conv)
  moreover have "traverse (\<lambda>r. parse_csv_row (dict_row hdr r)) ?rows = Inr (map Some ls)"
    using fits parse_csv_row_column [OF _ hdr(1)] by (induction ls) auto
  moreover have "concat (map (\<lambda>l. case l of None \<Rightarrow> [] | Some x \<Rightarrow> [x]) (map Some ls)) = ls" by (induction ls) auto
  ultimately show ?thesis unfolding parse_csv_def rd using req by simp
qed

lemma csv_columns_stripped: "\<forall>c\<in>set CSV_COLUMNS. strip c = c"
  by (simp add: CSV_COLUMNS_def REQUIRED_COLUMNS_def strip_def is_space_def)

end
