(* ===== verification/ServiceExamples.thy ===== *)
theory ServiceExamples
  imports Examples Payout_Life AuditChecks Reserves SettlementFile
begin

text \<open>
  Concrete instances for the witnesses about the services around the books: a merchant with a
  verified bank account, books with a captured charge, and one payout taken through its life.
  Nothing here models code.
\<close>

definition demo_senv :: service_env where
  "demo_senv = \<lparr>env_contracts = demo_contracts, env_ulid = demo_ulid, env_now = 1700000000, env_correlation = None,
     env_sha256 = id, env_flags = (\<lambda>_ _. True), env_calendar = mk_calendar [] [], env_fx = None, env_fx_markup_bps = 0,
     env_cutoff_ach = 1320, env_cutoff_same_day_ach = 960, env_cutoff_sepa = 840, env_cutoff_faster_payments = 1200\<rparr>"

definition demo_merchant :: merchant_projection where
  "demo_merchant = \<lparr>mp_id = ''mch_1'', mp_display_name = None, mp_country = None, mp_default_currency = Some ''USD'', mp_status = ''active'',
     mp_risk_tier = ''low'', mp_reserve_bps = 500, mp_reserve_hold_days = 90, mp_pricing_model = ''blended'', mp_platform_fee_bps = 290,
     mp_platform_fee_fixed_minor = 30, mp_payout_delay_days = 2, mp_settlement_tolerance_minor = 0, mp_capture_at_settlement = False,
     mp_payout_schedule = ''daily'', mp_livemode = True, mp_source_event_id = ''evt_1'', mp_source_occurred_at = 0\<rparr>"

definition demo_bank :: bank_account where
  "demo_bank = \<lparr>ba_id = ''ba_1'', ba_merchant = ''mch_1'', ba_currency = ''USD'', ba_country = ''US'', ba_scheme = ''aba'',
     ba_account_number_token = ''tok'', ba_routing_last_four = Some ''0021'', ba_iban_last_four = None, ba_bic = None,
     ba_sort_code_last_four = None, ba_status = ''verified'', ba_is_default = True, ba_livemode = True,
     ba_source_event_id = ''evt_2'', ba_source_occurred_at = 0\<rparr>"

definition empty_db :: db where
  "empty_db = \<lparr>accounts = [], transactions = [], entries = [], balance_cache = [], outbox = [], id_supply = 0,
     payouts = [], merchants = [demo_merchant], banks = [demo_bank], reserve_holds = [], adjustments = []\<rparr>"

definition db_post :: "post_request \<Rightarrow> db \<Rightarrow> db" where
  "db_post r s = (case post demo_env r s of Inr (_, s') \<Rightarrow> s' | Inl _ \<Rightarrow> s)"

definition demo_db :: db where
  "demo_db = db_post capture_request (db_post auth_request empty_db)"

lemma demo_books_env: "books_env demo_senv = demo_env"
  by (simp add: demo_senv_def demo_env_def env.truncate_def)

lemma db_post_reachable: "reachable_payouts s \<Longrightarrow> reachable_payouts (db_post r s)"
  by (auto simp: db_post_def split: sum.splits intro: payouts_step step_books step_post)

lemma demo_db_reachable: "reachable_payouts demo_db"
  unfolding demo_db_def by (intro db_post_reachable payouts_init) (simp_all add: empty_db_def)

definition demo_req :: payout_req where
  "demo_req = \<lparr>rq_currency = Some ''usd'', rq_method = None, rq_livemode = None, rq_bank_account = None, rq_amount = None, rq_descriptor = None\<rparr>"

definition paid_out :: "(payout \<times> db) res \<times> fx_cache" where
  "paid_out = create_payout demo_senv ''mch_1'' demo_req None demo_db"

text \<open>The whole captured balance is paid out, and the payout can still be canceled.\<close>

lemma demo_life: "case fst paid_out of Inl _ \<Rightarrow> False | Inr (p, s) \<Rightarrow> is_ok (cancel_payout demo_senv (po_id p) s)"
  by code_simp

lemma demo_paid_out:
  obtains p s p' s' cache where "create_payout demo_senv ''mch_1'' demo_req None demo_db = (Inr (p, s), cache)"
    "cancel_payout demo_senv (po_id p) s = Inr (p', s')"
proof -
  obtain p s cache where c: "create_payout demo_senv ''mch_1'' demo_req None demo_db = (Inr (p, s), cache)"
    using demo_life unfolding paid_out_def by (cases "create_payout demo_senv ''mch_1'' demo_req None demo_db") (auto split: sum.splits)
  then have "is_ok (cancel_payout demo_senv (po_id p) s)" using demo_life by (simp add: paid_out_def)
  then show ?thesis using that c by (auto simp: is_ok_def split: sum.splits)
qed

section \<open>A reserve hold\<close>

definition demo_hold :: reserve_hold where
  "demo_hold = \<lparr>rh_id = ''rh_1'', rh_merchant = ''mch_1'', rh_currency = ''USD'', rh_amount = 500, rh_held_from = ''txn_1'',
     rh_release_on = 0, rh_released = None, rh_livemode = True\<rparr>"

definition held_db :: db where "held_db = demo_db\<lparr>reserve_holds := [demo_hold]\<rparr>"

lemma held_db_ok: "ledger_ok held_db"
  using payouts_invD(1) [OF reachable_payouts_inv [OF demo_db_reachable]] by (simp add: held_db_def)

lemma held_hold: "find_hold ''rh_1'' held_db = Some demo_hold"
  by (simp add: held_db_def find_hold_def demo_hold_def)

lemma held_release:
  obtains s' where "release_one demo_senv ''rh_1'' held_db = Inr (True, s')"
proof -
  have "case release_one demo_senv ''rh_1'' held_db of Inl _ \<Rightarrow> False | Inr (b, s') \<Rightarrow> b" by code_simp
  then show ?thesis using that by (auto split: sum.splits)
qed

section \<open>A settlement line\<close>

definition demo_line :: parsed_line where
  "demo_line = \<lparr>pl_acquirer_reference = ''AR1001'', pl_network_reference = Some ''NET77'', pl_line_type = ''sale'',
     pl_gross_minor = 10000, pl_fee_minor = 180, pl_interchange_minor = 120, pl_scheme_fee_minor = 20, pl_net_minor = 9820,
     pl_currency = ''JPY''\<rparr>"

lemma demo_documented: "contracts_documented demo_contracts"
  by code_simp

lemma demo_yen: "minor_text demo_contracts ''JPY'' n = str_int n"
  by (simp add: minor_text_def from_minor_def exponent_for_def demo_contracts_def)

lemma demo_digits: "digit_char 0 = CHR ''0''" "digit_char (Suc 0) = CHR ''1''" "digit_char 2 = CHR ''2''" "digit_char 3 = CHR ''3''" "digit_char 4 = CHR ''4''" "digit_char 5 = CHR ''5''" "digit_char 6 = CHR ''6''" "digit_char 7 = CHR ''7''" "digit_char 8 = CHR ''8''" "digit_char 9 = CHR ''9''"
  by code_simp+

lemma demo_amounts: "str_int 10000 = ''10000''" "str_int 180 = ''180''" "str_int 120 = ''120''" "str_int 20 = ''20''" "str_int 9820 = ''9820''"
  by (simp_all add: str_int_def str_nat.simps demo_digits)

lemma demo_record: "fixed_record demo_contracts ''SL'' demo_line =
   ''AR1001              NET77               SL10000       180         120         20          9820        JPY''"
  by (simp add: fixed_record_def demo_line_def demo_yen demo_amounts ljust_def numeral_eq_Suc)

lemma demo_plain: "\<not> is_skipped_record ''AR1001              NET77               SL10000       180         120         20          9820        JPY''"
   "list_all (\<lambda>c. \<not> is_line_break c) ''AR1001              NET77               SL10000       180         120         20          9820        JPY''"
   "strip ''AR1001'' = ''AR1001''" "strip ''NET77'' = ''NET77''" "upper (strip ''JPY'') = ''JPY''" "line_type ''SL'' = Inr ''sale''"
   "''JPY'' \<in> SUPPORTED_CURRENCIES demo_contracts"
  by code_simp+

lemma demo_line_fits: "fixed_fits demo_contracts ''SL'' demo_line"
  unfolding fixed_fits_def demo_record using demo_plain by (simp add: demo_line_def demo_yen demo_amounts)

lemma demo_line_csv: "list_all csv_fits [demo_line]" unfolding csv_fits_def using demo_plain 
  by (simp add: demo_line_def demo_amounts str_nat.simps demo_digits LINE_TYPE_BY_CODE_def one_line_def)

end
