(* ===== verification/SettlementStore.thy ===== *)
theory SettlementStore
  imports Payout_Life
begin

text \<open>
  The tables of settlement (\<^verbatim>\<open>settlement_charge\<close>, \<^verbatim>\<open>settlement_batch\<close>, \<^verbatim>\<open>reconciliation_item\<close>,
  \<^verbatim>\<open>reconciliation_run\<close>) as a further extension of the database, and the statements of
  \<^verbatim>\<open>src/app/repositories/settlement_charge.py\<close>, \<^verbatim>\<open>settlement_batch.py\<close>, \<^verbatim>\<open>reconciliation_item.py\<close> and
  \<^verbatim>\<open>reconciliation_run.py\<close>. Where a query orders by a column, rows with equal values keep the order in
  which they were inserted. The acquirer, the locks other sessions hold and the wall clock that some
  repository methods read directly are fields of the environment.
\<close>

section \<open>Rows\<close>

record settlement_charge =
  sc_id :: string
  sc_merchant :: string
  sc_amount :: int
  sc_currency :: string
  sc_acquirer :: string
  sc_network_txn :: "string option"
  sc_processor_reference :: "string option"
  sc_capture_method :: string
  sc_capture_at_settlement :: bool
  sc_reserve_bps :: int
  sc_platform_fee_bps :: int
  sc_platform_fee_fixed_minor :: int
  sc_authorized_at :: int
  sc_captured_at :: "int option"
  sc_livemode :: bool
  sc_updated_at :: int
  sc_source_event_id :: string
  sc_source_occurred_at :: int

definition charge_is_captured :: "settlement_charge \<Rightarrow> bool" where
  "charge_is_captured c \<longleftrightarrow> sc_captured_at c \<noteq> None"

definition needs_deferred_capture :: "settlement_charge \<Rightarrow> bool" where
  "needs_deferred_capture c \<longleftrightarrow> sc_capture_at_settlement c \<and> sc_captured_at c = None"

record settlement_batch =
  sb_id :: string
  sb_currency :: string
  sb_processing_date :: date
  sb_acquirer :: string
  sb_file_reference :: string
  sb_expected_total_minor :: int
  sb_posted_total_minor :: int
  sb_funded_amount_minor :: int
  sb_funding_event :: "string option"
  sb_item_count :: int
  sb_status :: string
  sb_opened_at :: int
  sb_closed_at :: "int option"
  sb_reconciled_at :: "int option"
  sb_funded_at :: "int option"
  sb_livemode :: bool

definition SWEEPABLE_STATUSES :: "string list" where
  "SWEEPABLE_STATUSES = [''closed'', ''partially_reconciled'']"

definition is_sweepable :: "settlement_batch \<Rightarrow> bool" where
  "is_sweepable b \<longleftrightarrow> sb_status b \<in> set SWEEPABLE_STATUSES"

definition is_reconcilable :: "settlement_batch \<Rightarrow> bool" where
  "is_reconcilable b \<longleftrightarrow> sb_status b \<in> {''closed'', ''reconciling'', ''partially_reconciled''}"

record recon_item =
  ri_id :: string
  ri_batch :: string
  ri_charge :: "string option"
  ri_merchant :: "string option"
  ri_line_type :: string
  ri_gross_minor :: int
  ri_fee_minor :: int
  ri_interchange_minor :: int
  ri_scheme_fee_minor :: int
  ri_net_minor :: int
  ri_expected_gross_minor :: "int option"
  ri_variance_minor :: int
  ri_currency :: string
  ri_acquirer :: string
  ri_acquirer_reference :: string
  ri_network_reference :: "string option"
  ri_match_method :: string
  ri_matched_at :: "int option"
  ri_status :: string
  ri_attempt_count :: nat
  ri_last_error_code :: "string option"
  ri_last_attempt_at :: "int option"
  ri_next_attempt_at :: int
  ri_settled_transaction :: "string option"
  ri_livemode :: bool
  ri_created_at :: int

definition acquirer_markup_minor :: "recon_item \<Rightarrow> int" where
  "acquirer_markup_minor r = max (ri_fee_minor r - ri_interchange_minor r - ri_scheme_fee_minor r) 0"

definition is_terminal :: "recon_item \<Rightarrow> bool" where
  "is_terminal r \<longleftrightarrow> ri_status r \<in> {''settled'', ''failed'', ''orphaned''}"

definition needs_human :: "recon_item \<Rightarrow> bool" where
  "needs_human r \<longleftrightarrow> ri_status r \<in> {''orphaned'', ''needs_review'', ''variance_exceeded'', ''failed''}"

definition compute_variance_minor :: "recon_item \<Rightarrow> int" where
  "compute_variance_minor r = (case ri_expected_gross_minor r of None \<Rightarrow> 0 | Some x \<Rightarrow> ri_gross_minor r - x)"

record recon_run =
  rr_id :: string
  rr_batch :: string
  rr_trigger :: string
  rr_status :: string
  rr_items_total :: nat
  rr_items_settled :: nat
  rr_items_failed :: nat
  rr_started_at :: int
  rr_finished_at :: "int option"
  rr_error_summary :: "string option"

definition run_is_running :: "recon_run \<Rightarrow> bool" where "run_is_running r \<longleftrightarrow> rr_status r = ''running''"

definition outcome_status :: "recon_run \<Rightarrow> string" where
  "outcome_status r = (if rr_items_failed r = 0 then ''succeeded'' else ''failed'')"

record recon_db = db +
  settlement_charges :: "settlement_charge list"
  settlement_batches :: "settlement_batch list"
  recon_items :: "recon_item list"
  recon_runs :: "recon_run list"

text \<open>
  What the acquirer answers to a confirmation and to a capture (\<^verbatim>\<open>None\<close> is success), which batch and
  row locks are free for a non-blocking request, and the settings of reconciliation.
\<close>

record recon_env = service_env +
  env_confirm :: "string \<Rightarrow> string \<Rightarrow> string \<Rightarrow> error option"
  env_capture :: "string \<Rightarrow> int \<Rightarrow> string \<Rightarrow> string \<Rightarrow> string \<Rightarrow> error option"
  env_lock_free :: "string \<Rightarrow> bool"
  env_over_budget :: "nat \<Rightarrow> bool"
  env_wall :: int
  env_jitter :: rat
  env_digest :: "payload \<Rightarrow> string"
  env_max_attempts :: nat
  env_backoff_base :: int
  env_max_items :: nat
  env_drain_enabled :: bool
  env_drain_size :: nat

abbreviation service_of :: "'e recon_env_scheme \<Rightarrow> service_env" where "service_of E \<equiv> service_env.truncate E"

section \<open>Charges\<close>

definition find_charge :: "string \<Rightarrow> 'a recon_db_scheme \<Rightarrow> settlement_charge option" where
  "find_charge i s = find_first (\<lambda>c. sc_id c = i) (settlement_charges s)"

definition get_charge_or_raise :: "string \<Rightarrow> 'a recon_db_scheme \<Rightarrow> settlement_charge res" where
  "get_charge_or_raise i s = (case find_charge i s of None \<Rightarrow> raise ChargeProjectionNotFoundError | Some c \<Rightarrow> Inr c)"

text \<open>The upsert: a stale event changes nothing; a second charge under one network id is refused by its index.\<close>

definition network_clash :: "settlement_charge \<Rightarrow> settlement_charge list \<Rightarrow> bool" where
  "network_clash c cs \<longleftrightarrow> sc_network_txn c \<noteq> None
     \<and> (\<exists>d\<in>set cs. sc_id d \<noteq> sc_id c \<and> sc_acquirer d = sc_acquirer c \<and> sc_network_txn d = sc_network_txn c)"

definition upsert_charge_if_newer :: "settlement_charge \<Rightarrow> 'a recon_db_scheme \<Rightarrow> (bool \<times> 'a recon_db_scheme) res" where
  "upsert_charge_if_newer c s = (case find_charge (sc_id c) s of
     None \<Rightarrow> if network_clash c (settlement_charges s) then raise IntegrityError
             else Inr (True, s\<lparr>settlement_charges := settlement_charges s @ [c]\<rparr>)
   | Some d \<Rightarrow> if \<not> sc_source_occurred_at d < sc_source_occurred_at c then Inr (False, s)
             else if network_clash c (settlement_charges s) then raise IntegrityError
             else Inr (True, s\<lparr>settlement_charges := update_where (\<lambda>x. sc_id x = sc_id c) (\<lambda>_. c) (settlement_charges s)\<rparr>))"

definition find_by_processor_reference :: "string \<Rightarrow> string \<Rightarrow> 'a recon_db_scheme \<Rightarrow> settlement_charge option" where
  "find_by_processor_reference acquirer reference s =
     find_first (\<lambda>c. sc_acquirer c = acquirer \<and> sc_processor_reference c = Some reference) (settlement_charges s)"

definition find_by_network_transaction :: "string \<Rightarrow> string option \<Rightarrow> 'a recon_db_scheme \<Rightarrow> settlement_charge option" where
  "find_by_network_transaction acquirer network s = (case network of None \<Rightarrow> None
     | Some n \<Rightarrow> find_first (\<lambda>c. sc_acquirer c = acquirer \<and> sc_network_txn c = Some n) (settlement_charges s))"

definition find_in_amount_window :: "string \<Rightarrow> string \<Rightarrow> int \<Rightarrow> int \<Rightarrow> int \<Rightarrow> int \<Rightarrow> nat \<Rightarrow> 'a recon_db_scheme \<Rightarrow> settlement_charge list" where
  "find_in_amount_window m c amount slack start stop limit s = take limit (sort_key (\<lambda>x. - sc_authorized_at x)
     (filter (\<lambda>x. sc_merchant x = m \<and> sc_currency x = c \<and> amount - slack \<le> sc_amount x \<and> sc_amount x \<le> amount + slack
        \<and> start \<le> sc_authorized_at x \<and> sc_authorized_at x \<le> stop) (settlement_charges s)))"

definition list_merchant_charges :: "string \<Rightarrow> nat \<Rightarrow> 'a recon_db_scheme \<Rightarrow> settlement_charge list" where
  "list_merchant_charges m limit s = take limit (sort_key (\<lambda>x. - sc_authorized_at x) (filter (\<lambda>x. sc_merchant x = m) (settlement_charges s)))"

definition list_deferred_capture_charges :: "string option \<Rightarrow> nat \<Rightarrow> 'a recon_db_scheme \<Rightarrow> settlement_charge list" where
  "list_deferred_capture_charges m limit s = take limit (sort_key sc_authorized_at
     (filter (\<lambda>x. sc_capture_at_settlement x \<and> sc_captured_at x = None \<and> (m = None \<or> m = Some (sc_merchant x))) (settlement_charges s)))"

section \<open>Batches\<close>

definition find_batch :: "string \<Rightarrow> 'a recon_db_scheme \<Rightarrow> settlement_batch option" where
  "find_batch i s = find_first (\<lambda>b. sb_id b = i) (settlement_batches s)"

definition get_batch_or_raise :: "string \<Rightarrow> 'a recon_db_scheme \<Rightarrow> settlement_batch res" where
  "get_batch_or_raise i s = (case find_batch i s of None \<Rightarrow> raise BatchNotFoundError | Some b \<Rightarrow> Inr b)"

definition insert_batch :: "settlement_batch \<Rightarrow> 'a recon_db_scheme \<Rightarrow> ('a recon_db_scheme) res" where
  "insert_batch b s =
    (if \<exists>x\<in>set (settlement_batches s). sb_id x = sb_id b \<or> (sb_acquirer x, sb_file_reference x) = (sb_acquirer b, sb_file_reference b)
     then raise IntegrityError else Inr (s\<lparr>settlement_batches := settlement_batches s @ [b]\<rparr>))"

definition put_batch :: "settlement_batch \<Rightarrow> 'a recon_db_scheme \<Rightarrow> 'a recon_db_scheme" where
  "put_batch b s = s\<lparr>settlement_batches := update_where (\<lambda>x. sb_id x = sb_id b) (\<lambda>_. b) (settlement_batches s)\<rparr>"

definition find_by_file :: "string \<Rightarrow> string \<Rightarrow> 'a recon_db_scheme \<Rightarrow> settlement_batch option" where
  "find_by_file acquirer reference s = find_first (\<lambda>b. sb_acquirer b = acquirer \<and> sb_file_reference b = reference) (settlement_batches s)"

definition latest_processing_date :: "string \<Rightarrow> 'a recon_db_scheme \<Rightarrow> date option" where
  "latest_processing_date acquirer s =
    (case map sb_processing_date (filter (\<lambda>b. sb_acquirer b = acquirer) (settlement_batches s)) of [] \<Rightarrow> None | ds \<Rightarrow> Some (Max (set ds)))"

definition list_by_status :: "string list \<Rightarrow> 'a recon_db_scheme \<Rightarrow> settlement_batch list" where
  "list_by_status statuses s =
    (if statuses = [] then [] else sort_key sb_processing_date (filter (\<lambda>b. sb_status b \<in> set statuses) (settlement_batches s)))"

definition list_unfunded :: "string option \<Rightarrow> string option \<Rightarrow> date option \<Rightarrow> nat \<Rightarrow> 'a recon_db_scheme \<Rightarrow> settlement_batch list" where
  "list_unfunded acquirer c on_or_before limit s = take limit (sort_key sb_processing_date
     (filter (\<lambda>b. sb_status b = ''reconciled'' \<and> sb_funded_at b = None \<and> (acquirer = None \<or> acquirer = Some (sb_acquirer b))
        \<and> (c = None \<or> c = Some (sb_currency b)) \<and> (case on_or_before of None \<Rightarrow> True | Some d \<Rightarrow> sb_processing_date b \<le> d))
        (settlement_batches s)))"

definition list_for_processing_date :: "date \<Rightarrow> string option \<Rightarrow> 'a recon_db_scheme \<Rightarrow> settlement_batch list" where
  "list_for_processing_date d acquirer s = sort_key sb_currency
     (filter (\<lambda>b. sb_processing_date b = d \<and> (acquirer = None \<or> acquirer = Some (sb_acquirer b))) (settlement_batches s))"

definition add_posted_total :: "string \<Rightarrow> int \<Rightarrow> 'a recon_db_scheme \<Rightarrow> (settlement_batch \<times> 'a recon_db_scheme) res" where
  "add_posted_total i amount s = bindE (get_batch_or_raise i s) (\<lambda>b.
     let b1 = b\<lparr>sb_posted_total_minor := sb_posted_total_minor b + amount\<rparr> in Inr (b1, put_batch b1 s))"

definition mark_batch_status :: "string \<Rightarrow> string \<Rightarrow> 'a recon_db_scheme \<Rightarrow> (settlement_batch \<times> 'a recon_db_scheme) res" where
  "mark_batch_status i status s = bindE (get_batch_or_raise i s) (\<lambda>b. let b1 = b\<lparr>sb_status := status\<rparr> in Inr (b1, put_batch b1 s))"

definition mark_reconciled :: "string \<Rightarrow> int \<Rightarrow> bool \<Rightarrow> int \<Rightarrow> 'a recon_db_scheme \<Rightarrow> (settlement_batch \<times> 'a recon_db_scheme) res" where
  "mark_reconciled i posted_total fully_settled at_time s = bindE (get_batch_or_raise i s) (\<lambda>b.
     let b1 = b\<lparr>sb_posted_total_minor := posted_total, sb_status := if fully_settled then ''reconciled'' else ''partially_reconciled'',
                sb_reconciled_at := if fully_settled then Some at_time else sb_reconciled_at b\<rparr>
     in Inr (b1, put_batch b1 s))"

definition mark_funded :: "string \<Rightarrow> string \<Rightarrow> int \<Rightarrow> int \<Rightarrow> 'a recon_db_scheme \<Rightarrow> (settlement_batch \<times> 'a recon_db_scheme) res" where
  "mark_funded i funding_event amount at_time s = bindE (get_batch_or_raise i s) (\<lambda>b.
     let b1 = b\<lparr>sb_status := ''funded'', sb_funding_event := Some funding_event, sb_funded_amount_minor := amount, sb_funded_at := Some at_time\<rparr>
     in Inr (b1, put_batch b1 s))"

section \<open>Items\<close>

definition find_item :: "string \<Rightarrow> 'a recon_db_scheme \<Rightarrow> recon_item option" where
  "find_item i s = find_first (\<lambda>r. ri_id r = i) (recon_items s)"

definition get_item_or_raise :: "string \<Rightarrow> 'a recon_db_scheme \<Rightarrow> recon_item res" where
  "get_item_or_raise i s = (case find_item i s of None \<Rightarrow> raise ReconciliationItemNotFoundError | Some r \<Rightarrow> Inr r)"

definition item_key :: "recon_item \<Rightarrow> string \<times> string" where "item_key r = (ri_batch r, ri_acquirer_reference r)"

definition insert_items :: "recon_item list \<Rightarrow> 'a recon_db_scheme \<Rightarrow> ('a recon_db_scheme) res" where
  "insert_items rs s = (let rows = recon_items s @ rs in
     if distinct (map ri_id rows) \<and> distinct (map item_key rows) \<and> list_all (\<lambda>r. find_batch (ri_batch r) s \<noteq> None) rs
     then Inr (s\<lparr>recon_items := rows\<rparr>) else raise IntegrityError)"

definition put_item :: "recon_item \<Rightarrow> 'a recon_db_scheme \<Rightarrow> 'a recon_db_scheme" where
  "put_item r s = s\<lparr>recon_items := update_where (\<lambda>x. ri_id x = ri_id r) (\<lambda>_. r) (recon_items s)\<rparr>"

definition list_for_settlement :: "string \<Rightarrow> string list \<Rightarrow> nat \<Rightarrow> 'a recon_db_scheme \<Rightarrow> recon_item list" where
  "list_for_settlement b statuses limit s = take limit (sort_key ri_created_at
     (filter (\<lambda>r. ri_batch r = b \<and> ri_status r \<in> set statuses) (recon_items s)))"

definition list_retryable_ids :: "nat \<Rightarrow> int \<Rightarrow> 'a recon_db_scheme \<Rightarrow> string list" where
  "list_retryable_ids limit now s = map ri_id (take limit (sort_key ri_next_attempt_at
     (filter (\<lambda>r. ri_status r \<in> {''pending'', ''retryable''} \<and> ri_next_attempt_at r \<le> now) (recon_items s))))"

definition get_batch_id :: "string \<Rightarrow> 'a recon_db_scheme \<Rightarrow> string option" where
  "get_batch_id i s = map_option ri_batch (find_item i s)"

definition acquirer_references_for_batch :: "string \<Rightarrow> 'a recon_db_scheme \<Rightarrow> string set" where
  "acquirer_references_for_batch b s = set (map ri_acquirer_reference (filter (\<lambda>r. ri_batch r = b) (recon_items s)))"

definition acquirer_references_already_filed :: "string \<Rightarrow> string \<Rightarrow> date \<Rightarrow> int \<Rightarrow> string list \<Rightarrow> 'a recon_db_scheme \<Rightarrow> string set" where
  "acquirer_references_already_filed acquirer c around days references s = set (map ri_acquirer_reference (filter (\<lambda>r.
     ri_acquirer_reference r \<in> set references
     \<and> (\<exists>b\<in>set (settlement_batches s). sb_id b = ri_batch r \<and> sb_acquirer b = acquirer \<and> sb_currency b = c
          \<and> around - days \<le> sb_processing_date b \<and> sb_processing_date b \<le> around + days)) (recon_items s)))"

definition mark_item_settled :: "string \<Rightarrow> string \<Rightarrow> int \<Rightarrow> 'a recon_db_scheme \<Rightarrow> (recon_item \<times> 'a recon_db_scheme) res" where
  "mark_item_settled i tid at_time s = bindE (get_item_or_raise i s) (\<lambda>r.
     let r1 = r\<lparr>ri_status := ''settled'', ri_settled_transaction := Some tid, ri_last_attempt_at := Some at_time\<rparr> in Inr (r1, put_item r1 s))"

definition mark_item_status :: "string \<Rightarrow> string \<Rightarrow> string option \<Rightarrow> int option \<Rightarrow> 'a recon_db_scheme \<Rightarrow> (recon_item \<times> 'a recon_db_scheme) res" where
  "mark_item_status i status code at_time s = bindE (get_item_or_raise i s) (\<lambda>r.
     let r1 = r\<lparr>ri_status := status, ri_last_error_code := if code = None then ri_last_error_code r else code,
                ri_last_attempt_at := if at_time = None then ri_last_attempt_at r else at_time\<rparr> in Inr (r1, put_item r1 s))"

record batch_totals =
  bt_item_count :: int
  bt_gross_minor :: int
  bt_fee_minor :: int
  bt_net_minor :: int

definition totals_for_batch :: "string \<Rightarrow> 'a recon_db_scheme \<Rightarrow> batch_totals" where
  "totals_for_batch b s = (let rs = filter (\<lambda>r. ri_batch r = b) (recon_items s) in
     \<lparr>bt_item_count = int (length rs), bt_gross_minor = sum_list (map ri_gross_minor rs),
      bt_fee_minor = sum_list (map ri_fee_minor rs), bt_net_minor = sum_list (map ri_net_minor rs)\<rparr>)"

definition count_by_status :: "string option \<Rightarrow> 'a recon_db_scheme \<Rightarrow> (string \<times> nat) list" where
  "count_by_status b s = (let rs = filter (\<lambda>r. b = None \<or> b = Some (ri_batch r)) (recon_items s) in
     map (\<lambda>st. (st, length (filter (\<lambda>r. ri_status r = st) rs))) (remdups (map ri_status rs)))"

record backlog_row =
  br_batch :: string
  br_currency :: string
  br_status :: string
  br_item_count :: nat
  br_gross_minor :: int
  br_oldest_next_attempt_at :: int

definition backlog_group :: "recon_item \<Rightarrow> string \<times> string \<times> string" where
  "backlog_group r = (ri_batch r, ri_currency r, ri_status r)"

text \<open>Grouping, largest group first; SQL leaves the order of equal groups open.\<close>

definition aggregate_backlog :: "string list \<Rightarrow> string option \<Rightarrow> string option \<Rightarrow> 'a recon_db_scheme \<Rightarrow> backlog_row list" where
  "aggregate_backlog statuses c b s =
    (let rs = filter (\<lambda>r. ri_status r \<in> set statuses \<and> (c = None \<or> c = Some (ri_currency r)) \<and> (b = None \<or> b = Some (ri_batch r))) (recon_items s)
     in sort_key (\<lambda>g. - int (br_item_count g)) (map (\<lambda>k. let g = filter (\<lambda>r. backlog_group r = k) rs in
          \<lparr>br_batch = fst k, br_currency = fst (snd k), br_status = snd (snd k), br_item_count = length g,
           br_gross_minor = sum_list (map ri_gross_minor g), br_oldest_next_attempt_at = Min (set (map ri_next_attempt_at g))\<rparr>)
        (remdups (map backlog_group rs))))"

definition list_by_charge :: "string \<Rightarrow> 'a recon_db_scheme \<Rightarrow> recon_item list" where
  "list_by_charge c s = sort_key ri_created_at (filter (\<lambda>r. ri_charge r = Some c) (recon_items s))"

definition list_needing_review :: "nat \<Rightarrow> 'a recon_db_scheme \<Rightarrow> recon_item list" where
  "list_needing_review limit s = take limit (sort_key ri_created_at
     (filter (\<lambda>r. ri_status r \<in> {''needs_review'', ''variance_exceeded'', ''orphaned''}) (recon_items s)))"

section \<open>Runs\<close>

definition find_run :: "string \<Rightarrow> 'a recon_db_scheme \<Rightarrow> recon_run option" where
  "find_run i s = find_first (\<lambda>r. rr_id r = i) (recon_runs s)"

definition start_run :: "'e recon_env_scheme \<Rightarrow> string \<Rightarrow> string \<Rightarrow> 'a recon_db_scheme \<Rightarrow> (recon_run \<times> 'a recon_db_scheme) res" where
  "start_run E b trigger s = bindE (mint (books_env E) ''rr'' s) (\<lambda>(i, s1).
     let r = \<lparr>rr_id = i, rr_batch = b, rr_trigger = trigger, rr_status = ''running'', rr_items_total = 0, rr_items_settled = 0,
              rr_items_failed = 0, rr_started_at = env_wall E, rr_finished_at = None, rr_error_summary = None\<rparr>
     in if i \<in> set (map rr_id (recon_runs s1)) \<or> find_batch b s1 = None then raise IntegrityError
        else Inr (r, s1\<lparr>recon_runs := recon_runs s1 @ [r]\<rparr>))"

definition finish_run :: "'e recon_env_scheme \<Rightarrow> string \<Rightarrow> nat \<Rightarrow> nat \<Rightarrow> nat \<Rightarrow> string \<Rightarrow> string option \<Rightarrow> 'a recon_db_scheme
    \<Rightarrow> (recon_run \<times> 'a recon_db_scheme) res" where
  "finish_run E i items_total settled failed status summary s = (case find_run i s of None \<Rightarrow> raise NotFoundError
   | Some r \<Rightarrow> let r1 = r\<lparr>rr_items_total := items_total, rr_items_settled := settled, rr_items_failed := failed, rr_status := status,
                 rr_error_summary := summary, rr_finished_at := Some (env_wall E)\<rparr>
      in Inr (r1, s\<lparr>recon_runs := update_where (\<lambda>x. rr_id x = i) (\<lambda>_. r1) (recon_runs s)\<rparr>))"

definition newest_first :: "recon_run list \<Rightarrow> recon_run list" where "newest_first = sort_key (\<lambda>r. - rr_started_at r)"

definition find_active :: "string \<Rightarrow> 'a recon_db_scheme \<Rightarrow> recon_run option" where
  "find_active b s = (case newest_first (filter (\<lambda>r. rr_batch r = b \<and> run_is_running r) (recon_runs s)) of [] \<Rightarrow> None | r # _ \<Rightarrow> Some r)"

definition list_running_batch_ids :: "string list \<Rightarrow> 'a recon_db_scheme \<Rightarrow> string list" where
  "list_running_batch_ids bs s = remdups (map rr_batch (filter (\<lambda>r. rr_batch r \<in> set bs \<and> run_is_running r) (recon_runs s)))"

definition list_recent_runs :: "string option \<Rightarrow> nat \<Rightarrow> 'a recon_db_scheme \<Rightarrow> recon_run list" where
  "list_recent_runs b limit s = take limit (newest_first (filter (\<lambda>r. b = None \<or> b = Some (rr_batch r)) (recon_runs s)))"

definition list_stuck_runs :: "int \<Rightarrow> 'a recon_db_scheme \<Rightarrow> recon_run list" where
  "list_stuck_runs older_than s = sort_key rr_started_at (filter (\<lambda>r. run_is_running r \<and> rr_started_at r < older_than) (recon_runs s))"

section \<open>What stays\<close>

text \<open>The books and the tables of payouts are untouched by a change of the settlement tables.\<close>

lemma settlement_tables [simp]:
  "ledger_ok (settlement_charges_update f s) = ledger_ok s" "ledger_ok (settlement_batches_update g s) = ledger_ok s"
  "ledger_ok (recon_items_update h s) = ledger_ok s" "ledger_ok (recon_runs_update i s) = ledger_ok s"
  by (rule ledger_ok_cong; simp)+

lemma same_settlement_tables:
  assumes "ledger.more s' = ledger.more s"
  shows "settlement_charges s' = settlement_charges s" "settlement_batches s' = settlement_batches s"
    "recon_items s' = recon_items s" "recon_runs s' = recon_runs s"
  using assms by (cases s; cases s'; simp)+

lemma find_item_put: "find_item i (put_item r s) = (if i = ri_id r then map_option (\<lambda>_. r) (find_item i s) else find_item i s)"
proof -
  have "find_first (\<lambda>x. ri_id x = i) (update_where (\<lambda>x. ri_id x = ri_id r) (\<lambda>_. r) xs) =
      (if i = ri_id r then map_option (\<lambda>_. r) (find_first (\<lambda>x. ri_id x = i) xs) else find_first (\<lambda>x. ri_id x = i) xs)" for xs
    by (induction xs) (auto simp: update_where_def)
  then show ?thesis by (simp add: find_item_def put_item_def)
qed

lemma find_itemD: "find_item i s = Some r \<Longrightarrow> r \<in> set (recon_items s) \<and> ri_id r = i"
  by (auto simp: find_item_def dest: find_first_SomeD)

end
