(* ===== verification/Matching.thy ===== *)
theory Matching
  imports SettlementStore
begin

text \<open>
  \<^verbatim>\<open>src/app/services/reconciliation/matcher.py\<close> and the manual match of
  \<^verbatim>\<open>src/app/api/routers/ops.py\<close>: which charge a settlement line belongs to. A strategy is a
  constructor of a datatype, its \<^verbatim>\<open>match\<close> a branch of one function; the pass over a list of items
  updates their rows in the order the code visits them. Main results: a hit carries a charge of the
  table, the pass changes nothing but the matching columns of its items, and a heuristic hit always
  waits for a human.
\<close>

section \<open>Outcomes\<close>

definition HEURISTIC_WINDOW :: int where "HEURISTIC_WINDOW = 2 * DAY"
definition HEURISTIC_AMOUNT_SLACK_MINOR :: int where "HEURISTIC_AMOUNT_SLACK_MINOR = 2"

record match_outcome =
  mo_charge :: "string option"
  mo_method :: string
  mo_confident :: bool
  mo_merchant :: "string option"
  mo_expected_gross :: "int option"

definition NO_MATCH :: match_outcome where
  "NO_MATCH = \<lparr>mo_charge = None, mo_method = ''unmatched'', mo_confident = False, mo_merchant = None, mo_expected_gross = None\<rparr>"

definition outcome_of :: "settlement_charge \<Rightarrow> string \<Rightarrow> bool \<Rightarrow> match_outcome" where
  "outcome_of c how sure = \<lparr>mo_charge = Some (sc_id c), mo_method = how, mo_confident = sure,
     mo_merchant = Some (sc_merchant c), mo_expected_gross = Some (sc_amount c)\<rparr>"

definition apply_match :: "recon_item \<Rightarrow> match_outcome \<Rightarrow> recon_item" where
  "apply_match r outcome =
    (let r1 = r\<lparr>ri_charge := mo_charge outcome, ri_match_method := mo_method outcome,
                ri_merchant := if ri_merchant r = None then mo_merchant outcome else ri_merchant r\<rparr>
     in if ri_line_type r = ''sale'' \<and> mo_expected_gross outcome \<noteq> None
        then let r2 = r1\<lparr>ri_expected_gross_minor := mo_expected_gross outcome\<rparr> in r2\<lparr>ri_variance_minor := compute_variance_minor r2\<rparr>
        else r1)"

section \<open>Strategies\<close>

datatype match_strategy = ExactReferenceMatch | NetworkTransactionMatch | HeuristicAmountWindowMatch | ManualMatch

definition hit_or_abstain :: "string \<Rightarrow> settlement_charge option \<Rightarrow> match_outcome" where
  "hit_or_abstain how found = (case found of None \<Rightarrow> NO_MATCH | Some c \<Rightarrow> outcome_of c how True)"

fun run_strategy :: "match_strategy \<Rightarrow> 'e recon_env_scheme \<Rightarrow> recon_item \<Rightarrow> 'a recon_db_scheme \<Rightarrow> match_outcome res" where
  "run_strategy ExactReferenceMatch E r s =
     Inr (hit_or_abstain ''exact_reference'' (find_by_processor_reference (ri_acquirer r) (ri_acquirer_reference r) s))"
| "run_strategy NetworkTransactionMatch E r s =
     Inr (if blank (ri_network_reference r) then NO_MATCH
          else hit_or_abstain ''network_txn'' (find_by_network_transaction (ri_acquirer r) (ri_network_reference r) s))"
| "run_strategy HeuristicAmountWindowMatch E r s = (case ri_merchant r of None \<Rightarrow> Inr NO_MATCH
     | Some m \<Rightarrow> (case find_in_amount_window m (ri_currency r) (ri_gross_minor r) HEURISTIC_AMOUNT_SLACK_MINOR
                        (env_now E - HEURISTIC_WINDOW) (env_now E + HEURISTIC_WINDOW) 5 s of
          [c] \<Rightarrow> Inr (outcome_of c ''heuristic'' False)
        | _ \<Rightarrow> Inr NO_MATCH))"
| "run_strategy ManualMatch E r s = (case ri_charge r of None \<Rightarrow> Inr NO_MATCH
     | Some i \<Rightarrow> bindE (get_charge_or_raise i s) (\<lambda>c. Inr (outcome_of c ''manual'' True)))"

section \<open>The pass\<close>

fun first_hit :: "match_strategy list \<Rightarrow> 'e recon_env_scheme \<Rightarrow> recon_item \<Rightarrow> 'a recon_db_scheme \<Rightarrow> match_outcome res" where
  "first_hit [] E r s = Inr NO_MATCH"
| "first_hit (x # xs) E r s = bindE (run_strategy x E r s) (\<lambda>outcome.
     if mo_charge outcome \<noteq> None \<or> xs = [] then Inr outcome else first_hit xs E r s)"

definition match_item :: "'e recon_env_scheme \<Rightarrow> match_outcome \<Rightarrow> recon_item \<Rightarrow> recon_item" where
  "match_item E outcome r =
    (if mo_charge outcome = None then r\<lparr>ri_match_method := ''unmatched''\<rparr>
     else let r1 = (apply_match r outcome)\<lparr>ri_matched_at := Some (env_now E)\<rparr>
          in if mo_confident outcome then r1 else r1\<lparr>ri_status := ''needs_review''\<rparr>)"

fun match_items :: "match_strategy list \<Rightarrow> 'e recon_env_scheme \<Rightarrow> recon_item list \<Rightarrow> 'a recon_db_scheme \<Rightarrow> (nat \<times> 'a recon_db_scheme) res" where
  "match_items xs E [] s = Inr (0, s)"
| "match_items xs E (r # rs) s = bindE (first_hit xs E r s) (\<lambda>outcome.
     bindE (match_items xs E rs (put_item (match_item E outcome r) s)) (\<lambda>(n, s1).
       Inr (if mo_charge outcome = None then n else Suc n, s1)))"

text \<open>The order in which \<^verbatim>\<open>src/app/container.py\<close> lists the automatic strategies.\<close>

definition MATCH_STRATEGIES :: "match_strategy list" where
  "MATCH_STRATEGIES = [ExactReferenceMatch, NetworkTransactionMatch, HeuristicAmountWindowMatch]"

text \<open>\<^verbatim>\<open>POST /internal/v1/ops/items/{itemId}/match\<close>: the operator's charge, validated by the manual strategy.\<close>

definition manual_match :: "'e recon_env_scheme \<Rightarrow> string \<Rightarrow> string \<Rightarrow> 'a recon_db_scheme \<Rightarrow> (recon_item \<times> 'a recon_db_scheme) res" where
  "manual_match E item_id charge_id s = bindE (get_item_or_raise item_id s) (\<lambda>r.
     if ri_status r = ''settled'' then raise ValidationError
     else let r1 = r\<lparr>ri_charge := Some charge_id\<rparr> in
       bindE (run_strategy ManualMatch E r1 s) (\<lambda>outcome.
       if mo_charge outcome = None then raise ValidationError
       else let r2 = (apply_match r1 outcome)\<lparr>ri_status := ''pending''\<rparr> in Inr (r2, put_item r2 s)))"

section \<open>What a match promises\<close>

text \<open>What the acquirer's line says and no match may change.\<close>

definition item_line :: "recon_item \<Rightarrow> string list \<times> int list \<times> bool" where
  "item_line r = ([ri_id r, ri_batch r, ri_line_type r, ri_currency r, ri_acquirer r, ri_acquirer_reference r],
     [ri_gross_minor r, ri_fee_minor r, ri_interchange_minor r, ri_scheme_fee_minor r, ri_net_minor r, ri_created_at r], ri_livemode r)"

definition carries :: "match_outcome \<Rightarrow> settlement_charge \<Rightarrow> bool" where
  "carries outcome c \<longleftrightarrow> mo_charge outcome = Some (sc_id c) \<and> mo_merchant outcome = Some (sc_merchant c)
     \<and> mo_expected_gross outcome = Some (sc_amount c)"

lemma carries_outcome_of [simp]: "carries (outcome_of c how sure) c" by (simp add: carries_def outcome_of_def)

lemma outcome_sel [simp]:
  "mo_charge (outcome_of c how sure) = Some (sc_id c)" "mo_confident (outcome_of c how sure) = sure"
  "mo_method (outcome_of c how sure) = how" "mo_charge NO_MATCH = None"
  by (simp_all add: outcome_of_def NO_MATCH_def)

lemma hit_sel: "hit_or_abstain how found = outcome \<Longrightarrow> mo_charge outcome \<noteq> None
    \<Longrightarrow> \<exists>c. found = Some c \<and> carries outcome c \<and> mo_confident outcome \<and> mo_method outcome = how"
  by (auto simp: hit_or_abstain_def split: option.splits)

lemma window_charges: "set (find_in_amount_window m c a k x y n s) \<subseteq> set (settlement_charges s)"
  unfolding find_in_amount_window_def by (rule subset_trans [OF set_take_subset]) auto

text \<open>A hit names a charge of the table; only the heuristic one is not confident.\<close>

lemma strategy_hit:
  assumes "run_strategy x E r s = Inr outcome" "mo_charge outcome \<noteq> None"
  obtains c where "c \<in> set (settlement_charges s)" "carries outcome c"
    "mo_confident outcome \<longleftrightarrow> x \<noteq> HeuristicAmountWindowMatch"
    "mo_method outcome = ''heuristic'' \<longleftrightarrow> x = HeuristicAmountWindowMatch"
proof (cases x)
  case ExactReferenceMatch
  then have o: "hit_or_abstain ''exact_reference'' (find_by_processor_reference (ri_acquirer r) (ri_acquirer_reference r) s) = outcome"
    using assms by simp
  obtain c where c: "find_by_processor_reference (ri_acquirer r) (ri_acquirer_reference r) s = Some c" "carries outcome c"
    "mo_confident outcome" "mo_method outcome = ''exact_reference''"
    using hit_sel [OF o assms(2)] by blast
  have "c \<in> set (settlement_charges s)"
    using c(1) by (auto simp: find_by_processor_reference_def dest: find_first_SomeD)
  then show ?thesis using c ExactReferenceMatch by (intro that) auto
next
  case NetworkTransactionMatch
  then have nb: "\<not> blank (ri_network_reference r)"
    and o: "hit_or_abstain ''network_txn'' (find_by_network_transaction (ri_acquirer r) (ri_network_reference r) s) = outcome"
    using assms by (auto split: if_splits)
  obtain c where c: "find_by_network_transaction (ri_acquirer r) (ri_network_reference r) s = Some c" "carries outcome c"
    "mo_confident outcome" "mo_method outcome = ''network_txn''"
    using hit_sel [OF o assms(2)] by blast
  have "c \<in> set (settlement_charges s)"
    using c(1) by (auto simp: find_by_network_transaction_def dest: find_first_SomeD split: option.splits)
  then show ?thesis using c NetworkTransactionMatch by (intro that) auto
next
  case HeuristicAmountWindowMatch
  then obtain m c where m: "ri_merchant r = Some m"
    and w: "find_in_amount_window m (ri_currency r) (ri_gross_minor r) HEURISTIC_AMOUNT_SLACK_MINOR
        (env_now E - HEURISTIC_WINDOW) (env_now E + HEURISTIC_WINDOW) 5 s = [c]"
    and o: "outcome = outcome_of c ''heuristic'' False"
    using assms by (auto split: option.splits list.splits)
  have "c \<in> set (settlement_charges s)" using w window_charges by (metis list.set_intros(1) subsetD)
  then show ?thesis using o HeuristicAmountWindowMatch by (intro that) auto
next
  case ManualMatch
  then obtain i c where "ri_charge r = Some i" "find_charge i s = Some c" "outcome = outcome_of c ''manual'' True"
    using assms by (auto simp: bindE_Inr_iff get_charge_or_raise_def split: option.splits)
  moreover have "c \<in> set (settlement_charges s)"
    using calculation(2) by (auto simp: find_charge_def dest: find_first_SomeD)
  ultimately show ?thesis using ManualMatch by (intro that) auto
qed

lemma automatic_returns: "x \<noteq> ManualMatch \<Longrightarrow> \<exists>outcome. run_strategy x E r s = Inr outcome"
  by (cases x) (auto split: option.splits list.splits)

lemma first_hit_returns: "ManualMatch \<notin> set xs \<Longrightarrow> \<exists>outcome. first_hit xs E r s = Inr outcome"
proof (induction xs)
  case (Cons x xs)
  then obtain outcome where "run_strategy x E r s = Inr outcome" using automatic_returns [of x E r s] by auto
  then show ?case using Cons by auto
qed simp

lemma first_hit_from: "first_hit xs E r s = Inr outcome \<Longrightarrow> mo_charge outcome \<noteq> None
    \<Longrightarrow> \<exists>x\<in>set xs. run_strategy x E r s = Inr outcome"
  by (induction xs) (auto simp: bindE_Inr_iff split: if_splits)

text \<open>What one pass makes of one unmatched, pending line.\<close>

definition matched_as :: "'a recon_db_scheme \<Rightarrow> recon_item \<Rightarrow> recon_item \<Rightarrow> bool" where
  "matched_as s r r' \<longleftrightarrow> item_line r' = item_line r \<and> ri_attempt_count r' = ri_attempt_count r
     \<and> (if ri_charge r' = None then ri_match_method r' = ''unmatched'' \<and> ri_status r' = ri_status r \<and> ri_merchant r' = ri_merchant r
        else (\<exists>c\<in>set (settlement_charges s). ri_charge r' = Some (sc_id c)
               \<and> ri_merchant r' = (if ri_merchant r = None then Some (sc_merchant c) else ri_merchant r)
               \<and> (ri_line_type r = ''sale'' \<longrightarrow> ri_expected_gross_minor r' = Some (sc_amount c)
                    \<and> ri_variance_minor r' = ri_gross_minor r - sc_amount c))
             \<and> ri_status r' = (if ri_match_method r' = ''heuristic'' then ''needs_review'' else ri_status r))"

lemma match_item_matched:
  assumes h: "first_hit xs E r s = Inr outcome" and n: "ri_charge r = None"
  shows "matched_as s r (match_item E outcome r)" "ri_charge (match_item E outcome r) = mo_charge outcome"
proof -
  show c: "ri_charge (match_item E outcome r) = mo_charge outcome"
    using n by (auto simp: match_item_def apply_match_def Let_def)
  show "matched_as s r (match_item E outcome r)"
  proof (cases "mo_charge outcome")
    case None
    then show ?thesis using n by (simp add: matched_as_def match_item_def item_line_def)
  next
    case (Some i)
    then obtain x where "run_strategy x E r s = Inr outcome" using first_hit_from [OF h] by auto
    then obtain c where "c \<in> set (settlement_charges s)" "carries outcome c"
      "mo_confident outcome \<longleftrightarrow> x \<noteq> HeuristicAmountWindowMatch" "mo_method outcome = ''heuristic'' \<longleftrightarrow> x = HeuristicAmountWindowMatch"
      using Some by (auto elim: strategy_hit)
    then show ?thesis
      by (auto simp: matched_as_def match_item_def apply_match_def Let_def item_line_def carries_def compute_variance_minor_def)
  qed
qed

lemma put_item_frame: "put_item r s = s\<lparr>recon_items := recon_items (put_item r s)\<rparr>" by (simp add: put_item_def)

lemma match_items_frame: "match_items xs E rs s = Inr (n, s') \<Longrightarrow> s' = s\<lparr>recon_items := recon_items s'\<rparr>"
  by (induction rs arbitrary: n s) (fastforce simp: bindE_Inr_iff put_item_def)+

lemma run_strategy_items [simp]: "run_strategy x E r (s\<lparr>recon_items := is\<rparr>) = run_strategy x E r s"
  by (cases x) (simp_all add: find_by_processor_reference_def find_by_network_transaction_def find_in_amount_window_def
    get_charge_or_raise_def find_charge_def cong: option.case_cong)

lemma first_hit_items [simp]: "first_hit xs E r (s\<lparr>recon_items := is\<rparr>) = first_hit xs E r s"
  by (induction xs) (simp_all cong: if_cong)

lemma item_line_id: "item_line r' = item_line r \<Longrightarrow> ri_id r' = ri_id r" by (simp add: item_line_def)

lemma match_item_id [simp]: "ri_id (match_item E outcome r) = ri_id r"
  by (auto simp: match_item_def apply_match_def Let_def)

lemma match_items_other:
  "match_items xs E rs s = Inr (n, s') \<Longrightarrow> i \<notin> set (map ri_id rs) \<Longrightarrow> find_item i s' = find_item i s"
  by (induction rs arbitrary: n s) (fastforce simp: bindE_Inr_iff find_item_put)+

lemma match_items_rows:
  assumes "match_items xs E rs s = Inr (n, s')" "distinct (map ri_id rs)"
    "\<forall>r\<in>set rs. find_item (ri_id r) s = Some r \<and> ri_charge r = None"
  shows "\<forall>r\<in>set rs. \<exists>r'. find_item (ri_id r) s' = Some r' \<and> matched_as s r r'"
    and "n = length (filter (\<lambda>r. \<exists>r'. find_item (ri_id r) s' = Some r' \<and> ri_charge r' \<noteq> None) rs)"
proof -
  have "(\<forall>r\<in>set rs. \<exists>r'. find_item (ri_id r) s' = Some r' \<and> matched_as s r r')
      \<and> n = length (filter (\<lambda>r. \<exists>r'. find_item (ri_id r) s' = Some r' \<and> ri_charge r' \<noteq> None) rs)"
    using assms
  proof (induction rs arbitrary: n s)
    case (Cons r rs)
    then obtain outcome m where h: "first_hit xs E r s = Inr outcome"
      and rest: "match_items xs E rs (put_item (match_item E outcome r) s) = Inr (m, s')"
      and n: "n = (if mo_charge outcome = None then m else Suc m)"
      by (auto simp: bindE_Inr_iff)
    let ?s = "put_item (match_item E outcome r) s"
    have found: "find_item (ri_id r) s = Some r" and none: "ri_charge r = None" and nin: "ri_id r \<notin> set (map ri_id rs)"
      using Cons.prems by auto
    have hd: "find_item (ri_id r) s' = Some (match_item E outcome r)"
      using match_items_other [OF rest nin] by (simp add: find_item_put found)
    have tl: "\<forall>x\<in>set rs. find_item (ri_id x) ?s = Some x \<and> ri_charge x = None"
    proof
      fix x assume x: "x \<in> set rs"
      then have "ri_id x \<noteq> ri_id r" using nin by (metis image_eqI list.set_map)
      then show "find_item (ri_id x) ?s = Some x \<and> ri_charge x = None" using Cons.prems(3) x by (simp add: find_item_put)
    qed
    have same: "matched_as ?s = matched_as s" by (simp add: matched_as_def [abs_def] put_item_def)
    have "distinct (map ri_id rs)" using Cons.prems(2) by simp
    note Cons.IH [OF rest this tl, unfolded same]
    moreover have "matched_as s r (match_item E outcome r)" "ri_charge (match_item E outcome r) = mo_charge outcome"
      using match_item_matched [OF h none] by blast+
    ultimately show ?case using hd n by simp
  qed simp
  then show "\<forall>r\<in>set rs. \<exists>r'. find_item (ri_id r) s' = Some r' \<and> matched_as s r r'"
    and "n = length (filter (\<lambda>r. \<exists>r'. find_item (ri_id r) s' = Some r' \<and> ri_charge r' \<noteq> None) rs)" by simp_all
qed

lemma match_items_returns: "ManualMatch \<notin> set xs \<Longrightarrow> \<exists>n s'. match_items xs E rs s = Inr (n, s')"
proof (induction rs arbitrary: s)
  case (Cons r rs)
  obtain outcome where h: "first_hit xs E r s = Inr outcome" using first_hit_returns [OF Cons.prems] by blast
  show ?case using Cons.IH [OF Cons.prems, of "put_item (match_item E outcome r) s"] h by (auto split: if_splits)
qed simp

lemma automatic_strategies [simp]: "ManualMatch \<notin> set MATCH_STRATEGIES" by (simp add: MATCH_STRATEGIES_def)

text \<open>A second match keeps the merchant the first one wrote, whoever owns the new charge.\<close>

lemma rematch_keeps_merchant: "ri_merchant r \<noteq> None \<Longrightarrow> ri_merchant (apply_match r outcome) = ri_merchant r"
  by (auto simp: apply_match_def Let_def)

lemma manual_match_frame:
  assumes "manual_match E i c s = Inr (r, s')"
  shows "s' = s\<lparr>recon_items := recon_items s'\<rparr>" "find_item i s' = Some r" "ri_status r = ''pending''" "ri_charge r = Some c"
    "\<exists>r0. find_item i s = Some r0 \<and> ri_status r0 \<noteq> ''settled''"
proof -
  obtain r0 x where r0: "find_item i s = Some r0" "ri_status r0 \<noteq> ''settled''" and x: "find_charge c s = Some x"
    and r: "r = (apply_match (r0\<lparr>ri_charge := Some c\<rparr>) (outcome_of x ''manual'' True))\<lparr>ri_status := ''pending''\<rparr>" and s': "s' = put_item r s"
    using assms by (auto simp: manual_match_def bindE_Inr_iff get_item_or_raise_def get_charge_or_raise_def Let_def split: option.splits if_splits)
  have i: "ri_id r = i" "ri_id r0 = i" using find_itemD [OF r0(1)] by (auto simp: r apply_match_def Let_def)
  have "sc_id x = c" using x by (auto simp: find_charge_def dest: find_first_SomeD)
  then show "ri_charge r = Some c" by (simp add: r apply_match_def Let_def)
  show "find_item i s' = Some r" using r0 by (simp add: s' find_item_put i)
  show "s' = s\<lparr>recon_items := recon_items s'\<rparr>" "ri_status r = ''pending''" "\<exists>r0. find_item i s = Some r0 \<and> ri_status r0 \<noteq> ''settled''"
    using r0 by (simp_all add: s' put_item_def r)
qed

end
