(* ===== verification/Settling.thy ===== *)
theory Settling
  imports Matching
begin

text \<open>
  \<^verbatim>\<open>src/app/services/reconciliation/poster.py\<close>: the settlement of one reconciliation item. The
  capture at the acquirer is an HTTP call that no rollback undoes, so an attempt yields its outcome
  on the database together with the capture calls it issued. Main results: the claim of the key and
  the insert decide alone who captures, the loser of a race answers with the winner's transaction,
  and a settled item is never captured again.
\<close>

section \<open>Constants and results\<close>

definition RETRYABLE_STATUSES :: "string list" where "RETRYABLE_STATUSES = [''pending'', ''retryable'']"
definition TERMINAL_STATUSES :: "string list" where "TERMINAL_STATUSES = [''settled'', ''failed'', ''orphaned'']"
definition MAX_ATTEMPTS :: nat where "MAX_ATTEMPTS = 6"

definition RETRYABLE_ERROR_CODES :: "string list" where
  "RETRYABLE_ERROR_CODES = [''processor_unavailable'', ''rate_limited'', ''temporary_failure'']"

definition INDETERMINATE_ERROR_CODES :: "string list" where
  "INDETERMINATE_ERROR_CODES = [''processor_timeout'', ''processor_connection_reset'']"

definition RECONCILABLE_BATCH_STATUSES :: "string list" where
  "RECONCILABLE_BATCH_STATUSES = [''closed'', ''partially_reconciled'']"

definition COMPLETION_CHUNK_SIZE :: nat where "COMPLETION_CHUNK_SIZE = 1000"

record settlement_result =
  sr_transaction_id :: string
  sr_created :: bool

text \<open>The arguments of one \<^verbatim>\<open>capture_deferred\<close> call.\<close>

record capture_call =
  cc_charge :: string
  cc_amount :: int
  cc_currency :: string
  cc_reference :: string
  cc_key :: string

section \<open>The acquirer\<close>

text \<open>\<^verbatim>\<open>_translate\<close>: a retryable code becomes a retryable settlement error that keeps the code.\<close>

definition translate :: "error \<Rightarrow> error" where
  "translate e = (if err_code e \<in> set RETRYABLE_ERROR_CODES then exn_with_code RetryableSettlementError (err_code e) else e)"

definition acquirer_error :: "error \<Rightarrow> bool" where
  "acquirer_error e \<longleftrightarrow> caught_by e ProcessorUnavailableError \<or> caught_by e ProcessorIndeterminateError"

definition answered :: "error option \<Rightarrow> unit res" where
  "answered answer = (case answer of None \<Rightarrow> Inr () | Some e \<Rightarrow> Inl (if acquirer_error e then translate e else e))"

definition confirm :: "'e recon_env_scheme \<Rightarrow> recon_item \<Rightarrow> unit res" where
  "confirm E r = answered (env_confirm E (ri_acquirer r) (ri_acquirer_reference r) (ri_batch r))"

definition capture :: "'e recon_env_scheme \<Rightarrow> recon_item \<Rightarrow> settlement_charge \<Rightarrow> unit res \<times> capture_call list" where
  "capture E r charge = (case ledger_key ''capture'' (ri_batch r) (sc_id charge) of
     Inl e \<Rightarrow> (Inl e, [])
   | Inr key \<Rightarrow> (answered (env_capture E (sc_id charge) (ri_gross_minor r) (ri_currency r) (ri_acquirer_reference r) key),
       [\<lparr>cc_charge = sc_id charge, cc_amount = ri_gross_minor r, cc_currency = ri_currency r,
         cc_reference = ri_acquirer_reference r, cc_key = key\<rparr>]))"

section \<open>The posting of an item\<close>

text \<open>\<^verbatim>\<open>fingerprint_of\<close>: the fields of the line, none of the attempt.\<close>

definition fingerprint_of :: "'e recon_env_scheme \<Rightarrow> recon_item \<Rightarrow> string" where
  "fingerprint_of E r = env_digest E
    [(''batch_id'', JStr (ri_batch r)), (''item_id'', JStr (ri_id r)), (''charge_id'', opt_str (ri_charge r)),
     (''merchant_id'', opt_str (ri_merchant r)), (''line_type'', JStr (ri_line_type r)), (''currency'', JStr (ri_currency r)),
     (''livemode'', JBool (ri_livemode r)), (''gross_minor'', JInt (ri_gross_minor r)), (''fee_minor'', JInt (ri_fee_minor r)),
     (''net_minor'', JInt (ri_net_minor r)), (''interchange_minor'', JInt (ri_interchange_minor r)),
     (''scheme_fee_minor'', JInt (ri_scheme_fee_minor r)), (''acquirer_reference'', JStr (ri_acquirer_reference r))]"

definition item_context :: "recon_item \<Rightarrow> settlement_charge \<Rightarrow> posting_context" where
  "item_context r charge = \<lparr>ctx_merchant_id = ri_merchant r, ctx_currency = ri_currency r, ctx_livemode = ri_livemode r,
     gross_minor = ri_gross_minor r, fee_minor = ri_fee_minor r, net_minor = ri_net_minor r,
     interchange_minor = ri_interchange_minor r, scheme_fee_minor = ri_scheme_fee_minor r, reserve_bps = sc_reserve_bps charge,
     platform_fee_bps = sc_platform_fee_bps charge, platform_fee_fixed_minor = sc_platform_fee_fixed_minor charge\<rparr>"

definition settle_lines :: "contracts \<Rightarrow> recon_item \<Rightarrow> settlement_charge \<Rightarrow> posting_line list res" where
  "settle_lines K r charge = (case map_of POSTING_RULE_BY_LINE_TYPE (ri_line_type r) of None \<Rightarrow> raise KeyError
   | Some rule \<Rightarrow> bindE (build K rule (item_context r charge)) (\<lambda>lines. bindE (validate lines) (\<lambda>_. Inr lines)))"

definition settle_request :: "'e recon_env_scheme \<Rightarrow> recon_item \<Rightarrow> string \<Rightarrow> posting_line list \<Rightarrow> post_request" where
  "settle_request E r key lines = \<lparr>pr_key = key, pr_purpose = ''settle'', pr_merchant = ri_merchant r, pr_currency = ri_currency r,
     pr_livemode = ri_livemode r, pr_reference_type = ''reconciliation_item'', pr_reference_id = ri_id r, pr_lines = lines,
     pr_created_by = ''reconciliation'', pr_fingerprint = fingerprint_of E r, pr_on_conflict = ReturnExisting\<rparr>"

definition variance_payload :: "recon_item \<Rightarrow> int \<Rightarrow> int \<Rightarrow> payload" where
  "variance_payload r tolerance now =
    [(''batch_id'', JStr (ri_batch r)), (''item_id'', JStr (ri_id r)), (''charge_id'', opt_str (ri_charge r)),
     (''merchant_id'', opt_str (ri_merchant r)), (''line_type'', JStr (ri_line_type r)),
     (''expected_gross_minor'', (case ri_expected_gross_minor r of None \<Rightarrow> JNull | Some x \<Rightarrow> JInt x)),
     (''actual_gross_minor'', JInt (ri_gross_minor r)), (''variance_minor'', JInt (ri_variance_minor r)),
     (''tolerance_minor'', JInt tolerance), (''currency'', JStr (ri_currency r)), (''detected_at'', JTime now)]"

definition duplicate_payload :: "recon_item \<Rightarrow> string \<Rightarrow> string \<Rightarrow> string \<Rightarrow> int \<Rightarrow> payload" where
  "duplicate_payload r key tid caller now =
    [(''batch_id'', JStr (ri_batch r)), (''item_id'', JStr (ri_id r)), (''charge_id'', opt_str (ri_charge r)),
     (''merchant_id'', opt_str (ri_merchant r)), (''idempotency_key'', JStr key), (''existing_transaction_id'', JStr tid),
     (''detected_by'', JStr caller), (''amount_minor'', JInt (ri_gross_minor r)), (''currency'', JStr (ri_currency r)),
     (''detected_at'', JTime now)]"

definition settled_payload :: "recon_item \<Rightarrow> string \<Rightarrow> int \<Rightarrow> payload" where
  "settled_payload r tid now =
    [(''item_id'', JStr (ri_id r)), (''batch_id'', JStr (ri_batch r)), (''charge_id'', opt_str (ri_charge r)),
     (''merchant_id'', opt_str (ri_merchant r)), (''gross_minor'', JInt (ri_gross_minor r)), (''fee_minor'', JInt (ri_fee_minor r)),
     (''net_minor'', JInt (ri_net_minor r)), (''currency'', JStr (ri_currency r)), (''transaction_id'', JStr tid),
     (''attempt_count'', JInt (int (ri_attempt_count r))), (''settled_at'', JTime now)]"

definition publish_item :: "'e recon_env_scheme \<Rightarrow> string \<Rightarrow> payload \<Rightarrow> recon_item \<Rightarrow> 'a recon_db_scheme \<Rightarrow> (string \<times> 'a recon_db_scheme) res" where
  "publish_item E ty body r s = publish (books_env E) ty body (ri_merchant r) (ri_id r) None (ri_livemode r) s"

text \<open>Everything before the claim: the confirmation, the orphan guard, the key, the projections, the variance and the lines.\<close>

definition get_merchant_or_raise :: "string option \<Rightarrow> 'a db_scheme \<Rightarrow> merchant_projection res" where
  "get_merchant_or_raise m s = (case m of None \<Rightarrow> raise NotFoundError
     | Some i \<Rightarrow> (case find_merchant i s of None \<Rightarrow> raise NotFoundError | Some x \<Rightarrow> Inr x))"

definition settle_guards :: "'e recon_env_scheme \<Rightarrow> recon_item \<Rightarrow> 'a recon_db_scheme \<Rightarrow> (string \<times> settlement_charge \<times> posting_line list) res" where
  "settle_guards E r s =
    bindE (confirm E r) (\<lambda>_.
    (case ri_charge r of None \<Rightarrow> raise OrphanedItemError
     | Some c \<Rightarrow>
       bindE (ledger_key ''settle'' (ri_batch r) (ri_id r)) (\<lambda>key.
       bindE (get_charge_or_raise c s) (\<lambda>charge.
       bindE (get_merchant_or_raise (ri_merchant r) s) (\<lambda>merchant.
       if \<bar>ri_variance_minor r\<bar> > mp_settlement_tolerance_minor merchant then
         bindE (publish_item E ''settlement.variance_detected'' (variance_payload r (mp_settlement_tolerance_minor merchant) (env_now E)) r s)
           (\<lambda>_. raise SettlementVarianceExceededError)
       else bindE (settle_lines (env_contracts E) r charge) (\<lambda>lines. Inr (key, charge, lines)))))))"

definition post_settlement :: "'e recon_env_scheme \<Rightarrow> recon_item \<Rightarrow> string \<Rightarrow> 'a recon_db_scheme
    \<Rightarrow> (settlement_result \<times> 'a recon_db_scheme) res \<times> capture_call list" where
  "post_settlement E r caller s = (case settle_guards E r s of
     Inl e \<Rightarrow> (Inl e, [])
   | Inr (key, charge, lines) \<Rightarrow> (case post (books_env E) (settle_request E r key lines) s of
       Inl e \<Rightarrow> (Inl e, [])
     | Inr (res, s1) \<Rightarrow> (let tid = txn_id (result_transaction res) in
         if \<not> result_created res then
           (mapE (\<lambda>(_, s2). (\<lparr>sr_transaction_id = tid, sr_created = False\<rparr>, s2))
              (publish_item E ''settlement.duplicate_detected'' (duplicate_payload r key tid caller (env_now E)) r s1), [])
         else (case (if sc_capture_at_settlement charge then capture E r charge else (Inr (), [])) of (captured, calls) \<Rightarrow>
           (bindE captured (\<lambda>_. mapE (\<lambda>(_, s2). (\<lparr>sr_transaction_id = tid, sr_created = True\<rparr>, s2))
              (publish_item E ''settlement.item_settled'' (settled_payload r tid (env_now E)) r s1)), calls)))))"

section \<open>What an attempt keeps\<close>

text \<open>The books stay sound, a taken key stays with its transaction and the tables are not touched.\<close>

definition keeps_books :: "'a ledger_scheme \<Rightarrow> 'a ledger_scheme \<Rightarrow> bool" where
  "keeps_books s s' \<longleftrightarrow> (ledger_ok s \<longrightarrow> ledger_ok s' \<and> (\<forall>k i. holds_key k i s \<longrightarrow> holds_key k i s'))"

lemma keeps_booksD: "keeps_books s s' \<Longrightarrow> ledger_ok s \<Longrightarrow> ledger_ok s' \<and> (\<forall>k i. holds_key k i s \<longrightarrow> holds_key k i s')"
  by (simp add: keeps_books_def)

lemma keeps_refl [simp]: "keeps_books s s" by (simp add: keeps_books_def)

lemma keeps_trans [trans]: "keeps_books s s1 \<Longrightarrow> keeps_books s1 s2 \<Longrightarrow> keeps_books s s2" by (auto simp: keeps_books_def)

lemma keeps_same: "same_books s s' \<Longrightarrow> keeps_books s s'"
  using holds_key_cong [of s' s] by (auto simp: keeps_books_def same_books_ledger_ok) (simp_all add: same_books_def)

lemma keeps_post: "post E r s = Inr (res, s') \<Longrightarrow> keeps_books s s'"
  using post_ledger_ok post_key_stable by (fastforce simp: keeps_books_def holds_key_def ledger_ok_def)

lemma publish_item_same: "publish_item E ty b r s = Inr (i, s') \<Longrightarrow> same_books s s' \<and> ledger.more s' = ledger.more s"
  using publish_same(1) by (fastforce simp: publish_item_def same_books_def)

lemma post_settlement_spec:
  assumes p: "post_settlement E r caller s = (Inr (res, s'), calls)" and ok: "ledger_ok s"
  obtains key charge lines where "settle_guards E r s = Inr (key, charge, lines)" "ledger_key ''settle'' (ri_batch r) (ri_id r) = Inr key"
    "holds_key key (sr_transaction_id res) s'" "keeps_books s s'" "ledger.more s' = ledger.more s"
    "sr_created res \<longleftrightarrow> find_by_idempotency_key key s = None"
    "calls \<noteq> [] \<longrightarrow> sr_created res \<and> sc_capture_at_settlement charge"
    "sr_created res \<longrightarrow> sc_capture_at_settlement charge \<longrightarrow> capture E r charge = (Inr (), calls)"
proof -
  obtain key charge lines where g: "settle_guards E r s = Inr (key, charge, lines)"
    using p by (auto simp: post_settlement_def split: sum.splits)
  have key: "ledger_key ''settle'' (ri_batch r) (ri_id r) = Inr key"
    using g by (auto simp: settle_guards_def bindE_Inr_iff split: option.splits if_splits)
  obtain posting s1 where po: "post (books_env E) (settle_request E r key lines) s = Inr (posting, s1)"
    and sr: "sr_transaction_id res = txn_id (result_transaction posting)" "sr_created res = result_created posting"
    and same: "same_books s1 s' \<and> ledger.more s' = ledger.more s1"
    and calls: "calls \<noteq> [] \<longrightarrow> sr_created res \<and> sc_capture_at_settlement charge"
      "sr_created res \<longrightarrow> sc_capture_at_settlement charge \<longrightarrow> capture E r charge = (Inr (), calls)"
    using p g
    by (auto simp: post_settlement_def Let_def mapE_def bindE_Inr_iff dest: publish_item_same split: sum.splits if_splits prod.splits)
  have a: "accounts_ok s" using ok by (simp add: ledger_ok_def)
  have h: "holds_key key (sr_transaction_id res) s1" using post_takes_key [OF po ok] by (simp add: sr settle_request_def)
  show thesis
  proof (rule that [OF g key])
    show "holds_key key (sr_transaction_id res) s'" using h same holds_key_cong [of s' s1] by (simp add: same_books_def)
    show "keeps_books s s'" using keeps_post [OF po] keeps_same same keeps_trans by blast
    show "ledger.more s' = ledger.more s" using post_tables [OF po a] same by simp
    show "sr_created res \<longleftrightarrow> find_by_idempotency_key key s = None"
    proof (cases "result_created posting")
      case True
      then show ?thesis using post_created [OF po _ a] by (auto simp: sr settle_request_def posted_def)
    next
      case False
      then show ?thesis using post_existing(4) [OF po] by (auto simp: sr settle_request_def)
    qed
  qed (use calls in auto)
qed

text \<open>A capture call is only ever issued by an attempt that found the key free.\<close>

lemma capture_needs_free_key:
  assumes p: "post_settlement E r caller s = (out, calls)" and calls: "calls \<noteq> []" and a: "accounts_ok s"
  shows "\<exists>key. ledger_key ''settle'' (ri_batch r) (ri_id r) = Inr key \<and> find_by_idempotency_key key s = None"
proof -
  obtain key charge lines posting s1 where g: "settle_guards E r s = Inr (key, charge, lines)"
    and po: "post (books_env E) (settle_request E r key lines) s = Inr (posting, s1)" and c: "result_created posting"
    using p calls by (auto simp: post_settlement_def Let_def split: sum.splits if_splits prod.splits)
  have "ledger_key ''settle'' (ri_batch r) (ri_id r) = Inr key"
    using g by (auto simp: settle_guards_def bindE_Inr_iff split: option.splits if_splits)
  then show ?thesis using post_created [OF po c a] by (auto simp: posted_def settle_request_def)
qed

text \<open>One attempt issues at most one call, for the amount of the line and under the key of batch and charge.\<close>

lemma capture_once:
  assumes "post_settlement E r caller s = (out, calls)"
  shows "length calls \<le> 1" "\<forall>c\<in>set calls. cc_amount c = ri_gross_minor r \<and> ri_charge r = Some (cc_charge c)
    \<and> ledger_key ''capture'' (ri_batch r) (cc_charge c) = Inr (cc_key c)"
proof -
  have "calls = [] \<or> (\<exists>key charge lines. settle_guards E r s = Inr (key, charge, lines) \<and> calls = snd (capture E r charge))"
    using assms by (auto simp: post_settlement_def Let_def split: sum.splits if_splits prod.splits)
  moreover have "ri_charge r = Some (sc_id charge)" if "settle_guards E r s = Inr (key, charge, lines)" for key charge lines
    using that by (auto simp: settle_guards_def bindE_Inr_iff get_charge_or_raise_def find_charge_def dest: find_first_SomeD
        split: option.splits if_splits)
  ultimately show "length calls \<le> 1" "\<forall>c\<in>set calls. cc_amount c = ri_gross_minor r \<and> ri_charge r = Some (cc_charge c)
    \<and> ledger_key ''capture'' (ri_batch r) (cc_charge c) = Inr (cc_key c)"
    by (fastforce simp: capture_def split: sum.splits)+
qed

text \<open>When the key is held, the attempt captures nothing and answers with the holder, if it answers.\<close>

lemma settled_key_blocks:
  assumes p: "post_settlement E r caller s = (out, calls)" and ok: "ledger_ok s"
    and key: "ledger_key ''settle'' (ri_batch r) (ri_id r) = Inr key" and h: "holds_key key tid s"
  shows "calls = [] \<and> (\<forall>res s'. out = Inr (res, s') \<longrightarrow> \<not> sr_created res \<and> sr_transaction_id res = tid)"
proof (intro conjI allI impI)
  show "calls = []" using capture_needs_free_key [OF p] ok key h by (fastforce simp: ledger_ok_def holds_key_def)
next
  fix res s' assume "out = Inr (res, s')"
  then have p': "post_settlement E r caller s = (Inr (res, s'), calls)" using p by simp
  obtain k c l where "settle_guards E r s = Inr (k, c, l)" "ledger_key ''settle'' (ri_batch r) (ri_id r) = Inr k"
    "holds_key k (sr_transaction_id res) s'" "keeps_books s s'" "sr_created res \<longleftrightarrow> find_by_idempotency_key k s = None"
    by (rule post_settlement_spec [OF p' ok])
  moreover have "holds_key k tid s" if "key = k" for k using h that by simp
  ultimately have "\<not> sr_created res" "holds_key k tid s'" "holds_key k (sr_transaction_id res) s'"
    using key ok by (auto simp: keeps_books_def holds_key_def [of k tid s])
  then show "\<not> sr_created res" "sr_transaction_id res = tid" by (auto simp: holds_key_def)
qed

end
