(* ===== verification/Backoff.thy ===== *)
theory Backoff
  imports Calendar Errors "HOL-Library.Log_Nat"
begin

text \<open>
  \<^verbatim>\<open>src/app/domain/backoff.py\<close>: the delay before the next attempt. Python computes it with binary64
  numbers, so every product, sum and difference is followed by the rounding of IEEE 754, half to
  even; the numbers that occur lie far inside the normal range, where that rounding is
  \<^verbatim>\<open>double\<close> below. Main result: whatever the jitter source returns, the delay stays within a fifth
  of the capped exponential.
\<close>

section \<open>Binary64\<close>

definition ilog2 :: "rat \<Rightarrow> int" where
  "ilog2 x = (case quotient_of x of (n, d) \<Rightarrow> let e = bitlen n - bitlen d in if 2 powi e \<le> x then e else e - 1)"

definition ulp :: "rat \<Rightarrow> rat" where "ulp x = 2 powi (ilog2 x - 52)"

definition round_half_even :: "rat \<Rightarrow> int" where
  "round_half_even x = (let f = \<lfloor>x\<rfloor>; r = x - of_int f in
     if r < 1/2 then f else if 1/2 < r then f + 1 else if even f then f else f + 1)"

definition double :: "rat \<Rightarrow> rat" where
  "double x = (if x = 0 then 0 else sgn x * (of_int (round_half_even (\<bar>x\<bar> / ulp \<bar>x\<bar>)) * ulp \<bar>x\<bar>))"

section \<open>The delay\<close>

definition DEFAULT_BASE_SECONDS :: int where "DEFAULT_BASE_SECONDS = 30"
definition JITTER_FRACTION :: rat where "JITTER_FRACTION = 3602879701896397 / 18014398509481984"
definition MAX_EXPONENT :: int where "MAX_EXPONENT = 12"
definition MAX_DELAY_SECONDS :: int where "MAX_DELAY_SECONDS = 6 * 60 * 60"

definition clamp :: "rat \<Rightarrow> rat" where "clamp v = (if v < -1 then -1 else if 1 < v then 1 else v)"

definition capped_delay :: "int \<Rightarrow> int \<Rightarrow> int" where
  "capped_delay attempt_count base_seconds = min (base_seconds * 2 ^ nat (min attempt_count MAX_EXPONENT)) MAX_DELAY_SECONDS"

definition delay_seconds :: "int \<Rightarrow> int \<Rightarrow> rat \<Rightarrow> int res" where
  "delay_seconds attempt_count base_seconds jitter =
    (if attempt_count < 0 then raise ValidationError
     else if base_seconds \<le> 0 then raise ValidationError
     else let raw = of_int (capped_delay attempt_count base_seconds);
              offset = double (double (raw * JITTER_FRACTION) * clamp jitter)
          in Inr (max 1 \<lfloor>double (raw + offset)\<rfloor>))"

definition next_attempt_at :: "int \<Rightarrow> int \<Rightarrow> int \<Rightarrow> rat \<Rightarrow> int res" where
  "next_attempt_at now attempt_count base_seconds jitter =
     mapE (\<lambda>d. now + d * SECOND) (delay_seconds attempt_count base_seconds jitter)"

definition bounds_seconds :: "int \<Rightarrow> int \<Rightarrow> int \<times> int" where
  "bounds_seconds attempt_count base_seconds =
    (let raw = of_int (capped_delay (max attempt_count 0) base_seconds);
         low = max 1 \<lfloor>double (raw * double (1 - JITTER_FRACTION))\<rfloor>
     in (low, max low \<lfloor>double (raw * double (1 + JITTER_FRACTION))\<rfloor>))"

definition is_due :: "int option \<Rightarrow> int \<Rightarrow> bool" where
  "is_due next_attempt now \<longleftrightarrow> (case next_attempt of None \<Rightarrow> True | Some t \<Rightarrow> t \<le> now)"

section \<open>Rounding\<close>

lemma bitlen_pos_bounds: "0 < n \<Longrightarrow> 2 powi (bitlen n - 1) \<le> (of_int n :: rat) \<and> (of_int n :: rat) < 2 powi (bitlen n)"
proof -
  assume n: "0 < n"
  have b: "0 < bitlen n" using bitlen_bounds [OF n] by (smt (verit) bitlen_nonneg n nat_0_iff power_0 zero_less_one)
  have "(2 :: int) ^ nat (bitlen n - 1) \<le> n" "n < 2 ^ nat (bitlen n)" using bitlen_bounds [OF n] by blast+
  then have "(2 :: rat) ^ nat (bitlen n - 1) \<le> of_int n" "(of_int n :: rat) < 2 ^ nat (bitlen n)"
    by (metis of_int_le_iff of_int_numeral of_int_power, metis of_int_less_iff of_int_numeral of_int_power)
  then show ?thesis using b by (simp add: power_int_def)
qed

lemma ilog2_bounds:
  assumes x: "0 < x" shows "2 powi ilog2 x \<le> x" "x < 2 powi (ilog2 x + 1)"
proof -
  obtain n d where q: "quotient_of x = (n, d)" by (cases "quotient_of x")
  have d: "0 < d" using quotient_of_denom_pos [OF q] .
  have xe: "x = of_int n / of_int d" using quotient_of_div [OF q] .
  have n: "0 < n" using x d by (simp add: xe zero_less_divide_iff)
  let ?e = "bitlen n - bitlen d"
  note bn = bitlen_pos_bounds [OF n] and bd = bitlen_pos_bounds [OF d]
  have up: "x < 2 powi (?e + 1)"
  proof -
    have "x < 2 powi (bitlen n) / 2 powi (bitlen d - 1)"
      unfolding xe using bn bd d n by (intro frac_less) auto
    then show ?thesis by (simp add: power_int_diff power_int_add field_simps)
  qed
  have low: "2 powi (?e - 1) \<le> x"
  proof -
    have "2 powi (bitlen n - 1) / 2 powi (bitlen d) \<le> x"
      unfolding xe using bn bd d n by (intro frac_le) auto
    then show ?thesis by (simp add: power_int_diff power_int_add field_simps)
  qed
  show "2 powi ilog2 x \<le> x" "x < 2 powi (ilog2 x + 1)"
    using up low by (auto simp: ilog2_def q Let_def)
qed

lemma two_powi_less_iff: "(2::rat) powi a < 2 powi b \<longleftrightarrow> a < b"
  using power_int_strict_increasing [of a b "2::rat"] power_int_increasing [of b a "2::rat"] by (auto simp: not_less [symmetric])

lemma ilog2_unique: "2 powi a \<le> x \<Longrightarrow> x < 2 powi (a + 1) \<Longrightarrow> 0 < x \<Longrightarrow> ilog2 x = a"
proof -
  assume a: "2 powi a \<le> x" "x < 2 powi (a + 1)" "0 < x"
  have "(2::rat) powi a < 2 powi (ilog2 x + 1)" "(2::rat) powi (ilog2 x) < 2 powi (a + 1)"
    using a ilog2_bounds [OF a(3)] by linarith+
  then show ?thesis by (simp add: two_powi_less_iff)
qed

lemma rhe_floor: "\<lfloor>x\<rfloor> \<le> round_half_even x" "round_half_even x \<le> \<lfloor>x\<rfloor> + 1"
  by (simp_all add: round_half_even_def Let_def)

lemma rhe_mono: assumes "x \<le> y" shows "round_half_even x \<le> round_half_even y"
proof (cases "\<lfloor>x\<rfloor> = \<lfloor>y\<rfloor>")
  case True
  then show ?thesis using assms by (auto simp: round_half_even_def Let_def)
next
  case False
  then have "\<lfloor>x\<rfloor> + 1 \<le> \<lfloor>y\<rfloor>" using floor_mono [OF assms] by linarith
  then show ?thesis using rhe_floor(2) [of x] rhe_floor(1) [of y] by linarith
qed

lemma rhe_near: "of_int n \<le> x \<Longrightarrow> x < of_int n + 1/2 \<Longrightarrow> round_half_even x = n"
proof -
  assume a: "of_int n \<le> x" "x < of_int n + 1/2"
  then have "\<lfloor>x\<rfloor> = n" by (simp add: floor_eq_iff)
  then show ?thesis using a by (simp add: round_half_even_def Let_def)
qed

lemma rhe_int [simp]: "round_half_even (of_int n) = n" by (rule rhe_near) simp_all

lemma ulp_pos [simp]: "0 < ulp x" by (simp add: ulp_def)

lemma double_pos: "0 < x \<Longrightarrow> double x = of_int (round_half_even (x / ulp x)) * ulp x" by (simp add: double_def)

lemma scaled_bounds:
  assumes "0 < x" shows "2 ^ 52 \<le> x / ulp x" "x / ulp x < 2 ^ 53"
  using ilog2_bounds [OF assms] by (simp_all add: ulp_def power_int_diff power_int_add field_simps)

lemma double_range:
  assumes x: "0 < x" shows "2 powi ilog2 x \<le> double x" "double x \<le> 2 powi (ilog2 x + 1)"
proof -
  have "of_int (2 ^ 52) \<le> x / ulp x" "x / ulp x \<le> of_int (2 ^ 53)" using scaled_bounds [OF x] by simp_all
  then have "2 ^ 52 \<le> round_half_even (x / ulp x)" "round_half_even (x / ulp x) \<le> 2 ^ 53" using rhe_mono rhe_int by metis+
  then have b: "(2 ^ 52 :: rat) \<le> of_int (round_half_even (x / ulp x))" "of_int (round_half_even (x / ulp x)) \<le> (2 ^ 53 :: rat)"
    by (metis of_int_le_iff of_int_numeral of_int_power)+
  have u: "2 ^ 52 * ulp x = 2 powi ilog2 x" "2 ^ 53 * ulp x = 2 powi (ilog2 x + 1)"
    by (simp_all add: ulp_def power_int_diff power_int_add)
  show "2 powi ilog2 x \<le> double x" "double x \<le> 2 powi (ilog2 x + 1)"
    using b ulp_pos [of x] unfolding double_pos [OF x] u [symmetric] by (auto intro!: mult_right_mono)
qed

lemma double_mono_pos: assumes x: "0 < x" and le: "x \<le> y" shows "double x \<le> double y"
proof -
  have y: "0 < y" using x le by simp
  have "(2::rat) powi (ilog2 x) < 2 powi (ilog2 y + 1)" using ilog2_bounds [OF x] ilog2_bounds [OF y] le by linarith
  then have l: "ilog2 x \<le> ilog2 y" by (simp add: two_powi_less_iff)
  show ?thesis
  proof (cases "ilog2 x = ilog2 y")
    case True
    then have u: "ulp x = ulp y" by (simp add: ulp_def)
    have "round_half_even (x / ulp y) \<le> round_half_even (y / ulp y)" using le by (intro rhe_mono divide_right_mono) (auto simp: less_imp_le)
    then show ?thesis using ulp_pos [of y] by (simp add: double_pos x y u mult_right_mono)
  next
    case False
    then have "(2::rat) powi (ilog2 x + 1) \<le> 2 powi (ilog2 y)" using l by (simp add: power_int_increasing)
    then show ?thesis using double_range [OF x] double_range [OF y] by linarith
  qed
qed

lemma double_0 [simp]: "double 0 = 0" by (simp add: double_def)

lemma double_minus: "double (- x) = - double x" by (simp add: double_def)

lemma double_nonneg: assumes "0 \<le> x" shows "0 \<le> double x"
proof (cases "x = 0")
  case False
  then have "2 powi ilog2 x \<le> double x" using double_range(1) [of x] assms by simp
  moreover have "0 < (2::rat) powi ilog2 x" by (rule zero_less_power_int) simp
  ultimately show ?thesis by linarith
qed simp

lemma double_mono: assumes "x \<le> y" shows "double x \<le> double y"
proof (cases "0 < x")
  case True
  then show ?thesis using double_mono_pos assms by blast
next
  case False
  show ?thesis
  proof (cases "0 \<le> y")
    case True
    have "0 \<le> double (- x)" using False by (intro double_nonneg) simp
    then show ?thesis using double_nonneg [OF True] by (simp add: double_minus)
  next
    case neg: False
    then have "double (- y) \<le> double (- x)" using assms by (intro double_mono_pos) simp_all
    then show ?thesis by (simp add: double_minus)
  qed
qed

text \<open>An integer below \<^term>\<open>2 ^ 53\<close> is a double, and so is what lies less than half a unit above it.\<close>

lemma double_near_int:
  assumes k: "0 < k" "k < 2 ^ 53" and x: "of_int k \<le> x" "x \<le> of_int k * (1 + 1 / 2 ^ 54)"
  shows "double x = of_int k"
proof -
  let ?k = "of_int k :: rat" and ?e = "ilog2 (of_int k)"
  have k0: "0 < ?k" using k by simp
  note e = ilog2_bounds [OF k0]
  have "(1::rat) \<le> ?k" using k by simp
  then have "(2::rat) powi 0 < 2 powi (?e + 1)" using e(2) by simp
  then have e0: "0 \<le> ?e" by (simp only: two_powi_less_iff)
  have "?k < 2 powi 53" using k(2) by (metis of_int_less_iff of_int_numeral of_int_power power_int_numeral)
  then have "(2::rat) powi ?e < 2 powi 53" using e(1) by linarith
  then have e1: "?e \<le> 52" by (simp only: two_powi_less_iff)
  define m where "m = nat ?e"
  have m: "?e = int m" "m \<le> 52" using e0 e1 by (simp_all add: m_def)
  have "(of_int (2 ^ m) :: rat) \<le> of_int k" "of_int k < (of_int (2 ^ (m + 1)) :: rat)"
    using e unfolding m(1) by (simp_all add: power_int_add)
  then have kb: "2 ^ m \<le> k" "k < 2 ^ (m + 1)" unfolding of_int_le_iff of_int_less_iff .
  have "of_int (k + 1) \<le> (of_int (2 ^ (m + 1)) :: rat)" using kb unfolding of_int_le_iff by simp
  then have "?k \<le> 2 ^ (m + 1) - 1" by simp
  moreover have "?k / 2 ^ 54 < 1" using \<open>?k < 2 powi 53\<close> by simp
  moreover have "x \<le> ?k + ?k / 2 ^ 54" using x(2) by (simp add: distrib_left)
  ultimately have xb: "x < 2 ^ (m + 1)" by linarith
  have x0: "0 < x" using x k0 by linarith
  have "2 powi ?e \<le> x" using x(1) e(1) by (rule order_trans [rotated])
  then have ex: "ilog2 x = int m" using xb by (intro ilog2_unique [OF _ _ x0]) (simp_all add: m(1) power_int_add)
  define q where "q = 52 - m"
  have "int m - 52 = - int q" using m(2) by (simp add: q_def)
  then have u: "ulp x = 1 / 2 ^ q" by (simp only: ulp_def ex power_int_minus power_int_of_nat inverse_eq_divide)
  have "x / ulp x < of_int (k * 2 ^ q) + 1/2"
  proof -
    have "?k * 2 ^ q < 2 ^ 53" using kb(2) m(2)
    proof -
      have "?k < 2 ^ (m + 1)" using e(2) m(1) by (simp add: power_int_add)
      then have "?k * 2 ^ q < 2 ^ (m + 1) * 2 ^ q" by simp
      also have "\<dots> = 2 ^ 53" using m(2) by (simp add: q_def flip: power_add power_Suc)
      finally show ?thesis .
    qed
    then have "(?k * 2 ^ q) / 2 ^ 54 < 1/2" by simp
    moreover have "x * 2 ^ q \<le> ?k * 2 ^ q + (?k * 2 ^ q) / 2 ^ 54"
      using mult_right_mono [OF x(2), of "2 ^ q"] by (simp add: algebra_simps)
    ultimately have "x * 2 ^ q < ?k * 2 ^ q + 1/2" by linarith
    then show ?thesis by (simp add: u)
  qed
  moreover have "of_int (k * 2 ^ q) \<le> x / ulp x" using x(1) by (simp add: u)
  ultimately have "round_half_even (x / ulp x) = k * 2 ^ q" by (intro rhe_near)
  then show ?thesis by (simp add: double_pos [OF x0] u)
qed

lemma double_int: "0 \<le> k \<Longrightarrow> k < 2 ^ 53 \<Longrightarrow> double (of_int k) = of_int k"
  by (cases "k = 0") (auto intro!: double_near_int simp: field_simps)

section \<open>The band\<close>

lemma clamp_bounds: "- 1 \<le> clamp v" "clamp v \<le> 1" by (simp_all add: clamp_def)

lemma capped_delay_bounds:
  assumes "0 < b" shows "1 \<le> capped_delay n b" "capped_delay n b \<le> 21600"
proof -
  have "0 < b * 2 ^ nat (min n MAX_EXPONENT)" using assms by simp
  then show "1 \<le> capped_delay n b" "capped_delay n b \<le> 21600"
    by (simp_all add: capped_delay_def MAX_DELAY_SECONDS_def int_one_le_iff_zero_less)
qed

text \<open>A fifth of the delay, rounded up, bounds the product with the jitter fraction.\<close>

lemma fifth_product:
  assumes "1 \<le> r" "r \<le> 21600"
  shows "double (of_int r * JITTER_FRACTION) \<le> of_int ((r + 4) div 5)" "0 \<le> double (of_int r * JITTER_FRACTION)"
proof -
  show "0 \<le> double (of_int r * JITTER_FRACTION)" using assms by (intro double_nonneg) (simp add: JITTER_FRACTION_def)
  show "double (of_int r * JITTER_FRACTION) \<le> of_int ((r + 4) div 5)"
  proof (cases "5 dvd r")
    case True
    then obtain k where r: "r = 5 * k" by (elim dvdE)
    have k: "0 < k" "k < 2 ^ 53" using assms r by auto
    have "double (of_int r * JITTER_FRACTION) = of_int k"
      using k by (intro double_near_int) (simp_all add: r JITTER_FRACTION_def field_simps)
    moreover have "(r + 4) div 5 = k" using r by simp
    ultimately show ?thesis by simp
  next
    case False
    let ?c = "(r + 4) div 5"
    have "r + 1 \<le> 5 * ?c" using False assms by presburger
    then have "(of_int (r + 1) :: rat) \<le> of_int (5 * ?c)" unfolding of_int_le_iff .
    then have rc: "of_int r + 1 \<le> 5 * (of_int ?c :: rat)" by simp
    have "(of_int r :: rat) \<le> 21600" using assms(2) by (metis of_int_le_iff of_int_numeral)
    then have "of_int r * JITTER_FRACTION \<le> of_int ?c" using rc by (simp add: JITTER_FRACTION_def)
    then have "double (of_int r * JITTER_FRACTION) \<le> double (of_int ?c)" by (rule double_mono)
    also have "\<dots> = of_int ?c" using assms by (intro double_int) auto
    finally show ?thesis .
  qed
qed

lemma delay_in_band:
  assumes d: "delay_seconds n b j = Inr d"
  shows "max 1 (capped_delay n b - (capped_delay n b + 4) div 5) \<le> d" "d \<le> capped_delay n b + (capped_delay n b + 4) div 5"
proof -
  have b: "0 < b" using d by (auto simp: delay_seconds_def split: if_splits)
  define r where "r = capped_delay n b"
  have r: "1 \<le> r" "r \<le> 21600" using capped_delay_bounds [OF b] by (simp_all add: r_def)
  define c where "c = (r + 4) div 5"
  define a where "a = double (of_int r * JITTER_FRACTION)"
  define y where "y = double (of_int r + double (a * clamp j))"
  have c: "0 \<le> c" "c \<le> r" "c < 2 ^ 53" using r by (auto simp: c_def)
  have a: "0 \<le> a" "a \<le> of_int c" using fifth_product [OF r] by (simp_all add: a_def c_def)
  have "a * clamp j \<le> a * 1" "a * - 1 \<le> a * clamp j" using clamp_bounds a(1) by (intro mult_left_mono; simp)+
  then have "double (- of_int c) \<le> double (a * clamp j)" "double (a * clamp j) \<le> double (of_int c)"
    using a(2) by (intro double_mono; linarith)+
  then have o: "- of_int c \<le> double (a * clamp j)" "double (a * clamp j) \<le> of_int c"
    using c by (simp_all add: double_int double_minus)
  have "double (of_int (r - c)) \<le> y" "y \<le> double (of_int (r + c))" using o unfolding y_def by (intro double_mono; simp)+
  then have "of_int (r - c) \<le> y" "y \<le> of_int (r + c)" using c r by (simp_all add: double_int del: of_int_diff of_int_add)
  then have "r - c \<le> \<lfloor>y\<rfloor>" "\<lfloor>y\<rfloor> \<le> r + c" by (simp_all add: le_floor_iff floor_le_iff)
  moreover have "d = max 1 \<lfloor>y\<rfloor>" using d by (auto simp: delay_seconds_def Let_def y_def a_def r_def split: if_splits)
  ultimately show "max 1 (capped_delay n b - (capped_delay n b + 4) div 5) \<le> d" "d \<le> capped_delay n b + (capped_delay n b + 4) div 5"
    using r c by (auto simp: r_def c_def)
qed

lemma delay_returns: "0 \<le> n \<Longrightarrow> 0 < b \<Longrightarrow> \<exists>d. delay_seconds n b j = Inr d" by (simp add: delay_seconds_def Let_def)

text \<open>The next attempt lies after now and within the cap of six hours and a fifth.\<close>

lemma next_attempt_later:
  assumes "next_attempt_at now n b j = Inr t"
  shows "now + SECOND \<le> t" "t \<le> now + 25920 * SECOND"
proof -
  obtain d where d: "delay_seconds n b j = Inr d" and t: "t = now + d * SECOND"
    using assms by (auto simp: next_attempt_at_def mapE_def split: sum.splits)
  have b: "0 < b" using d by (auto simp: delay_seconds_def split: if_splits)
  have "1 \<le> d" "d \<le> 25920" using delay_in_band [OF d] capped_delay_bounds [OF b, of n] by auto
  then show "now + SECOND \<le> t" "t \<le> now + 25920 * SECOND" by (simp_all add: t SECOND_def)
qed

end
