(* ===== verification/Reconcile.thy ===== *)
theory Reconcile
  imports Settling Backoff
begin

text \<open>
  \<^verbatim>\<open>src/app/services/reconciliation/reconciler.py\<close>, \<^verbatim>\<open>retry.py\<close> and \<^verbatim>\<open>backlog.py\<close> with the jobs that
  drive them: the batch sweep, the retry of one item, the drain and the backlog report. Every
  \<^verbatim>\<open>sessions.begin()\<close> is one atomic change of the database; an operation made of several
  transactions yields its result, the database after those that committed, and the capture calls it
  issued on the way, committed or not. The environment of the item at position \<^verbatim>\<open>k\<close> of a pass is
  \<^verbatim>\<open>F k\<close>: the acquirer's answers and the clock may differ from item to item.
\<close>

section \<open>One item of a sweep\<close>

record pass_stats =
  ps_total :: nat
  ps_settled :: nat
  ps_failed :: nat
  ps_orphaned :: nat
  ps_charges :: "string list"
  ps_posted :: int
  ps_fee :: int
  ps_net :: int

definition empty_stats :: pass_stats where
  "empty_stats = \<lparr>ps_total = 0, ps_settled = 0, ps_failed = 0, ps_orphaned = 0, ps_charges = [], ps_posted = 0, ps_fee = 0, ps_net = 0\<rparr>"

definition stats_status :: "pass_stats \<Rightarrow> string" where
  "stats_status p = (if ps_failed p = 0 then ''succeeded'' else ''failed'')"

definition count_settled :: "recon_item \<Rightarrow> pass_stats \<Rightarrow> pass_stats" where
  "count_settled r p = p\<lparr>ps_settled := Suc (ps_settled p), ps_posted := ps_posted p + ri_net_minor r, ps_fee := ps_fee p + ri_fee_minor r,
     ps_net := ps_net p + ri_net_minor r,
     ps_charges := (case ri_charge r of None \<Rightarrow> ps_charges p | Some c \<Rightarrow> ps_charges p @ [c])\<rparr>"

definition count_failed :: "bool \<Rightarrow> pass_stats \<Rightarrow> pass_stats" where
  "count_failed orphan p = p\<lparr>ps_failed := Suc (ps_failed p), ps_orphaned := if orphan then Suc (ps_orphaned p) else ps_orphaned p\<rparr>"

definition process_item :: "'e recon_env_scheme \<Rightarrow> string \<Rightarrow> 'a recon_db_scheme \<Rightarrow> ('a recon_db_scheme) res \<times> capture_call list" where
  "process_item E i s = (case get_item_or_raise i s of
     Inl e \<Rightarrow> (Inl e, [])
   | Inr r \<Rightarrow> if ri_status r \<notin> set RETRYABLE_STATUSES then (Inr s, [])
       else (case post_settlement E r ''batch_pass'' s of (out, calls) \<Rightarrow>
         (mapE (\<lambda>(res, s1). put_item (r\<lparr>ri_status := ''settled'', ri_settled_transaction := Some (sr_transaction_id res),
                                      ri_last_attempt_at := Some (env_now E)\<rparr>) s1) out, calls)))"

text \<open>\<^verbatim>\<open>_mark_retryable\<close> and \<^verbatim>\<open>_mark_failed\<close> of the sweep: neither writes \<^verbatim>\<open>next_attempt_at\<close>.\<close>

definition attempted :: "'e recon_env_scheme \<Rightarrow> string \<Rightarrow> string \<Rightarrow> recon_item \<Rightarrow> recon_item" where
  "attempted E code status r = r\<lparr>ri_attempt_count := Suc (ri_attempt_count r), ri_last_attempt_at := Some (env_now E),
     ri_last_error_code := Some code, ri_status := status\<rparr>"

definition sweep_mark_retryable :: "'e recon_env_scheme \<Rightarrow> string \<Rightarrow> string \<Rightarrow> 'a recon_db_scheme \<Rightarrow> ('a recon_db_scheme) res" where
  "sweep_mark_retryable E i code s = bindE (get_item_or_raise i s) (\<lambda>r. Inr (put_item (attempted E code ''retryable'' r) s))"

definition sweep_mark_failed :: "'e recon_env_scheme \<Rightarrow> string \<Rightarrow> string \<Rightarrow> 'a recon_db_scheme \<Rightarrow> ('a recon_db_scheme) res" where
  "sweep_mark_failed E i code s = bindE (get_item_or_raise i s) (\<lambda>r.
     Inr (put_item (attempted E code (if code = ''orphaned_item'' then ''orphaned'' else ''failed'') r) s))"

text \<open>The body of the loop: the attempt, and the mark in a transaction of its own when it failed.\<close>

definition reconcile_one :: "'e recon_env_scheme \<Rightarrow> recon_item \<Rightarrow> pass_stats \<Rightarrow> 'a recon_db_scheme
    \<Rightarrow> (pass_stats \<times> 'a recon_db_scheme) res \<times> capture_call list" where
  "reconcile_one E r p s = (case process_item E (ri_id r) s of
     (Inr s1, calls) \<Rightarrow> (Inr (count_settled r p, s1), calls)
   | (Inl e, calls) \<Rightarrow>
       (if caught_by e RetryableSettlementError then
          mapE (\<lambda>s1. (count_failed False p, s1)) (sweep_mark_retryable E (ri_id r) (err_code e) s)
        else if caught_by e PayzenoLedgerError then
          mapE (\<lambda>s1. (count_failed (err_code e = ''orphaned_item'') p, s1)) (sweep_mark_failed E (ri_id r) (err_code e) s)
        else Inl e, calls))"

section \<open>The pass over a batch\<close>

fun reconcile_items :: "'e recon_env_scheme \<Rightarrow> (nat \<Rightarrow> 'e recon_env_scheme) \<Rightarrow> nat \<Rightarrow> recon_item list \<Rightarrow> pass_stats \<Rightarrow> 'a recon_db_scheme
    \<Rightarrow> pass_stats res \<times> 'a recon_db_scheme \<times> capture_call list" where
  "reconcile_items E F k [] p s = (Inr p, s, [])"
| "reconcile_items E F k (r # rs) p s =
    (if env_over_budget E k then (Inr (p\<lparr>ps_total := ps_settled p + ps_failed p\<rparr>), s, [])
     else (case reconcile_one (F k) r p s of
         (Inl e, calls) \<Rightarrow> (Inl e, s, calls)
       | (Inr (p1, s1), calls) \<Rightarrow> (case reconcile_items E F (Suc k) rs p1 s1 of (out, s2, calls2) \<Rightarrow> (out, s2, calls @ calls2))))"

definition error_summary :: "nat \<Rightarrow> string option" where
  "error_summary failed = (if failed = 0 then None else Some (str_int (int failed) @ '' items failed''))"

definition finish_pass :: "'e recon_env_scheme \<Rightarrow> string \<Rightarrow> string \<Rightarrow> pass_stats \<Rightarrow> 'a recon_db_scheme \<Rightarrow> (recon_run \<times> 'a recon_db_scheme) res" where
  "finish_pass E batch run_id p s =
     bindE (finish_run E run_id (ps_total p) (ps_settled p) (ps_failed p) (stats_status p) (error_summary (ps_failed p)) s) (\<lambda>(run, s1).
     bindE (mark_reconciled batch (ps_posted p) (ps_failed p = 0) (env_now E) s1) (\<lambda>(_, s2). Inr (run, s2)))"

text \<open>\<^verbatim>\<open>_chunk\<close>: slices of \<^verbatim>\<open>size\<close>, and one empty slice for an empty list.\<close>

fun slices :: "nat \<Rightarrow> 'a list \<Rightarrow> 'a list list" where
  "slices n [] = []"
| "slices n (x # xs) = (if n = 0 then [] else take n (x # xs) # slices n (drop (n - 1) xs))"

definition chunk :: "'a list \<Rightarrow> nat \<Rightarrow> 'a list list" where
  "chunk xs n = (if xs = [] then [[]] else slices n xs)"

definition failure_event :: "'e recon_env_scheme \<Rightarrow> recon_run \<Rightarrow> pass_stats \<Rightarrow> payload" where
  "failure_event E run p =
    [(''batch_id'', JStr (rr_batch run)), (''run_id'', JStr (rr_id run)), (''items_failed'', JInt (int (ps_failed p))),
     (''items_orphaned'', JInt (int (ps_orphaned p))),
     (''error_summary'', JStr (text_or (rr_error_summary run) ''reconciliation failed'')), (''failed_at'', JTime (env_now E))]"

definition completion_event :: "'e recon_env_scheme \<Rightarrow> recon_run \<Rightarrow> settlement_batch \<Rightarrow> pass_stats \<Rightarrow> string list \<Rightarrow> nat \<Rightarrow> nat \<Rightarrow> payload" where
  "completion_event E run b p ids index chunk_count =
    [(''batch_id'', JStr (rr_batch run)), (''run_id'', JStr (rr_id run)), (''acquirer'', JStr (sb_acquirer b)),
     (''currency'', JStr (sb_currency b)), (''processing_date'', JStr (iso_date (sb_processing_date b))),
     (''items_total'', JInt (int (ps_total p))), (''items_settled'', JInt (int (ps_settled p))), (''items_failed'', JInt (int (ps_failed p))),
     (''posted_total_minor'', JInt (ps_posted p)), (''fee_total_minor'', JInt (ps_fee p)), (''net_total_minor'', JInt (ps_net p)),
     (''settled_charge_ids'', JStrs ids), (''chunk_index'', JInt (int index)), (''chunk_count'', JInt (int chunk_count)),
     (''completed_at'', JTime (env_now E))]"

fun publish_chunks :: "'e recon_env_scheme \<Rightarrow> recon_run \<Rightarrow> settlement_batch \<Rightarrow> pass_stats \<Rightarrow> nat \<Rightarrow> nat \<Rightarrow> string list list
    \<Rightarrow> 'a recon_db_scheme \<Rightarrow> ('a recon_db_scheme) res" where
  "publish_chunks E run b p index chunk_count [] s = Inr s"
| "publish_chunks E run b p index chunk_count (ids # rest) s =
     bindE (publish (books_env E) ''settlement.completed'' (completion_event E run b p ids index chunk_count) None (rr_id run) None (sb_livemode b) s)
       (\<lambda>(_, s1). publish_chunks E run b p (Suc index) chunk_count rest s1)"

definition publish_completion :: "'e recon_env_scheme \<Rightarrow> recon_run \<Rightarrow> pass_stats \<Rightarrow> 'a recon_db_scheme \<Rightarrow> ('a recon_db_scheme) res" where
  "publish_completion E run p s = bindE (get_batch_or_raise (rr_batch run) s) (\<lambda>b.
     if ps_failed p \<noteq> 0 \<and> ps_settled p = 0 then
       mapE snd (publish (books_env E) ''settlement.reconciliation_failed'' (failure_event E run p) None (rr_id run) None (sb_livemode b) s)
     else (let chunks = chunk (ps_charges p) COMPLETION_CHUNK_SIZE in publish_chunks E run b p 0 (length chunks) chunks s))"

definition reconcile_batch :: "'e recon_env_scheme \<Rightarrow> (nat \<Rightarrow> 'e recon_env_scheme) \<Rightarrow> string \<Rightarrow> string \<Rightarrow> nat \<Rightarrow> 'a recon_db_scheme
    \<Rightarrow> recon_run res \<times> 'a recon_db_scheme \<times> capture_call list" where
  "reconcile_batch E F batch trigger max_items s = (case start_run E batch trigger s of
     Inl e \<Rightarrow> (Inl e, s, [])
   | Inr (run, s1) \<Rightarrow>
       (let items = list_for_settlement batch RETRYABLE_STATUSES max_items s1 in
        case reconcile_items E F 0 items (empty_stats\<lparr>ps_total := length items\<rparr>) s1 of
          (Inl e, s2, calls) \<Rightarrow> (Inl e, s2, calls)
        | (Inr p, s2, calls) \<Rightarrow> (case finish_pass E batch (rr_id run) p s2 of
            Inl e \<Rightarrow> (Inl e, s2, calls)
          | Inr (run1, s3) \<Rightarrow> (case publish_completion E run1 p s3 of
              Inl e \<Rightarrow> (Inl e, s3, calls)
            | Inr s4 \<Rightarrow> (Inr run1, s4, calls)))))"

section \<open>The retry of one item\<close>

text \<open>\<^verbatim>\<open>_claim_item\<close>: the batch lock without waiting, then the row if it is retryable and not locked.\<close>

definition claim_item :: "'e recon_env_scheme \<Rightarrow> string \<Rightarrow> 'a recon_db_scheme \<Rightarrow> recon_item option" where
  "claim_item E i s = (case get_batch_id i s of None \<Rightarrow> None
   | Some b \<Rightarrow> if \<not> env_lock_free E b then None
       else (case find_item i s of None \<Rightarrow> None
         | Some r \<Rightarrow> if ri_status r \<in> set RETRYABLE_STATUSES \<and> env_lock_free E i then Some r else None))"

definition retry_attempt :: "'e recon_env_scheme \<Rightarrow> string \<Rightarrow> 'a recon_db_scheme
    \<Rightarrow> (recon_item option \<times> 'a recon_db_scheme) res \<times> capture_call list" where
  "retry_attempt E i s = (case claim_item E i s of
     None \<Rightarrow> (Inr (None, s), [])
   | Some r \<Rightarrow> if ri_attempt_count r \<ge> env_max_attempts E then (raise RetryExhaustedError, [])
       else (let r1 = r\<lparr>ri_attempt_count := Suc (ri_attempt_count r), ri_last_attempt_at := Some (env_now E), ri_status := ''settling''\<rparr> in
         case post_settlement E r1 ''retry_scheduler'' s of (out, calls) \<Rightarrow>
           (mapE (\<lambda>(res, s1). let r2 = r1\<lparr>ri_status := ''settled'', ri_settled_transaction := Some (sr_transaction_id res)\<rparr>
                              in (Some r2, put_item r2 s1)) out, calls)))"

definition retry_mark_retryable :: "'e recon_env_scheme \<Rightarrow> string \<Rightarrow> string \<Rightarrow> 'a recon_db_scheme \<Rightarrow> ('a recon_db_scheme) res" where
  "retry_mark_retryable E i code s = bindE (get_item_or_raise i s) (\<lambda>r. let r1 = attempted E code ''retryable'' r in
     bindE (next_attempt_at (env_now E) (int (min (ri_attempt_count r1) MAX_ATTEMPTS)) (env_backoff_base E) (env_jitter E))
       (\<lambda>t. Inr (put_item (r1\<lparr>ri_next_attempt_at := t\<rparr>) s)))"

definition retry_mark_failed :: "'e recon_env_scheme \<Rightarrow> string \<Rightarrow> string \<Rightarrow> 'a recon_db_scheme \<Rightarrow> ('a recon_db_scheme) res" where
  "retry_mark_failed E i code s = bindE (get_item_or_raise i s) (\<lambda>r. Inr (put_item (attempted E code ''failed'' r) s))"

definition retry_outcome :: "'e recon_env_scheme \<Rightarrow> string \<Rightarrow> error \<Rightarrow> 'a recon_db_scheme \<Rightarrow> ('a recon_db_scheme) res" where
  "retry_outcome E i e s =
    (if caught_by e RetryableSettlementError then retry_mark_retryable E i (err_code e) s
     else if caught_by e RetryExhaustedError then retry_mark_failed E i ''retry_exhausted'' s
     else if caught_by e PayzenoLedgerError then retry_mark_failed E i (err_code e) s
     else Inl e)"

definition retry_item :: "'e recon_env_scheme \<Rightarrow> string \<Rightarrow> 'a recon_db_scheme \<Rightarrow> recon_item option res \<times> 'a recon_db_scheme \<times> capture_call list" where
  "retry_item E i s = (case retry_attempt E i s of
     (Inr (x, s1), calls) \<Rightarrow> (Inr x, s1, calls)
   | (Inl e, calls) \<Rightarrow> (case retry_outcome E i e s of Inl e1 \<Rightarrow> (Inl e1, s, calls) | Inr s1 \<Rightarrow> (Inr None, s1, calls)))"

fun drain_items :: "(nat \<Rightarrow> 'e recon_env_scheme) \<Rightarrow> nat \<Rightarrow> string list \<Rightarrow> nat \<Rightarrow> 'a recon_db_scheme
    \<Rightarrow> nat res \<times> 'a recon_db_scheme \<times> capture_call list" where
  "drain_items F k [] n s = (Inr n, s, [])"
| "drain_items F k (i # is) n s = (case retry_item (F k) i s of
     (Inl e, s1, calls) \<Rightarrow> (Inl e, s1, calls)
   | (Inr x, s1, calls) \<Rightarrow> (case drain_items F (Suc k) is (if x = None then n else Suc n) s1 of
        (out, s2, calls2) \<Rightarrow> (out, s2, calls @ calls2)))"

definition drain :: "'e recon_env_scheme \<Rightarrow> (nat \<Rightarrow> 'e recon_env_scheme) \<Rightarrow> nat \<Rightarrow> 'a recon_db_scheme
    \<Rightarrow> nat res \<times> 'a recon_db_scheme \<times> capture_call list" where
  "drain E F limit s = drain_items F 0 (list_retryable_ids limit (env_wall E) s) 0 s"

section \<open>The jobs and the routes\<close>

definition retry_drain_job :: "'e recon_env_scheme \<Rightarrow> (nat \<Rightarrow> 'e recon_env_scheme) \<Rightarrow> 'a recon_db_scheme
    \<Rightarrow> nat res \<times> 'a recon_db_scheme \<times> capture_call list" where
  "retry_drain_job E F s = (if env_drain_enabled E then drain E F (env_drain_size E) s else (Inr 0, s, []))"

text \<open>\<^verbatim>\<open>ReconciliationSweepJob.run_once\<close>: one bad batch does not stop the sweep.\<close>

fun sweep_batches :: "(string \<Rightarrow> 'e recon_env_scheme) \<Rightarrow> (string \<Rightarrow> nat \<Rightarrow> 'e recon_env_scheme) \<Rightarrow> string list \<Rightarrow> nat \<Rightarrow> 'a recon_db_scheme
    \<Rightarrow> nat res \<times> 'a recon_db_scheme \<times> capture_call list" where
  "sweep_batches G F [] n s = (Inr n, s, [])"
| "sweep_batches G F (b # bs) n s = (case reconcile_batch (G b) (F b) b ''scheduled'' (env_max_items (G b)) s of
     (Inl e, s1, calls) \<Rightarrow> (if caught_by e PayzenoLedgerError
        then (case sweep_batches G F bs n s1 of (out, s2, calls2) \<Rightarrow> (out, s2, calls @ calls2)) else (Inl e, s1, calls))
   | (Inr run, s1, calls) \<Rightarrow> (case sweep_batches G F bs (n + rr_items_settled run) s1 of (out, s2, calls2) \<Rightarrow> (out, s2, calls @ calls2)))"

definition reconciliation_sweep_job :: "(string \<Rightarrow> 'e recon_env_scheme) \<Rightarrow> (string \<Rightarrow> nat \<Rightarrow> 'e recon_env_scheme) \<Rightarrow> 'a recon_db_scheme
    \<Rightarrow> nat res \<times> 'a recon_db_scheme \<times> capture_call list" where
  "reconciliation_sweep_job G F s = sweep_batches G F (map sb_id (list_by_status RECONCILABLE_BATCH_STATUSES s)) 0 s"

text \<open>\<^verbatim>\<open>POST /internal/v1/reconciliation/runs\<close> and \<^verbatim>\<open>POST /internal/v1/reconciliation/items/{itemId}/retry\<close>.\<close>

definition http_start_run :: "'e recon_env_scheme \<Rightarrow> (nat \<Rightarrow> 'e recon_env_scheme) \<Rightarrow> string \<Rightarrow> string option \<Rightarrow> nat option \<Rightarrow> 'a recon_db_scheme
    \<Rightarrow> recon_run res \<times> 'a recon_db_scheme \<times> capture_call list" where
  "http_start_run E F batch trigger max_items s =
    (if \<not> env_lock_free E batch then (raise SettlementLockedError, s, [])
     else reconcile_batch E F batch (text_or trigger ''manual'')
       (case max_items of None \<Rightarrow> 5000 | Some n \<Rightarrow> if n = 0 then 5000 else n) s)"

definition http_retry :: "'e recon_env_scheme \<Rightarrow> string \<Rightarrow> 'a recon_db_scheme \<Rightarrow> recon_item res \<times> 'a recon_db_scheme \<times> capture_call list" where
  "http_retry E i s = (case retry_item E i s of
     (Inl e, s1, calls) \<Rightarrow> (Inl e, s1, calls)
   | (Inr (Some r), s1, calls) \<Rightarrow> (Inr r, s1, calls)
   | (Inr None, s1, calls) \<Rightarrow> (bindE (get_item_or_raise i s1) (\<lambda>_. raise SettlementLockedError), s1, calls))"

section \<open>The backlog\<close>

definition NEEDS_HUMAN_STATUSES :: "string list" where
  "NEEDS_HUMAN_STATUSES = [''failed'', ''orphaned'', ''needs_review'', ''variance_exceeded'']"

definition STALE_AFTER :: int where "STALE_AFTER = 900 * SECOND"

definition is_stale :: "int option \<Rightarrow> int \<Rightarrow> bool" where
  "is_stale oldest now \<longleftrightarrow> (case oldest of None \<Rightarrow> False | Some t \<Rightarrow> STALE_AFTER < now - t)"

record backlog_report =
  bl_total_items :: nat
  bl_total_gross_minor :: int
  bl_stale_batches :: nat
  bl_as_of :: int
  bl_buckets :: "backlog_row list"

definition get_backlog :: "'e recon_env_scheme \<Rightarrow> string option \<Rightarrow> string option \<Rightarrow> 'a recon_db_scheme \<Rightarrow> backlog_report" where
  "get_backlog E c b s = (let buckets = aggregate_backlog RETRYABLE_STATUSES c b s in
     \<lparr>bl_total_items = sum_list (map br_item_count buckets), bl_total_gross_minor = sum_list (map br_gross_minor buckets),
      bl_stale_batches = length (filter (\<lambda>g. is_stale (Some (br_oldest_next_attempt_at g)) (env_now E)) buckets),
      bl_as_of = env_now E, bl_buckets = sort_key (\<lambda>g. (- int (br_item_count g), br_batch g)) buckets\<rparr>)"

record backlog_summary =
  bs_retryable :: nat
  bs_failed :: nat
  bs_orphaned :: nat
  bs_needs_review :: nat
  bs_variance_exceeded :: nat
  bs_oldest_retryable_at :: "int option"

definition count_in :: "string list \<Rightarrow> backlog_row list \<Rightarrow> nat" where
  "count_in statuses rows = sum_list (map br_item_count (filter (\<lambda>g. br_status g \<in> set statuses) rows))"

definition summary :: "string option \<Rightarrow> string option \<Rightarrow> 'a recon_db_scheme \<Rightarrow> backlog_summary" where
  "summary c b s = (let rows = aggregate_backlog (RETRYABLE_STATUSES @ NEEDS_HUMAN_STATUSES) c b s;
       due = map br_oldest_next_attempt_at (filter (\<lambda>g. br_status g \<in> set RETRYABLE_STATUSES) rows) in
     \<lparr>bs_retryable = count_in RETRYABLE_STATUSES rows, bs_failed = count_in [''failed''] rows, bs_orphaned = count_in [''orphaned''] rows,
      bs_needs_review = count_in [''needs_review''] rows, bs_variance_exceeded = count_in [''variance_exceeded''] rows,
      bs_oldest_retryable_at = (case due of [] \<Rightarrow> None | ts \<Rightarrow> Some (Min (set ts)))\<rparr>)"

definition batches_with_running_run :: "string list \<Rightarrow> 'a recon_db_scheme \<Rightarrow> string set" where
  "batches_with_running_run ids s = (if ids = [] then {} else set (list_running_batch_ids ids s))"

end
