(* ===== verification/Recon_Inv.thy ===== *)
theory Recon_Inv
  imports Reconcile
begin

text \<open>
  What reconciliation promises. Sweeps, retries, drains and every other writer of the database are
  interleaved transaction by transaction; a pass over a batch, a drain and the jobs are runs of such
  steps. Over every run: an item that carries a transaction is held by the key of its settlement,
  keeps that transaction, and is never captured again; the counters of a pass add up; the events of a
  finished pass carry each settled charge once, in pieces of bounded size.
\<close>

section \<open>Rows and keys\<close>

definition key_held :: "'a recon_db_scheme \<Rightarrow> recon_item \<Rightarrow> bool" where
  "key_held s r \<longleftrightarrow> (\<exists>tid key. ri_settled_transaction r = Some tid \<and> ledger_key ''settle'' (ri_batch r) (ri_id r) = Inr key \<and> holds_key key tid s)"

definition items_inv :: "'a recon_db_scheme \<Rightarrow> bool" where
  "items_inv s \<longleftrightarrow> ledger_ok s \<and> (\<forall>i r. find_item i s = Some r \<longrightarrow> ri_settled_transaction r = None \<or> key_held s r)"

text \<open>One step from sound books: the books stay sound, taken keys stay, and a row keeps its identity.\<close>

definition row_step :: "'a recon_db_scheme \<Rightarrow> 'a recon_db_scheme \<Rightarrow> bool" where
  "row_step s s' \<longleftrightarrow> keeps_books s s' \<and> (ledger_ok s \<longrightarrow>
     (\<forall>i r. find_item i s = Some r \<longrightarrow> (\<exists>r'. find_item i s' = Some r' \<and> ri_id r' = ri_id r \<and> ri_batch r' = ri_batch r
        \<and> (ri_settled_transaction r' = ri_settled_transaction r \<or> key_held s' r')))
   \<and> (\<forall>i r'. find_item i s = None \<longrightarrow> find_item i s' = Some r' \<longrightarrow> ri_settled_transaction r' = None \<or> key_held s' r'))"

lemma row_step_rowD: "row_step s s' \<Longrightarrow> ledger_ok s \<Longrightarrow> find_item i s = Some r \<Longrightarrow>
    \<exists>r'. find_item i s' = Some r' \<and> ri_id r' = ri_id r \<and> ri_batch r' = ri_batch r
      \<and> (ri_settled_transaction r' = ri_settled_transaction r \<or> key_held s' r')"
  by (simp add: row_step_def)

lemma items_invD: "items_inv s \<Longrightarrow> find_item i s = Some r \<Longrightarrow> ri_settled_transaction r = Some tid \<Longrightarrow> key_held s r"
  unfolding items_inv_def by (metis option.distinct(1))

lemma key_held_mono:
  "keeps_books s s' \<Longrightarrow> ledger_ok s \<Longrightarrow> key_held s r \<Longrightarrow> ri_id r' = ri_id r \<Longrightarrow> ri_batch r' = ri_batch r
    \<Longrightarrow> ri_settled_transaction r' = ri_settled_transaction r \<Longrightarrow> key_held s' r'"
  unfolding key_held_def keeps_books_def by metis

lemma key_held_cong: "transactions s' = transactions s \<Longrightarrow> key_held s' r = key_held s r"
  using holds_key_cong [of s' s] by (simp add: key_held_def)

lemma key_held_put [simp]: "key_held (put_item x s) r = key_held s r"
  by (rule key_held_cong) (simp add: put_item_def)

lemma keeps_cong: "accounts s' = accounts s \<Longrightarrow> transactions s' = transactions s \<Longrightarrow> entries s' = entries s
    \<Longrightarrow> balance_cache s' = balance_cache s \<Longrightarrow> keeps_books s s'"
  using ledger_ok_cong [of s' s] holds_key_cong [of s' s] by (simp add: keeps_books_def)

lemma keeps_put [simp]: "keeps_books s (put_item r s)" by (rule keeps_cong) (simp_all add: put_item_def)

lemma row_stepD:
  assumes "row_step s s'" "items_inv s" shows "items_inv s'"
proof -
  have k: "keeps_books s s'" and ok: "ledger_ok s" using assms by (simp_all add: row_step_def items_inv_def)
  have "ri_settled_transaction r' = None \<or> key_held s' r'" if f: "find_item i s' = Some r'" for i r'
  proof (cases "find_item i s")
    case None
    then show ?thesis using assms(1) ok f by (simp add: row_step_def)
  next
    case (Some r)
    then have r': "ri_id r' = ri_id r" "ri_batch r' = ri_batch r"
      "ri_settled_transaction r' = ri_settled_transaction r \<or> key_held s' r'"
      using row_step_rowD [OF assms(1) ok Some] f by auto
    have "ri_settled_transaction r = None \<or> key_held s r" using assms(2) Some by (simp add: items_inv_def)
    then show ?thesis using key_held_mono [OF k ok _ r'(1,2)] r'(3) by auto
  qed
  then show ?thesis using keeps_booksD [OF k ok] by (auto simp: items_inv_def)
qed

lemma row_step_keeps: "row_step s s' \<Longrightarrow> keeps_books s s'" by (simp add: row_step_def)

lemma row_step_trans [trans]:
  assumes "row_step s s1" "row_step s1 s2" shows "row_step s s2"
proof -
  have k: "keeps_books s s1" "keeps_books s1 s2" using assms by (simp_all add: row_step_def)
  have "ledger_ok s \<longrightarrow> (\<forall>i r. find_item i s = Some r \<longrightarrow> (\<exists>r'. find_item i s2 = Some r' \<and> ri_id r' = ri_id r \<and> ri_batch r' = ri_batch r
        \<and> (ri_settled_transaction r' = ri_settled_transaction r \<or> key_held s2 r')))
     \<and> (\<forall>i r'. find_item i s = None \<longrightarrow> find_item i s2 = Some r' \<longrightarrow> ri_settled_transaction r' = None \<or> key_held s2 r')"
    (is "_ \<longrightarrow> ?A \<and> ?B")
  proof
    assume ok: "ledger_ok s"
    have ok1: "ledger_ok s1" using keeps_booksD [OF k(1) ok] by blast
    have mid: "\<exists>r2. find_item i s2 = Some r2 \<and> ri_id r2 = ri_id r1 \<and> ri_batch r2 = ri_batch r1
        \<and> (ri_settled_transaction r2 = ri_settled_transaction r1 \<or> key_held s2 r2)
        \<and> (key_held s1 r1 \<longrightarrow> key_held s2 r2)" if f1: "find_item i s1 = Some r1" for i r1
    proof -
      obtain r2 where r2: "find_item i s2 = Some r2" "ri_id r2 = ri_id r1" "ri_batch r2 = ri_batch r1"
        "ri_settled_transaction r2 = ri_settled_transaction r1 \<or> key_held s2 r2"
        using row_step_rowD [OF assms(2) ok1 f1] by blast
      then show ?thesis using key_held_mono [OF k(2) ok1, of r1 r2] by blast
    qed
    have ?A
    proof (intro allI impI)
      fix i r assume f: "find_item i s = Some r"
      obtain r1 where r1: "find_item i s1 = Some r1" "ri_id r1 = ri_id r" "ri_batch r1 = ri_batch r"
        "ri_settled_transaction r1 = ri_settled_transaction r \<or> key_held s1 r1"
        using row_step_rowD [OF assms(1) ok f] by blast
      then show "\<exists>r'. find_item i s2 = Some r' \<and> ri_id r' = ri_id r \<and> ri_batch r' = ri_batch r
          \<and> (ri_settled_transaction r' = ri_settled_transaction r \<or> key_held s2 r')"
        using mid [OF r1(1)] by auto
    qed
    moreover have ?B
    proof (intro allI impI)
      fix i r' assume n: "find_item i s = None" and f: "find_item i s2 = Some r'"
      show "ri_settled_transaction r' = None \<or> key_held s2 r'"
      proof (cases "find_item i s1")
        case None
        then show ?thesis using assms(2) ok1 f by (simp add: row_step_def)
      next
        case (Some r1)
        then have "ri_settled_transaction r1 = None \<or> key_held s1 r1" using assms(1) ok n by (simp add: row_step_def)
        then show ?thesis using mid [OF Some] f by auto
      qed
    qed
    ultimately show "?A \<and> ?B" by blast
  qed
  then show ?thesis using keeps_trans [OF k] by (simp add: row_step_def)
qed

lemma row_step_same: "keeps_books s s' \<Longrightarrow> recon_items s' = recon_items s \<Longrightarrow> row_step s s'"
  by (simp add: row_step_def find_item_def)

lemma row_step_refl [simp]: "row_step s s" by (rule row_step_same) simp_all

lemma row_step_put:
  assumes k: "keeps_books s s1" and same: "recon_items s1 = recon_items s" and r: "find_item (ri_id r') s = Some r" "ri_batch r' = ri_batch r"
    and tx: "ledger_ok s \<longrightarrow> ri_settled_transaction r' = ri_settled_transaction r \<or> key_held s1 r'"
  shows "row_step s (put_item r' s1)"
proof -
  have f: "find_item i (put_item r' s1) = (if i = ri_id r' then map_option (\<lambda>_. r') (find_item i s) else find_item i s)" for i
    using same by (simp add: find_item_put) (simp add: find_item_def)
  have "keeps_books s (put_item r' s1)" using k keeps_put keeps_trans by blast
  then show ?thesis using tx r find_itemD [OF r(1)] by (auto simp: row_step_def f)
qed

lemma row_step_sound: "(ledger_ok s \<Longrightarrow> row_step s s') \<Longrightarrow> row_step s s'" by (auto simp: row_step_def keeps_books_def)

section \<open>Attempts\<close>

lemma post_settlement_row_step:
  assumes p: "post_settlement E r caller s = (Inr (res, s1), calls)" and f: "find_item (ri_id r') s = Some old"
    and id: "ri_id r' = ri_id r" "ri_batch r' = ri_batch r" "ri_batch r = ri_batch old" "ri_settled_transaction r' = Some (sr_transaction_id res)"
  shows "row_step s (put_item r' s1)"
proof (rule row_step_sound)
  assume ok: "ledger_ok s"
  obtain key charge lines where k: "ledger_key ''settle'' (ri_batch r) (ri_id r) = Inr key" "holds_key key (sr_transaction_id res) s1"
    "keeps_books s s1" "ledger.more s1 = ledger.more s"
    by (rule post_settlement_spec [OF p ok]) blast
  have "key_held s1 r'" using k(1,2) id by (auto simp: key_held_def)
  then show ?thesis using row_step_put [OF k(3) same_settlement_tables(3) [OF k(4)] f] id by simp
qed

lemma find_item_self: "find_item i s = Some r \<Longrightarrow> find_item (ri_id r) s = Some r \<and> ri_id r = i"
  using find_itemD by blast

lemma get_item_Inr [simp]: "get_item_or_raise i s = Inr r \<longleftrightarrow> find_item i s = Some r"
  by (auto simp: get_item_or_raise_def split: option.splits)

lemma process_item_step: assumes p: "process_item E i s = (Inr s', calls)" shows "row_step s s'"
proof -
  obtain r where r: "find_item i s = Some r" using p by (auto simp: process_item_def split: sum.splits)
  show ?thesis
  proof (cases "ri_status r \<in> set RETRYABLE_STATUSES")
    case False
    then show ?thesis using p r by (auto simp: process_item_def get_item_or_raise_def)
  next
    case True
    then obtain res s1 where ps: "post_settlement E r ''batch_pass'' s = (Inr (res, s1), calls)"
      and s': "s' = put_item (r\<lparr>ri_status := ''settled'', ri_settled_transaction := Some (sr_transaction_id res),
          ri_last_attempt_at := Some (env_now E)\<rparr>) s1"
      using p r by (auto simp: process_item_def get_item_or_raise_def mapE_def split: sum.splits prod.splits)
    show ?thesis unfolding s' by (rule post_settlement_row_step [OF ps, where old = r]) (use r find_item_self [OF r] in simp_all)
  qed
qed

lemma retry_attempt_cases:
  assumes "retry_attempt E i s = (out, calls)"
  obtains (unclaimed) "out = Inr (None, s)" "calls = []"
  | (exhausted) r where "claim_item E i s = Some r" "env_max_attempts E \<le> ri_attempt_count r" "out = raise RetryExhaustedError" "calls = []"
  | (attempt) r r1 x where "claim_item E i s = Some r" "ri_attempt_count r < env_max_attempts E"
      "r1 = r\<lparr>ri_attempt_count := Suc (ri_attempt_count r), ri_last_attempt_at := Some (env_now E), ri_status := ''settling''\<rparr>"
      "post_settlement E r1 ''retry_scheduler'' s = (x, calls)"
      "out = mapE (\<lambda>(res, s1). let r2 = r1\<lparr>ri_status := ''settled'', ri_settled_transaction := Some (sr_transaction_id res)\<rparr>
                                in (Some r2, put_item r2 s1)) x"
proof (cases "claim_item E i s")
  case None
  then show ?thesis using assms unclaimed by (simp add: retry_attempt_def)
next
  case (Some r)
  let ?r = "r\<lparr>ri_attempt_count := Suc (ri_attempt_count r), ri_last_attempt_at := Some (env_now E), ri_status := ''settling''\<rparr>"
  obtain x c where x: "post_settlement E ?r ''retry_scheduler'' s = (x, c)" by (cases "post_settlement E ?r ''retry_scheduler'' s")
  show ?thesis
  proof (cases "env_max_attempts E \<le> ri_attempt_count r")
    case True
    then show ?thesis using assms Some exhausted [OF Some] by (simp add: retry_attempt_def)
  next
    case False
    then show ?thesis using assms Some x attempt [OF Some _ refl, of x] by (simp add: retry_attempt_def Let_def)
  qed
qed

lemma claim_itemD: "claim_item E i s = Some r \<Longrightarrow> find_item i s = Some r \<and> ri_status r \<in> set RETRYABLE_STATUSES
    \<and> env_lock_free E (ri_batch r) \<and> env_lock_free E i"
  by (auto simp: claim_item_def get_batch_id_def split: option.splits if_splits)

lemma retry_attempt_step: assumes p: "retry_attempt E i s = (Inr (x, s'), calls)" shows "row_step s s'"
  using p
proof (cases rule: retry_attempt_cases)
  case (attempt r r1 y)
  have r: "find_item i s = Some r" using claim_itemD [OF attempt(1)] by blast
  obtain res s1 where ps: "post_settlement E r1 ''retry_scheduler'' s = (Inr (res, s1), calls)"
    and s': "s' = put_item (r1\<lparr>ri_status := ''settled'', ri_settled_transaction := Some (sr_transaction_id res)\<rparr>) s1"
    using attempt(4,5) by (auto simp: mapE_def Let_def split: sum.splits)
  show ?thesis unfolding s' by (rule post_settlement_row_step [OF ps, where old = r]) (use r find_item_self [OF r] attempt(3) in simp_all)
qed simp_all

text \<open>An attempt on an item whose key is held captures nothing.\<close>

lemma post_settlement_blocked:
  assumes p: "post_settlement E r1 caller s = (out, calls)" and ok: "ledger_ok s" and h: "key_held s r"
    and id: "ri_id r1 = ri_id r" "ri_batch r1 = ri_batch r"
  shows "calls = []"
proof -
  obtain tid key where "ledger_key ''settle'' (ri_batch r1) (ri_id r1) = Inr key" "holds_key key tid s"
    using h id by (auto simp: key_held_def)
  then show ?thesis using settled_key_blocks [OF p ok] by blast
qed

lemma process_item_blocked:
  assumes p: "process_item E i s = (out, calls)" and ok: "ledger_ok s" and r: "find_item i s = Some r" and h: "key_held s r"
  shows "calls = []"
proof (cases "ri_status r \<in> set RETRYABLE_STATUSES")
  case True
  then obtain x where "post_settlement E r ''batch_pass'' s = (x, calls)"
    using p r by (auto simp: process_item_def get_item_or_raise_def split: prod.splits)
  then show ?thesis using post_settlement_blocked [OF _ ok h] by blast
qed (use p r in \<open>auto simp: process_item_def get_item_or_raise_def\<close>)

lemma retry_attempt_blocked:
  assumes p: "retry_attempt E i s = (out, calls)" and ok: "ledger_ok s" and r: "find_item i s = Some r" and h: "key_held s r"
  shows "calls = []"
  using p
proof (cases rule: retry_attempt_cases)
  case (attempt r0 r1 x)
  then have "ri_id r1 = ri_id r" "ri_batch r1 = ri_batch r" using claim_itemD [OF attempt(1)] r by auto
  then show ?thesis using post_settlement_blocked [OF attempt(4) ok h] by blast
qed simp_all

section \<open>The other writers\<close>

lemma put_row_step: "find_item i s = Some r \<Longrightarrow> ri_id r' = ri_id r \<Longrightarrow> ri_batch r' = ri_batch r
    \<Longrightarrow> ri_settled_transaction r' = ri_settled_transaction r \<Longrightarrow> row_step s (put_item r' s)"
  using row_step_put [of s s r' r] find_item_self [of i s r] by simp

lemma attempted_fields [simp]: "ri_id (attempted E c st r) = ri_id r" "ri_batch (attempted E c st r) = ri_batch r"
  "ri_settled_transaction (attempted E c st r) = ri_settled_transaction r" "ri_status (attempted E c st r) = st"
  "ri_attempt_count (attempted E c st r) = Suc (ri_attempt_count r)" "ri_last_error_code (attempted E c st r) = Some c"
  by (simp_all add: attempted_def)

lemma marks_step:
  "sweep_mark_retryable E i c s = Inr s' \<Longrightarrow> row_step s s'" "sweep_mark_failed E i c s = Inr s' \<Longrightarrow> row_step s s'"
  "retry_mark_retryable E i c s = Inr s' \<Longrightarrow> row_step s s'" "retry_mark_failed E i c s = Inr s' \<Longrightarrow> row_step s s'"
  by (auto simp: sweep_mark_retryable_def sweep_mark_failed_def retry_mark_retryable_def retry_mark_failed_def bindE_Inr_iff Let_def
      intro!: put_row_step)

lemma apply_match_fields [simp]: "ri_id (apply_match r m) = ri_id r" "ri_batch (apply_match r m) = ri_batch r"
  "ri_settled_transaction (apply_match r m) = ri_settled_transaction r"
  by (auto simp: apply_match_def Let_def)

lemma match_item_fields [simp]: "ri_batch (match_item E m r) = ri_batch r" "ri_settled_transaction (match_item E m r) = ri_settled_transaction r"
  by (auto simp: match_item_def Let_def)

lemma manual_match_step: "manual_match E i c s = Inr (r, s') \<Longrightarrow> row_step s s'"
  by (auto simp: manual_match_def bindE_Inr_iff Let_def split: if_splits intro!: put_row_step)

lemma match_items_step:
  "match_items xs E rs s = Inr (n, s') \<Longrightarrow> distinct (map ri_id rs) \<Longrightarrow> \<forall>r\<in>set rs. find_item (ri_id r) s = Some r \<Longrightarrow> row_step s s'"
proof (induction rs arbitrary: n s)
  case (Cons r rs)
  then obtain m k where rest: "match_items xs E rs (put_item (match_item E m r) s) = Inr (k, s')"
    by (auto simp: bindE_Inr_iff)
  have "row_step s (put_item (match_item E m r) s)" using Cons.prems(3) by (intro put_row_step [of "ri_id r" _ r]) auto
  moreover have "\<forall>x\<in>set rs. find_item (ri_id x) (put_item (match_item E m r) s) = Some x"
    using Cons.prems(2,3) by (auto simp: find_item_put image_iff)
  ultimately show ?case using Cons.IH [OF rest] Cons.prems(2) row_step_trans by auto
qed simp

text \<open>The row an import inserts: pending, unmatched, without a transaction.\<close>

definition new_item :: "recon_item \<Rightarrow> bool" where
  "new_item r \<longleftrightarrow> ri_settled_transaction r = None \<and> ri_status r = ''pending'' \<and> ri_match_method r = ''unmatched''"

lemma insert_items_step:
  assumes "insert_items rs s = Inr s'" "\<forall>r\<in>set rs. new_item r" shows "row_step s s'"
proof -
  have s': "s' = s\<lparr>recon_items := recon_items s @ rs\<rparr>" using assms(1) by (auto simp: insert_items_def Let_def split: if_splits)
  have k: "keeps_books s s'" by (rule keeps_cong) (simp_all add: s')
  have "find_item i s' = (case find_item i s of None \<Rightarrow> find_first (\<lambda>r. ri_id r = i) rs | Some r \<Rightarrow> Some r)" for i
    by (simp add: s' find_item_def)
  then show ?thesis using k assms(2) by (auto simp: row_step_def new_item_def dest!: find_first_SomeD)
qed

section \<open>Runs\<close>

text \<open>
  What the other writers do between two attempts: steps of the books, changes of the other tables,
  marks, matches and imports. A mark may come at any moment, as the code puts it in a transaction of
  its own after the locks of the attempt are gone.
\<close>

inductive quiet_step :: "'a recon_db_scheme \<Rightarrow> 'a recon_db_scheme \<Rightarrow> bool" where
  quiet_books: "ledger_step s s' \<Longrightarrow> quiet_step s s'"
| quiet_tables: "accounts s' = accounts s \<Longrightarrow> transactions s' = transactions s \<Longrightarrow> entries s' = entries s
    \<Longrightarrow> balance_cache s' = balance_cache s \<Longrightarrow> recon_items s' = recon_items s \<Longrightarrow> quiet_step s s'"
| quiet_sweep_retryable: "sweep_mark_retryable (E :: recon_env) i c s = Inr s' \<Longrightarrow> quiet_step s s'"
| quiet_sweep_failed: "sweep_mark_failed (E :: recon_env) i c s = Inr s' \<Longrightarrow> quiet_step s s'"
| quiet_retry_retryable: "retry_mark_retryable (E :: recon_env) i c s = Inr s' \<Longrightarrow> quiet_step s s'"
| quiet_retry_failed: "retry_mark_failed (E :: recon_env) i c s = Inr s' \<Longrightarrow> quiet_step s s'"
| quiet_manual: "manual_match (E :: recon_env) i c s = Inr (r, s') \<Longrightarrow> quiet_step s s'"
| quiet_match: "match_items xs (E :: recon_env) rs s = Inr (n, s') \<Longrightarrow> distinct (map ri_id rs)
    \<Longrightarrow> \<forall>r\<in>set rs. find_item (ri_id r) s = Some r \<Longrightarrow> quiet_step s s'"
| quiet_import: "insert_items rs s = Inr s' \<Longrightarrow> \<forall>r\<in>set rs. new_item r \<Longrightarrow> quiet_step s s'"

text \<open>An attempt is labelled with its item and the capture calls it issued; one that rolls back leaves the database as it was.\<close>

inductive recon_step :: "'a recon_db_scheme \<Rightarrow> (string \<times> capture_call list) option \<Rightarrow> 'a recon_db_scheme \<Rightarrow> bool" where
  step_quiet: "quiet_step s s' \<Longrightarrow> recon_step s None s'"
| step_sweep: "process_item (E :: recon_env) i s = (Inr s', calls) \<Longrightarrow> recon_step s (Some (i, calls)) s'"
| step_sweep_aborted: "process_item (E :: recon_env) i s = (Inl e, calls) \<Longrightarrow> recon_step s (Some (i, calls)) s"
| step_retry: "retry_attempt (E :: recon_env) i s = (Inr (x, s'), calls) \<Longrightarrow> recon_step s (Some (i, calls)) s'"
| step_retry_aborted: "retry_attempt (E :: recon_env) i s = (Inl e, calls) \<Longrightarrow> recon_step s (Some (i, calls)) s"

inductive recon_run :: "'a recon_db_scheme \<Rightarrow> (string \<times> capture_call list) list \<Rightarrow> 'a recon_db_scheme \<Rightarrow> bool" where
  run_start: "recon_run s [] s"
| run_next: "recon_step s l s1 \<Longrightarrow> recon_run s1 tr s2 \<Longrightarrow> recon_run s ((case l of None \<Rightarrow> [] | Some x \<Rightarrow> [x]) @ tr) s2"

inductive_cases quiet_stepE: "quiet_step s s'"
inductive_cases recon_stepE: "recon_step s l s'"

definition issued :: "(string \<times> capture_call list) list \<Rightarrow> capture_call list" where "issued tr = concat (map snd tr)"

lemma ledger_step_keeps: "ledger_step s s' \<Longrightarrow> keeps_books s s'"
  using ledger_step_ok step_key_stable by (fastforce simp: keeps_books_def ledger_ok_def)

lemma quiet_step_row: "quiet_step s s' \<Longrightarrow> row_step s s'"
proof (induction rule: quiet_step.induct)
  case (quiet_books s s')
  show ?case
  proof (rule row_step_sound)
    assume "ledger_ok s"
    then have "ledger.more s' = ledger.more s" using ledger_step_tables [OF quiet_books] by (simp add: ledger_ok_def)
    then show "row_step s s'" using ledger_step_keeps [OF quiet_books] row_step_same same_settlement_tables(3) by blast
  qed
next
  case quiet_tables
  then show ?case by (intro row_step_same keeps_cong) simp_all
qed (auto intro: marks_step manual_match_step match_items_step insert_items_step)

lemma recon_step_row: "recon_step s l s' \<Longrightarrow> row_step s s'"
  by (induction rule: recon_step.induct) (auto intro: quiet_step_row process_item_step retry_attempt_step)

lemma recon_run_row: "recon_run s tr s' \<Longrightarrow> row_step s s'"
  by (induction rule: recon_run.induct) (auto intro: recon_step_row row_step_trans)

lemma recon_run_inv: "recon_run s tr s' \<Longrightarrow> items_inv s \<Longrightarrow> items_inv s'"
  using recon_run_row row_stepD by blast

lemma step_blocked:
  assumes st: "recon_step s (Some (i, calls)) s'" and inv: "items_inv s" and r: "find_item i s = Some r" "key_held s r"
  shows "calls = []"
  using st
proof (cases rule: recon_step.cases)
qed (use inv r process_item_blocked retry_attempt_blocked in \<open>fastforce simp: items_inv_def\<close>)+

text \<open>An item that carries a transaction keeps it, and no attempt on it reaches the acquirer's capture again.\<close>

definition settled_with :: "'a recon_db_scheme \<Rightarrow> string \<Rightarrow> string \<Rightarrow> bool" where
  "settled_with s i tid \<longleftrightarrow> (\<exists>r. find_item i s = Some r \<and> ri_settled_transaction r = Some tid)"

lemma settled_with_step:
  assumes st: "row_step s s'" and inv: "items_inv s" and w: "settled_with s i tid"
  shows "settled_with s' i tid"
proof -
  obtain r where r: "find_item i s = Some r" "ri_settled_transaction r = Some tid" using w by (auto simp: settled_with_def)
  then obtain key where key: "ledger_key ''settle'' (ri_batch r) (ri_id r) = Inr key" "holds_key key tid s"
    using items_invD [OF inv r] r(2) by (auto simp: key_held_def)
  have ok: "ledger_ok s" using inv by (simp add: items_inv_def)
  have h: "holds_key key tid s'" using keeps_booksD [OF row_step_keeps [OF st] ok] key(2) by blast
  obtain r' where r': "find_item i s' = Some r'" "ri_id r' = ri_id r" "ri_batch r' = ri_batch r"
    "ri_settled_transaction r' = ri_settled_transaction r \<or> key_held s' r'"
    using row_step_rowD [OF st ok r(1)] by blast
  then have "ri_settled_transaction r' = Some tid" using r(2) key(1) h by (auto simp: key_held_def holds_key_def)
  then show ?thesis using r'(1) by (simp add: settled_with_def)
qed

lemma settled_never_captured:
  assumes "recon_run s tr s'" "items_inv s" "settled_with s i tid"
  shows "settled_with s' i tid \<and> (\<forall>calls. (i, calls) \<in> set tr \<longrightarrow> calls = [])"
  using assms
proof (induction rule: recon_run.induct)
  case (run_next s l s1 tr s2)
  have st: "row_step s s1" using recon_step_row [OF run_next.hyps(1)] .
  have inv: "items_inv s1" using row_stepD [OF st run_next.prems(1)] .
  have w: "settled_with s1 i tid" using settled_with_step [OF st run_next.prems] .
  obtain r where r: "find_item i s = Some r" "ri_settled_transaction r = Some tid" using run_next.prems(2) by (auto simp: settled_with_def)
  have "key_held s r" using items_invD [OF run_next.prems(1) r] .
  then have "calls = []" if "l = Some (i, calls)" for calls
    using step_blocked [of s i calls s1 r] run_next.hyps(1) run_next.prems(1) r(1) that by simp
  then show ?case using run_next.IH [OF inv w] by (auto split: option.splits)
qed simp

section \<open>The operations are runs\<close>

lemma run_trans: "recon_run s tr s1 \<Longrightarrow> recon_run s1 tr' s2 \<Longrightarrow> recon_run s (tr @ tr') s2"
proof (induction rule: recon_run.induct)
  case (run_next s l s1 tr s2)
  show ?case using recon_run.run_next [OF run_next.hyps(1) run_next.IH [OF run_next.prems]] by simp
qed simp

lemma run_one: "recon_step s l s' \<Longrightarrow> recon_run s (case l of None \<Rightarrow> [] | Some x \<Rightarrow> [x]) s'"
  using run_next [OF _ run_start] by fastforce

lemma run_quiet: "quiet_step s s' \<Longrightarrow> recon_run s [] s'" using run_one [OF step_quiet] by fastforce

text \<open>What a composed operation did: a run that issued exactly these calls.\<close>

definition runs_to :: "'a recon_db_scheme \<Rightarrow> 'a recon_db_scheme \<Rightarrow> capture_call list \<Rightarrow> bool" where
  "runs_to s s' calls \<longleftrightarrow> (\<exists>tr. recon_run s tr s' \<and> issued tr = calls)"

lemma runs_to_refl [simp]: "runs_to s s []" using run_start by (fastforce simp: runs_to_def issued_def)

lemma runs_to_trans: "runs_to s s1 c1 \<Longrightarrow> runs_to s1 s2 c2 \<Longrightarrow> runs_to s s2 (c1 @ c2)"
  unfolding runs_to_def issued_def using run_trans by fastforce

lemma runs_to_quiet: "quiet_step s s' \<Longrightarrow> runs_to s s' []" using run_quiet by (fastforce simp: runs_to_def issued_def)

lemma runs_to_step: "recon_step s (Some (i, calls)) s' \<Longrightarrow> runs_to s s' calls"
  using run_one by (fastforce simp: runs_to_def issued_def)

lemma reconcile_one_ran:
  assumes "reconcile_one (E :: recon_env) r p s = (out, calls)"
  shows "case out of Inl e \<Rightarrow> runs_to s s calls | Inr (p', s') \<Rightarrow> runs_to s s' calls"
proof -
  obtain x c where x: "process_item E (ri_id r) s = (x, c)" by (cases "process_item E (ri_id r) s")
  have c: "c = calls" using assms x by (auto simp: reconcile_one_def split: sum.splits)
  show ?thesis
  proof (cases x)
    case (Inr s1)
    then show ?thesis using assms x runs_to_step [OF step_sweep] by (auto simp: reconcile_one_def)
  next
    case (Inl e)
    then have ab: "runs_to s s calls" using x c runs_to_step [OF step_sweep_aborted] by simp
    have "runs_to s s' []" if "quiet_step s s'" for s' using runs_to_quiet [OF that] .
    then have q: "runs_to s s' calls" if "quiet_step s s'" for s' using runs_to_trans [OF ab] that by fastforce
    show ?thesis using assms x Inl ab
      by (auto simp: reconcile_one_def mapE_def split: sum.splits if_splits
          intro!: q intro: quiet_sweep_retryable [of E] quiet_sweep_failed [of E])
  qed
qed

lemma reconcile_items_ran:
  "reconcile_items (E :: recon_env) F k rs p s = (out, s', calls) \<Longrightarrow> runs_to s s' calls"
proof (induction rs arbitrary: k p s out s' calls)
  case (Cons r rs)
  obtain x c where x: "reconcile_one (F k) r p s = (x, c)" by (cases "reconcile_one (F k) r p s")
  note one = reconcile_one_ran [OF x]
  show ?case
  proof (cases "env_over_budget E k")
    case True
    then show ?thesis using Cons.prems by simp
  next
    case False
    show ?thesis
    proof (cases x)
      case (Inl e)
      then show ?thesis using Cons.prems False x one by simp
    next
      case (Inr y)
      obtain p1 s1 where y: "y = (p1, s1)" by (cases y)
      obtain out2 s2 c2 where rest: "reconcile_items E F (Suc k) rs p1 s1 = (out2, s2, c2)" by (cases "reconcile_items E F (Suc k) rs p1 s1")
      then have "s' = s2" "calls = c @ c2" using Cons.prems False x Inr y by simp_all
      then show ?thesis using runs_to_trans one Inr y Cons.IH [OF rest] by simp
    qed
  qed
qed simp

lemma same_books_quiet: assumes "same_books s s'" shows "quiet_step s s'"
proof -
  have "recon_items s' = recon_items s" using assms by (intro same_settlement_tables) (simp add: same_books_def)
  then show ?thesis using assms by (intro quiet_tables) (simp_all add: same_books_def)
qed

lemma publish_tables: "publish E ty b m cid ca l s = Inr (i, s') \<Longrightarrow> quiet_step s s'"
  by (rule same_books_quiet) (rule publish_same(1))

lemma publish_chunks_ran: "publish_chunks E run b p i n css s = Inr s' \<Longrightarrow> runs_to s s' []"
proof (induction css arbitrary: i s)
  case (Cons c css)
  then obtain j s1 where "publish (books_env E) ''settlement.completed'' (completion_event E run b p c i n) None (rr_id run) None (sb_livemode b) s = Inr (j, s1)"
    and rest: "publish_chunks E run b p (Suc i) n css s1 = Inr s'"
    by (auto simp: bindE_Inr_iff)
  then show ?case using runs_to_trans [OF runs_to_quiet [OF publish_tables]] Cons.IH [OF rest] by fastforce
qed simp

lemma publish_completion_ran: "publish_completion E run p s = Inr s' \<Longrightarrow> runs_to s s' []"
  by (auto simp: publish_completion_def bindE_Inr_iff mapE_def Let_def split: if_splits sum.splits
      intro: publish_chunks_ran runs_to_quiet [OF publish_tables])

lemma start_run_frame:
  assumes "start_run E b t s = Inr (run, s')" shows "quiet_step s s'" "recon_items s' = recon_items s" "rr_batch run = b"
proof -
  obtain i s1 where m: "mint (books_env E) ''rr'' s = Inr (i, s1)" and s': "s' = s1\<lparr>recon_runs := recon_runs s1 @ [run]\<rparr>"
    and b: "rr_batch run = b"
    using assms by (auto simp: start_run_def bindE_Inr_iff Let_def split: if_splits)
  have sb: "same_books s s1" using mint_same [OF m] by blast
  then have "recon_items s1 = recon_items s" by (intro same_settlement_tables) (simp add: same_books_def)
  then show "quiet_step s s'" "recon_items s' = recon_items s" "rr_batch run = b"
    using sb b by (simp_all add: s' same_books_def quiet_tables)
qed

lemma finish_pass_quiet: "finish_pass E b i p s = Inr (run, s') \<Longrightarrow> quiet_step s s'"
  by (auto simp: finish_pass_def bindE_Inr_iff finish_run_def mark_reconciled_def put_batch_def Let_def split: option.splits intro!: quiet_tables)

lemma reconcile_batch_ran:
  assumes r: "reconcile_batch (E :: recon_env) F b trigger n s = (out, s', calls)" shows "runs_to s s' calls"
proof (cases "start_run E b trigger s")
  case (Inl e)
  then show ?thesis using r by (simp add: reconcile_batch_def)
next
  case (Inr st)
  obtain run s1 where st: "st = (run, s1)" by (cases st)
  let ?items = "list_for_settlement b RETRYABLE_STATUSES n s1"
  obtain x s2 c where pass: "reconcile_items E F 0 ?items (empty_stats\<lparr>ps_total := length ?items\<rparr>) s1 = (x, s2, c)"
    by (cases "reconcile_items E F 0 ?items (empty_stats\<lparr>ps_total := length ?items\<rparr>) s1")
  have to2: "runs_to s s2 c"
    using runs_to_trans [OF runs_to_quiet [OF start_run_frame(1)] reconcile_items_ran [OF pass]] Inr st by fastforce
  show ?thesis
  proof (cases x)
    case (Inl e)
    then show ?thesis using r Inr st pass to2 by (simp add: reconcile_batch_def Let_def)
  next
    case (Inr p)
    show ?thesis
    proof (cases "finish_pass E b (rr_id run) p s2")
      case (Inl e)
      then show ?thesis using r \<open>start_run E b trigger s = Inr st\<close> st pass Inr to2 by (simp add: reconcile_batch_def Let_def)
    next
      case fin: (Inr f)
      obtain run1 s3 where f: "f = (run1, s3)" by (cases f)
      have to3: "runs_to s s3 c" using runs_to_trans [OF to2 runs_to_quiet [OF finish_pass_quiet]] fin f by fastforce
      show ?thesis
      proof (cases "publish_completion E run1 p s3")
        case (Inl e)
        then show ?thesis using r \<open>start_run E b trigger s = Inr st\<close> st pass Inr fin f to3 by (simp add: reconcile_batch_def Let_def)
      next
        case pub: (Inr s4)
        have "runs_to s s4 c" using runs_to_trans [OF to3 publish_completion_ran [OF pub]] by simp
        then show ?thesis using r \<open>start_run E b trigger s = Inr st\<close> st pass Inr fin f pub by (simp add: reconcile_batch_def Let_def)
      qed
    qed
  qed
qed

lemma retry_outcome_quiet: "retry_outcome (E :: recon_env) i e s = Inr s' \<Longrightarrow> quiet_step s s'"
  by (auto simp: retry_outcome_def split: if_splits intro: quiet_retry_retryable quiet_retry_failed)

lemma retry_item_ran:
  assumes r: "retry_item (E :: recon_env) i s = (out, s', calls)" shows "runs_to s s' calls"
proof -
  obtain x c where x: "retry_attempt E i s = (x, c)" by (cases "retry_attempt E i s")
  show ?thesis
  proof (cases x)
    case (Inr y)
    then show ?thesis using r x runs_to_step [OF step_retry] by (cases y) (auto simp: retry_item_def)
  next
    case (Inl e)
    then have ab: "runs_to s s c" using x runs_to_step [OF step_retry_aborted] by simp
    show ?thesis using r x Inl ab runs_to_trans [OF ab runs_to_quiet [OF retry_outcome_quiet]]
      by (auto simp: retry_item_def split: sum.splits)
  qed
qed

lemma drain_items_ran: "drain_items F k is n s = (out, s', calls) \<Longrightarrow> runs_to s s' calls"
  for F :: "nat \<Rightarrow> recon_env"
proof (induction "is" arbitrary: k n s out s' calls)
  case (Cons i "is")
  obtain x s1 c where x: "retry_item (F k) i s = (x, s1, c)" by (cases "retry_item (F k) i s")
  note one = retry_item_ran [OF x]
  show ?case
  proof (cases x)
    case (Inl e)
    then show ?thesis using Cons.prems x one by simp
  next
    case (Inr y)
    obtain out2 s2 c2 where rest: "drain_items F (Suc k) is (if y = None then n else Suc n) s1 = (out2, s2, c2)"
      by (cases "drain_items F (Suc k) is (if y = None then n else Suc n) s1")
    then have "s' = s2" "calls = c @ c2" using Cons.prems x Inr by simp_all
    then show ?thesis using runs_to_trans [OF one] Cons.IH [OF rest] by simp
  qed
qed simp

lemma retry_drain_job_ran: "retry_drain_job (E :: recon_env) F s = (out, s', calls) \<Longrightarrow> runs_to s s' calls"
  by (auto simp: retry_drain_job_def drain_def split: if_splits intro: drain_items_ran)

lemma sweep_batches_ran: "sweep_batches G F bs n s = (out, s', calls) \<Longrightarrow> runs_to s s' calls"
  for G :: "string \<Rightarrow> recon_env"
proof (induction bs arbitrary: n s out s' calls)
  case (Cons b bs)
  obtain x s1 c where x: "reconcile_batch (G b) (F b) b ''scheduled'' (env_max_items (G b)) s = (x, s1, c)"
    by (cases "reconcile_batch (G b) (F b) b ''scheduled'' (env_max_items (G b)) s")
  note one = reconcile_batch_ran [OF x]
  have go: "runs_to s s' calls" if "sweep_batches G F bs m s1 = (out2, s', c2)" "calls = c @ c2" for m out2 c2
    using runs_to_trans [OF one Cons.IH [OF that(1)]] that(2) by simp
  show ?case
  proof (cases x)
    case (Inl e)
    then show ?thesis using Cons.prems x one go by (auto split: if_splits prod.splits)
  next
    case (Inr run)
    then show ?thesis using Cons.prems x go by (auto split: prod.splits)
  qed
qed simp

lemma sweep_job_ran: "reconciliation_sweep_job G F s = (out, s', calls) \<Longrightarrow> runs_to s s' calls"
  for G :: "string \<Rightarrow> recon_env"
  unfolding reconciliation_sweep_job_def by (rule sweep_batches_ran)

end
