(* ===== verification/Recon_Pass.thy ===== *)
theory Recon_Pass
  imports Recon_Inv
begin

text \<open>
  What one pass, one retry and the backlog report. The counters of a pass count the items it
  visited, its totals are those of the items it settled, its events carry the settled charges once
  each; a failed retry leaves the books alone and routes the item by the class of the error; the
  totals of the backlog are those of the items behind it.
\<close>

section \<open>Slices\<close>

lemma concat_slices: "0 < n \<Longrightarrow> concat (slices n xs) = xs"
  by (induction n xs rule: slices.induct) (auto simp: take_Cons')

lemma slices_bounded: "c \<in> set (slices n xs) \<Longrightarrow> c \<noteq> [] \<and> length c \<le> n"
  by (induction n xs rule: slices.induct) (auto split: if_splits)

lemma chunk_spec:
  assumes "0 < n" shows "concat (chunk xs n) = xs" "chunk xs n \<noteq> []" "\<forall>c\<in>set (chunk xs n). length c \<le> n"
proof -
  show "concat (chunk xs n) = xs" by (simp add: chunk_def concat_slices [OF assms])
  show "chunk xs n \<noteq> []" using assms by (cases xs) (simp_all add: chunk_def)
  show "\<forall>c\<in>set (chunk xs n). length c \<le> n" using slices_bounded [of _ n xs] by (auto simp: chunk_def)
qed

section \<open>The counters of a pass\<close>

text \<open>From the counters \<^term>\<open>p\<close> to \<^term>\<open>p'\<close> by visiting \<^term>\<open>m\<close> items of which those of \<^term>\<open>paid\<close> were settled.\<close>

definition advanced :: "pass_stats \<Rightarrow> recon_item list \<Rightarrow> nat \<Rightarrow> pass_stats \<Rightarrow> bool" where
  "advanced p paid m p' \<longleftrightarrow> ps_settled p' = ps_settled p + length paid \<and> ps_settled p' + ps_failed p' = ps_settled p + ps_failed p + m
     \<and> ps_posted p' = ps_posted p + sum_list (map ri_net_minor paid) \<and> ps_fee p' = ps_fee p + sum_list (map ri_fee_minor paid)
     \<and> ps_net p' = ps_net p + sum_list (map ri_net_minor paid)
     \<and> ps_charges p' = ps_charges p @ List.map_filter ri_charge paid"

lemma advanced_refl [simp]: "advanced p [] 0 p" by (simp add: advanced_def)

lemma advanced_settled: "advanced p [r] 1 (count_settled r p)"
  by (simp add: advanced_def count_settled_def List.map_filter_def split: option.splits)

lemma advanced_failed: "advanced p [] 1 (count_failed b p)" by (simp add: advanced_def count_failed_def)

lemma advanced_trans: "advanced p a m p1 \<Longrightarrow> advanced p1 b n p2 \<Longrightarrow> advanced p (a @ b) (m + n) p2"
  by (auto simp: advanced_def List.map_filter_def)

lemma advanced_total [simp]: "advanced p a m (p'\<lparr>ps_total := t\<rparr>) = advanced p a m p'" by (simp add: advanced_def)

lemma reconcile_one_advanced:
  assumes "reconcile_one E r p s = (Inr (p', s'), calls)"
  shows "ps_total p' = ps_total p" "advanced p [r] 1 p' \<or> advanced p [] 1 p'"
proof -
  have "p' = count_settled r p \<or> (\<exists>b. p' = count_failed b p)"
    using assms by (auto simp: reconcile_one_def mapE_def split: sum.splits if_splits prod.splits)
  then show "ps_total p' = ps_total p" "advanced p [r] 1 p' \<or> advanced p [] 1 p'"
    using advanced_settled advanced_failed by (auto simp: count_settled_def count_failed_def)
qed

lemma reconcile_items_advanced:
  assumes "reconcile_items E F k rs p s = (Inr p', s', calls)"
  shows "\<exists>m paid. m \<le> length rs \<and> advanced p paid m p' \<and> set paid \<subseteq> set (take m rs)
    \<and> (if m = length rs then ps_total p' = ps_total p else env_over_budget E (k + m) \<and> ps_total p' = ps_settled p' + ps_failed p')"
  using assms
proof (induction rs arbitrary: k p s p' s' calls)
  case (Cons r rs)
  show ?case
  proof (cases "env_over_budget E k")
    case True
    then show ?thesis using Cons.prems by (intro exI [of _ 0] exI [of _ "[]"]) auto
  next
    case False
    then obtain p1 s1 c c2 where one: "reconcile_one (F k) r p s = (Inr (p1, s1), c)"
      and rest: "reconcile_items E F (Suc k) rs p1 s1 = (Inr p', s', c2)"
      using Cons.prems by (auto split: prod.splits sum.splits)
    obtain m paid where m: "m \<le> length rs" "advanced p1 paid m p'" "set paid \<subseteq> set (take m rs)"
      "if m = length rs then ps_total p' = ps_total p1 else env_over_budget E (Suc k + m) \<and> ps_total p' = ps_settled p' + ps_failed p'"
      using Cons.IH [OF rest] by blast
    obtain a where a: "advanced p a 1 p1" "set a \<subseteq> {r}" using reconcile_one_advanced(2) [OF one] by fastforce
    show ?thesis
      using m a advanced_trans [OF a(1) m(2)] reconcile_one_advanced(1) [OF one]
      by (intro exI [of _ "Suc m"] exI [of _ "a @ paid"]) (auto split: if_splits)
  qed
qed auto

lemma finish_pass_spec:
  assumes "finish_pass E b i p s = Inr (run, s')"
  shows "rr_items_total run = ps_total p" "rr_items_settled run = ps_settled p" "rr_items_failed run = ps_failed p"
    "rr_status run = stats_status p" "recon_items s' = recon_items s"
    "\<exists>x. find_batch b s' = Some x \<and> sb_posted_total_minor x = ps_posted p
       \<and> sb_status x = (if ps_failed p = 0 then ''reconciled'' else ''partially_reconciled'')"
    "\<exists>r. find_run i s = Some r \<and> rr_batch run = rr_batch r"
proof -
  obtain r y z where r: "find_run i s = Some r"
    and run: "run = r\<lparr>rr_items_total := ps_total p, rr_items_settled := ps_settled p, rr_items_failed := ps_failed p,
        rr_status := stats_status p, rr_error_summary := error_summary (ps_failed p), rr_finished_at := Some (env_wall E)\<rparr>"
    and y: "find_batch b s = Some y" and z: "z = y\<lparr>sb_posted_total_minor := ps_posted p,
        sb_status := if ps_failed p = 0 then ''reconciled'' else ''partially_reconciled'',
        sb_reconciled_at := if ps_failed p = 0 then Some (env_now E) else sb_reconciled_at y\<rparr>"
    and s': "s' = put_batch z (s\<lparr>recon_runs := update_where (\<lambda>x. rr_id x = i) (\<lambda>_. run) (recon_runs s)\<rparr>)"
    using assms
    by (auto simp: finish_pass_def bindE_Inr_iff finish_run_def mark_reconciled_def get_batch_or_raise_def Let_def find_batch_def
        split: option.splits)
  show "rr_items_total run = ps_total p" "rr_items_settled run = ps_settled p" "rr_items_failed run = ps_failed p"
    "rr_status run = stats_status p" "recon_items s' = recon_items s" "\<exists>r. find_run i s = Some r \<and> rr_batch run = rr_batch r"
    using r by (simp_all add: run s' put_batch_def)
  have id: "sb_id y = b" "sb_id z = b" using y by (auto simp: find_batch_def z dest: find_first_SomeD)
  have "find_first (\<lambda>x. sb_id x = b) (update_where (\<lambda>x. sb_id x = b) (\<lambda>_. z) xs) = map_option (\<lambda>_. z) (find_first (\<lambda>x. sb_id x = b) xs)" for xs
    using id by (induction xs) (auto simp: update_where_def)
  then have "find_batch b s' = Some z" using y id by (simp add: s' put_batch_def find_batch_def)
  then show "\<exists>x. find_batch b s' = Some x \<and> sb_posted_total_minor x = ps_posted p
       \<and> sb_status x = (if ps_failed p = 0 then ''reconciled'' else ''partially_reconciled'')"
    by (simp add: z)
qed

text \<open>A pass that finishes: its run, its batch and the items it settled.\<close>

lemma reconcile_batch_spec:
  assumes r: "reconcile_batch E F b trigger n s = (Inr run, s', calls)"
  obtains p paid m where "advanced empty_stats paid m p" "set paid \<subseteq> set (list_for_settlement b RETRYABLE_STATUSES n s)"
    "rr_items_total run = ps_settled p + ps_failed p" "rr_items_settled run = ps_settled p" "rr_items_failed run = ps_failed p"
    "rr_status run = stats_status p"
    "\<exists>x. find_batch b s' = Some x \<and> sb_posted_total_minor x = ps_posted p
       \<and> sb_status x = (if ps_failed p = 0 then ''reconciled'' else ''partially_reconciled'')"
proof -
  obtain run0 s1 where st: "start_run E b trigger s = Inr (run0, s1)" using r by (auto simp: reconcile_batch_def split: sum.splits)
  let ?items = "list_for_settlement b RETRYABLE_STATUSES n s1"
  obtain p s2 c where pass: "reconcile_items E F 0 ?items (empty_stats\<lparr>ps_total := length ?items\<rparr>) s1 = (Inr p, s2, c)"
    using r st by (auto simp: reconcile_batch_def Let_def split: sum.splits prod.splits)
  obtain s3 where fin: "finish_pass E b (rr_id run0) p s2 = Inr (run, s3)" and pub: "publish_completion E run p s3 = Inr s'"
    using r st pass by (auto simp: reconcile_batch_def Let_def split: sum.splits prod.splits)
  obtain m paid where m: "m \<le> length ?items" "advanced (empty_stats\<lparr>ps_total := length ?items\<rparr>) paid m p" "set paid \<subseteq> set (take m ?items)"
    "if m = length ?items then ps_total p = ps_total (empty_stats\<lparr>ps_total := length ?items\<rparr>)
     else env_over_budget E (0 + m) \<and> ps_total p = ps_settled p + ps_failed p"
    using reconcile_items_advanced [OF pass] by blast
  have adv: "advanced empty_stats paid m p" using m(2) by (simp add: advanced_def)
  have total: "ps_total p = ps_settled p + ps_failed p" using m(4) adv by (auto simp: advanced_def empty_stats_def split: if_splits)
  have same: "settlement_batches s' = settlement_batches s3"
  proof -
    have chunks: "publish_chunks E run y p i k css t = Inr t' \<Longrightarrow> settlement_batches t' = settlement_batches t" for y i k css t t'
    proof (induction css arbitrary: i t)
      case (Cons c css)
      then obtain j t1 where a: "publish (books_env E) ''settlement.completed'' (completion_event E run y p c i k) None (rr_id run) None (sb_livemode y) t = Inr (j, t1)"
        and rest: "publish_chunks E run y p (Suc i) k css t1 = Inr t'"
        by (auto simp: bindE_Inr_iff)
      have "ledger.more t1 = ledger.more t" using publish_same(1) [OF a] by (simp add: same_books_def)
      then show ?case using Cons.IH [OF rest] same_settlement_tables(2) by metis
    qed simp
    show ?thesis using pub
      by (auto simp: publish_completion_def bindE_Inr_iff mapE_def Let_def split: if_splits sum.splits dest!: publish_same(1) chunks)
         (auto simp: same_books_def intro: same_settlement_tables)
  qed
  have "find_batch b s' = find_batch b s3" by (simp add: find_batch_def same)
  moreover have sub: "set paid \<subseteq> set (list_for_settlement b RETRYABLE_STATUSES n s)"
    using m(3) set_take_subset [of m ?items] start_run_frame(2) [OF st] by (auto simp: list_for_settlement_def)
  ultimately show thesis by (intro that [OF adv sub]) (use finish_pass_spec [OF fin] total in simp_all)
qed

text \<open>What remains when the pass stops is not looked at: without a failure the batch is reconciled and leaves the sweep.\<close>

lemma reconciled_leaves_sweep:
  assumes "find_batch b s = Some x" "sb_status x = ''reconciled''" "distinct (map sb_id (settlement_batches s))"
  shows "b \<notin> set (map sb_id (list_by_status RECONCILABLE_BATCH_STATUSES s))"
proof
  assume "b \<in> set (map sb_id (list_by_status RECONCILABLE_BATCH_STATUSES s))"
  then obtain y where y: "y \<in> set (settlement_batches s)" "sb_id y = b" "sb_status y \<in> {''closed'', ''partially_reconciled''}"
    by (auto simp: list_by_status_def RECONCILABLE_BATCH_STATUSES_def)
  have x: "x \<in> set (settlement_batches s)" "sb_id x = b" using assms(1) by (auto simp: find_batch_def dest: find_first_SomeD)
  then have "x = y" using y assms(3) by (auto simp: distinct_map inj_on_def)
  then show False using y(3) assms(2) by simp
qed

section \<open>Completion events\<close>

lemma publish_chunks_events:
  "publish_chunks E run b p i k css s = Inr s' \<Longrightarrow>
     map ev_payload (outbox s') = map ev_payload (outbox s) @ map (\<lambda>(j, c). completion_event E run b p c j k) (enumerate i css)"
proof (induction css arbitrary: i s)
  case (Cons c css)
  then obtain j s1 where a: "publish (books_env E) ''settlement.completed'' (completion_event E run b p c i k) None (rr_id run) None (sb_livemode b) s = Inr (j, s1)"
    and rest: "publish_chunks E run b p (Suc i) k css s1 = Inr s'"
    by (auto simp: bindE_Inr_iff)
  show ?case using publish_same(2) [OF a] Cons.IH [OF rest] by auto
qed simp

section \<open>A failed retry\<close>

text \<open>Where the error of an attempt leaves the item.\<close>

definition routed :: "'e recon_env_scheme \<Rightarrow> error \<Rightarrow> recon_item \<Rightarrow> recon_item \<Rightarrow> bool" where
  "routed E e r r' \<longleftrightarrow> item_line r' = item_line r \<and> ri_charge r' = ri_charge r \<and> ri_settled_transaction r' = ri_settled_transaction r
     \<and> ri_attempt_count r' = Suc (ri_attempt_count r) \<and> ri_last_attempt_at r' = Some (env_now E)
     \<and> (if caught_by e RetryableSettlementError
        then ri_status r' = ''retryable'' \<and> ri_last_error_code r' = Some (err_code e)
          \<and> env_now E + SECOND \<le> ri_next_attempt_at r' \<and> ri_next_attempt_at r' \<le> env_now E + 25920 * SECOND
        else ri_status r' = ''failed'' \<and> ri_next_attempt_at r' = ri_next_attempt_at r
          \<and> ri_last_error_code r' = Some (if caught_by e RetryExhaustedError then ''retry_exhausted'' else err_code e))"

lemma item_line_attempted [simp]: "item_line (attempted E c st r) = item_line r"
  by (simp add: item_line_def attempted_def)

lemma retry_outcome_routes:
  assumes r: "find_item i s = Some r" and e: "caught_by e PayzenoLedgerError" and b: "0 < env_backoff_base E"
  shows "\<exists>r'. retry_outcome E i e s = Inr (put_item r' s) \<and> ri_id r' = i \<and> routed E e r r'"
proof (cases "caught_by e RetryableSettlementError")
  case True
  let ?r = "attempted E (err_code e) ''retryable'' r"
  have "\<exists>d. delay_seconds (int (min (ri_attempt_count ?r) MAX_ATTEMPTS)) (env_backoff_base E) (env_jitter E) = Inr d"
    using b by (intro delay_returns) simp_all
  then obtain t where t: "next_attempt_at (env_now E) (int (min (ri_attempt_count ?r) MAX_ATTEMPTS)) (env_backoff_base E) (env_jitter E) = Inr t"
    by (auto simp: next_attempt_at_def mapE_def)
  have "retry_outcome E i e s = Inr (put_item (?r\<lparr>ri_next_attempt_at := t\<rparr>) s)"
    using True r t by (simp add: retry_outcome_def retry_mark_retryable_def Let_def get_item_or_raise_def)
  moreover have "routed E e r (?r\<lparr>ri_next_attempt_at := t\<rparr>)"
    using True next_attempt_later [OF t] by (simp add: routed_def item_line_def attempted_def)
  ultimately show ?thesis using find_itemD [OF r] by fastforce
next
  case False
  let ?r = "attempted E (if caught_by e RetryExhaustedError then ''retry_exhausted'' else err_code e) ''failed'' r"
  have "retry_outcome E i e s = Inr (put_item ?r s)"
    using False e r by (simp add: retry_outcome_def retry_mark_failed_def get_item_or_raise_def)
  moreover have "routed E e r ?r" using False by (simp add: routed_def item_line_def attempted_def)
  ultimately show ?thesis using find_itemD [OF r] by fastforce
qed

lemma retry_item_fails:
  assumes a: "retry_attempt E i s = (Inl e, calls)" and e: "caught_by e PayzenoLedgerError" and b: "0 < env_backoff_base E"
  shows "\<exists>r r'. find_item i s = Some r \<and> retry_item E i s = (Inr None, put_item r' s, calls)
    \<and> find_item i (put_item r' s) = Some r' \<and> routed E e r r'"
proof -
  obtain r where r: "find_item i s = Some r"
    using a by (cases rule: retry_attempt_cases) (auto dest: claim_itemD)
  obtain r' where r': "retry_outcome E i e s = Inr (put_item r' s)" "ri_id r' = i" "routed E e r r'"
    using retry_outcome_routes [OF r e b] by blast
  then show ?thesis using a r by (auto simp: retry_item_def find_item_put)
qed

text \<open>At the ceiling no attempt is made: the acquirer is not asked and the item fails.\<close>

lemma retry_exhausted:
  assumes "claim_item E i s = Some r" "env_max_attempts E \<le> ri_attempt_count r"
  shows "retry_attempt E i s = (raise RetryExhaustedError, [])"
  using assms by (simp add: retry_attempt_def)

section \<open>The backlog\<close>

definition in_backlog :: "string list \<Rightarrow> string option \<Rightarrow> string option \<Rightarrow> recon_item \<Rightarrow> bool" where
  "in_backlog statuses c b r \<longleftrightarrow> ri_status r \<in> set statuses \<and> (c = None \<or> c = Some (ri_currency r)) \<and> (b = None \<or> b = Some (ri_batch r))"

lemma sum_sort_key: "sum_list (map f (sort_key k xs)) = sum_list (map f xs)" for f :: "'a \<Rightarrow> 'b::comm_monoid_add"
  by (metis mset_map mset_sort sum_mset_sum_list)

lemma aggregate_totals:
  "sum_list (map br_item_count (aggregate_backlog statuses c b s)) = length (filter (in_backlog statuses c b) (recon_items s))"
  "sum_list (map br_gross_minor (aggregate_backlog statuses c b s)) = sum_list (map ri_gross_minor (filter (in_backlog statuses c b) (recon_items s)))"
proof -
  let ?rs = "filter (in_backlog statuses c b) (recon_items s)"
  have f: "filter (\<lambda>r. ri_status r \<in> set statuses \<and> (c = None \<or> c = Some (ri_currency r)) \<and> (b = None \<or> b = Some (ri_batch r))) (recon_items s) = ?rs"
    by (simp add: in_backlog_def [abs_def])
  show "sum_list (map br_item_count (aggregate_backlog statuses c b s)) = length ?rs"
    using sum_over_groups [where key = backlog_group and es = ?rs and ks = "remdups (map backlog_group ?rs)" and f = "\<lambda>_. 1::nat"]
    by (simp add: aggregate_backlog_def f Let_def sum_sort_key comp_def sum_list_triv)
  show "sum_list (map br_gross_minor (aggregate_backlog statuses c b s)) = sum_list (map ri_gross_minor ?rs)"
    using sum_over_groups [where key = backlog_group and es = ?rs and ks = "remdups (map backlog_group ?rs)" and f = ri_gross_minor]
    by (simp add: aggregate_backlog_def f Let_def sum_sort_key comp_def)
qed

lemma get_backlog_totals:
  "bl_total_items (get_backlog E c b s) = length (filter (in_backlog RETRYABLE_STATUSES c b) (recon_items s))"
  "bl_total_gross_minor (get_backlog E c b s) = sum_list (map ri_gross_minor (filter (in_backlog RETRYABLE_STATUSES c b) (recon_items s)))"
  by (simp_all add: get_backlog_def Let_def aggregate_totals)

end
