(* ===== verification/Settlements.thy ===== *)
theory Settlements
  imports Recon_Pass SettlementFile
begin

text \<open>
  \<^verbatim>\<open>src/app/services/settlements.py\<close> with the jobs \<^verbatim>\<open>src/app/workers/settlement_import.py\<close> and
  \<^verbatim>\<open>batch_close.py\<close>: a settlement file becomes a batch of items, matched and closed. The acquirer's
  answer to the download is the argument \<^verbatim>\<open>fetch\<close>. An import is up to three transactions; its result
  comes with the database after those that committed. Main results: a file imported from scratch
  gives one item per line and closes on the file's own net total, and importing it again changes
  nothing and asks nobody.
\<close>

section \<open>Batches\<close>

definition DUPLICATE_LINE_WINDOW_DAYS :: int where "DUPLICATE_LINE_WINDOW_DAYS = 7"

definition file_reference_for :: "string \<Rightarrow> date \<Rightarrow> string option \<Rightarrow> string" where
  "file_reference_for acquirer d c = (let base = acquirer @ ''-'' @ iso_date d in case c of None \<Rightarrow> base | Some x \<Rightarrow> base @ ''-'' @ x)"

definition new_batch :: "'e recon_env_scheme \<Rightarrow> string \<Rightarrow> string \<Rightarrow> string \<Rightarrow> date \<Rightarrow> string \<Rightarrow> bool \<Rightarrow> settlement_batch" where
  "new_batch E i acquirer c d reference l = \<lparr>sb_id = i, sb_currency = c, sb_processing_date = d, sb_acquirer = acquirer,
     sb_file_reference = reference, sb_expected_total_minor = 0, sb_posted_total_minor = 0, sb_funded_amount_minor = 0,
     sb_funding_event = None, sb_item_count = 0, sb_status = ''open'', sb_opened_at = env_now E, sb_closed_at = None,
     sb_reconciled_at = None, sb_funded_at = None, sb_livemode = l\<rparr>"

definition open_batch :: "'e recon_env_scheme \<Rightarrow> string \<Rightarrow> string \<Rightarrow> date \<Rightarrow> string \<Rightarrow> bool \<Rightarrow> 'a recon_db_scheme
    \<Rightarrow> (settlement_batch \<times> 'a recon_db_scheme) res" where
  "open_batch E acquirer c d reference l s = (case find_by_file acquirer reference s of
     Some b \<Rightarrow> Inr (b, s)
   | None \<Rightarrow> bindE (mint (books_env E) ''sb'' s) (\<lambda>(i, s1). let b = new_batch E i acquirer c d reference l in
       bindE (insert_batch b s1) (\<lambda>s2. Inr (b, s2))))"

definition find_imported_batch :: "string \<Rightarrow> date \<Rightarrow> string \<Rightarrow> 'a recon_db_scheme \<Rightarrow> settlement_batch option" where
  "find_imported_batch acquirer d c s =
    (let right = (\<lambda>reference. case find_by_file acquirer reference s of None \<Rightarrow> None | Some b \<Rightarrow> if sb_currency b = c then Some b else None)
     in case right (file_reference_for acquirer d (Some c)) of Some b \<Rightarrow> Some b | None \<Rightarrow> right (file_reference_for acquirer d None))"

definition closed_payload :: "settlement_batch \<Rightarrow> int \<Rightarrow> payload" where
  "closed_payload b now =
    [(''batch_id'', JStr (sb_id b)), (''acquirer'', JStr (sb_acquirer b)), (''currency'', JStr (sb_currency b)),
     (''processing_date'', JStr (iso_date (sb_processing_date b))), (''item_count'', JInt (sb_item_count b)),
     (''expected_total_minor'', JInt (sb_expected_total_minor b)), (''closed_at'', JTime now)]"

definition close_batch :: "'e recon_env_scheme \<Rightarrow> string \<Rightarrow> 'a recon_db_scheme \<Rightarrow> (settlement_batch \<times> 'a recon_db_scheme) res" where
  "close_batch E i s = (case find_batch i s of None \<Rightarrow> raise BatchNotFoundError
   | Some b \<Rightarrow> if sb_status b \<noteq> ''open'' then raise BatchNotReconcilableError
       else (let t = totals_for_batch i s;
                 b1 = b\<lparr>sb_item_count := bt_item_count t, sb_expected_total_minor := bt_net_minor t, sb_status := ''closed'',
                        sb_closed_at := Some (env_now E)\<rparr>
             in bindE (publish (books_env E) ''settlement.batch_closed'' (closed_payload b1 (env_now E)) None (sb_id b1) None (sb_livemode b1)
                        (put_batch b1 s)) (\<lambda>(_, s1). Inr (b1, s1))))"

section \<open>Items of a file\<close>

definition line_item :: "'e recon_env_scheme \<Rightarrow> string \<Rightarrow> settlement_batch \<Rightarrow> parsed_line \<Rightarrow> recon_item" where
  "line_item E i b l = \<lparr>ri_id = i, ri_batch = sb_id b, ri_charge = None, ri_merchant = None, ri_line_type = pl_line_type l,
     ri_gross_minor = pl_gross_minor l, ri_fee_minor = pl_fee_minor l, ri_interchange_minor = pl_interchange_minor l,
     ri_scheme_fee_minor = pl_scheme_fee_minor l, ri_net_minor = pl_net_minor l, ri_expected_gross_minor = None,
     ri_variance_minor = 0, ri_currency = pl_currency l, ri_acquirer = sb_acquirer b,
     ri_acquirer_reference = pl_acquirer_reference l, ri_network_reference = pl_network_reference l,
     ri_match_method = ''unmatched'', ri_matched_at = None, ri_status = ''pending'', ri_attempt_count = 0,
     ri_last_error_code = None, ri_last_attempt_at = None, ri_next_attempt_at = env_now E, ri_settled_transaction = None,
     ri_livemode = sb_livemode b, ri_created_at = env_wall E\<rparr>"

fun build_items :: "'e recon_env_scheme \<Rightarrow> settlement_batch \<Rightarrow> parsed_line list \<Rightarrow> 'a recon_db_scheme \<Rightarrow> (recon_item list \<times> 'a recon_db_scheme) res" where
  "build_items E b [] s = Inr ([], s)"
| "build_items E b (l # ls) s = bindE (mint (books_env E) ''ri'' s) (\<lambda>(i, s1).
     bindE (build_items E b ls s1) (\<lambda>(rs, s2). Inr (line_item E i b l # rs, s2)))"

definition add_items :: "match_strategy list \<Rightarrow> 'e recon_env_scheme \<Rightarrow> recon_item list \<Rightarrow> 'a recon_db_scheme \<Rightarrow> (nat \<times> 'a recon_db_scheme) res" where
  "add_items strategies E rs s = bindE (insert_items rs s) (\<lambda>s1. match_items strategies E rs s1)"

text \<open>The transaction that opens the batch and adds the lines it does not have; \<^verbatim>\<open>False\<close> when the batch is no longer open.\<close>

definition unfiled_lines :: "string \<Rightarrow> string option \<Rightarrow> date \<Rightarrow> settlement_batch \<Rightarrow> parsed_line list \<Rightarrow> 'a recon_db_scheme \<Rightarrow> parsed_line list" where
  "unfiled_lines acquirer c d b parsed s =
    (let new_lines = filter (\<lambda>l. pl_acquirer_reference l \<notin> acquirer_references_for_batch (sb_id b) s) parsed in
     case c of None \<Rightarrow> new_lines
     | Some x \<Rightarrow> let filed = acquirer_references_already_filed acquirer x d DUPLICATE_LINE_WINDOW_DAYS (map pl_acquirer_reference new_lines) s
                 in filter (\<lambda>l. pl_acquirer_reference l \<notin> filed) new_lines)"

definition stage_file :: "'e recon_env_scheme \<Rightarrow> string \<Rightarrow> date \<Rightarrow> string option \<Rightarrow> parsed_line list \<Rightarrow> 'a recon_db_scheme
    \<Rightarrow> (settlement_batch \<times> bool \<times> 'a recon_db_scheme) res" where
  "stage_file E acquirer d c parsed s =
     bindE (open_batch E acquirer (text_or c (case parsed of [] \<Rightarrow> ''USD'' | l # _ \<Rightarrow> pl_currency l)) d (file_reference_for acquirer d c) True s) (\<lambda>(b, s1).
     if sb_status b \<noteq> ''open'' then Inr (b, False, s1)
     else bindE (build_items E b (unfiled_lines acquirer c d b parsed s1) s1) (\<lambda>(rs, s2).
          bindE (add_items MATCH_STRATEGIES E rs s2) (\<lambda>(_, s3). Inr (b, True, s3))))"

definition in_currency :: "string option \<Rightarrow> parsed_line list \<Rightarrow> parsed_line list" where
  "in_currency c parsed = (case c of None \<Rightarrow> parsed | Some x \<Rightarrow> filter (\<lambda>l. pl_currency l = x) parsed)"

definition already_imported :: "string \<Rightarrow> date \<Rightarrow> string option \<Rightarrow> 'a recon_db_scheme \<Rightarrow> settlement_batch option" where
  "already_imported acquirer d c s = (case c of None \<Rightarrow> None
   | Some x \<Rightarrow> (case find_imported_batch acquirer d x s of None \<Rightarrow> None | Some b \<Rightarrow> if sb_status b \<noteq> ''open'' then Some b else None))"

type_synonym download = "string \<Rightarrow> date \<Rightarrow> string option \<Rightarrow> string res"

definition import_file :: "'e recon_env_scheme \<Rightarrow> download \<Rightarrow> string \<Rightarrow> date \<Rightarrow> string option \<Rightarrow> 'a recon_db_scheme
    \<Rightarrow> settlement_batch option res \<times> 'a recon_db_scheme" where
  "import_file E fetch acquirer d c s = (case already_imported acquirer d c s of
     Some b \<Rightarrow> (Inr (Some b), s)
   | None \<Rightarrow> (case bindE (fetch acquirer d c) (parse_settlement_file (env_contracts E) acquirer) of
       Inl e \<Rightarrow> (Inl e, s)
     | Inr lines \<Rightarrow> (let parsed = in_currency c lines in
         if parsed = [] \<and> c \<noteq> None then (Inr None, s)
         else (case stage_file E acquirer d c parsed s of
             Inl e \<Rightarrow> (Inl e, s)
           | Inr (b, fresh, s1) \<Rightarrow> if \<not> fresh then (Inr (Some b), s1)
               else (case close_batch E (sb_id b) s1 of Inl e \<Rightarrow> (Inl e, s1) | Inr (b1, s2) \<Rightarrow> (Inr (Some b1), s2))))))"

section \<open>The legacy push\<close>

text \<open>
  \<^verbatim>\<open>POST /internal/v1/settlement-imports\<close> hands over \<^verbatim>\<open>LegacySettlementRecord\<close> dumps. They name the
  network's id \<^verbatim>\<open>network_transaction_id\<close>; the service reads \<^verbatim>\<open>network_reference\<close>, which they never hold.
\<close>

record legacy_record =
  lr_acquirer_reference :: string
  lr_network_transaction :: "string option"
  lr_line_type :: string
  lr_gross_minor :: int
  lr_fee_minor :: int
  lr_net_minor :: int
  lr_interchange_minor :: int
  lr_scheme_fee_minor :: int
  lr_currency :: string
  lr_merchant :: "string option"
  lr_charge :: "string option"

definition legacy_item :: "'e recon_env_scheme \<Rightarrow> string \<Rightarrow> settlement_batch \<Rightarrow> legacy_record \<Rightarrow> recon_item" where
  "legacy_item E i b l = \<lparr>ri_id = i, ri_batch = sb_id b, ri_charge = None, ri_merchant = lr_merchant l, ri_line_type = lr_line_type l,
     ri_gross_minor = lr_gross_minor l, ri_fee_minor = lr_fee_minor l, ri_interchange_minor = lr_interchange_minor l,
     ri_scheme_fee_minor = lr_scheme_fee_minor l, ri_net_minor = lr_net_minor l, ri_expected_gross_minor = None,
     ri_variance_minor = 0, ri_currency = upper (lr_currency l), ri_acquirer = sb_acquirer b,
     ri_acquirer_reference = lr_acquirer_reference l, ri_network_reference = None,
     ri_match_method = ''unmatched'', ri_matched_at = None, ri_status = ''pending'', ri_attempt_count = 0,
     ri_last_error_code = None, ri_last_attempt_at = None, ri_next_attempt_at = env_now E, ri_settled_transaction = None,
     ri_livemode = sb_livemode b, ri_created_at = env_wall E\<rparr>"

fun build_legacy :: "'e recon_env_scheme \<Rightarrow> settlement_batch \<Rightarrow> legacy_record list \<Rightarrow> 'a recon_db_scheme \<Rightarrow> (recon_item list \<times> 'a recon_db_scheme) res" where
  "build_legacy E b [] s = Inr ([], s)"
| "build_legacy E b (l # ls) s = bindE (mint (books_env E) ''ri'' s) (\<lambda>(i, s1).
     bindE (build_legacy E b ls s1) (\<lambda>(rs, s2). Inr (legacy_item E i b l # rs, s2)))"

definition import_legacy_records :: "'e recon_env_scheme \<Rightarrow> match_strategy list \<Rightarrow> string \<Rightarrow> date \<Rightarrow> string \<Rightarrow> legacy_record list \<Rightarrow> 'a recon_db_scheme
    \<Rightarrow> (string \<times> nat \<times> 'a recon_db_scheme) res" where
  "import_legacy_records E strategies acquirer d reference records s = (case records of [] \<Rightarrow> raise ValidationError
   | l # _ \<Rightarrow> bindE (open_batch E acquirer (upper (lr_currency l)) d reference True s) (\<lambda>(b, s1).
       if sb_status b \<noteq> ''open'' then Inr (sb_id b, 0, s1)
       else let fresh = filter (\<lambda>r. lr_acquirer_reference r \<notin> acquirer_references_for_batch (sb_id b) s1) records in
         bindE (build_legacy E b fresh s1) (\<lambda>(rs, s2).
         bindE (add_items strategies E rs s2) (\<lambda>(_, s3). Inr (sb_id b, length rs, s3)))))"

section \<open>The jobs\<close>

definition ACQUIRERS :: "string list" where "ACQUIRERS = [''worldflow'', ''nordpay'']"
definition LOOKBACK_DAYS :: int where "LOOKBACK_DAYS = 3"
definition MAX_CATCHUP_DAYS :: int where "MAX_CATCHUP_DAYS = 31"

definition SETTLEMENT_CURRENCIES :: "contracts \<Rightarrow> string list" where "SETTLEMENT_CURRENCIES K = sort (remdups (CURRENCIES K))"

definition oldest_offset :: "string \<Rightarrow> date \<Rightarrow> 'a recon_db_scheme \<Rightarrow> int" where
  "oldest_offset acquirer today s = (case latest_processing_date acquirer s of None \<Rightarrow> LOOKBACK_DAYS
   | Some latest \<Rightarrow> min MAX_CATCHUP_DAYS (max LOOKBACK_DAYS (today - latest)))"

text \<open>Only the acquirer's own failures leave \<^verbatim>\<open>_import_one\<close>; \<^verbatim>\<open>True\<close> when the file was imported just now.\<close>

definition import_one :: "'e recon_env_scheme \<Rightarrow> download \<Rightarrow> string \<Rightarrow> date \<Rightarrow> string \<Rightarrow> 'a recon_db_scheme \<Rightarrow> bool res \<times> 'a recon_db_scheme" where
  "import_one E fetch acquirer d c s = (case import_file E fetch acquirer d (Some c) s of
     (Inl e, s1) \<Rightarrow> (if caught_by e SettlementFileNotReadyError then Inr False
                     else if caught_by e UpstreamError then Inl e
                     else if caught_by e PayzenoLedgerError then Inr False else Inl e, s1)
   | (Inr None, s1) \<Rightarrow> (Inr False, s1)
   | (Inr (Some b), s1) \<Rightarrow> (Inr (case sb_closed_at b of None \<Rightarrow> False | Some t \<Rightarrow> env_now E \<le> t), s1))"

fun import_walk :: "'e recon_env_scheme \<Rightarrow> download \<Rightarrow> string \<Rightarrow> (date \<times> string) list \<Rightarrow> nat \<Rightarrow> 'a recon_db_scheme \<Rightarrow> nat res \<times> 'a recon_db_scheme" where
  "import_walk E fetch acquirer [] n s = (Inr n, s)"
| "import_walk E fetch acquirer ((d, c) # rest) n s = (case import_one E fetch acquirer d c s of
     (Inr b, s1) \<Rightarrow> import_walk E fetch acquirer rest (if b then Suc n else n) s1
   | (Inl e, s1) \<Rightarrow> (if caught_by e UpstreamError then Inr n else Inl e, s1))"

definition walk_dates :: "'e recon_env_scheme \<Rightarrow> date \<Rightarrow> int \<Rightarrow> (date \<times> string) list" where
  "walk_dates E today oldest = concat (map (\<lambda>offset. map (\<lambda>c. (today - offset, c)) (SETTLEMENT_CURRENCIES (env_contracts E))) (rev [1..oldest]))"

fun import_acquirers :: "'e recon_env_scheme \<Rightarrow> download \<Rightarrow> string list \<Rightarrow> nat \<Rightarrow> 'a recon_db_scheme \<Rightarrow> nat res \<times> 'a recon_db_scheme" where
  "import_acquirers E fetch [] n s = (Inr n, s)"
| "import_acquirers E fetch (a # as) n s =
     (case import_walk E fetch a (walk_dates E (date_of (env_now E)) (oldest_offset a (date_of (env_now E)) s)) n s of
        (Inr m, s1) \<Rightarrow> import_acquirers E fetch as m s1
      | (Inl e, s1) \<Rightarrow> (Inl e, s1))"

definition settlement_import_job :: "'e recon_env_scheme \<Rightarrow> download \<Rightarrow> bool \<Rightarrow> 'a recon_db_scheme \<Rightarrow> nat res \<times> 'a recon_db_scheme" where
  "settlement_import_job E fetch enabled s = (if \<not> enabled then (Inr 0, s) else import_acquirers E fetch ACQUIRERS 0 s)"

definition MAX_OPEN_HOURS :: int where "MAX_OPEN_HOURS = 6"
definition CLOSE_BATCH_SIZE :: nat where "CLOSE_BATCH_SIZE = 50"

definition stale_open_ids :: "'e recon_env_scheme \<Rightarrow> 'a recon_db_scheme \<Rightarrow> string list" where
  "stale_open_ids E s = (let cutoff = date_of (env_now E - MAX_OPEN_HOURS * HOUR) in
     map sb_id (filter (\<lambda>b. sb_processing_date b \<le> cutoff) (take CLOSE_BATCH_SIZE (list_by_status [''open''] s))))"

fun close_all :: "'e recon_env_scheme \<Rightarrow> string list \<Rightarrow> nat \<Rightarrow> 'a recon_db_scheme \<Rightarrow> nat res \<times> 'a recon_db_scheme" where
  "close_all E [] n s = (Inr n, s)"
| "close_all E (i # is) n s = (case close_batch E i s of
     Inr (b, s1) \<Rightarrow> close_all E is (Suc n) s1
   | Inl e \<Rightarrow> if caught_by e PayzenoLedgerError then close_all E is n s else (Inl e, s))"

definition batch_close_job :: "'e recon_env_scheme \<Rightarrow> 'a recon_db_scheme \<Rightarrow> nat res \<times> 'a recon_db_scheme" where
  "batch_close_job E s = close_all E (stale_open_ids E s) 0 s"

end
