(* ===== verification/Settlements_Inv.thy ===== *)
theory Settlements_Inv
  imports Settlements
begin

text \<open>
  What imports promise. An import is a run of quiet steps, so everything proved of reconciliation
  runs holds across it; a file that was imported is found again without asking the acquirer; a file
  imported from scratch gives one pending or matched item per line and closes on its net total.
\<close>

section \<open>Tables an import touches\<close>

lemma quiet_trans: "runs_to s s1 [] \<Longrightarrow> runs_to s1 s2 [] \<Longrightarrow> runs_to s s2 []"
  using runs_to_trans by fastforce

lemma same_books_tables:
  assumes "same_books s s'"
  shows "recon_items s' = recon_items s" "settlement_batches s' = settlement_batches s" "settlement_charges s' = settlement_charges s"
proof -
  have "ledger.more s' = ledger.more s" using assms by (simp add: same_books_def)
  note same_settlement_tables [OF this]
  then show "recon_items s' = recon_items s" "settlement_batches s' = settlement_batches s" "settlement_charges s' = settlement_charges s"
    by simp_all
qed

lemma mint_frame:
  assumes "mint (books_env E) p s = Inr (i, s')"
  shows "same_books s s'" "recon_items s' = recon_items s" "settlement_batches s' = settlement_batches s"
    "settlement_charges s' = settlement_charges s"
  using mint_same [OF assms] same_books_tables by blast+

lemma build_items_frame:
  "build_items E b ls s = Inr (rs, s') \<Longrightarrow> same_books s s' \<and> recon_items s' = recon_items s \<and> settlement_batches s' = settlement_batches s
     \<and> settlement_charges s' = settlement_charges s \<and> list_all2 (\<lambda>l r. \<exists>i. r = line_item E i b l) ls rs"
proof (induction ls arbitrary: s rs)
  case (Cons l ls)
  then obtain i s1 qs where m: "mint (books_env E) ''ri'' s = Inr (i, s1)" and rest: "build_items E b ls s1 = Inr (qs, s')"
    and rs: "rs = line_item E i b l # qs"
    by (auto simp: bindE_Inr_iff)
  show ?case using mint_frame [OF m] Cons.IH [OF rest] by (auto simp: rs same_books_def)
qed (simp add: same_books_def)

lemma insert_itemsD:
  assumes "insert_items rs s = Inr s'"
  shows "s' = s\<lparr>recon_items := recon_items s @ rs\<rparr>" "distinct (map ri_id rs)" "distinct (map ri_id (recon_items s'))"
    "\<forall>r\<in>set rs. find_item (ri_id r) s' = Some r"
proof -
  have d: "distinct (map ri_id (recon_items s @ rs))" and s': "s' = s\<lparr>recon_items := recon_items s @ rs\<rparr>"
    using assms by (auto simp: insert_items_def Let_def split: if_splits)
  show "s' = s\<lparr>recon_items := recon_items s @ rs\<rparr>" "distinct (map ri_id rs)" "distinct (map ri_id (recon_items s'))"
    using d s' by simp_all
  show "\<forall>r\<in>set rs. find_item (ri_id r) s' = Some r"
  proof
    fix r assume "r \<in> set rs"
    then have "find_first (\<lambda>x. ri_id x = ri_id r) (recon_items s @ rs) = Some r"
      by (intro find_first_unique d) simp
    then show "find_item (ri_id r) s' = Some r" by (simp add: s' find_item_def)
  qed
qed

lemma add_items_frame:
  assumes a: "add_items xs E rs s = Inr (n, s')" and tx: "\<forall>r\<in>set rs. new_item r"
  shows "\<exists>s1. insert_items rs s = Inr s1 \<and> match_items xs E rs s1 = Inr (n, s')" "s' = s\<lparr>recon_items := recon_items s'\<rparr>"
proof -
  obtain s1 where s1: "insert_items rs s = Inr s1" "match_items xs E rs s1 = Inr (n, s')"
    using a by (auto simp: add_items_def bindE_Inr_iff)
  then show "\<exists>s1. insert_items rs s = Inr s1 \<and> match_items xs E rs s1 = Inr (n, s')" by blast
  show "s' = s\<lparr>recon_items := recon_items s'\<rparr>"
    using insert_itemsD(1) [OF s1(1)] match_items_frame [OF s1(2)] by (metis recon_db.surjective recon_db.update_convs(3))
qed

lemma add_items_ran:
  assumes a: "add_items xs (E :: recon_env) rs s = Inr (n, s')" and tx: "\<forall>r\<in>set rs. new_item r"
  shows "runs_to s s' []"
proof -
  obtain s1 where s1: "insert_items rs s = Inr s1" "match_items xs E rs s1 = Inr (n, s')" using add_items_frame [OF assms] by blast
  show ?thesis
    using runs_to_trans [OF runs_to_quiet [OF quiet_import [OF s1(1) tx]]
        runs_to_quiet [OF quiet_match [OF s1(2) insert_itemsD(2) [OF s1(1)] insert_itemsD(4) [OF s1(1)]]]] by simp
qed

lemma line_item_fields [simp]: "ri_settled_transaction (line_item E i b l) = None" "ri_charge (line_item E i b l) = None"
  "ri_batch (line_item E i b l) = sb_id b" "ri_id (line_item E i b l) = i" "ri_net_minor (line_item E i b l) = pl_net_minor l"
  "ri_acquirer_reference (line_item E i b l) = pl_acquirer_reference l" "new_item (line_item E i b l)"
  by (simp_all add: line_item_def new_item_def)

lemma open_batch_cases:
  assumes "open_batch E a c d ref l s = Inr (b, s')"
  obtains (reused) "find_by_file a ref s = Some b" "s' = s"
  | (opened) i s1 where "find_by_file a ref s = None" "mint (books_env E) ''sb'' s = Inr (i, s1)" "b = new_batch E i a c d ref l"
      "insert_batch b s1 = Inr s'" "s' = s1\<lparr>settlement_batches := settlement_batches s1 @ [b]\<rparr>"
  using assms by (auto simp: open_batch_def bindE_Inr_iff Let_def insert_batch_def split: option.splits if_splits)

lemma open_batch_quiet: "open_batch E a c d ref l s = Inr (b, s') \<Longrightarrow> quiet_step s s'"
proof (erule open_batch_cases)
  assume "s' = s" then show ?thesis by (auto intro: quiet_tables)
next
  fix i s1 assume m: "mint (books_env E) ''sb'' s = Inr (i, s1)" and s': "s' = s1\<lparr>settlement_batches := settlement_batches s1 @ [b]\<rparr>"
  show ?thesis using mint_frame [OF m] by (intro quiet_tables) (simp_all add: s' same_books_def)
qed

lemma build_items_tx: "build_items E b ls s = Inr (rs, s') \<Longrightarrow> \<forall>r\<in>set rs. new_item r \<and> ri_charge r = None \<and> ri_batch r = sb_id b"
  using build_items_frame [of E b ls s rs s'] by (auto simp: list_all2_conv_all_nth in_set_conv_nth) (metis line_item_fields)+

lemma stage_file_ran:
  assumes "stage_file (E :: recon_env) a d c ls s = Inr (b, fresh, s')" shows "runs_to s s' []"
proof -
  obtain s1 where o: "open_batch E a (text_or c (case ls of [] \<Rightarrow> ''USD'' | l # _ \<Rightarrow> pl_currency l)) d (file_reference_for a d c) True s = Inr (b, s1)"
    and rest: "if sb_status b \<noteq> ''open'' then s' = s1 else \<exists>rs s2 n. build_items E b (unfiled_lines a c d b ls s1) s1 = Inr (rs, s2)
        \<and> add_items MATCH_STRATEGIES E rs s2 = Inr (n, s')"
    using assms by (auto simp: stage_file_def bindE_Inr_iff split: if_splits)
  have to1: "runs_to s s1 []" using runs_to_quiet [OF open_batch_quiet [OF o]] .
  show ?thesis
  proof (cases "sb_status b \<noteq> ''open''")
    case True
    then show ?thesis using rest to1 by simp
  next
    case False
    then obtain rs s2 n where b: "build_items E b (unfiled_lines a c d b ls s1) s1 = Inr (rs, s2)"
      and a: "add_items MATCH_STRATEGIES E rs s2 = Inr (n, s')" using rest by auto
    have "runs_to s1 s2 []" using build_items_frame [OF b] by (intro runs_to_quiet same_books_quiet) blast
    moreover have "runs_to s2 s' []" using build_items_tx [OF b] by (intro add_items_ran [OF a]) blast
    ultimately show ?thesis using quiet_trans to1 by blast
  qed
qed

lemma close_batchD:
  assumes "close_batch E i s = Inr (b1, s')"
  obtains b where "find_batch i s = Some b" "sb_status b = ''open''"
    "b1 = b\<lparr>sb_item_count := bt_item_count (totals_for_batch i s), sb_expected_total_minor := bt_net_minor (totals_for_batch i s),
            sb_status := ''closed'', sb_closed_at := Some (env_now E)\<rparr>"
    "same_books (put_batch b1 s) s'" "recon_items s' = recon_items s" "settlement_batches s' = settlement_batches (put_batch b1 s)"
proof -
  obtain b j where b: "find_batch i s = Some b" "sb_status b = ''open''"
    and b1: "b1 = b\<lparr>sb_item_count := bt_item_count (totals_for_batch i s), sb_expected_total_minor := bt_net_minor (totals_for_batch i s),
            sb_status := ''closed'', sb_closed_at := Some (env_now E)\<rparr>"
    and p: "publish (books_env E) ''settlement.batch_closed'' (closed_payload b1 (env_now E)) None (sb_id b1) None (sb_livemode b1) (put_batch b1 s) = Inr (j, s')"
    using assms by (auto simp: close_batch_def Let_def bindE_Inr_iff split: option.splits if_splits)
  have same: "same_books (put_batch b1 s) s'" using publish_same(1) [OF p] .
  note same_books_tables(1,2) [OF this]
  then show thesis using that b b1 same by (simp add: put_batch_def)
qed

lemma close_batch_ran: assumes "close_batch E i s = Inr (b, s')" shows "runs_to s s' []"
proof -
  have "quiet_step s (put_batch b s)" by (rule quiet_tables) (simp_all add: put_batch_def)
  moreover have "quiet_step (put_batch b s) s'" using close_batchD [OF assms] same_books_quiet by metis
  ultimately show ?thesis using quiet_trans runs_to_quiet by blast
qed

lemma import_file_ran:
  assumes "import_file (E :: recon_env) fetch a d c s = (out, s')" shows "runs_to s s' []"
proof (cases "already_imported a d c s")
  case (Some b)
  then show ?thesis using assms by (simp add: import_file_def)
next
  case None
  have close: "runs_to s s2 []" if "stage_file E a d c ls s = Inr (b, fresh, s1)" "close_batch E (sb_id b) s1 = Inr (b1, s2)" for ls b fresh s1 b1 s2
    using quiet_trans stage_file_ran [OF that(1)] close_batch_ran [OF that(2)] by blast
  show ?thesis using assms None
    by (auto simp: import_file_def Let_def split: sum.splits if_splits prod.splits intro: stage_file_ran close)
qed

lemma import_walk_ran: "import_walk (E :: recon_env) fetch a ps n s = (out, s') \<Longrightarrow> runs_to s s' []"
proof (induction ps arbitrary: n s)
  case (Cons p ps)
  obtain d c where p: "p = (d, c)" by (cases p)
  obtain x s1 where x: "import_one E fetch a d c s = (x, s1)" by (cases "import_one E fetch a d c s")
  obtain y where "import_file E fetch a d (Some c) s = (y, s1)"
    using x by (auto simp: import_one_def split: prod.splits sum.splits option.splits)
  note one = import_file_ran [OF this]
  show ?case
  proof (cases x)
    case (Inl e)
    then show ?thesis using Cons.prems one by (simp add: p x)
  next
    case (Inr b)
    then show ?thesis using Cons.prems Cons.IH quiet_trans [OF one] by (simp add: p x)
  qed
qed simp

lemma import_acquirers_ran: "import_acquirers (E :: recon_env) fetch as n s = (out, s') \<Longrightarrow> runs_to s s' []"
proof (induction "as" arbitrary: n s)
  case (Cons a "as")
  let ?ps = "walk_dates E (date_of (env_now E)) (oldest_offset a (date_of (env_now E)) s)"
  obtain x s1 where x: "import_walk E fetch a ?ps n s = (x, s1)" by (cases "import_walk E fetch a ?ps n s")
  note one = import_walk_ran [OF x]
  show ?case using Cons.prems Cons.IH one quiet_trans [OF one] by (cases x) (auto simp: x)
qed simp

lemma settlement_import_job_ran: "settlement_import_job (E :: recon_env) fetch on s = (out, s') \<Longrightarrow> runs_to s s' []"
  by (auto simp: settlement_import_job_def split: if_splits intro: import_acquirers_ran)

lemma close_all_ran: "close_all E is n s = (out, s') \<Longrightarrow> runs_to s s' []"
proof (induction "is" arbitrary: n s)
  case (Cons i "is")
  show ?case
  proof (cases "close_batch E i s")
    case (Inl e)
    then show ?thesis using Cons by (auto split: if_splits)
  next
    case (Inr y)
    then show ?thesis using Cons.prems Cons.IH quiet_trans close_batch_ran by (cases y) fastforce
  qed
qed simp

lemma batch_close_job_ran: "batch_close_job E s = (out, s') \<Longrightarrow> runs_to s s' []"
  unfolding batch_close_job_def by (rule close_all_ran)

section \<open>Importing again\<close>

lemma find_first_update_hit:
  "find_first P xs = Some b \<Longrightarrow> Q b \<Longrightarrow> P b' \<Longrightarrow> list_all (\<lambda>x. P x \<or> \<not> Q x) xs
    \<Longrightarrow> find_first P (update_where Q (\<lambda>_. b') xs) = Some b'"
  by (induction xs) (auto simp: update_where_def split: if_splits)

lemma closed_is_found:
  assumes cl: "close_batch E (sb_id b0) s = Inr (b, s')" and f: "find_by_file a ref s = Some b0"
    and d: "distinct (map sb_id (settlement_batches s))"
  shows "find_by_file a ref s' = Some b" "sb_status b = ''closed''" "sb_currency b = sb_currency b0"
proof -
  obtain y where y: "find_batch (sb_id b0) s = Some y"
    and b: "b = y\<lparr>sb_item_count := bt_item_count (totals_for_batch (sb_id b0) s), sb_expected_total_minor := bt_net_minor (totals_for_batch (sb_id b0) s),
            sb_status := ''closed'', sb_closed_at := Some (env_now E)\<rparr>"
    and same: "settlement_batches s' = settlement_batches (put_batch b s)"
    by (rule close_batchD [OF cl])
  have y1: "y \<in> set (settlement_batches s)" "sb_id y = sb_id b0"
    using y by (auto simp: find_batch_def dest: find_first_SomeD)
  have b0: "b0 \<in> set (settlement_batches s)" "sb_acquirer b0 = a" "sb_file_reference b0 = ref"
    using f by (auto simp: find_by_file_def dest: find_first_SomeD)
  have inj: "x = z" if "x \<in> set (settlement_batches s)" "z \<in> set (settlement_batches s)" "sb_id x = sb_id z" for x z
    using d that by (auto simp: distinct_map inj_on_def)
  then have yb: "y = b0" using y1 b0(1) by blast
  have ids: "sb_id b = sb_id b0" "sb_acquirer b = a" "sb_file_reference b = ref" using b0 by (simp_all add: b yb)
  have "list_all (\<lambda>x. (sb_acquirer x = a \<and> sb_file_reference x = ref) \<or> sb_id x \<noteq> sb_id b) (settlement_batches s)"
    unfolding list_all_iff using inj [OF _ b0(1)] ids(1) b0(2,3) by metis
  then have "find_first (\<lambda>x. sb_acquirer x = a \<and> sb_file_reference x = ref)
      (update_where (\<lambda>x. sb_id x = sb_id b) (\<lambda>_. b) (settlement_batches s)) = Some b"
    using f ids by (intro find_first_update_hit [where b = b0]) (simp_all add: find_by_file_def)
  then show "find_by_file a ref s' = Some b" by (simp add: find_by_file_def same put_batch_def)
  show "sb_status b = ''closed''" "sb_currency b = sb_currency b0" by (simp_all add: b yb)
qed

lemma open_batch_found:
  assumes o: "open_batch E a c d ref l s = Inr (b, s')" and dist: "distinct (map sb_id (settlement_batches s))"
  shows "find_by_file a ref s' = Some b" "distinct (map sb_id (settlement_batches s'))"
proof -
  have "find_by_file a ref s' = Some b \<and> distinct (map sb_id (settlement_batches s'))"
    using o
  proof (cases rule: open_batch_cases)
    case reused
    then show ?thesis using dist by simp
  next
    case (opened i s1)
    have b1: "settlement_batches s1 = settlement_batches s" using mint_frame [OF opened(2)] by blast
    have "sb_id b \<notin> set (map sb_id (settlement_batches s1))" using opened(4) by (auto simp: insert_batch_def split: if_splits)
    moreover have "sb_acquirer b = a" "sb_file_reference b = ref" by (simp_all add: opened(3) new_batch_def)
    ultimately show ?thesis using opened(1) dist by (simp add: opened(5) find_by_file_def b1)
  qed
  then show "find_by_file a ref s' = Some b" "distinct (map sb_id (settlement_batches s'))" by blast+
qed

lemma stage_file_found:
  assumes st: "stage_file E a d c ls s = Inr (b, fresh, s')" and dist: "distinct (map sb_id (settlement_batches s))"
  shows "find_by_file a (file_reference_for a d c) s' = Some b" "distinct (map sb_id (settlement_batches s'))"
    "fresh \<longleftrightarrow> sb_status b = ''open''"
proof -
  let ?c = "text_or c (case ls of [] \<Rightarrow> ''USD'' | l # _ \<Rightarrow> pl_currency l)"
  obtain s1 where o: "open_batch E a ?c d (file_reference_for a d c) True s = Inr (b, s1)"
    and rest: "if sb_status b \<noteq> ''open'' then s' = s1 \<and> \<not> fresh else fresh \<and> (\<exists>rs s2 n. build_items E b (unfiled_lines a c d b ls s1) s1 = Inr (rs, s2)
        \<and> add_items MATCH_STRATEGIES E rs s2 = Inr (n, s'))"
    using st by (auto simp: stage_file_def bindE_Inr_iff split: if_splits)
  have "settlement_batches s' = settlement_batches s1"
  proof (cases "sb_status b \<noteq> ''open''")
    case True
    then show ?thesis using rest by simp
  next
    case False
    then obtain rs s2 n where b: "build_items E b (unfiled_lines a c d b ls s1) s1 = Inr (rs, s2)"
      and a: "add_items MATCH_STRATEGIES E rs s2 = Inr (n, s')" using rest by auto
    have "s' = s2\<lparr>recon_items := recon_items s'\<rparr>" using build_items_tx [OF b] by (intro add_items_frame(2) [OF a]) blast
    then have "settlement_batches s' = settlement_batches s2" by (metis recon_db.select_convs(2) recon_db.surjective recon_db.update_convs(3))
    then show ?thesis using build_items_frame [OF b] by simp
  qed
  then show "find_by_file a (file_reference_for a d c) s' = Some b" "distinct (map sb_id (settlement_batches s'))"
    using open_batch_found [OF o dist] by (simp_all add: find_by_file_def)
  show "fresh \<longleftrightarrow> sb_status b = ''open''" using rest by (auto split: if_splits)
qed

lemma reimport:
  assumes i: "import_file E fetch a d (Some c) s = (Inr (Some b), s')" and c: "sb_currency b = c"
    and dist: "distinct (map sb_id (settlement_batches s))"
  shows "import_file E' fetch' a d (Some c) s' = (Inr (Some b), s')"
proof -
  let ?ref = "file_reference_for a d (Some c)"
  have "already_imported a d (Some c) s' = Some b"
  proof (cases "already_imported a d (Some c) s")
    case (Some x)
    then show ?thesis using i by (simp add: import_file_def)
  next
    case None
    then obtain ls b0 fresh s1 where st: "stage_file E a d (Some c) (in_currency (Some c) ls) s = Inr (b0, fresh, s1)"
      and rest: "if fresh then close_batch E (sb_id b0) s1 = Inr (b, s') else b = b0 \<and> s' = s1"
      using i by (auto simp: import_file_def Let_def split: sum.splits if_splits)
    note found = stage_file_found [OF st dist]
    have "find_by_file a ?ref s' = Some b \<and> sb_status b \<noteq> ''open''"
    proof (cases fresh)
      case True
      then show ?thesis using closed_is_found [OF _ found(1,2), of E b s'] rest by simp
    next
      case False
      then show ?thesis using rest found by simp
    qed
    then show ?thesis using c by (simp add: already_imported_def find_imported_batch_def Let_def)
  qed
  then show ?thesis by (simp add: import_file_def)
qed

section \<open>Importing from scratch\<close>

lemma item_line_match [simp]: "item_line (match_item E m r) = item_line r"
  by (auto simp: match_item_def apply_match_def item_line_def Let_def)

lemma put_item_lines:
  assumes "distinct (map ri_id (recon_items s))" "find_item (ri_id r) s = Some r" "item_line r' = item_line r"
  shows "map item_line (recon_items (put_item r' s)) = map item_line (recon_items s)"
proof -
  have id: "ri_id r' = ri_id r" using assms(3) by (simp add: item_line_def)
  have r: "r \<in> set (recon_items s)" using find_itemD [OF assms(2)] by blast
  have "item_line (if ri_id x = ri_id r' then r' else x) = item_line x" if "x \<in> set (recon_items s)" for x
    using assms(1,3) that r id by (auto simp: distinct_map inj_on_def)
  then show ?thesis by (simp add: put_item_def update_where_def)
qed

lemma lines_ids: "map item_line xs = map item_line ys \<Longrightarrow> map ri_id xs = map ri_id ys"
  by (induction xs ys rule: list_induct2') (auto simp: item_line_def)

lemma match_items_lines:
  "match_items xs E rs s = Inr (n, s') \<Longrightarrow> distinct (map ri_id rs) \<Longrightarrow> distinct (map ri_id (recon_items s))
    \<Longrightarrow> \<forall>r\<in>set rs. find_item (ri_id r) s = Some r \<Longrightarrow> map item_line (recon_items s') = map item_line (recon_items s)"
proof (induction rs arbitrary: n s)
  case (Cons r rs)
  then obtain m k where rest: "match_items xs E rs (put_item (match_item E m r) s) = Inr (k, s')"
    by (auto simp: bindE_Inr_iff)
  have l: "map item_line (recon_items (put_item (match_item E m r) s)) = map item_line (recon_items s)"
    using Cons.prems by (intro put_item_lines) auto
  have "\<forall>x\<in>set rs. find_item (ri_id x) (put_item (match_item E m r) s) = Some x"
    using Cons.prems(2,4) by (auto simp: find_item_put image_iff)
  then show ?case using Cons.IH [OF rest] Cons.prems(2,3) lines_ids [OF l] l by simp
qed simp

lemma lines_filter:
  "map item_line xs = map item_line ys \<Longrightarrow> map item_line (filter (\<lambda>r. ri_batch r = k) xs) = map item_line (filter (\<lambda>r. ri_batch r = k) ys)"
  by (induction xs ys rule: list_induct2') (auto simp: item_line_def)

lemma lines_net: "map item_line xs = map item_line ys \<Longrightarrow> map ri_net_minor xs = map ri_net_minor ys"
  by (induction xs ys rule: list_induct2') (auto simp: item_line_def)

lemma lines_all2:
  "map item_line xs = map item_line ys \<Longrightarrow> list_all2 (\<lambda>l r. \<exists>i. r = line_item E i b l) ls ys
    \<Longrightarrow> list_all2 (\<lambda>l r. \<exists>i. item_line r = item_line (line_item E i b l)) ls xs"
proof (induction ls arbitrary: xs ys)
  case (Cons l ls)
  then show ?case by (cases xs; cases ys) auto
qed auto

text \<open>A line of the file as a row of the batch: only the id of the row is chosen by the service.\<close>

definition carries_line :: "'e recon_env_scheme \<Rightarrow> settlement_batch \<Rightarrow> parsed_line \<Rightarrow> recon_item \<Rightarrow> bool" where
  "carries_line E b l r \<longleftrightarrow> (\<exists>i. item_line r = item_line (line_item E i b l))"

lemma built_totals: "list_all2 (\<lambda>l r. \<exists>i. r = line_item E i b l) ls rs \<Longrightarrow> length rs = length ls \<and> map ri_net_minor rs = map pl_net_minor ls"
  by (induction rule: list_all2_induct) auto

lemma stage_scratch:
  assumes st: "stage_file E a d (Some c) ls s = Inr (b, fresh, s')"
    and new: "find_by_file a (file_reference_for a d (Some c)) s = None"
    and fk: "\<forall>r\<in>set (recon_items s). find_batch (ri_batch r) s \<noteq> None"
    and unfiled: "\<forall>r\<in>set (recon_items s). ri_acquirer_reference r \<notin> pl_acquirer_reference ` set ls"
  shows "fresh" "find_batch (sb_id b) s' = Some b"
    "\<exists>rs. list_all2 (\<lambda>l r. \<exists>i. r = line_item E i b l) ls rs
       \<and> map item_line (filter (\<lambda>r. ri_batch r = sb_id b) (recon_items s')) = map item_line rs"
proof -
  let ?ref = "file_reference_for a d (Some c)" and ?c = "text_or (Some c) (case ls of [] \<Rightarrow> ''USD'' | l # _ \<Rightarrow> pl_currency l)"
  obtain s1 where o: "open_batch E a ?c d ?ref True s = Inr (b, s1)"
    and rest: "if sb_status b \<noteq> ''open'' then s' = s1 \<and> \<not> fresh else fresh \<and> (\<exists>rs s2 n. build_items E b (unfiled_lines a (Some c) d b ls s1) s1 = Inr (rs, s2)
        \<and> add_items MATCH_STRATEGIES E rs s2 = Inr (n, s'))"
    using st by (auto simp: stage_file_def bindE_Inr_iff split: if_splits)
  obtain i s0 where m: "mint (books_env E) ''sb'' s = Inr (i, s0)" and b: "b = new_batch E i a ?c d ?ref True"
    and ins: "insert_batch b s0 = Inr s1" and s1: "s1 = s0\<lparr>settlement_batches := settlement_batches s0 @ [b]\<rparr>"
    using o new by (cases rule: open_batch_cases) auto
  have b0: "settlement_batches s0 = settlement_batches s" and items: "recon_items s1 = recon_items s" using mint_frame [OF m] by (simp_all add: s1)
  have fresh_id: "sb_id b \<notin> set (map sb_id (settlement_batches s))" using ins by (auto simp: insert_batch_def b0 split: if_splits)
  have none: "ri_batch r \<noteq> sb_id b" if r: "r \<in> set (recon_items s)" for r
  proof -
    obtain x where "find_batch (ri_batch r) s = Some x" using bspec [OF fk r] by blast
    then have "x \<in> set (settlement_batches s) \<and> sb_id x = ri_batch r" unfolding find_batch_def by (rule find_first_SomeD)
    then show ?thesis using fresh_id by (metis image_eqI list.set_map)
  qed
  have "unfiled_lines a (Some c) d b ls s1 = ls"
  proof -
    have "acquirer_references_for_batch (sb_id b) s1 = {}" using none by (auto simp: acquirer_references_for_batch_def items)
    moreover have "acquirer_references_already_filed a c d DUPLICATE_LINE_WINDOW_DAYS (map pl_acquirer_reference ls) s1 = {}"
      using unfiled by (auto simp: acquirer_references_already_filed_def items)
    ultimately show ?thesis by (simp add: unfiled_lines_def)
  qed
  then obtain rs s2 n where bi: "build_items E b ls s1 = Inr (rs, s2)" and add: "add_items MATCH_STRATEGIES E rs s2 = Inr (n, s')" and fr: fresh
    using rest by (auto simp: b new_batch_def)
  have tx: "\<forall>r\<in>set rs. new_item r" and rb: "\<forall>r\<in>set rs. ri_batch r = sb_id b" using build_items_tx [OF bi] by blast+
  note frame = build_items_frame [OF bi]
  obtain s3 where s3: "insert_items rs s2 = Inr s3" "match_items MATCH_STRATEGIES E rs s3 = Inr (n, s')" using add_items_frame(1) [OF add tx] by blast
  note ii = insert_itemsD [OF s3(1)]
  have lines: "map item_line (recon_items s') = map item_line (recon_items s @ rs)"
    using match_items_lines [OF s3(2) ii(2,3,4)] frame by (simp add: ii(1) items)
  have "filter (\<lambda>r. ri_batch r = sb_id b) (recon_items s @ rs) = rs" using none rb by simp
  then have "map item_line (filter (\<lambda>r. ri_batch r = sb_id b) (recon_items s')) = map item_line rs" using lines_filter [OF lines] by metis
  then show "\<exists>rs. list_all2 (\<lambda>l r. \<exists>i. r = line_item E i b l) ls rs
       \<and> map item_line (filter (\<lambda>r. ri_batch r = sb_id b) (recon_items s')) = map item_line rs" using frame by blast
  have "s' = s2\<lparr>recon_items := recon_items s'\<rparr>" using add_items_frame(2) [OF add tx] .
  then have "settlement_batches s' = settlement_batches s2" by (metis recon_db.select_convs(2) recon_db.surjective recon_db.update_convs(3))
  then have "settlement_batches s' = settlement_batches s @ [b]" using frame by (simp add: s1 b0)
  moreover have "find_first (\<lambda>x. sb_id x = sb_id b) (settlement_batches s) = None" using fresh_id unfolding find_first_None by (metis image_eqI list.set_map)
  ultimately show "find_batch (sb_id b) s' = Some b" by (simp add: find_batch_def)
  show fresh by (rule fr)
qed

lemma import_scratch:
  assumes i: "import_file E fetch a d (Some c) s = (Inr (Some b), s')"
    and new: "find_by_file a (file_reference_for a d (Some c)) s = None" "find_by_file a (file_reference_for a d None) s = None"
    and parsed: "bindE (fetch a d (Some c)) (parse_settlement_file (env_contracts E) a) = Inr ls"
    and fk: "\<forall>r\<in>set (recon_items s). find_batch (ri_batch r) s \<noteq> None"
    and unfiled: "\<forall>r\<in>set (recon_items s). ri_acquirer_reference r \<notin> pl_acquirer_reference ` set ls"
  shows "sb_status b = ''closed'' \<and> sb_item_count b = int (length (in_currency (Some c) ls))
    \<and> sb_expected_total_minor b = sum_list (map pl_net_minor (in_currency (Some c) ls))
    \<and> list_all2 (carries_line E b) (in_currency (Some c) ls) (filter (\<lambda>r. ri_batch r = sb_id b) (recon_items s'))"
proof -
  let ?ls = "in_currency (Some c) ls"
  have none: "already_imported a d (Some c) s = None" by (simp add: already_imported_def find_imported_batch_def new)
  obtain b0 fresh s1 where st: "stage_file E a d (Some c) ?ls s = Inr (b0, fresh, s1)"
    and rest: "if fresh then close_batch E (sb_id b0) s1 = Inr (b, s') else b = b0 \<and> s' = s1"
    using i none parsed by (auto simp: import_file_def Let_def split: sum.splits if_splits)
  have un: "\<forall>r\<in>set (recon_items s). ri_acquirer_reference r \<notin> pl_acquirer_reference ` set ?ls" using unfiled by (auto simp: in_currency_def)
  note sc = stage_scratch [OF st new(1) fk un]
  obtain rs where rs: "list_all2 (\<lambda>l r. \<exists>i. r = line_item E i b0 l) ?ls rs"
    "map item_line (filter (\<lambda>r. ri_batch r = sb_id b0) (recon_items s1)) = map item_line rs"
    using sc(3) by blast
  obtain y where y: "find_batch (sb_id b0) s1 = Some y"
    and b: "b = y\<lparr>sb_item_count := bt_item_count (totals_for_batch (sb_id b0) s1), sb_expected_total_minor := bt_net_minor (totals_for_batch (sb_id b0) s1),
            sb_status := ''closed'', sb_closed_at := Some (env_now E)\<rparr>"
    and same: "recon_items s' = recon_items s1"
    using rest sc(1) by (auto elim: close_batchD)
  have yb: "y = b0" using y sc(2) by simp
  have li: "line_item E j b l = line_item E j b0 l" for j l by (simp add: b yb line_item_def)
  have "length (filter (\<lambda>r. ri_batch r = sb_id b0) (recon_items s1)) = length ?ls"
    using built_totals [OF rs(1)] rs(2) by (metis length_map)
  moreover have "sum_list (map ri_net_minor (filter (\<lambda>r. ri_batch r = sb_id b0) (recon_items s1))) = sum_list (map pl_net_minor ?ls)"
    using built_totals [OF rs(1)] lines_net [OF rs(2)] by simp
  moreover have "list_all2 (carries_line E b) ?ls (filter (\<lambda>r. ri_batch r = sb_id b) (recon_items s'))"
    using lines_all2 [OF rs(2,1)] by (simp add: carries_line_def [abs_def] li same) (simp add: b yb)
  ultimately show ?thesis by (simp add: b totals_for_batch_def Let_def)
qed

end
