(* ===== verification/Recon_Types.thy ===== *)
theory Recon_Types
  imports Settlements_Inv
begin

text \<open>
  The typing of reconciliation items. The columns \<^verbatim>\<open>status\<close> and \<^verbatim>\<open>match_method\<close> are enumerations;
  over every run the committed rows use a part of them only: no transaction ever commits an item as
  \<^verbatim>\<open>settling\<close>, and no code path writes \<^verbatim>\<open>variance_exceeded\<close>, which migration 0026 added.
\<close>

definition COMMITTED_STATUSES :: "string list" where
  "COMMITTED_STATUSES = [''pending'', ''retryable'', ''settled'', ''failed'', ''orphaned'', ''needs_review'']"

definition MATCH_METHODS :: "string list" where
  "MATCH_METHODS = [''unmatched'', ''exact_reference'', ''network_txn'', ''heuristic'', ''manual'']"

lemma committed_statuses [simp]:
  "''pending'' \<in> set COMMITTED_STATUSES" "''retryable'' \<in> set COMMITTED_STATUSES" "''settled'' \<in> set COMMITTED_STATUSES"
  "''failed'' \<in> set COMMITTED_STATUSES" "''orphaned'' \<in> set COMMITTED_STATUSES" "''needs_review'' \<in> set COMMITTED_STATUSES"
  "''settling'' \<notin> set COMMITTED_STATUSES" "''variance_exceeded'' \<notin> set COMMITTED_STATUSES"
  by (simp_all add: COMMITTED_STATUSES_def)

lemma match_methods [simp]:
  "''unmatched'' \<in> set MATCH_METHODS" "''exact_reference'' \<in> set MATCH_METHODS" "''network_txn'' \<in> set MATCH_METHODS"
  "''heuristic'' \<in> set MATCH_METHODS" "''manual'' \<in> set MATCH_METHODS"
  by (simp_all add: MATCH_METHODS_def)

definition item_typed :: "recon_item \<Rightarrow> bool" where
  "item_typed r \<longleftrightarrow> ri_status r \<in> set COMMITTED_STATUSES \<and> ri_match_method r \<in> set MATCH_METHODS
     \<and> (ri_status r = ''settled'' \<longrightarrow> ri_settled_transaction r \<noteq> None)
     \<and> (ri_match_method r \<noteq> ''unmatched'' \<longrightarrow> ri_charge r \<noteq> None)"

definition items_typed :: "'a recon_db_scheme \<Rightarrow> bool" where
  "items_typed s \<longleftrightarrow> (\<forall>r\<in>set (recon_items s). item_typed r)"

lemma items_typed_put: "items_typed s \<Longrightarrow> item_typed r \<Longrightarrow> items_typed (put_item r s)"
  by (auto simp: items_typed_def put_item_def update_where_def)

lemma items_typed_find: "items_typed s \<Longrightarrow> find_item i s = Some r \<Longrightarrow> item_typed r"
  using find_itemD [of i s r] by (auto simp: items_typed_def)

lemma items_typed_same: "recon_items s' = recon_items s \<Longrightarrow> items_typed s \<Longrightarrow> items_typed s'" by (simp add: items_typed_def)

lemma settled_typed: "item_typed r \<Longrightarrow> item_typed (r\<lparr>ri_status := ''settled'', ri_settled_transaction := Some t\<rparr>)"
  by (simp add: item_typed_def)

lemma attempted_typed: "item_typed r \<Longrightarrow> c \<in> {''retryable'', ''failed'', ''orphaned''} \<Longrightarrow> item_typed (attempted E x c r)"
  by (auto simp: item_typed_def attempted_def)

lemma typed_cong: "item_typed r \<Longrightarrow> ri_status r' = ri_status r \<Longrightarrow> ri_match_method r' = ri_match_method r
    \<Longrightarrow> ri_settled_transaction r' = ri_settled_transaction r \<Longrightarrow> ri_charge r' = ri_charge r \<Longrightarrow> item_typed r'"
  by (simp add: item_typed_def)

section \<open>Each writer\<close>

lemma marks_typed:
  assumes "items_typed s"
  shows "sweep_mark_retryable E i c s = Inr s' \<Longrightarrow> items_typed s'" "sweep_mark_failed E i c s = Inr s' \<Longrightarrow> items_typed s'"
    "retry_mark_retryable E i c s = Inr s' \<Longrightarrow> items_typed s'" "retry_mark_failed E i c s = Inr s' \<Longrightarrow> items_typed s'"
proof -
  have put: "items_typed (put_item ((attempted E c st r)\<lparr>ri_next_attempt_at := n\<rparr>) s)" "items_typed (put_item (attempted E c st r) s)"
    if "find_item i s = Some r" "st = ''retryable'' \<or> st = ''failed'' \<or> st = ''orphaned''" for r st n
    using items_typed_find [OF assms that(1)] that(2) by (auto intro!: items_typed_put [OF assms] simp: item_typed_def attempted_def)
  show "sweep_mark_retryable E i c s = Inr s' \<Longrightarrow> items_typed s'" "sweep_mark_failed E i c s = Inr s' \<Longrightarrow> items_typed s'"
    "retry_mark_retryable E i c s = Inr s' \<Longrightarrow> items_typed s'" "retry_mark_failed E i c s = Inr s' \<Longrightarrow> items_typed s'"
    using put
    by (auto simp: sweep_mark_retryable_def sweep_mark_failed_def retry_mark_retryable_def retry_mark_failed_def bindE_Inr_iff Let_def)
qed

lemma strategy_method:
  assumes "run_strategy x E r s = Inr outcome" "mo_charge outcome \<noteq> None" shows "mo_method outcome \<in> set MATCH_METHODS"
proof (cases x)
  case ExactReferenceMatch
  then show ?thesis using assms hit_sel [of "''exact_reference''"] by fastforce
next
  case NetworkTransactionMatch
  then show ?thesis using assms hit_sel [of "''network_txn''"] by (fastforce split: if_splits)
next
  case HeuristicAmountWindowMatch
  then show ?thesis using assms by (auto split: option.splits list.splits)
next
  case ManualMatch
  then show ?thesis using assms by (auto simp: bindE_Inr_iff split: option.splits)
qed

lemma match_item_typed:
  assumes h: "first_hit xs E r s = Inr outcome" and t: "item_typed r"
  shows "item_typed (match_item E outcome r)"
proof (cases "mo_charge outcome")
  case None
  then show ?thesis using t by (simp add: match_item_def item_typed_def)
next
  case (Some i)
  then obtain x where "run_strategy x E r s = Inr outcome" using first_hit_from [OF h] by auto
  then have "mo_method outcome \<in> set MATCH_METHODS" using Some by (auto dest: strategy_method)
  then show ?thesis using t Some
    by (auto simp: match_item_def apply_match_def Let_def item_typed_def)
qed

lemma match_items_typed:
  "match_items xs E rs s = Inr (n, s') \<Longrightarrow> \<forall>r\<in>set rs. item_typed r \<Longrightarrow> items_typed s \<Longrightarrow> items_typed s'"
proof (induction rs arbitrary: n s)
  case (Cons r rs)
  then obtain outcome m where h: "first_hit xs E r s = Inr outcome"
    and rest: "match_items xs E rs (put_item (match_item E outcome r) s) = Inr (m, s')"
    by (auto simp: bindE_Inr_iff)
  show ?case using Cons.prems match_item_typed [OF h] by (intro Cons.IH [OF rest] items_typed_put) auto
qed simp

lemma manual_match_typed:
  assumes m: "manual_match E i c s = Inr (r, s')" and t: "items_typed s" shows "items_typed s'"
proof -
  obtain r0 outcome where r0: "find_item i s = Some r0" and x: "run_strategy ManualMatch E (r0\<lparr>ri_charge := Some c\<rparr>) s = Inr outcome"
    "mo_charge outcome \<noteq> None"
    and s': "s' = put_item ((apply_match (r0\<lparr>ri_charge := Some c\<rparr>) outcome)\<lparr>ri_status := ''pending''\<rparr>) s"
    using m by (auto simp: manual_match_def bindE_Inr_iff get_item_or_raise_def Let_def simp del: run_strategy.simps split: option.splits if_splits)
  have "mo_method outcome \<in> set MATCH_METHODS" by (rule strategy_method [OF x])
  then show ?thesis unfolding s' using x(2)
    by (intro items_typed_put [OF t]) (simp add: item_typed_def apply_match_def Let_def)
qed

lemma insert_typed: "insert_items rs s = Inr s' \<Longrightarrow> \<forall>r\<in>set rs. new_item r \<Longrightarrow> items_typed s \<Longrightarrow> items_typed s'"
  by (auto simp: insert_items_def Let_def items_typed_def item_typed_def new_item_def split: if_splits)

lemma posted_typed:
  assumes p: "post_settlement E r caller s = (Inr (res, s1), calls)" and ok: "ledger_ok s" and t: "items_typed s" and r: "item_typed r'"
  shows "items_typed (put_item r' s1)"
proof -
  have "ledger.more s1 = ledger.more s" by (rule post_settlement_spec [OF p ok])
  then have "recon_items s1 = recon_items s" by (rule same_settlement_tables)
  then show ?thesis using items_typed_same [OF _ t] r by (intro items_typed_put)
qed

lemma process_item_typed:
  assumes p: "process_item E i s = (Inr s', calls)" and ok: "ledger_ok s" and t: "items_typed s"
  shows "items_typed s'"
proof -
  obtain r where r: "find_item i s = Some r" using p by (auto simp: process_item_def split: sum.splits)
  show ?thesis
  proof (cases "ri_status r \<in> set RETRYABLE_STATUSES")
    case False
    then show ?thesis using p r t by (simp add: process_item_def get_item_or_raise_def)
  next
    case True
    then obtain res s1 where ps: "post_settlement E r ''batch_pass'' s = (Inr (res, s1), calls)"
      and s': "s' = put_item (r\<lparr>ri_status := ''settled'', ri_settled_transaction := Some (sr_transaction_id res),
          ri_last_attempt_at := Some (env_now E)\<rparr>) s1"
      using p r by (auto simp: process_item_def get_item_or_raise_def mapE_def split: sum.splits prod.splits)
    show ?thesis unfolding s' using settled_typed [OF items_typed_find [OF t r]]
      by (intro posted_typed [OF ps ok t]) (simp add: item_typed_def)
  qed
qed

lemma retry_attempt_typed:
  assumes p: "retry_attempt E i s = (Inr (x, s'), calls)" and ok: "ledger_ok s" and t: "items_typed s"
  shows "items_typed s'"
  using p
proof (cases rule: retry_attempt_cases)
  case unclaimed
  then show ?thesis using t by simp
next
  case exhausted
  then show ?thesis by simp
next
  case (attempt r r1 y)
  then obtain res s1 where y: "y = Inr (res, s1)"
    and s': "s' = put_item (r1\<lparr>ri_status := ''settled'', ri_settled_transaction := Some (sr_transaction_id res)\<rparr>) s1"
    by (auto simp: mapE_def Let_def split: sum.splits prod.splits)
  have "item_typed r" using items_typed_find [OF t] claim_itemD [OF attempt(1)] by blast
  then show ?thesis unfolding s' using attempt(3)
    by (intro posted_typed [OF attempt(4) [unfolded y] ok t]) (simp add: item_typed_def)
qed

section \<open>Over every run\<close>

lemma quiet_step_typed: "quiet_step s s' \<Longrightarrow> ledger_ok s \<Longrightarrow> items_typed s \<Longrightarrow> items_typed s'"
proof (induction rule: quiet_step.induct)
  case (quiet_books s s')
  then have "ledger.more s' = ledger.more s" using ledger_step_tables [OF quiet_books(1)] by (simp add: ledger_ok_def)
  then show ?case using quiet_books.prems(2) by (rule items_typed_same [OF same_settlement_tables(3)])
next
  case (quiet_match xs E rs s n s')
  then show ?case using match_items_typed items_typed_find by blast
qed (blast intro: items_typed_same marks_typed manual_match_typed insert_typed)+

lemma recon_step_typed: "recon_step s l s' \<Longrightarrow> items_inv s \<Longrightarrow> items_typed s \<Longrightarrow> items_typed s'"
  by (induction rule: recon_step.induct) (auto simp: items_inv_def intro: quiet_step_typed process_item_typed retry_attempt_typed)

lemma recon_run_typed: "recon_run s tr s' \<Longrightarrow> items_inv s \<Longrightarrow> items_typed s \<Longrightarrow> items_typed s'"
proof (induction rule: recon_run.induct)
  case (run_next s l s1 tr s2)
  then show ?case using recon_step_typed row_stepD [OF recon_step_row] by blast
qed

end
