(* ===== verification/ReconExamples.thy ===== *)
theory ReconExamples
  imports ServiceExamples Recon_Types
begin

text \<open>
  A concrete settlement for the witnesses about imports and reconciliation: one charge captured at
  settlement, the acquirer's file with its line, the imported batch and the pass over it. Nothing
  here models code.
\<close>

definition demo_charge :: settlement_charge where
  "demo_charge = \<lparr>sc_id = ''ch_1'', sc_merchant = ''mch_1'', sc_amount = 10000, sc_currency = ''USD'', sc_acquirer = ''worldflow'',
     sc_network_txn = Some ''NET77'', sc_processor_reference = Some ''AR1001'', sc_capture_method = ''automatic'',
     sc_capture_at_settlement = True, sc_reserve_bps = 500, sc_platform_fee_bps = 290, sc_platform_fee_fixed_minor = 30,
     sc_authorized_at = 1700000000, sc_captured_at = None, sc_livemode = True, sc_updated_at = 0,
     sc_source_event_id = ''evt_3'', sc_source_occurred_at = 0\<rparr>"

definition demo_renv :: recon_env where
  "demo_renv = service_env.extend demo_senv \<lparr>env_confirm = (\<lambda>_ _ _. None), env_capture = (\<lambda>_ _ _ _ _. None), env_lock_free = (\<lambda>_. True),
     env_over_budget = (\<lambda>_. False), env_wall = 1700000000, env_jitter = 0, env_digest = (\<lambda>_. ''f''), env_max_attempts = 6,
     env_backoff_base = 30, env_max_items = 500, env_drain_enabled = True, env_drain_size = 50\<rparr>"

text \<open>The same environment while the acquirer is out of service.\<close>

definition outage_renv :: recon_env where
  "outage_renv = demo_renv\<lparr>env_confirm := (\<lambda>_ _ _. Some (exn_with_code ProcessorUnavailableError ''processor_unavailable''))\<rparr>"

definition empty_rdb :: recon_db where
  "empty_rdb = db.extend empty_db \<lparr>settlement_charges = [demo_charge], settlement_batches = [], recon_items = [], recon_runs = []\<rparr>"

definition demo_csv :: string where
  "demo_csv = ''acquirer_reference,network_reference,line_type,gross_minor,fee_minor,interchange_minor,scheme_fee_minor,net_minor,currency'' @ [CHR 0x0A]
     @ ''AR1001,NET77,SL,10000,180,120,20,9820,USD'' @ [CHR 0x0A]"

definition demo_fetch :: download where "demo_fetch a d c = Inr demo_csv"

definition imported_db :: recon_db where
  "imported_db = snd (import_file demo_renv demo_fetch ''worldflow'' 19000 (Some ''USD'') empty_rdb)"

definition demo_batch :: string where "demo_batch = ''sb_'' @ demo_ulid 0"
definition demo_item :: string where "demo_item = ''ri_'' @ demo_ulid 1"

definition settled_db :: recon_db where
  "settled_db = fst (snd (reconcile_batch demo_renv (\<lambda>_. demo_renv) demo_batch ''scheduled'' 500 imported_db))"

section \<open>What the runs of the model yield\<close>

lemma demo_import: "case import_file demo_renv demo_fetch ''worldflow'' 19000 (Some ''USD'') empty_rdb of
    (Inl e, s) \<Rightarrow> False | (Inr b, s) \<Rightarrow> (case b of None \<Rightarrow> False | Some x \<Rightarrow> sb_id x = demo_batch \<and> sb_currency x = ''USD'')"
  by code_simp

lemma demo_parsed: "is_ok (bindE (demo_fetch ''worldflow'' 19000 (Some ''USD'')) (parse_settlement_file (env_contracts demo_renv) ''worldflow''))"
  by code_simp

lemma demo_pass: "is_ok (fst (reconcile_batch demo_renv (\<lambda>_. demo_renv) demo_batch ''scheduled'' 500 imported_db))"
  by code_simp

lemma demo_settled: "(case find_item demo_item settled_db of None \<Rightarrow> None | Some r \<Rightarrow> ri_settled_transaction r) = Some (''txn_'' @ demo_ulid 4)"
  by code_simp

lemma demo_outage: "case retry_attempt outage_renv demo_item imported_db of (Inl e, calls) \<Rightarrow> caught_by e RetryableSettlementError \<and> calls = [] | (Inr x, calls) \<Rightarrow> False"
  by code_simp

lemma demo_imported:
  "\<exists>b. import_file demo_renv demo_fetch ''worldflow'' 19000 (Some ''USD'') empty_rdb = (Inr (Some b), imported_db) \<and> sb_currency b = ''USD''"
proof (cases "import_file demo_renv demo_fetch ''worldflow'' 19000 (Some ''USD'') empty_rdb")
  case (Pair out s)
  then show ?thesis using demo_import by (auto simp: imported_db_def split: sum.splits option.splits)
qed

lemma retryable_is_ledger_error: "caught_by e RetryableSettlementError \<Longrightarrow> caught_by e PayzenoLedgerError"
  by (cases "err_class e") (simp_all add: caught_by_def subclass_of_def mro.simps)

text \<open>Everything happened in one run from the empty tables.\<close>

lemma empty_rdb_inv: "items_inv empty_rdb"
proof -
  have "ledger_ok empty_rdb" by (rule blank_books_ok) (simp_all add: empty_rdb_def empty_db_def db.defs)
  then show ?thesis by (simp add: items_inv_def empty_rdb_def db.defs find_item_def)
qed

lemma settled_db_run: "\<exists>calls. runs_to empty_rdb settled_db calls"
proof -
  obtain b where "import_file demo_renv demo_fetch ''worldflow'' 19000 (Some ''USD'') empty_rdb = (Inr (Some b), imported_db)"
    using demo_imported by blast
  then have "runs_to empty_rdb imported_db []" by (rule import_file_ran)
  moreover obtain out s' calls where "reconcile_batch demo_renv (\<lambda>_. demo_renv) demo_batch ''scheduled'' 500 imported_db = (out, s', calls)"
    by (cases "reconcile_batch demo_renv (\<lambda>_. demo_renv) demo_batch ''scheduled'' 500 imported_db")
  moreover from this have "runs_to imported_db settled_db calls" using reconcile_batch_ran by (fastforce simp: settled_db_def)
  ultimately show ?thesis using runs_to_trans by blast
qed

lemma settled_db_inv: "items_inv settled_db"
  using settled_db_run recon_run_inv empty_rdb_inv by (auto simp: runs_to_def)

end
