(* ===== verification/Inbox.thy ===== *)
theory Inbox
  imports Settlements
begin

text \<open>
  The inbound side of the bus: \<^verbatim>\<open>src/app/consumers\<close> with the inbox \<^verbatim>\<open>processed_event\<close> and the
  projection repositories. A message is handled in one transaction: the claim of its event id and the
  effects of the handler commit together or not at all. The payload models live outside the
  repository; an event carries the fields they yield, a raw payload its keys as options, and a payload
  the models reject carries the exception they raise.
\<close>

section \<open>Events\<close>

record authorized_data =
  au_charge :: string
  au_merchant :: string
  au_amount :: int
  au_currency :: string
  au_acquirer :: string
  au_network_txn :: "string option"
  au_processor_reference :: "string option"
  au_capture_method :: string
  au_capture_at_settlement :: bool
  au_reserve_bps :: int
  au_platform_fee_bps :: int
  au_platform_fee_fixed_minor :: int
  au_authorized_at :: int

record captured_data =
  cd_charge :: string
  cd_merchant :: string
  cd_currency :: string
  cd_captured_amount :: int
  cd_captured_at :: int

record canceled_data =
  ca_charge :: "string option"
  ca_merchant :: "string option"
  ca_currency :: "string option"
  ca_released_amount :: "int option"

record refund_data =
  rf_refund :: string
  rf_charge :: string
  rf_merchant :: string
  rf_currency :: string
  rf_amount :: int
  rf_nets_against_settlement :: bool

record dispute_data =
  di_dispute :: string
  di_merchant :: string
  di_currency :: string
  di_amount :: int
  di_fee :: int

record dispute_closed_data =
  dc_dispute :: "string option"
  dc_outcome :: "string option"
  dc_merchant :: "string option"
  dc_currency :: "string option"
  dc_amount :: "int option"

record status_data =
  st_merchant :: string
  st_status :: string

record bank_data =
  bd_id :: "string option"
  bd_merchant :: "string option"
  bd_currency :: "string option"
  bd_country :: "string option"
  bd_scheme :: "string option"
  bd_account_number_token :: "string option"
  bd_routing_last_four :: "string option"
  bd_iban_last_four :: "string option"
  bd_bic :: "string option"
  bd_sort_code_last_four :: "string option"
  bd_is_default :: bool

text \<open>\<^verbatim>\<open>merchant.created\<close> carries every column, \<^verbatim>\<open>merchant.updated\<close> all but country and currency.\<close>

datatype event_body =
    PaymentAuthorized authorized_data | PaymentCaptured captured_data | PaymentCanceled canceled_data
  | RefundCreated refund_data | DisputeOpened dispute_data | DisputeClosed dispute_closed_data
  | MerchantCreated merchant_projection | MerchantUpdated merchant_projection
  | MerchantStatusChanged status_data | BankAccountVerified bank_data
  | Rejected string error | Other string

fun event_type :: "event_body \<Rightarrow> string" where
  "event_type (PaymentAuthorized _) = ''payment.authorized''"
| "event_type (PaymentCaptured _) = ''payment.captured''"
| "event_type (PaymentCanceled _) = ''payment.canceled''"
| "event_type (RefundCreated _) = ''refund.created''"
| "event_type (DisputeOpened _) = ''dispute.opened''"
| "event_type (DisputeClosed _) = ''dispute.closed''"
| "event_type (MerchantCreated _) = ''merchant.created''"
| "event_type (MerchantUpdated _) = ''merchant.updated''"
| "event_type (MerchantStatusChanged _) = ''merchant.status_changed''"
| "event_type (BankAccountVerified _) = ''merchant.bank_account_verified''"
| "event_type (Rejected t _) = t"
| "event_type (Other t) = t"

record event_envelope =
  en_id :: string
  en_occurred_at :: int
  en_livemode :: bool
  en_body :: event_body

record inbox_db = recon_db +
  processed_events :: "(string \<times> string \<times> int) list"

definition key_of :: "'b option \<Rightarrow> 'b res" where
  "key_of x = (case x of None \<Rightarrow> raise KeyError | Some v \<Rightarrow> Inr v)"

section \<open>The inbox\<close>

definition is_claimed :: "string \<Rightarrow> string \<Rightarrow> 'a inbox_db_scheme \<Rightarrow> bool" where
  "is_claimed event consumer s \<longleftrightarrow> (event, consumer) \<in> set (map (\<lambda>(e, c, _). (e, c)) (processed_events s))"

text \<open>\<^verbatim>\<open>INSERT ... ON CONFLICT DO NOTHING RETURNING\<close>.\<close>

definition claim_event :: "'e recon_env_scheme \<Rightarrow> string \<Rightarrow> string \<Rightarrow> 'a inbox_db_scheme \<Rightarrow> bool \<times> 'a inbox_db_scheme" where
  "claim_event E event consumer s =
    (if is_claimed event consumer s then (False, s)
     else (True, s\<lparr>processed_events := processed_events s @ [(event, consumer, env_wall E)]\<rparr>))"

definition purge_older_than :: "int \<Rightarrow> 'a inbox_db_scheme \<Rightarrow> nat \<times> 'a inbox_db_scheme" where
  "purge_older_than before s = (let kept = filter (\<lambda>(_, _, t). \<not> t < before) (processed_events s)
     in (length (processed_events s) - length kept, s\<lparr>processed_events := kept\<rparr>))"

definition list_for_event :: "string \<Rightarrow> 'a inbox_db_scheme \<Rightarrow> (string \<times> string \<times> int) list" where
  "list_for_event event s = sort_key (\<lambda>(_, c, _). c) (filter (\<lambda>(e, _, _). e = event) (processed_events s))"

section \<open>Projections of merchants and bank accounts\<close>

definition upsert_merchant_if_newer :: "merchant_projection \<Rightarrow> 'a db_scheme \<Rightarrow> bool \<times> 'a db_scheme" where
  "upsert_merchant_if_newer m s = (case find_merchant (mp_id m) s of
     None \<Rightarrow> (True, s\<lparr>merchants := merchants s @ [m]\<rparr>)
   | Some d \<Rightarrow> if \<not> mp_source_occurred_at d < mp_source_occurred_at m then (False, s)
             else (True, s\<lparr>merchants := update_where (\<lambda>x. mp_id x = mp_id m) (\<lambda>_. m) (merchants s)\<rparr>))"

definition update_status_if_newer :: "string \<Rightarrow> string \<Rightarrow> string \<Rightarrow> int \<Rightarrow> 'a db_scheme \<Rightarrow> bool \<times> 'a db_scheme" where
  "update_status_if_newer i status event occurred s = (case find_merchant i s of
     None \<Rightarrow> (False, s)
   | Some d \<Rightarrow> if \<not> mp_source_occurred_at d < occurred then (False, s)
             else (True, s\<lparr>merchants := update_where (\<lambda>x. mp_id x = i)
               (\<lambda>x. x\<lparr>mp_status := status, mp_source_event_id := event, mp_source_occurred_at := occurred\<rparr>) (merchants s)\<rparr>))"

text \<open>\<^verbatim>\<open>pix_bank_account_projection_default\<close>: one default per merchant, currency and mode, checked by every statement.\<close>

definition default_key :: "bank_account \<Rightarrow> string \<times> string \<times> bool" where
  "default_key b = (ba_merchant b, ba_currency b, ba_livemode b)"

definition default_clash :: "bank_account \<Rightarrow> bank_account list \<Rightarrow> bool" where
  "default_clash b bs \<longleftrightarrow> ba_is_default b \<and> (\<exists>x\<in>set bs. ba_id x \<noteq> ba_id b \<and> ba_is_default x \<and> default_key x = default_key b)"

definition upsert_bank_if_newer :: "bank_account \<Rightarrow> 'a db_scheme \<Rightarrow> (bool \<times> 'a db_scheme) res" where
  "upsert_bank_if_newer b s = (case find_bank (ba_id b) s of
     None \<Rightarrow> if default_clash b (banks s) then raise IntegrityError else Inr (True, s\<lparr>banks := banks s @ [b]\<rparr>)
   | Some d \<Rightarrow> if \<not> ba_source_occurred_at d < ba_source_occurred_at b then Inr (False, s)
             else if default_clash b (banks s) then raise IntegrityError
             else Inr (True, s\<lparr>banks := update_where (\<lambda>x. ba_id x = ba_id b) (\<lambda>_. b) (banks s)\<rparr>))"

definition clear_other_defaults :: "string \<Rightarrow> string \<Rightarrow> bool \<Rightarrow> string \<Rightarrow> 'a db_scheme \<Rightarrow> nat \<times> 'a db_scheme" where
  "clear_other_defaults m c l keep s = (let other = (\<lambda>x. ba_merchant x = m \<and> ba_currency x = c \<and> ba_livemode x = l \<and> ba_id x \<noteq> keep \<and> ba_is_default x)
     in (length (filter other (banks s)), s\<lparr>banks := update_where other (\<lambda>x. x\<lparr>ba_is_default := False\<rparr>) (banks s)\<rparr>))"

definition list_capture_at_settlement :: "nat \<Rightarrow> 'a db_scheme \<Rightarrow> merchant_projection list" where
  "list_capture_at_settlement limit s = take limit (sort_key mp_id (filter mp_capture_at_settlement (merchants s)))"

definition get_default_bank :: "string \<Rightarrow> string \<Rightarrow> bool \<Rightarrow> 'a db_scheme \<Rightarrow> bank_account res" where
  "get_default_bank m c l s = (case find_default_bank m c l s of None \<Rightarrow> raise BankAccountProjectionNotFoundError | Some b \<Rightarrow> Inr b)"

section \<open>Handlers of the payments topic\<close>

definition handler_context :: "string \<Rightarrow> string \<Rightarrow> bool \<Rightarrow> int \<Rightarrow> int \<Rightarrow> int \<Rightarrow> int \<Rightarrow> int \<Rightarrow> int \<Rightarrow> int \<Rightarrow> posting_context" where
  "handler_context m c l gross fee net scheme reserve_bps_v fee_bps fee_fixed = \<lparr>ctx_merchant_id = Some m, ctx_currency = c, ctx_livemode = l,
     gross_minor = gross, fee_minor = fee, net_minor = net, interchange_minor = 0, scheme_fee_minor = scheme,
     reserve_bps = reserve_bps_v, platform_fee_bps = fee_bps, platform_fee_fixed_minor = fee_fixed\<rparr>"

text \<open>The last two statements of every posting handler: build the lines, post them under the event's key.\<close>

definition post_event :: "'e recon_env_scheme \<Rightarrow> posting_rule \<Rightarrow> posting_context \<Rightarrow> string \<Rightarrow> string \<Rightarrow> string \<Rightarrow> string \<Rightarrow> string \<Rightarrow> string \<Rightarrow> on_conflict
    \<Rightarrow> 'a inbox_db_scheme \<Rightarrow> ('a inbox_db_scheme) res" where
  "post_event E rule ctx purpose key_purpose m ref_type ref_id event conflict s =
     bindE (build (env_contracts E) rule ctx) (\<lambda>lines.
     bindE (ledger_key key_purpose m ref_id) (\<lambda>key.
       mapE snd (post (books_env E) \<lparr>pr_key = key, pr_purpose = purpose, pr_merchant = Some m, pr_currency = ctx_currency ctx,
         pr_livemode = ctx_livemode ctx, pr_reference_type = ref_type, pr_reference_id = ref_id, pr_lines = lines,
         pr_created_by = ''system'', pr_fingerprint = event, pr_on_conflict = conflict\<rparr> s)))"

definition charge_projection :: "'e recon_env_scheme \<Rightarrow> authorized_data \<Rightarrow> string \<Rightarrow> int \<Rightarrow> bool \<Rightarrow> settlement_charge" where
  "charge_projection E d event occurred l = \<lparr>sc_id = au_charge d, sc_merchant = au_merchant d, sc_amount = au_amount d,
     sc_currency = au_currency d, sc_acquirer = au_acquirer d, sc_network_txn = au_network_txn d,
     sc_processor_reference = au_processor_reference d, sc_capture_method = au_capture_method d,
     sc_capture_at_settlement = au_capture_at_settlement d, sc_reserve_bps = au_reserve_bps d,
     sc_platform_fee_bps = au_platform_fee_bps d, sc_platform_fee_fixed_minor = au_platform_fee_fixed_minor d,
     sc_authorized_at = au_authorized_at d, sc_captured_at = None, sc_livemode = l, sc_updated_at = env_now E,
     sc_source_event_id = event, sc_source_occurred_at = occurred\<rparr>"

definition handle_payment_authorized :: "'e recon_env_scheme \<Rightarrow> authorized_data \<Rightarrow> string \<Rightarrow> int \<Rightarrow> bool \<Rightarrow> 'a inbox_db_scheme \<Rightarrow> ('a inbox_db_scheme) res" where
  "handle_payment_authorized E d event occurred l s =
     bindE (upsert_charge_if_newer (charge_projection E d event occurred l) s) (\<lambda>(written, s1).
       if \<not> written then Inr s1
       else post_event E AuthPostingRule (handler_context (au_merchant d) (au_currency d) l (au_amount d) 0 (au_amount d) 0
              (au_reserve_bps d) (au_platform_fee_bps d) (au_platform_fee_fixed_minor d))
            ''auth'' ''auth'' (au_merchant d) ''charge'' (au_charge d) event ReturnExisting s1)"

definition handle_payment_captured :: "'e recon_env_scheme \<Rightarrow> captured_data \<Rightarrow> string \<Rightarrow> int \<Rightarrow> bool \<Rightarrow> 'a inbox_db_scheme \<Rightarrow> ('a inbox_db_scheme) res" where
  "handle_payment_captured E d event occurred l s = bindE (get_charge_or_raise (cd_charge d) s) (\<lambda>c.
     if occurred < sc_source_occurred_at c then Inr s
     else let s1 = s\<lparr>settlement_charges := update_where (\<lambda>x. sc_id x = cd_charge d)
                (\<lambda>x. x\<lparr>sc_captured_at := Some (cd_captured_at d), sc_updated_at := env_now E\<rparr>) (settlement_charges s)\<rparr>
       in post_event E CapturePostingRule (handler_context (cd_merchant d) (cd_currency d) l (cd_captured_amount d) 0 (cd_captured_amount d) 0
              (sc_reserve_bps c) (sc_platform_fee_bps c) (sc_platform_fee_fixed_minor c))
            ''capture'' ''capture'' (cd_merchant d) ''charge'' (cd_charge d) event ReturnExisting s1)"

definition handle_payment_canceled :: "'e recon_env_scheme \<Rightarrow> canceled_data \<Rightarrow> string \<Rightarrow> bool \<Rightarrow> 'a inbox_db_scheme \<Rightarrow> ('a inbox_db_scheme) res" where
  "handle_payment_canceled E d event l s = (case ca_charge d of None \<Rightarrow> Inr s
   | Some charge \<Rightarrow> bindE (key_of (ca_merchant d)) (\<lambda>m. bindE (key_of (ca_currency d)) (\<lambda>c. bindE (key_of (ca_released_amount d)) (\<lambda>amount.
       post_event E AuthReleasePostingRule (handler_context m c l amount 0 amount 0 0 0 0)
         ''auth_release'' ''authrelease'' m ''charge'' charge event ReturnExisting s))))"

definition handle_refund_created :: "'e recon_env_scheme \<Rightarrow> refund_data \<Rightarrow> string \<Rightarrow> bool \<Rightarrow> 'a inbox_db_scheme \<Rightarrow> ('a inbox_db_scheme) res" where
  "handle_refund_created E d event l s = (if rf_nets_against_settlement d then Inr s
     else post_event E SettlementRefundPostingRule (handler_context (rf_merchant d) (rf_currency d) l (rf_amount d) 0 (rf_amount d) 0 0 0 0)
            ''refund'' ''refund'' (rf_merchant d) ''refund'' (rf_refund d) event ReturnExisting s)"

definition handle_dispute_opened :: "'e recon_env_scheme \<Rightarrow> dispute_data \<Rightarrow> string \<Rightarrow> bool \<Rightarrow> 'a inbox_db_scheme \<Rightarrow> ('a inbox_db_scheme) res" where
  "handle_dispute_opened E d event l s = bindE (ledger_key ''dispute'' (di_merchant d) (di_dispute d)) (\<lambda>key.
     if find_by_idempotency_key key s \<noteq> None then raise DuplicateDisputeError
     else post_event E DisputePostingRule (handler_context (di_merchant d) (di_currency d) l (di_amount d) (di_fee d) (di_amount d - di_fee d) (di_fee d) 0 0 0)
            ''dispute'' ''dispute'' (di_merchant d) ''dispute'' (di_dispute d) event RaiseConflict s)"

definition handle_dispute_closed :: "'e recon_env_scheme \<Rightarrow> dispute_closed_data \<Rightarrow> string \<Rightarrow> bool \<Rightarrow> 'a inbox_db_scheme \<Rightarrow> ('a inbox_db_scheme) res" where
  "handle_dispute_closed E d event l s =
    (if dc_outcome d \<noteq> Some ''won'' then bindE (key_of (dc_dispute d)) (\<lambda>_. Inr s)
     else bindE (key_of (dc_merchant d)) (\<lambda>m. bindE (key_of (dc_currency d)) (\<lambda>c. bindE (key_of (dc_amount d)) (\<lambda>amount.
       bindE (build (env_contracts E) ChargebackReversalPostingRule (handler_context m c l amount 0 amount 0 0 0 0)) (\<lambda>_.
       bindE (key_of (dc_dispute d)) (\<lambda>dispute.
         post_event E ChargebackReversalPostingRule (handler_context m c l amount 0 amount 0 0 0 0)
           (rule_purpose ChargebackReversalPostingRule) ''disputewon'' m ''dispute'' dispute event ReturnExisting s))))))"

section \<open>Handlers of the merchant topic\<close>

definition stamped :: "merchant_projection \<Rightarrow> string \<Rightarrow> int \<Rightarrow> bool \<Rightarrow> merchant_projection" where
  "stamped m event occurred l = m\<lparr>mp_livemode := l, mp_source_event_id := event, mp_source_occurred_at := occurred\<rparr>"

definition handle_merchant_created :: "'e recon_env_scheme \<Rightarrow> merchant_projection \<Rightarrow> string \<Rightarrow> int \<Rightarrow> bool \<Rightarrow> 'a inbox_db_scheme \<Rightarrow> ('a inbox_db_scheme) res" where
  "handle_merchant_created E m event occurred l s =
    (case upsert_merchant_if_newer (stamped m event occurred l) s of (written, s1) \<Rightarrow>
       if \<not> written then Inr s1
       else mapE snd (bootstrap (books_env E) (mp_id m) (text_or (mp_default_currency m) []) l s1))"

definition handle_merchant_updated :: "merchant_projection \<Rightarrow> string \<Rightarrow> int \<Rightarrow> bool \<Rightarrow> 'a inbox_db_scheme \<Rightarrow> ('a inbox_db_scheme) res" where
  "handle_merchant_updated m event occurred l s = (case find_merchant (mp_id m) s of None \<Rightarrow> Inr s
   | Some existing \<Rightarrow> Inr (snd (upsert_merchant_if_newer
       ((stamped m event occurred l)\<lparr>mp_country := mp_country existing, mp_default_currency := mp_default_currency existing\<rparr>) s)))"

definition handle_merchant_status_changed :: "status_data \<Rightarrow> string \<Rightarrow> int \<Rightarrow> 'a inbox_db_scheme \<Rightarrow> ('a inbox_db_scheme) res" where
  "handle_merchant_status_changed d event occurred s = Inr (snd (update_status_if_newer (st_merchant d) (st_status d) event occurred s))"

definition bank_projection :: "bank_data \<Rightarrow> string \<Rightarrow> int \<Rightarrow> bool \<Rightarrow> bank_account res" where
  "bank_projection d event occurred l =
     bindE (key_of (bd_id d)) (\<lambda>i. bindE (key_of (bd_merchant d)) (\<lambda>m. bindE (key_of (bd_currency d)) (\<lambda>c.
     bindE (key_of (bd_country d)) (\<lambda>co. bindE (key_of (bd_scheme d)) (\<lambda>sch. bindE (key_of (bd_account_number_token d)) (\<lambda>tok.
       Inr \<lparr>ba_id = i, ba_merchant = m, ba_currency = c, ba_country = co, ba_scheme = sch, ba_account_number_token = tok,
         ba_routing_last_four = bd_routing_last_four d, ba_iban_last_four = bd_iban_last_four d, ba_bic = bd_bic d,
         ba_sort_code_last_four = bd_sort_code_last_four d, ba_status = ''verified'', ba_is_default = bd_is_default d, ba_livemode = l,
         ba_source_event_id = event, ba_source_occurred_at = occurred\<rparr>))))))"

definition handle_bank_account_verified :: "bank_data \<Rightarrow> string \<Rightarrow> int \<Rightarrow> bool \<Rightarrow> 'a inbox_db_scheme \<Rightarrow> ('a inbox_db_scheme) res" where
  "handle_bank_account_verified d event occurred l s =
     bindE (bank_projection d event occurred l) (\<lambda>b.
     bindE (upsert_bank_if_newer b s) (\<lambda>(written, s1).
       if \<not> written then Inr s1
       else if ba_is_default b then Inr (snd (clear_other_defaults (ba_merchant b) (ba_currency b) l (ba_id b) s1))
       else Inr s1))"

section \<open>The consumers\<close>

datatype consumer = PaymentEventConsumer | MerchantEventConsumer

fun consumer_name :: "consumer \<Rightarrow> string" where
  "consumer_name PaymentEventConsumer = ''payment_events''"
| "consumer_name MerchantEventConsumer = ''merchant_events''"

fun handled_types :: "consumer \<Rightarrow> string list" where
  "handled_types PaymentEventConsumer = [''payment.authorized'', ''payment.captured'', ''payment.canceled'', ''refund.created'',
     ''dispute.opened'', ''dispute.closed'']"
| "handled_types MerchantEventConsumer = [''merchant.created'', ''merchant.updated'', ''merchant.status_changed'', ''merchant.bank_account_verified'']"

fun handle :: "consumer \<Rightarrow> 'e recon_env_scheme \<Rightarrow> event_envelope \<Rightarrow> 'a inbox_db_scheme \<Rightarrow> ('a inbox_db_scheme) res" where
  "handle c E ev s = (case (c, en_body ev) of
     (PaymentEventConsumer, PaymentAuthorized d) \<Rightarrow> handle_payment_authorized E d (en_id ev) (en_occurred_at ev) (en_livemode ev) s
   | (PaymentEventConsumer, PaymentCaptured d) \<Rightarrow> handle_payment_captured E d (en_id ev) (en_occurred_at ev) (en_livemode ev) s
   | (PaymentEventConsumer, PaymentCanceled d) \<Rightarrow> handle_payment_canceled E d (en_id ev) (en_livemode ev) s
   | (PaymentEventConsumer, RefundCreated d) \<Rightarrow> handle_refund_created E d (en_id ev) (en_livemode ev) s
   | (PaymentEventConsumer, DisputeOpened d) \<Rightarrow> handle_dispute_opened E d (en_id ev) (en_livemode ev) s
   | (PaymentEventConsumer, DisputeClosed d) \<Rightarrow> handle_dispute_closed E d (en_id ev) (en_livemode ev) s
   | (MerchantEventConsumer, MerchantCreated m) \<Rightarrow> handle_merchant_created E m (en_id ev) (en_occurred_at ev) (en_livemode ev) s
   | (MerchantEventConsumer, MerchantUpdated m) \<Rightarrow> handle_merchant_updated m (en_id ev) (en_occurred_at ev) (en_livemode ev) s
   | (MerchantEventConsumer, MerchantStatusChanged d) \<Rightarrow> handle_merchant_status_changed d (en_id ev) (en_occurred_at ev) s
   | (MerchantEventConsumer, BankAccountVerified d) \<Rightarrow> handle_bank_account_verified d (en_id ev) (en_occurred_at ev) (en_livemode ev) s
   | (_, Rejected t e) \<Rightarrow> Inl e
   | _ \<Rightarrow> Inr s)"

text \<open>A message that cannot be parsed stays on the queue, a type that is not handled is deleted unclaimed.\<close>

datatype message = Unparseable | Delivered event_envelope

definition handle_message :: "consumer \<Rightarrow> 'e recon_env_scheme \<Rightarrow> message \<Rightarrow> 'a inbox_db_scheme \<Rightarrow> bool res \<times> 'a inbox_db_scheme" where
  "handle_message c E msg s = (case msg of Unparseable \<Rightarrow> (Inr False, s)
   | Delivered ev \<Rightarrow> if event_type (en_body ev) \<notin> set (handled_types c) then (Inr True, s)
       else (case claim_event E (en_id ev) (consumer_name c) s of (claimed, s1) \<Rightarrow>
         if \<not> claimed then (Inr True, s1)
         else (case handle c E ev s1 of
             Inr s2 \<Rightarrow> (Inr True, s2)
           | Inl e \<Rightarrow> if caught_by e PayzenoLedgerError then (Inr False, s) else (Inl e, s))))"

text \<open>
  The body of the poll loop over one receive: each message in its order, with the flags of those to
  be deleted. An exception that is not the service's own leaves the loop, and with it the consumer.
\<close>

fun consume :: "consumer \<Rightarrow> (nat \<Rightarrow> 'e recon_env_scheme) \<Rightarrow> nat \<Rightarrow> message list \<Rightarrow> 'a inbox_db_scheme \<Rightarrow> bool list \<times> error option \<times> 'a inbox_db_scheme" where
  "consume c F k [] s = ([], None, s)"
| "consume c F k (msg # msgs) s = (case handle_message c (F k) msg s of
     (Inl e, s1) \<Rightarrow> ([], Some e, s1)
   | (Inr d, s1) \<Rightarrow> (case consume c F (Suc k) msgs s1 of (ds, out, s2) \<Rightarrow> (d # ds, out, s2)))"

end
