(* ===== verification/Inbox_Inv.thy ===== *)
theory Inbox_Inv
  imports Inbox Recon_Types
begin

text \<open>
  What the consumers promise. Every delivery is a run of quiet steps, so the invariants of the books
  and of reconciliation hold across it; an event takes effect at most once per consumer, in whatever
  order and how often it is delivered; full projections converge to the newest event in any order, a
  partial one does not; and a second default bank account ends the consumer.
\<close>

section \<open>Deliveries are runs\<close>

lemma books_quiet: "ledger_step s s' \<Longrightarrow> runs_to s s' []" by (intro runs_to_quiet quiet_books)

lemma tables_quiet: "accounts s' = accounts s \<Longrightarrow> transactions s' = transactions s \<Longrightarrow> entries s' = entries s
    \<Longrightarrow> balance_cache s' = balance_cache s \<Longrightarrow> recon_items s' = recon_items s \<Longrightarrow> runs_to s s' []"
  by (intro runs_to_quiet quiet_tables)

lemma post_event_ran: "post_event E rule ctx purpose kp m rt ri ev cf s = Inr s' \<Longrightarrow> runs_to s s' []"
  by (auto simp: post_event_def bindE_Inr_iff mapE_Inr_iff dest!: step_post intro: books_quiet)

lemma upsert_charge_ran: "upsert_charge_if_newer c s = Inr (w, s') \<Longrightarrow> runs_to s s' []"
  by (auto simp: upsert_charge_if_newer_def split: option.splits if_splits intro!: tables_quiet)

lemma upsert_merchant_ran: "runs_to s (snd (upsert_merchant_if_newer m s)) []"
  by (intro tables_quiet) (auto simp: upsert_merchant_if_newer_def split: option.splits)

lemma update_status_ran: "runs_to s (snd (update_status_if_newer i st ev oc s)) []"
  by (intro tables_quiet) (auto simp: update_status_if_newer_def split: option.splits)

lemma upsert_bank_ran: "upsert_bank_if_newer b s = Inr (w, s') \<Longrightarrow> runs_to s s' []"
  by (auto simp: upsert_bank_if_newer_def split: option.splits if_splits intro!: tables_quiet)

lemma clear_defaults_ran: "runs_to s (snd (clear_other_defaults m c l keep s)) []"
  by (intro tables_quiet) (auto simp: clear_other_defaults_def Let_def)

lemma handle_authorized_ran: "handle_payment_authorized E d ev oc l s = Inr s' \<Longrightarrow> runs_to s s' []"
  by (auto simp: handle_payment_authorized_def bindE_Inr_iff split: if_splits
      dest!: upsert_charge_ran post_event_ran intro: quiet_trans)

lemma captured_stamp_ran:
  "runs_to s (s\<lparr>settlement_charges := cs\<rparr>) []"
  by (rule tables_quiet) simp_all

lemma handle_captured_ran: "handle_payment_captured E d ev oc l s = Inr s' \<Longrightarrow> runs_to s s' []"
  by (auto simp: handle_payment_captured_def bindE_Inr_iff Let_def split: if_splits
      dest!: post_event_ran intro: quiet_trans [OF captured_stamp_ran])

lemma handle_created_ran:
  assumes "handle_merchant_created E m ev oc l s = Inr s'" shows "runs_to s s' []"
proof -
  obtain w s1 where u: "upsert_merchant_if_newer (stamped m ev oc l) s = (w, s1)" by (cases "upsert_merchant_if_newer (stamped m ev oc l) s")
  have s1: "runs_to s s1 []" using upsert_merchant_ran [of s "stamped m ev oc l"] u by simp
  have "s' = s1 \<or> (\<exists>as. bootstrap (books_env E) (mp_id m) (text_or (mp_default_currency m) []) l s1 = Inr (as, s'))"
    using assms u by (auto simp: handle_merchant_created_def mapE_Inr_iff split: if_splits)
  then show ?thesis using s1 quiet_trans [OF s1 books_quiet [OF step_bootstrap]] by blast
qed

lemma handle_bank_ran:
  assumes "handle_bank_account_verified d ev oc l s = Inr s'" shows "runs_to s s' []"
proof -
  obtain b w s1 where "upsert_bank_if_newer b s = Inr (w, s1)"
    and s': "s' = s1 \<or> s' = snd (clear_other_defaults (ba_merchant b) (ba_currency b) l (ba_id b) s1)"
    using assms by (auto simp: handle_bank_account_verified_def bindE_Inr_iff split: if_splits)
  then show ?thesis using quiet_trans [OF upsert_bank_ran clear_defaults_ran] upsert_bank_ran by blast
qed

lemma handle_ran: "handle c E ev s = Inr s' \<Longrightarrow> runs_to s s' []"
  by (auto split: consumer.splits event_body.splits prod.splits
      simp: handle_merchant_status_changed_def handle_merchant_updated_def handle_payment_canceled_def handle_refund_created_def
        handle_dispute_opened_def handle_dispute_closed_def bindE_Inr_iff
      split: option.splits if_splits
      intro: handle_authorized_ran handle_captured_ran handle_created_ran handle_bank_ran upsert_merchant_ran update_status_ran post_event_ran)

lemma claim_ran: "runs_to s (snd (claim_event E i c s)) []"
  by (intro tables_quiet) (auto simp: claim_event_def)

lemma handle_message_cases:
  assumes "handle_message c E msg s = (out, s')"
  obtains (kept) "s' = s"
  | (applied) ev where "msg = Delivered ev" "event_type (en_body ev) \<in> set (handled_types c)" "\<not> is_claimed (en_id ev) (consumer_name c) s"
      "handle c E ev (snd (claim_event E (en_id ev) (consumer_name c) s)) = Inr s'" "out = Inr True"
  using assms by (auto simp: handle_message_def claim_event_def simp del: handle.simps split: message.splits if_splits sum.splits)

lemma handle_message_ran: "handle_message c E msg s = (out, s') \<Longrightarrow> runs_to s s' []"
  by (erule handle_message_cases) (auto intro: quiet_trans [OF claim_ran handle_ran] simp del: handle.simps)

lemma consume_ran: "consume c F k msgs s = (ds, out, s') \<Longrightarrow> runs_to s s' []"
proof (induction msgs arbitrary: k s ds)
  case (Cons msg msgs)
  obtain o1 s1 where h: "handle_message c (F k) msg s = (o1, s1)" by (cases "handle_message c (F k) msg s")
  show ?case using Cons handle_message_ran [OF h] h by (auto split: sum.splits prod.splits intro: quiet_trans)
qed simp

section \<open>At most once\<close>

lemma inbox_tables: "ledger.more s' = ledger.more s \<Longrightarrow> processed_events s' = processed_events s"
  by (cases s; cases s') simp

lemma run_ledger_ok: "runs_to s s' calls \<Longrightarrow> ledger_ok s \<Longrightarrow> ledger_ok s'"
  unfolding runs_to_def using recon_run_row row_step_keeps keeps_booksD by blast

lemma post_event_inbox:
  assumes "post_event E rule ctx purpose kp m rt ri ev cf s = Inr s'" "ledger_ok s" shows "processed_events s' = processed_events s"
proof -
  obtain r x where "post (books_env E) r s = Inr (x, s')" using assms(1) by (auto simp: post_event_def bindE_Inr_iff mapE_Inr_iff)
  then show ?thesis using post_tables assms(2) by (intro inbox_tables) (auto simp: ledger_ok_def)
qed

lemma bootstrap_inbox: "bootstrap E m c l s = Inr (as, s') \<Longrightarrow> processed_events s' = processed_events s"
  unfolding bootstrap_def using bootstrap_types_tables inbox_tables by blast

lemma upserts_inbox [simp]:
  "processed_events (snd (upsert_merchant_if_newer m s)) = processed_events s"
  "processed_events (snd (update_status_if_newer i st ev oc s)) = processed_events s"
  "processed_events (snd (clear_other_defaults k c l keep s)) = processed_events s"
  by (auto simp: upsert_merchant_if_newer_def update_status_if_newer_def clear_other_defaults_def Let_def split: option.splits)

lemma fallible_upserts_inbox:
  "upsert_charge_if_newer c s = Inr (w, s') \<Longrightarrow> processed_events s' = processed_events s"
  "upsert_bank_if_newer b s = Inr (w, s') \<Longrightarrow> processed_events s' = processed_events s"
  by (auto simp: upsert_charge_if_newer_def upsert_bank_if_newer_def split: option.splits if_splits)

lemma authorized_inbox:
  assumes h: "handle_payment_authorized E d ev oc l s = Inr s'" and ok: "ledger_ok s" shows "processed_events s' = processed_events s"
proof (cases "upsert_charge_if_newer (charge_projection E d ev oc l) s")
  case (Inr r)
  obtain w s1 where u: "upsert_charge_if_newer (charge_projection E d ev oc l) s = Inr (w, s1)" using Inr by (cases r) auto
  have ok1: "ledger_ok s1" using run_ledger_ok [OF upsert_charge_ran [OF u] ok] .
  have "processed_events s' = processed_events s1"
  proof (cases w)
    case True
    then show ?thesis using h u by (auto simp: handle_payment_authorized_def elim!: post_event_inbox [OF _ ok1])
  qed (use h u in \<open>simp add: handle_payment_authorized_def\<close>)
  then show ?thesis using fallible_upserts_inbox(1) [OF u] by simp
qed (use h in \<open>simp add: handle_payment_authorized_def\<close>)

lemma captured_inbox:
  assumes h: "handle_payment_captured E d ev oc l s = Inr s'" and ok: "ledger_ok s" shows "processed_events s' = processed_events s"
proof -
  have stamp: "post_event E r c p k m t i ev f (s\<lparr>settlement_charges := cs\<rparr>) = Inr s' \<Longrightarrow> ledger_ok (s\<lparr>settlement_charges := cs\<rparr>)
      \<Longrightarrow> processed_events s' = processed_events s" for r c p k m t i f cs
    by (drule post_event_inbox) simp_all
  show ?thesis using h run_ledger_ok [OF captured_stamp_ran ok]
    by (auto simp: handle_payment_captured_def bindE_Inr_iff Let_def split: if_splits intro: stamp)
qed

lemma created_inbox:
  assumes h: "handle_merchant_created E m ev oc l s = Inr s'" shows "processed_events s' = processed_events s"
proof -
  obtain w s1 where u: "upsert_merchant_if_newer (stamped m ev oc l) s = (w, s1)" by (cases "upsert_merchant_if_newer (stamped m ev oc l) s")
  have "processed_events s1 = processed_events s" using upserts_inbox(1) [of "stamped m ev oc l" s] u by simp
  then show ?thesis using h u by (auto simp: handle_merchant_created_def mapE_Inr_iff split: if_splits dest: bootstrap_inbox)
qed

lemma bank_inbox: "handle_bank_account_verified d ev oc l s = Inr s' \<Longrightarrow> processed_events s' = processed_events s"
  by (auto simp: handle_bank_account_verified_def bindE_Inr_iff split: if_splits dest!: fallible_upserts_inbox(2))

lemma handle_inbox: "handle c E ev s = Inr s' \<Longrightarrow> ledger_ok s \<Longrightarrow> processed_events s' = processed_events s"
  by (auto split: consumer.splits event_body.splits prod.splits
      simp: handle_merchant_status_changed_def handle_merchant_updated_def handle_payment_canceled_def handle_refund_created_def
        handle_dispute_opened_def handle_dispute_closed_def bindE_Inr_iff
      split: option.splits if_splits
      dest: authorized_inbox captured_inbox created_inbox bank_inbox post_event_inbox)

text \<open>The effect of a delivery: the claim it commits, if the handler ran and returned.\<close>

definition applied_by :: "consumer \<Rightarrow> 'e recon_env_scheme \<Rightarrow> message \<Rightarrow> 'a inbox_db_scheme \<Rightarrow> (string \<times> string) list" where
  "applied_by c E msg s = (case msg of Unparseable \<Rightarrow> []
   | Delivered ev \<Rightarrow> if event_type (en_body ev) \<in> set (handled_types c) \<and> \<not> is_claimed (en_id ev) (consumer_name c) s
         \<and> is_ok (handle c E ev (snd (claim_event E (en_id ev) (consumer_name c) s)))
       then [(en_id ev, consumer_name c)] else [])"

fun deliver_all :: "(consumer \<times> 'e recon_env_scheme \<times> message) list \<Rightarrow> 'a inbox_db_scheme \<Rightarrow> (string \<times> string) list \<times> 'a inbox_db_scheme" where
  "deliver_all [] s = ([], s)"
| "deliver_all ((c, E, msg) # ds) s = (case deliver_all ds (snd (handle_message c E msg s)) of (tr, s') \<Rightarrow> (applied_by c E msg s @ tr, s'))"

lemma not_applied:
  assumes "applied_by c E msg s = []" "handle_message c E msg s = (out, s')" shows "s' = s"
  using assms(2)
proof (cases rule: handle_message_cases)
  case (applied ev)
  then show ?thesis using assms(1) by (simp add: applied_by_def is_ok_def del: handle.simps)
qed simp

lemma applied_claims:
  assumes h: "handle_message c E msg s = (out, s')" and ok: "ledger_ok s"
  shows "is_claimed i n s' \<longleftrightarrow> is_claimed i n s \<or> (i, n) \<in> set (applied_by c E msg s)"
    "(i, n) \<in> set (applied_by c E msg s) \<Longrightarrow> \<not> is_claimed i n s"
proof -
  show "(i, n) \<in> set (applied_by c E msg s) \<Longrightarrow> \<not> is_claimed i n s"
    by (auto simp: applied_by_def simp del: handle.simps split: message.splits if_splits)
  show "is_claimed i n s' \<longleftrightarrow> is_claimed i n s \<or> (i, n) \<in> set (applied_by c E msg s)"
    using h
  proof (cases rule: handle_message_cases)
    case kept
    have "applied_by c E msg s = [] \<or> is_ok out \<and> (\<exists>j m. applied_by c E msg s = [(j, m)] \<and> is_claimed j m s')"
    proof (cases "applied_by c E msg s = []")
      case False
      then obtain ev where ev: "msg = Delivered ev" "event_type (en_body ev) \<in> set (handled_types c)" "\<not> is_claimed (en_id ev) (consumer_name c) s"
        "is_ok (handle c E ev (snd (claim_event E (en_id ev) (consumer_name c) s)))"
        by (auto simp: applied_by_def simp del: handle.simps split: message.splits if_splits)
      then obtain s2 where s2: "handle c E ev (snd (claim_event E (en_id ev) (consumer_name c) s)) = Inr s2"
        by (auto simp: is_ok_def simp del: handle.simps split: sum.splits)
      then have "out = Inr True" "s' = s2" using h ev by (auto simp: handle_message_def claim_event_def simp del: handle.simps)
      moreover have "ledger_ok (snd (claim_event E (en_id ev) (consumer_name c) s))" using run_ledger_ok [OF claim_ran ok] .
      then have "processed_events s2 = processed_events (snd (claim_event E (en_id ev) (consumer_name c) s))" using handle_inbox [OF s2] by simp
      then have "is_claimed (en_id ev) (consumer_name c) s2" using ev by (simp add: is_claimed_def claim_event_def)
      ultimately show ?thesis using ev by (simp add: applied_by_def is_ok_def del: handle.simps)
    qed simp
    then show ?thesis using kept by auto
  next
    case (applied ev)
    have "ledger_ok (snd (claim_event E (en_id ev) (consumer_name c) s))" using run_ledger_ok [OF claim_ran ok] .
    then have "processed_events s' = processed_events s @ [(en_id ev, consumer_name c, env_wall E)]"
      using handle_inbox [OF applied(4)] applied(3) by (simp add: claim_event_def)
    moreover have "applied_by c E msg s = [(en_id ev, consumer_name c)]"
      using applied by (simp add: applied_by_def is_ok_def del: handle.simps)
    ultimately show ?thesis by (auto simp: is_claimed_def)
  qed
qed

lemma applied_single: "length (applied_by c E msg s) \<le> 1"
  by (auto simp: applied_by_def simp del: handle.simps split: message.splits)

lemma deliver_all_once:
  "deliver_all ds s = (tr, s') \<Longrightarrow> ledger_ok s \<Longrightarrow>
     distinct tr \<and> (\<forall>(i, n)\<in>set tr. \<not> is_claimed i n s) \<and> (\<forall>i n. is_claimed i n s' \<longleftrightarrow> is_claimed i n s \<or> (i, n) \<in> set tr) \<and> ledger_ok s'"
proof (induction ds s arbitrary: tr s' rule: deliver_all.induct)
  case (2 c E msg ds s)
  obtain out s1 where h: "handle_message c E msg s = (out, s1)" by (cases "handle_message c E msg s")
  obtain tr1 where d: "deliver_all ds s1 = (tr1, s')" and tr: "tr = applied_by c E msg s @ tr1"
    using 2(2) h by (auto split: prod.splits)
  have ok: "ledger_ok s1" using run_ledger_ok [OF handle_message_ran [OF h] 2(3)] .
  have IH: "distinct tr1" "\<forall>(i, n)\<in>set tr1. \<not> is_claimed i n s1" "\<forall>i n. is_claimed i n s' \<longleftrightarrow> is_claimed i n s1 \<or> (i, n) \<in> set tr1" "ledger_ok s'"
    using 2(1) [of tr1 s'] d ok by (simp_all add: h)
  note cl = applied_claims [OF h 2(3)]
  have "distinct (applied_by c E msg s)" using applied_single [of c E msg s] by (cases "applied_by c E msg s") auto
  moreover have "set (applied_by c E msg s) \<inter> set tr1 = {}" using IH(2) cl(1) by fastforce
  moreover have "\<forall>(i, n)\<in>set tr. \<not> is_claimed i n s" using IH(2) cl unfolding tr by fastforce
  ultimately show ?case using IH cl(1) unfolding tr by auto
qed auto

section \<open>Projections\<close>

definition newest :: "string \<Rightarrow> merchant_projection \<Rightarrow> merchant_projection option \<Rightarrow> merchant_projection option" where
  "newest i m x = (if mp_id m \<noteq> i then x
     else case x of None \<Rightarrow> Some m | Some d \<Rightarrow> if mp_source_occurred_at d < mp_source_occurred_at m then Some m else Some d)"

lemma find_merchantD: "find_merchant i s = Some d \<Longrightarrow> mp_id d = i"
  unfolding find_merchant_def by (drule find_first_SomeD) simp

lemma find_first_append_one: "find_first P (xs @ [x]) = (case find_first P xs of None \<Rightarrow> if P x then Some x else None | Some y \<Rightarrow> Some y)"
  by (induction xs) auto

lemma upsert_newest: "find_merchant i (snd (upsert_merchant_if_newer m s)) = newest i m (find_merchant i s)"
proof (cases "find_merchant (mp_id m) s")
  case None
  then show ?thesis
    by (auto simp: upsert_merchant_if_newer_def find_merchant_def newest_def find_first_append_one split: option.splits)
next
  case (Some d)
  have "find_first (\<lambda>x. mp_id x = i) (update_where (\<lambda>x. mp_id x = mp_id m) (\<lambda>_. m) xs)
      = (if mp_id m = i then map_option (\<lambda>_. m) (find_first (\<lambda>x. mp_id x = i) xs) else find_first (\<lambda>x. mp_id x = i) xs)" for xs
    by (induction xs) (auto simp: update_where_def)
  then show ?thesis using Some
    by (auto simp: upsert_merchant_if_newer_def find_merchant_def newest_def split: option.splits)
qed

lemma fold_upserts: "find_merchant i (fold (\<lambda>m t. snd (upsert_merchant_if_newer m t)) ms s) = fold (newest i) ms (find_merchant i s)"
  by (induction ms arbitrary: s) (simp_all add: upsert_newest)

lemma newest_commute:
  assumes "(mp_id a, mp_source_occurred_at a) = (mp_id b, mp_source_occurred_at b) \<longrightarrow> a = b"
  shows "newest i a \<circ> newest i b = newest i b \<circ> newest i a"
  using assms by (intro ext) (cases "mp_id a = i"; cases "mp_id b = i"; auto simp: newest_def split: option.split if_splits)

lemma projections_converge:
  assumes "mset ms = mset ms'" "distinct (map (\<lambda>m. (mp_id m, mp_source_occurred_at m)) ms)"
  shows "find_merchant i (fold (\<lambda>m t. snd (upsert_merchant_if_newer m t)) ms s)
       = find_merchant i (fold (\<lambda>m t. snd (upsert_merchant_if_newer m t)) ms' s)"
proof -
  have "fold (newest i) ms = fold (newest i) ms'"
    using assms by (intro fold_multiset_equiv newest_commute) (auto simp: distinct_map inj_on_def)
  then show ?thesis by (simp add: fold_upserts)
qed

text \<open>The newest stored event wins, and a delivery never goes back in time.\<close>

lemma newest_max:
  "fold (newest i) ms x = Some d \<Longrightarrow> (case x of None \<Rightarrow> True | Some y \<Rightarrow> mp_source_occurred_at y \<le> mp_source_occurred_at d)
     \<and> (\<forall>m\<in>set ms. mp_id m = i \<longrightarrow> mp_source_occurred_at m \<le> mp_source_occurred_at d)"
proof (induction ms arbitrary: x)
  case (Cons m ms)
  have IH: "case newest i m x of None \<Rightarrow> True | Some y \<Rightarrow> mp_source_occurred_at y \<le> mp_source_occurred_at d"
    "\<forall>m\<in>set ms. mp_id m = i \<longrightarrow> mp_source_occurred_at m \<le> mp_source_occurred_at d"
    using Cons.IH [of "newest i m x"] Cons.prems by simp_all
  have "case x of None \<Rightarrow> True | Some y \<Rightarrow> mp_source_occurred_at y \<le> mp_source_occurred_at d"
    "mp_id m = i \<Longrightarrow> mp_source_occurred_at m \<le> mp_source_occurred_at d"
    using IH(1) by (auto simp: newest_def split: option.splits if_splits)
  then show ?case using IH(2) by auto
qed auto

text \<open>A status event is partial: a full update that occurred before it is dropped with all its fields.\<close>

lemma late_update_lost:
  assumes "find_merchant (mp_id m) s = Some d" "occurred \<le> mp_source_occurred_at d"
  shows "handle_merchant_updated m event occurred l s = Inr s"
  using assms by (simp add: handle_merchant_updated_def upsert_merchant_if_newer_def stamped_def)

text \<open>An update that arrives before its merchant is claimed and lost.\<close>

lemma early_update_lost:
  assumes "find_merchant (mp_id m) s = None" "\<not> is_claimed i ''merchant_events'' s"
  shows "\<exists>s'. handle_message MerchantEventConsumer E (Delivered \<lparr>en_id = i, en_occurred_at = t, en_livemode = l, en_body = MerchantUpdated m\<rparr>) s = (Inr True, s')
    \<and> is_claimed i ''merchant_events'' s' \<and> merchants s' = merchants s"
  using assms by (simp add: handle_message_def claim_event_def handle_merchant_updated_def find_merchant_def is_claimed_def)

section \<open>A second default account\<close>

lemma second_default_clashes:
  assumes "x \<in> set (banks s)" "ba_id x \<noteq> ba_id b" "ba_is_default x" "default_key x = default_key b" "ba_is_default b"
    and "case find_bank (ba_id b) s of None \<Rightarrow> True | Some d \<Rightarrow> ba_source_occurred_at d < ba_source_occurred_at b"
  shows "upsert_bank_if_newer b s = raise IntegrityError"
  using assms by (auto simp: upsert_bank_if_newer_def default_clash_def split: option.splits)

lemma second_default_stops:
  assumes body: "en_body ev = BankAccountVerified d" and b: "bank_projection d (en_id ev) (en_occurred_at ev) (en_livemode ev) = Inr b"
    and new: "\<not> is_claimed (en_id ev) ''merchant_events'' s"
    and clash: "x \<in> set (banks s)" "ba_id x \<noteq> ba_id b" "ba_is_default x" "default_key x = default_key b" "ba_is_default b"
    and fresh: "case find_bank (ba_id b) s of None \<Rightarrow> True | Some y \<Rightarrow> ba_source_occurred_at y < ba_source_occurred_at b"
  shows "consume MerchantEventConsumer F k (Delivered ev # msgs) s = ([], Some (exn IntegrityError), s)"
proof -
  let ?s = "s\<lparr>processed_events := processed_events s @ [(en_id ev, ''merchant_events'', env_wall (F k))]\<rparr>"
  have "upsert_bank_if_newer b ?s = raise IntegrityError"
    using fresh by (intro second_default_clashes [of x]) (simp_all add: clash find_bank_def)
  moreover have "\<not> caught_by (exn IntegrityError) PayzenoLedgerError" by (simp add: caught_by_def subclass_of_def mro.simps exn_def)
  ultimately show ?thesis
    using new by (simp add: handle_message_def body b claim_event_def handle_bank_account_verified_def raise_def)
qed

end
