(* ===== verification/Funding.thy ===== *)
theory Funding
  imports Inbox_Inv
begin

text \<open>
  Funding (\<^verbatim>\<open>src/app/services/funding.py\<close>): the bank credits of \<^verbatim>\<open>funding_event\<close> and the batches they
  pay for. A credit is placed on the closest reconciled batch of its acquirer and currency when the two
  amounts agree within a tolerance, or on the batch an operator names. Both ways post the credit to
  \<^verbatim>\<open>cash\<close>. Every event of a pass has a transaction of its own; an exception ends the pass.
\<close>

section \<open>Rows and queries\<close>

record funding_event =
  fe_id :: string
  fe_acquirer :: string
  fe_currency :: string
  fe_amount :: int
  fe_value_date :: date
  fe_bank_reference :: string
  fe_status :: string
  fe_matched_batch :: "string option"
  fe_variance_minor :: int
  fe_received_at :: int
  fe_livemode :: bool

record funding_db = inbox_db +
  funding_events :: "funding_event list"

definition within_tolerance :: "funding_event \<Rightarrow> int \<Rightarrow> int \<Rightarrow> bool" where
  "within_tolerance e posted_total tolerance_bps =
    (if posted_total \<le> 0 then False
     else abs (fe_amount e - posted_total) \<le> posted_total * tolerance_bps div 10000)"

definition is_short_paid :: "funding_event \<Rightarrow> int \<Rightarrow> bool" where
  "is_short_paid e posted_total \<longleftrightarrow> fe_amount e < posted_total"

definition is_matched :: "funding_event \<Rightarrow> bool" where "is_matched e \<longleftrightarrow> fe_matched_batch e \<noteq> None"

definition find_funding :: "string \<Rightarrow> 'a funding_db_scheme \<Rightarrow> funding_event option" where
  "find_funding i s = find_first (\<lambda>e. fe_id e = i) (funding_events s)"

definition get_funding_or_raise :: "string \<Rightarrow> 'a funding_db_scheme \<Rightarrow> funding_event res" where
  "get_funding_or_raise i s = (case find_funding i s of None \<Rightarrow> raise NotFoundError | Some e \<Rightarrow> Inr e)"

definition find_by_bank_reference :: "string \<Rightarrow> 'a funding_db_scheme \<Rightarrow> funding_event option" where
  "find_by_bank_reference ref s = find_first (\<lambda>e. fe_bank_reference e = ref) (funding_events s)"

definition insert_funding :: "funding_event \<Rightarrow> 'a funding_db_scheme \<Rightarrow> ('a funding_db_scheme) res" where
  "insert_funding e s =
    (if \<exists>x\<in>set (funding_events s). fe_id x = fe_id e \<or> fe_bank_reference x = fe_bank_reference e
     then raise IntegrityError else Inr (s\<lparr>funding_events := funding_events s @ [e]\<rparr>))"

definition put_funding :: "funding_event \<Rightarrow> 'a funding_db_scheme \<Rightarrow> 'a funding_db_scheme" where
  "put_funding e s = s\<lparr>funding_events := update_where (\<lambda>x. fe_id x = fe_id e) (\<lambda>_. e) (funding_events s)\<rparr>"

definition list_unmatched_funding :: "nat \<Rightarrow> string option \<Rightarrow> date option \<Rightarrow> 'a funding_db_scheme \<Rightarrow> funding_event list" where
  "list_unmatched_funding limit acquirer on_or_before s = take limit (sort_key fe_value_date (sort_key fe_received_at
     (filter (\<lambda>e. fe_status e = ''unmatched'' \<and> (acquirer = None \<or> acquirer = Some (fe_acquirer e))
        \<and> (case on_or_before of None \<Rightarrow> True | Some d \<Rightarrow> fe_value_date e \<le> d)) (funding_events s))))"

definition list_funding_by_status :: "string list \<Rightarrow> nat \<Rightarrow> 'a funding_db_scheme \<Rightarrow> funding_event list" where
  "list_funding_by_status statuses limit s =
    (if statuses = [] then [] else take limit (sort_key (\<lambda>e. - fe_value_date e) (filter (\<lambda>e. fe_status e \<in> set statuses) (funding_events s))))"

definition find_for_batch :: "string \<Rightarrow> 'a funding_db_scheme \<Rightarrow> funding_event option" where
  "find_for_batch b s = find_first (\<lambda>e. fe_matched_batch e = Some b) (funding_events s)"

definition mark_funding_matched :: "string \<Rightarrow> string \<Rightarrow> int \<Rightarrow> 'a funding_db_scheme \<Rightarrow> (funding_event \<times> 'a funding_db_scheme) res" where
  "mark_funding_matched i b variance s = bindE (get_funding_or_raise i s) (\<lambda>e.
     let e1 = e\<lparr>fe_status := ''matched'', fe_matched_batch := Some b, fe_variance_minor := variance\<rparr> in Inr (e1, put_funding e1 s))"

definition mark_variance :: "string \<Rightarrow> string option \<Rightarrow> int \<Rightarrow> 'a funding_db_scheme \<Rightarrow> (funding_event \<times> 'a funding_db_scheme) res" where
  "mark_variance i b variance s = bindE (get_funding_or_raise i s) (\<lambda>e.
     let e1 = e\<lparr>fe_status := if variance < 0 then ''short_paid'' else ''disputed'', fe_matched_batch := b, fe_variance_minor := variance\<rparr>
     in Inr (e1, put_funding e1 s))"

definition sum_unmatched :: "string option \<Rightarrow> 'a funding_db_scheme \<Rightarrow> int" where
  "sum_unmatched c s = sum_list (map fe_amount
     (filter (\<lambda>e. fe_status e = ''unmatched'' \<and> (c = None \<or> c = Some (fe_currency e))) (funding_events s)))"

section \<open>The service\<close>

text \<open>\<^verbatim>\<open>min\<close> with a key: the first of the least.\<close>

fun closest_by_amount :: "settlement_batch list \<Rightarrow> int \<Rightarrow> settlement_batch option" where
  "closest_by_amount [] amount = None"
| "closest_by_amount (b # bs) amount = (case closest_by_amount bs amount of None \<Rightarrow> Some b
     | Some c \<Rightarrow> if abs (sb_expected_total_minor c - amount) < abs (sb_expected_total_minor b - amount) then Some c else Some b)"

definition funding_lines :: "int \<Rightarrow> posting_line list" where
  "funding_lines amount = [debit ''cash'' amount, credit ''processor_clearing'' amount]"

definition post_funding :: "'e recon_env_scheme \<Rightarrow> settlement_batch \<Rightarrow> funding_event \<Rightarrow> 'a funding_db_scheme
    \<Rightarrow> (string \<times> 'a funding_db_scheme) res" where
  "post_funding E b e s =
     bindE (ledger_key ''funding'' (sb_id b) (fe_id e)) (\<lambda>key.
     bindE (ledger_key ''fundingfp'' (sb_id b) (fe_bank_reference e)) (\<lambda>fp.
     bindE (post (books_env E) \<lparr>pr_key = key, pr_purpose = ''settlement_funding'', pr_merchant = None, pr_currency = sb_currency b,
         pr_livemode = sb_livemode b, pr_reference_type = ''settlement_batch'', pr_reference_id = sb_id b,
         pr_lines = funding_lines (fe_amount e), pr_created_by = ''system'', pr_fingerprint = env_sha256 E fp,
         pr_on_conflict = RaiseConflict\<rparr> s) (\<lambda>(res, s1).
       Inr (txn_id (result_transaction res), s1))))"

definition funded_batch :: "'e recon_env_scheme \<Rightarrow> int \<Rightarrow> string \<Rightarrow> settlement_batch \<Rightarrow> settlement_batch" where
  "funded_batch E amount event b = b\<lparr>sb_status := ''funded'', sb_funded_amount_minor := amount,
     sb_funding_event := Some event, sb_funded_at := Some (env_now E)\<rparr>"

definition funded_payload :: "'e recon_env_scheme \<Rightarrow> settlement_batch \<Rightarrow> funding_event \<Rightarrow> int \<Rightarrow> string \<Rightarrow> payload" where
  "funded_payload E b e variance tid =
    [(''batch_id'', JStr (sb_id b)), (''funding_event_id'', JStr (fe_id e)), (''acquirer'', JStr (sb_acquirer b)),
     (''currency'', JStr (sb_currency b)), (''expected_total_minor'', JInt (sb_expected_total_minor b)),
     (''funded_amount_minor'', JInt (fe_amount e)), (''variance_minor'', JInt variance), (''bank_reference'', JStr (fe_bank_reference e)),
     (''value_date'', JStr (iso_date (fe_value_date e))), (''transaction_id'', JStr tid), (''funded_at'', JTime (env_now E))]"

definition match_one :: "'e recon_env_scheme \<Rightarrow> int \<Rightarrow> string \<Rightarrow> 'a funding_db_scheme \<Rightarrow> (bool \<times> 'a funding_db_scheme) res" where
  "match_one E tolerance_bps i s = bindE (get_funding_or_raise i s) (\<lambda>e.
     if fe_status e \<noteq> ''unmatched'' then Inr (False, s)
     else (case closest_by_amount (list_unfunded (Some (fe_acquirer e)) (Some (fe_currency e)) (Some (fe_value_date e)) 200 s) (fe_amount e) of
       None \<Rightarrow> Inr (False, s)
     | Some b \<Rightarrow>
         let variance = fe_amount e - sb_expected_total_minor b;
             tolerance = abs (sb_expected_total_minor b) * tolerance_bps div 10000
         in if abs variance > tolerance
            then Inr (False, put_funding (e\<lparr>fe_status := if variance < 0 then ''short_paid'' else ''disputed'',
                   fe_variance_minor := variance, fe_matched_batch := Some (sb_id b)\<rparr>) s)
            else bindE (post_funding E b e s) (\<lambda>(tid, s1).
                 let s2 = put_batch (funded_batch E (fe_amount e) (fe_id e) b) (put_funding (e\<lparr>fe_status := ''matched'',
                       fe_matched_batch := Some (sb_id b), fe_variance_minor := variance\<rparr>) s1)
                 in bindE (publish (books_env E) ''settlement.funded'' (funded_payload E b e variance tid) None (sb_id b) None (sb_livemode b) s2)
                      (\<lambda>(_, s3). Inr (True, s3)))))"

text \<open>The pass: the ids are read once, then each event is placed in its own transaction.\<close>

fun match_events :: "(nat \<Rightarrow> 'e recon_env_scheme) \<Rightarrow> int \<Rightarrow> nat \<Rightarrow> string list \<Rightarrow> nat \<Rightarrow> 'a funding_db_scheme
    \<Rightarrow> nat res \<times> 'a funding_db_scheme" where
  "match_events F tol k [] n s = (Inr n, s)"
| "match_events F tol k (i # is) n s = (case match_one (F k) tol i s of
     Inl e \<Rightarrow> (Inl e, s)
   | Inr (placed, s1) \<Rightarrow> match_events F tol (Suc k) is (if placed then Suc n else n) s1)"

definition match_pending :: "(nat \<Rightarrow> 'e recon_env_scheme) \<Rightarrow> int \<Rightarrow> nat \<Rightarrow> 'a funding_db_scheme \<Rightarrow> nat res \<times> 'a funding_db_scheme" where
  "match_pending F tol limit s = match_events F tol 0 (map fe_id (list_unmatched_funding limit None None s)) 0 s"

definition FUNDING_BATCH_SIZE :: nat where "FUNDING_BATCH_SIZE = 200"

definition funding_match_job :: "(nat \<Rightarrow> 'e recon_env_scheme) \<Rightarrow> int \<Rightarrow> 'a funding_db_scheme \<Rightarrow> nat res \<times> 'a funding_db_scheme" where
  "funding_match_job F tol s = match_pending F tol FUNDING_BATCH_SIZE s"

definition recorded_event :: "'e recon_env_scheme \<Rightarrow> settlement_batch \<Rightarrow> string \<Rightarrow> int \<Rightarrow> date \<Rightarrow> funding_event" where
  "recorded_event E b ref amount d = \<lparr>fe_id = ''fe_'' @ take 24 ref, fe_acquirer = sb_acquirer b, fe_currency = sb_currency b,
     fe_amount = amount, fe_value_date = d, fe_bank_reference = ref, fe_status = ''unmatched'', fe_matched_batch = None,
     fe_variance_minor = 0, fe_received_at = env_now E, fe_livemode = sb_livemode b\<rparr>"

definition record_funding :: "'e recon_env_scheme \<Rightarrow> string \<Rightarrow> string \<Rightarrow> int \<Rightarrow> date \<Rightarrow> 'a funding_db_scheme
    \<Rightarrow> (settlement_batch \<times> 'a funding_db_scheme) res" where
  "record_funding E batch ref amount d s = (case find_batch batch s of
     None \<Rightarrow> raise BatchNotFoundError
   | Some b \<Rightarrow> if sb_status b \<notin> {''reconciled'', ''partially_reconciled''} then raise ValidationError
       else bindE (case find_by_bank_reference ref s of
           Some e \<Rightarrow> Inr (e, s)
         | None \<Rightarrow> let e = recorded_event E b ref amount d in mapE (\<lambda>s1. (e, s1)) (insert_funding e s)) (\<lambda>(e, s1).
         bindE (post_funding E b e s1) (\<lambda>(tid, s2).
           let b1 = funded_batch E amount (fe_id e) b;
               e1 = e\<lparr>fe_status := ''matched'', fe_matched_batch := Some (sb_id b), fe_variance_minor := amount - sb_expected_total_minor b\<rparr>
           in Inr (b1, put_batch b1 (put_funding e1 s2)))))"

text \<open>The route answers from the committed batch; an error rolls the request back.\<close>

definition http_record_funding :: "'e recon_env_scheme \<Rightarrow> string \<Rightarrow> string \<Rightarrow> int \<Rightarrow> date \<Rightarrow> 'a funding_db_scheme
    \<Rightarrow> settlement_batch res \<times> 'a funding_db_scheme" where
  "http_record_funding E batch ref amount d s = (case record_funding E batch ref amount d s of
     Inl e \<Rightarrow> (Inl e, s) | Inr (b, s1) \<Rightarrow> (Inr b, s1))"

end
