(* ===== verification/Funding_Inv.thy ===== *)
theory Funding_Inv
  imports Funding
begin

text \<open>
  What funding promises. A pass keeps every funded batch paired with one credit of its acquirer and
  currency inside the tolerance, and debits \<^verbatim>\<open>cash\<close> by exactly the credits it places. An operator who
  names a credit a second time debits \<^verbatim>\<open>cash\<close> again, and a bank reference that is not a component of
  a ledger key ends every pass that reaches it.
\<close>

section \<open>Cash\<close>

definition is_cash_debit :: "'a ledger_scheme \<Rightarrow> ledger_entry \<Rightarrow> bool" where
  "is_cash_debit s e \<longleftrightarrow> le_direction e = Debit \<and> map_option acct_type (find_account (le_account e) s) = Some ''cash''"

definition cash_in :: "'a ledger_scheme \<Rightarrow> int" where
  "cash_in s = sum_list (map le_amount (filter (is_cash_debit s) (entries s)))"

lemma cash_in_cong: "accounts s' = accounts s \<Longrightarrow> entries s' = entries s \<Longrightarrow> cash_in s' = cash_in s"
  unfolding cash_in_def is_cash_debit_def find_account_def by simp

lemma is_cash_debit_grow:
  assumes "accounts s' = accounts s @ new" "find_account (le_account e) s \<noteq> None"
  shows "is_cash_debit s' e = is_cash_debit s e"
  using assms by (auto simp: is_cash_debit_def find_account_def find_first_append)

lemma is_cash_debit_line:
  assumes "entry_for_line s now tid m c lm l e" shows "is_cash_debit s e \<longleftrightarrow> direction l = Debit \<and> account_type l = ''cash''"
  using assms by (auto simp: entry_for_line_def is_cash_debit_def account_key_def)

lemma line_amount_of: "entry_for_line s now tid m c lm l e \<Longrightarrow> le_amount e = line_amount l" by (simp add: entry_for_line_def)

lemma cash_in_post:
  assumes p: "post E r s = Inr (res, s')" and c: "result_created res" and ok: "ledger_ok s"
  shows "cash_in s' = cash_in s + sum_list (map line_amount (filter (\<lambda>l. direction l = Debit \<and> account_type l = ''cash'') (pr_lines r)))"
proof -
  have a: "accounts_ok s" and pl: "\<forall>e\<in>set (entries s). entry_placed s e" using ok by (simp_all add: ledger_ok_def)
  from post_created [OF p c a] obtain es new where es: "entries s' = entries s @ es" and new: "accounts s' = accounts s @ new"
    and l2: "list_all2 (entry_for_line s' (env_now E) (txn_id (result_transaction res)) (pr_merchant r) (pr_currency r) (pr_livemode r)) (pr_lines r) es"
    by (auto simp: posted_def)
  have "filter (is_cash_debit s') (entries s) = filter (is_cash_debit s) (entries s)"
    using pl by (intro filter_cong refl is_cash_debit_grow [OF new]) (auto simp: entry_placed_def)
  moreover have "sum_list (map le_amount (filter (is_cash_debit s') es))
      = sum_list (map line_amount (filter (\<lambda>l. direction l = Debit \<and> account_type l = ''cash'') (pr_lines r)))"
    using l2 by (induction rule: list_all2_induct) (simp_all add: is_cash_debit_line line_amount_of)
  ultimately show ?thesis by (simp add: cash_in_def es)
qed

lemma funding_line_cash:
  "sum_list (map line_amount (filter (\<lambda>l. direction l = Debit \<and> account_type l = ''cash'') (funding_lines a))) = a"
  by (simp add: funding_lines_def)

section \<open>The posting of a credit\<close>

lemma funding_tables: "ledger.more s' = ledger.more s \<Longrightarrow> settlement_batches s' = settlement_batches s \<and> funding_events s' = funding_events s"
  by (cases s; cases s') simp

lemma post_funding_spec:
  assumes p: "post_funding E b e s = Inr (tid, s')" and ok: "ledger_ok s"
  shows "ledger_ok s'" "settlement_batches s' = settlement_batches s" "funding_events s' = funding_events s"
    "cash_in s' = cash_in s + fe_amount e" "holds_key (''funding:'' @ sb_id b @ '':'' @ fe_id e) tid s'"
    "find_by_idempotency_key (''funding:'' @ sb_id b @ '':'' @ fe_id e) s = None"
    "holds_key k t s \<Longrightarrow> holds_key k t s'"
proof -
  obtain key fp res where key: "ledger_key ''funding'' (sb_id b) (fe_id e) = Inr key" and tid: "tid = txn_id (result_transaction res)"
    and po: "post (books_env E) \<lparr>pr_key = key, pr_purpose = ''settlement_funding'', pr_merchant = None, pr_currency = sb_currency b,
         pr_livemode = sb_livemode b, pr_reference_type = ''settlement_batch'', pr_reference_id = sb_id b,
         pr_lines = funding_lines (fe_amount e), pr_created_by = ''system'', pr_fingerprint = env_sha256 E fp,
         pr_on_conflict = RaiseConflict\<rparr> s = Inr (res, s')"
    using p by (auto simp: post_funding_def bindE_Inr_iff)
  have k: "key = ''funding:'' @ sb_id b @ '':'' @ fe_id e" using ledger_key_okD(1) [OF key] by simp
  have c: "result_created res" using post_existing(3) [OF po] by auto
  have a: "accounts_ok s" using ok by (simp add: ledger_ok_def)
  show "ledger_ok s'" by (rule post_ledger_ok [OF po ok])
  show "settlement_batches s' = settlement_batches s" "funding_events s' = funding_events s"
    using funding_tables [OF post_tables [OF po a]] by simp_all
  show "cash_in s' = cash_in s + fe_amount e" using cash_in_post [OF po c ok] by (simp add: funding_line_cash)
  show "holds_key (''funding:'' @ sb_id b @ '':'' @ fe_id e) tid s'" using post_takes_key [OF po ok] by (simp add: k tid)
  show "find_by_idempotency_key (''funding:'' @ sb_id b @ '':'' @ fe_id e) s = None"
    using post_created [OF po c a] by (auto simp: posted_def k)
  show "holds_key k t s \<Longrightarrow> holds_key k t s'" using post_key_stable [OF po a] by (auto simp: holds_key_def)
qed

section \<open>Funded batches\<close>

definition paired :: "int \<Rightarrow> settlement_batch \<Rightarrow> funding_event \<Rightarrow> bool" where
  "paired tol b e \<longleftrightarrow> sb_funding_event b = Some (fe_id e) \<and> fe_status e = ''matched'' \<and> fe_matched_batch e = Some (sb_id b)
     \<and> fe_acquirer e = sb_acquirer b \<and> fe_currency e = sb_currency b \<and> sb_processing_date b \<le> fe_value_date e
     \<and> sb_funded_amount_minor b = fe_amount e \<and> abs (fe_amount e - sb_expected_total_minor b) \<le> abs (sb_expected_total_minor b) * tol div 10000"

definition funding_inv :: "int \<Rightarrow> 'a funding_db_scheme \<Rightarrow> bool" where
  "funding_inv tol s \<longleftrightarrow> distinct (map sb_id (settlement_batches s)) \<and> distinct (map fe_id (funding_events s))
     \<and> (\<forall>b\<in>set (settlement_batches s). sb_status b = ''funded'' \<longrightarrow> (\<exists>e\<in>set (funding_events s). paired tol b e
           \<and> (\<exists>t. holds_key (''funding:'' @ sb_id b @ '':'' @ fe_id e) t s)))"

definition matched_total :: "'a funding_db_scheme \<Rightarrow> int" where
  "matched_total s = sum_list (map fe_amount (filter (\<lambda>e. fe_status e = ''matched'') (funding_events s)))"

lemma closest_in: "closest_by_amount bs a = Some b \<Longrightarrow> b \<in> set bs"
  by (induction bs) (auto split: option.splits if_splits)

lemma closest_None [simp]: "closest_by_amount bs a = None \<longleftrightarrow> bs = []"
  by (cases bs) (auto split: option.splits)

lemma closest_least: "closest_by_amount bs a = Some b \<Longrightarrow> c \<in> set bs
    \<Longrightarrow> abs (sb_expected_total_minor b - a) \<le> abs (sb_expected_total_minor c - a)"
proof (induction bs arbitrary: b)
  case (Cons x bs)
  then show ?case by (cases "closest_by_amount bs a") (force split: if_splits)+
qed simp

lemma unfunded_in: "b \<in> set (list_unfunded (Some a) (Some c) (Some d) n s) \<Longrightarrow> b \<in> set (settlement_batches s)
    \<and> sb_status b = ''reconciled'' \<and> sb_funded_at b = None \<and> sb_acquirer b = a \<and> sb_currency b = c \<and> sb_processing_date b \<le> d"
  by (auto simp: list_unfunded_def dest!: in_set_takeD)

lemma sum_update_matched:
  assumes "distinct (map fe_id es)" "e \<in> set es" "fe_id e' = fe_id e" "fe_amount e' = fe_amount e"
  shows "sum_list (map fe_amount (filter (\<lambda>e. fe_status e = ''matched'') (update_where (\<lambda>x. fe_id x = fe_id e) (\<lambda>_. e') es)))
     = sum_list (map fe_amount (filter (\<lambda>e. fe_status e = ''matched'') es))
       + (if fe_status e' = ''matched'' then fe_amount e else 0) - (if fe_status e = ''matched'' then fe_amount e else 0)"
  using assms
proof (induction es)
  case (Cons x es)
  show ?case
  proof (cases "x = e")
    case True
    then have "update_where (\<lambda>x. fe_id x = fe_id e) (\<lambda>_. e') es = es"
      using Cons.prems(1) by (intro update_where_none) (auto simp: image_iff)
    then show ?thesis using True Cons.prems by (simp add: update_where_def)
  next
    case False
    then have "e \<in> set es" "fe_id x \<noteq> fe_id e" using Cons.prems by (auto simp: image_iff)
    then show ?thesis using Cons by (simp add: update_where_def)
  qed
qed simp

lemma find_funding_in: "find_funding i s = Some e \<Longrightarrow> e \<in> set (funding_events s) \<and> fe_id e = i"
  unfolding find_funding_def by (drule find_first_SomeD) simp

lemma get_funding_Inr [simp]: "get_funding_or_raise i s = Inr e \<longleftrightarrow> find_funding i s = Some e"
  by (simp add: get_funding_or_raise_def raise_def split: option.split)

text \<open>A matched credit is replaced only by the operator; the pass moves unmatched ones.\<close>

lemma put_unmatched_inv:
  assumes inv: "funding_inv tol s" and e: "e \<in> set (funding_events s)" "fe_status e = ''unmatched''" and e': "fe_id e' = fe_id e"
  shows "funding_inv tol (put_funding e' s)"
proof -
  have keep: "x \<in> set (funding_events (put_funding e' s))" if "x \<in> set (funding_events s)" "fe_status x = ''matched''" for x
  proof -
    have "fe_id x \<noteq> fe_id e" using that e inv by (auto simp: funding_inv_def distinct_map dest: inj_onD)
    then show ?thesis using that by (force simp: put_funding_def update_where_set e')
  qed
  have ids: "map fe_id (funding_events (put_funding e' s)) = map fe_id (funding_events s)"
    using e' by (simp add: put_funding_def update_where_def)
  have same: "settlement_batches (put_funding e' s) = settlement_batches s" "holds_key k t (put_funding e' s) = holds_key k t s" for k t
    by (simp_all add: put_funding_def holds_key_def find_by_idempotency_key_def)
  show ?thesis unfolding funding_inv_def same ids
  proof (intro conjI ballI impI)
    fix b assume "b \<in> set (settlement_batches s)" "sb_status b = ''funded''"
    then obtain x t where x: "x \<in> set (funding_events s)" "paired tol b x" "holds_key (''funding:'' @ sb_id b @ '':'' @ fe_id x) t s"
      using inv unfolding funding_inv_def by blast
    have "fe_status x = ''matched''" using x(2) by (simp add: paired_def)
    then show "\<exists>x\<in>set (funding_events (put_funding e' s)). paired tol b x \<and> (\<exists>t. holds_key (''funding:'' @ sb_id b @ '':'' @ fe_id x) t s)"
      using keep [OF x(1)] x(2,3) by blast
  qed (use inv in \<open>simp_all add: funding_inv_def\<close>)
qed

section \<open>A pass\<close>

definition placed_credit :: "'e recon_env_scheme \<Rightarrow> settlement_batch \<Rightarrow> funding_event \<Rightarrow> funding_event" where
  "placed_credit E b e = e\<lparr>fe_status := ''matched'', fe_matched_batch := Some (sb_id b), fe_variance_minor := fe_amount e - sb_expected_total_minor b\<rparr>"

lemma match_one_cases:
  assumes "match_one E tol i s = Inr (placed, s')"
  obtains (idle) "s' = s" "\<not> placed"
  | (off) e v st m where "e \<in> set (funding_events s)" "fe_status e = ''unmatched''" "st \<noteq> ''matched''" "\<not> placed"
      "s' = put_funding (e\<lparr>fe_status := st, fe_variance_minor := v, fe_matched_batch := m\<rparr>) s"
  | (funded) e b tid s1 x where "find_funding i s = Some e" "fe_status e = ''unmatched''" "placed"
      "closest_by_amount (list_unfunded (Some (fe_acquirer e)) (Some (fe_currency e)) (Some (fe_value_date e)) 200 s) (fe_amount e) = Some b"
      "abs (fe_amount e - sb_expected_total_minor b) \<le> abs (sb_expected_total_minor b) * tol div 10000"
      "post_funding E b e s = Inr (tid, s1)"
      "publish (books_env E) ''settlement.funded'' (funded_payload E b e (fe_amount e - sb_expected_total_minor b) tid) None (sb_id b) None (sb_livemode b)
         (put_batch (funded_batch E (fe_amount e) (fe_id e) b) (put_funding (placed_credit E b e) s1)) = Inr (x, s')"
proof -
  obtain e where e: "find_funding i s = Some e" using assms by (auto simp: match_one_def bindE_Inr_iff)
  show thesis
  proof (cases "closest_by_amount (list_unfunded (Some (fe_acquirer e)) (Some (fe_currency e)) (Some (fe_value_date e)) 200 s) (fe_amount e)")
    case None
    then show thesis using assms e idle by (auto simp: match_one_def bindE_Inr_iff split: if_splits)
  next
    case (Some b)
    show thesis
    proof (cases "abs (fe_amount e - sb_expected_total_minor b) \<le> abs (sb_expected_total_minor b) * tol div 10000")
      case True
      show thesis
        using assms e Some True idle funded [of e b, OF e]
        by (auto simp: match_one_def bindE_Inr_iff Let_def placed_credit_def split: if_splits)
    next
      case False
      show thesis
        using assms e Some False idle off [of e "if fe_amount e - sb_expected_total_minor b < 0 then ''short_paid'' else ''disputed''"] find_funding_in [OF e]
        by (auto simp: match_one_def bindE_Inr_iff Let_def split: if_splits)
    qed
  qed
qed

lemma put_batch_events [simp]: "funding_events (put_batch b s) = funding_events s" "ledger_ok (put_batch b s) = ledger_ok s"
  "cash_in (put_batch b s) = cash_in s" "holds_key k t (put_batch b s) = holds_key k t s"
  by (simp_all add: put_batch_def holds_key_def find_by_idempotency_key_def cash_in_cong [of "put_batch b s" s, unfolded put_batch_def]
      ledger_ok_cong [of "put_batch b s" s, unfolded put_batch_def])

lemma put_funding_frame [simp]: "settlement_batches (put_funding e s) = settlement_batches s" "ledger_ok (put_funding e s) = ledger_ok s"
  "cash_in (put_funding e s) = cash_in s" "holds_key k t (put_funding e s) = holds_key k t s"
  by (simp_all add: put_funding_def holds_key_def find_by_idempotency_key_def cash_in_cong [of "put_funding e s" s, unfolded put_funding_def]
      ledger_ok_cong [of "put_funding e s" s, unfolded put_funding_def])

lemma publish_funding:
  assumes "publish E ty b m cid ca l s = Inr (i, s')"
  shows "settlement_batches s' = settlement_batches s" "funding_events s' = funding_events s" "ledger_ok s' = ledger_ok s" "cash_in s' = cash_in s"
    "holds_key k t s' = holds_key k t s"
proof -
  have same: "accounts s' = accounts s" "transactions s' = transactions s" "entries s' = entries s" "balance_cache s' = balance_cache s"
    "ledger.more s' = ledger.more s"
    using publish_same(1) [OF assms] by (simp_all add: same_books_def)
  show "settlement_batches s' = settlement_batches s" "funding_events s' = funding_events s" using funding_tables [OF same(5)] by simp_all
  show "ledger_ok s' = ledger_ok s" by (rule ledger_ok_cong [OF same(1-4)])
  show "cash_in s' = cash_in s" by (rule cash_in_cong [OF same(1,3)])
  show "holds_key k t s' = holds_key k t s" by (rule holds_key_cong [OF same(2)])
qed

lemma put_matched_inv:
  assumes inv: "funding_inv tol s" and e: "e \<in> set (funding_events s)" "fe_status e = ''unmatched''"
    and b: "b \<in> set (settlement_batches s)" and p: "paired tol b' e'" "sb_id b' = sb_id b" "fe_id e' = fe_id e"
    and k: "holds_key (''funding:'' @ sb_id b @ '':'' @ fe_id e) t s"
  shows "funding_inv tol (put_batch b' (put_funding e' s))"
proof -
  have fi: "funding_inv tol (put_funding e' s)" by (rule put_unmatched_inv [OF inv e p(3)])
  have e': "e' \<in> set (funding_events (put_funding e' s))" using e(1) p(3) by (force simp: put_funding_def update_where_set)
  have "map sb_id (settlement_batches (put_batch b' (put_funding e' s))) = map sb_id (settlement_batches s)"
    using p(2) by (simp add: put_batch_def update_where_def)
  moreover have "\<exists>x\<in>set (funding_events (put_batch b' (put_funding e' s))). paired tol c x
      \<and> (\<exists>t. holds_key (''funding:'' @ sb_id c @ '':'' @ fe_id x) t (put_batch b' (put_funding e' s)))"
    if c: "c \<in> set (settlement_batches (put_batch b' (put_funding e' s)))" "sb_status c = ''funded''" for c
  proof (cases "c = b'")
    case True
    have "holds_key (''funding:'' @ sb_id b' @ '':'' @ fe_id e') t s" using k p(2,3) by simp
    then show ?thesis using e' p(1) unfolding True put_batch_events put_funding_frame by blast
  next
    case False
    then have "c \<in> set (settlement_batches s)" using c(1) by (auto simp: put_batch_def update_where_set split: if_splits)
    then show ?thesis using fi c(2) unfolding funding_inv_def put_batch_events put_funding_frame by blast
  qed
  ultimately show ?thesis using fi unfolding funding_inv_def put_batch_events put_funding_frame by (simp only: ball_simps) blast
qed

lemma match_one_step:
  assumes m: "match_one E tol i s = Inr (placed, s')" and ok: "ledger_ok s" and inv: "funding_inv tol s"
  shows "ledger_ok s' \<and> funding_inv tol s' \<and> cash_in s' - matched_total s' = cash_in s - matched_total s"
  using m
proof (cases rule: match_one_cases)
  case (off e v st m)
  have d: "distinct (map fe_id (funding_events s))" using inv by (simp add: funding_inv_def)
  let ?e = "e\<lparr>fe_status := st, fe_variance_minor := v, fe_matched_batch := m\<rparr>"
  have "matched_total (put_funding ?e s) = matched_total s"
    using sum_update_matched [OF d off(1), of ?e] off(2,3) by (simp add: matched_total_def put_funding_def)
  then show ?thesis using ok put_unmatched_inv [OF inv off(1,2), of ?e] off(5) by simp
next
  case (funded e b tid s1 x)
  let ?e = "placed_credit E b e" and ?b = "funded_batch E (fe_amount e) (fe_id e) b"
  have e: "e \<in> set (funding_events s)" using find_funding_in [OF funded(1)] by simp
  note b = unfunded_in [OF closest_in [OF funded(4)]]
  note pf = post_funding_spec [OF funded(6) ok]
  note pub = publish_funding [OF funded(7)]
  have inv1: "funding_inv tol s1" using inv pf(7) unfolding funding_inv_def pf(2,3) by meson
  have pr: "paired tol ?b ?e" using b funded(5) by (simp add: paired_def funded_batch_def placed_credit_def)
  have "funding_inv tol (put_batch ?b (put_funding ?e s1))"
    using e b by (intro put_matched_inv [OF inv1 _ funded(2) _ pr _ _ pf(5)]) (simp_all add: pf(2,3) funded_batch_def placed_credit_def)
  then have "funding_inv tol s'" by (simp add: funding_inv_def pub)
  moreover have "matched_total s' = matched_total s + fe_amount e"
    using sum_update_matched [of "funding_events s" e ?e] inv e funded(2)
    by (simp add: matched_total_def pub(2) put_funding_def pf(3) placed_credit_def funding_inv_def)
  ultimately show ?thesis using pf(1,4) by (simp add: pub(3,4))
qed (use ok inv in auto)

lemma match_events_step:
  "match_events F tol k is n s = (out, s') \<Longrightarrow> ledger_ok s \<Longrightarrow> funding_inv tol s
     \<Longrightarrow> ledger_ok s' \<and> funding_inv tol s' \<and> cash_in s' - matched_total s' = cash_in s - matched_total s"
proof (induction "is" arbitrary: k n s)
  case (Cons i "is")
  show ?case
  proof (cases "match_one (F k) tol i s")
    case (Inr r)
    obtain placed s1 where r: "r = (placed, s1)" by (cases r)
    have "match_events F tol (Suc k) is (if placed then Suc n else n) s1 = (out, s')" using Cons.prems(1) Inr r by simp
    then show ?thesis using Cons.IH [of "Suc k" _ s1] match_one_step [of "F k" tol i s placed s1] Cons.prems Inr r by fastforce
  qed (use Cons.prems in simp)
qed simp

section \<open>An operator's credit\<close>

lemma record_known:
  assumes "record_funding E batch ref amount d s = Inr (b', s')" "find_by_bank_reference ref s = Some e"
  obtains b tid s1 where "find_batch batch s = Some b" "post_funding E b e s = Inr (tid, s1)" "b' = funded_batch E amount (fe_id e) b"
    "s' = put_batch b' (put_funding (e\<lparr>fe_status := ''matched'', fe_matched_batch := Some (sb_id b),
        fe_variance_minor := amount - sb_expected_total_minor b\<rparr>) s1)"
  using assms by (auto simp: record_funding_def bindE_Inr_iff Let_def split: option.splits if_splits)

lemma find_by_bank_referenceD: "find_by_bank_reference ref s = Some e \<Longrightarrow> e \<in> set (funding_events s) \<and> fe_bank_reference e = ref"
  unfolding find_by_bank_reference_def by (drule find_first_SomeD) simp

text \<open>A credit that already paid for a batch pays for another: the money is debited again.\<close>

lemma record_again:
  assumes r: "record_funding E batch ref amount d s = Inr (b', s')" and e: "find_by_bank_reference ref s = Some e" "fe_status e = ''matched''"
    and ok: "ledger_ok s" and ids: "distinct (map fe_id (funding_events s))"
  shows "cash_in s' = cash_in s + fe_amount e" "matched_total s' = matched_total s" "sb_funded_amount_minor b' = amount"
    "sb_status b' = ''funded''" "sb_funding_event b' = Some (fe_id e)"
proof -
  from record_known [OF r e(1)] obtain b tid s1 where b: "post_funding E b e s = Inr (tid, s1)" "b' = funded_batch E amount (fe_id e) b"
    and s': "s' = put_batch b' (put_funding (e\<lparr>fe_status := ''matched'', fe_matched_batch := Some (sb_id b),
        fe_variance_minor := amount - sb_expected_total_minor b\<rparr>) s1)" by metis
  note pf = post_funding_spec [OF b(1) ok]
  have ein: "e \<in> set (funding_events s)" using find_by_bank_referenceD [OF e(1)] by simp
  show "cash_in s' = cash_in s + fe_amount e" using pf(4) by (simp add: s')
  show "matched_total s' = matched_total s"
    using sum_update_matched [OF ids ein, of "e\<lparr>fe_status := ''matched'', fe_matched_batch := Some (sb_id b), fe_variance_minor := amount - sb_expected_total_minor b\<rparr>"] e(2)
    by (simp add: matched_total_def s' put_funding_def pf(3))
  show "sb_funded_amount_minor b' = amount" "sb_status b' = ''funded''" "sb_funding_event b' = Some (fe_id e)"
    by (simp_all add: b(2) funded_batch_def)
qed

section \<open>A reference that is not a key component\<close>

lemma colon_reference_raises:
  assumes "find_funding i s = Some e" "fe_status e = ''unmatched''" "CHR '':'' \<in> set (fe_bank_reference e)"
    and "closest_by_amount (list_unfunded (Some (fe_acquirer e)) (Some (fe_currency e)) (Some (fe_value_date e)) 200 s) (fe_amount e) = Some b"
    and "abs (fe_amount e - sb_expected_total_minor b) \<le> abs (sb_expected_total_minor b) * tol div 10000"
  shows "match_one E tol i s = raise ValueError"
proof -
  have l: "(\<exists>k. ledger_key p a t = Inr k) \<or> ledger_key p a t = raise ValueError" if "p \<noteq> ''settle''" for p a t
    using that by (cases "check_component False p"; cases "check_component False a"; cases "check_component (p = ''fee'') t")
      (auto simp: ledger_key_def check_component_def STRICT_KEY_SHAPES_def raise_def split: if_splits)
  have "ledger_key ''fundingfp'' (sb_id b) (fe_bank_reference e) \<noteq> Inr k" for k using assms(3) ledger_key_okD(4) by blast
  then have fp: "ledger_key ''fundingfp'' (sb_id b) (fe_bank_reference e) = raise ValueError" using l [of "''fundingfp''"] by auto
  have "post_funding E b e s = raise ValueError"
    using l [of "''funding''" "sb_id b" "fe_id e"] fp
    by (cases "ledger_key ''funding'' (sb_id b) (fe_id e)") (auto simp: post_funding_def raise_def)
  then show ?thesis using assms by (simp add: match_one_def get_funding_or_raise_def Let_def raise_def)
qed

lemma pass_stops: "match_one (F k) tol i s = Inl e \<Longrightarrow> match_events F tol k (i # is) n s = (Inl e, s)" by simp

end
