(* ===== verification/Captures.thy ===== *)
theory Captures
  imports Funding
begin

text \<open>
  Deferred captures (\<^verbatim>\<open>src/app/services/captures.py\<close>): the table \<^verbatim>\<open>capture_attempt\<close>, the claim of a
  capture before it is sent, and the job that sends pending attempts and asks about indeterminate ones.
  The acquirer's answers are fields of the environment, one environment per attempt of a pass; a pass
  returns what was sent and asked, with the answers.
\<close>

section \<open>Rows and queries\<close>

record capture_attempt =
  cap_id :: string
  cap_charge :: string
  cap_item :: "string option"
  cap_acquirer :: string
  cap_key :: string
  cap_amount :: int
  cap_currency :: string
  cap_status :: string
  cap_response_reference :: "string option"
  cap_last_error_code :: "string option"
  cap_requested_at :: int
  cap_completed_at :: "int option"
  cap_livemode :: bool

record capture_db = funding_db +
  capture_attempts :: "capture_attempt list"

record capture_env = recon_env +
  env_issue :: "string \<Rightarrow> int \<Rightarrow> string \<Rightarrow> string \<Rightarrow> string \<Rightarrow> (bool \<times> string) res"
  env_probe :: "string \<Rightarrow> string \<Rightarrow> (string \<times> string option) res"

definition OPEN_STATUSES :: "string list" where "OPEN_STATUSES = [''pending'', ''indeterminate'']"

definition STALE_PENDING_SECONDS :: int where "STALE_PENDING_SECONDS = 3600"

definition attempt_is_open :: "capture_attempt \<Rightarrow> bool" where "attempt_is_open a \<longleftrightarrow> cap_status a \<in> set OPEN_STATUSES"

definition attempt_is_stale :: "int \<Rightarrow> capture_attempt \<Rightarrow> bool" where
  "attempt_is_stale now a = (if cap_status a \<noteq> ''pending'' then False else now - cap_requested_at a > STALE_PENDING_SECONDS * 1000000)"

definition needs_status_probe :: "capture_attempt \<Rightarrow> bool" where "needs_status_probe a \<longleftrightarrow> cap_status a = ''indeterminate''"

definition find_attempt :: "string \<Rightarrow> 'a capture_db_scheme \<Rightarrow> capture_attempt option" where
  "find_attempt i s = find_first (\<lambda>a. cap_id a = i) (capture_attempts s)"

definition get_attempt_or_raise :: "string \<Rightarrow> 'a capture_db_scheme \<Rightarrow> capture_attempt res" where
  "get_attempt_or_raise i s = (case find_attempt i s of None \<Rightarrow> raise NotFoundError | Some a \<Rightarrow> Inr a)"

text \<open>The primary key, \<^verbatim>\<open>uq_capture_attempt_key\<close> and the foreign key to the item.\<close>

definition insert_attempt :: "capture_attempt \<Rightarrow> 'a capture_db_scheme \<Rightarrow> ('a capture_db_scheme) res" where
  "insert_attempt a s =
    (if (\<exists>x\<in>set (capture_attempts s). cap_id x = cap_id a \<or> (cap_acquirer x, cap_key x) = (cap_acquirer a, cap_key a))
        \<or> (case cap_item a of None \<Rightarrow> False | Some i \<Rightarrow> find_item i s = None)
     then raise IntegrityError else Inr (s\<lparr>capture_attempts := capture_attempts s @ [a]\<rparr>))"

definition put_attempt :: "capture_attempt \<Rightarrow> 'a capture_db_scheme \<Rightarrow> 'a capture_db_scheme" where
  "put_attempt a s = s\<lparr>capture_attempts := update_where (\<lambda>x. cap_id x = cap_id a) (\<lambda>_. a) (capture_attempts s)\<rparr>"

definition find_by_key :: "string \<Rightarrow> string \<Rightarrow> 'a capture_db_scheme \<Rightarrow> capture_attempt option" where
  "find_by_key acquirer key s = find_first (\<lambda>a. cap_acquirer a = acquirer \<and> cap_key a = key) (capture_attempts s)"

definition list_pending :: "nat \<Rightarrow> int option \<Rightarrow> 'a capture_db_scheme \<Rightarrow> capture_attempt list" where
  "list_pending limit now s = take limit (sort_key cap_requested_at
     (filter (\<lambda>a. cap_status a \<in> set OPEN_STATUSES \<and> (case now of None \<Rightarrow> True | Some t \<Rightarrow> cap_requested_at a \<le> t)) (capture_attempts s)))"

definition list_for_charge :: "string \<Rightarrow> 'a capture_db_scheme \<Rightarrow> capture_attempt list" where
  "list_for_charge c s = sort_key cap_requested_at (filter (\<lambda>a. cap_charge a = c) (capture_attempts s))"

definition list_for_item :: "string \<Rightarrow> 'a capture_db_scheme \<Rightarrow> capture_attempt list" where
  "list_for_item i s = sort_key cap_requested_at (filter (\<lambda>a. cap_item a = Some i) (capture_attempts s))"

definition mark_outcome :: "'e recon_env_scheme \<Rightarrow> string \<Rightarrow> string \<Rightarrow> string option \<Rightarrow> string option \<Rightarrow> int option \<Rightarrow> 'a capture_db_scheme
    \<Rightarrow> (capture_attempt \<times> 'a capture_db_scheme) res" where
  "mark_outcome E i status ref code completed s = bindE (get_attempt_or_raise i s) (\<lambda>a.
     let a1 = a\<lparr>cap_status := status, cap_response_reference := ref, cap_last_error_code := code,
          cap_completed_at := if status \<in> {''captured'', ''failed''} then Some (case completed of None \<Rightarrow> env_wall E | Some t \<Rightarrow> t)
            else cap_completed_at a\<rparr>
     in Inr (a1, put_attempt a1 s))"

definition list_unmatched_captures :: "int \<Rightarrow> nat \<Rightarrow> 'a capture_db_scheme \<Rightarrow> capture_attempt list" where
  "list_unmatched_captures since limit s = take limit (sort_key cap_requested_at
     (filter (\<lambda>a. cap_status a = ''captured'' \<and> since \<le> cap_requested_at a) (capture_attempts s)))"

definition count_stale_pending :: "'e recon_env_scheme \<Rightarrow> int option \<Rightarrow> 'a capture_db_scheme \<Rightarrow> nat" where
  "count_stale_pending E now s = (let cutoff = (case now of None \<Rightarrow> env_wall E | Some t \<Rightarrow> t) - STALE_PENDING_SECONDS * 1000000
     in length (filter (\<lambda>a. cap_status a \<in> set OPEN_STATUSES \<and> cap_requested_at a < cutoff) (capture_attempts s)))"

section \<open>The claim\<close>

definition intended_attempt :: "'e recon_env_scheme \<Rightarrow> string \<Rightarrow> string \<Rightarrow> string option \<Rightarrow> string \<Rightarrow> int \<Rightarrow> string \<Rightarrow> bool \<Rightarrow> capture_attempt" where
  "intended_attempt E key charge item acquirer amount c l = \<lparr>cap_id = ''cap_'' @ drop (length key - 24) key, cap_charge = charge,
     cap_item = item, cap_acquirer = acquirer, cap_key = key, cap_amount = amount, cap_currency = c, cap_status = ''pending'',
     cap_response_reference = None, cap_last_error_code = None, cap_requested_at = env_now E, cap_completed_at = None, cap_livemode = l\<rparr>"

text \<open>
  A lost insert rolls the caller's session back: the caller goes on from the state \<^verbatim>\<open>s0\<close> in which its
  transaction began.
\<close>

definition record_intent :: "'e recon_env_scheme \<Rightarrow> 'a capture_db_scheme \<Rightarrow> string \<Rightarrow> string option \<Rightarrow> string \<Rightarrow> string \<Rightarrow> int \<Rightarrow> string \<Rightarrow> bool
    \<Rightarrow> 'a capture_db_scheme \<Rightarrow> (capture_attempt option \<times> 'a capture_db_scheme) res" where
  "record_intent E s0 charge item acquirer batch amount c l s =
     bindE (ledger_key ''capture'' batch charge) (\<lambda>key.
       let a = intended_attempt E key charge item acquirer amount c l in
       case insert_attempt a s of
         Inr s1 \<Rightarrow> Inr (Some a, s1)
       | Inl e \<Rightarrow> if caught_by e IntegrityError then Inr (None, s0) else Inl e)"

section \<open>The pass\<close>

datatype capture_event =
    Issued string string "(bool \<times> string) res" | Asked string string "(string \<times> string option) res"

fun event_attempt :: "capture_event \<Rightarrow> string" where
  "event_attempt (Issued i _ _) = i" | "event_attempt (Asked i _ _) = i"

definition apply_outcome :: "'e recon_env_scheme \<Rightarrow> string \<Rightarrow> string \<times> string option \<times> string option \<Rightarrow> 'a capture_db_scheme
    \<Rightarrow> ('a capture_db_scheme) res" where
  "apply_outcome E i outcome s = (case outcome of (status, ref, code) \<Rightarrow> bindE (get_attempt_or_raise i s) (\<lambda>a.
     Inr (put_attempt (a\<lparr>cap_status := status, cap_response_reference := ref, cap_last_error_code := code,
       cap_completed_at := if status \<in> {''captured'', ''failed''} then Some (env_now E) else cap_completed_at a\<rparr>) s)))"

definition outcome_of_answer :: "(bool \<times> string) res \<Rightarrow> (string \<times> string option \<times> string option) res" where
  "outcome_of_answer r = (case r of
     Inr (captured, ref) \<Rightarrow> Inr (if captured then ''captured'' else ''failed'', Some ref, None)
   | Inl e \<Rightarrow> if caught_by e ProcessorIndeterminateError then Inr (''indeterminate'', None, Some (err_code e))
             else if caught_by e ProcessorUnavailableError then Inr (''pending'', None, Some (err_code e))
             else Inl e)"

definition issue :: "'e capture_env_scheme \<Rightarrow> string \<Rightarrow> 'a capture_db_scheme \<Rightarrow> ('a capture_db_scheme) res \<times> capture_event list" where
  "issue E i s = (case get_attempt_or_raise i s of
     Inl e \<Rightarrow> (Inl e, [])
   | Inr a \<Rightarrow> let answer = env_issue E (cap_charge a) (cap_amount a) (cap_currency a) (cap_key a) (cap_key a)
       in (bindE (outcome_of_answer answer) (\<lambda>outcome. apply_outcome E i outcome s), [Issued i (cap_key a) answer]))"

definition resolve_indeterminate :: "'e capture_env_scheme \<Rightarrow> string \<Rightarrow> 'a capture_db_scheme \<Rightarrow> ('a capture_db_scheme) res \<times> capture_event list" where
  "resolve_indeterminate E i s = (case get_attempt_or_raise i s of
     Inl e \<Rightarrow> (Inl e, [])
   | Inr a \<Rightarrow> let answer = env_probe E (cap_acquirer a) (cap_key a)
       in (bindE answer (\<lambda>(state, ref).
             if state = ''captured'' then apply_outcome E i (''captured'', ref, None) s
             else if state = ''not_captured'' then apply_outcome E i (''pending'', None, Some ''not_captured'') s
             else Inr s), [Asked i (cap_key a) answer]))"

fun process_attempts :: "(nat \<Rightarrow> 'e capture_env_scheme) \<Rightarrow> nat \<Rightarrow> (string \<times> string) list \<Rightarrow> 'a capture_db_scheme
    \<Rightarrow> nat res \<times> 'a capture_db_scheme \<times> capture_event list" where
  "process_attempts F k [] s = (Inr k, s, [])"
| "process_attempts F k ((i, status) # as) s =
    (case (if status = ''indeterminate'' then resolve_indeterminate (F k) i s else issue (F k) i s) of
       (Inl e, evs) \<Rightarrow> (Inl e, s, evs)
     | (Inr s1, evs) \<Rightarrow> (case process_attempts F (Suc k) as s1 of (out, s2, evs2) \<Rightarrow> (out, s2, evs @ evs2)))"

definition process_pending :: "(nat \<Rightarrow> 'e capture_env_scheme) \<Rightarrow> nat \<Rightarrow> 'a capture_db_scheme
    \<Rightarrow> nat res \<times> 'a capture_db_scheme \<times> capture_event list" where
  "process_pending F limit s = process_attempts F 0 (map (\<lambda>a. (cap_id a, cap_status a)) (list_pending limit None s)) s"

definition CAPTURE_BATCH_SIZE :: nat where "CAPTURE_BATCH_SIZE = 100"

definition deferred_capture_job :: "(nat \<Rightarrow> 'e capture_env_scheme) \<Rightarrow> 'a capture_db_scheme \<Rightarrow> nat res \<times> 'a capture_db_scheme \<times> capture_event list" where
  "deferred_capture_job F s = process_pending F CAPTURE_BATCH_SIZE s"

definition unmatched_since :: "int \<Rightarrow> 'a capture_db_scheme \<Rightarrow> capture_attempt list" where
  "unmatched_since since s = list_unmatched_captures since 200 s"

text \<open>One tick of the job after the other.\<close>

fun capture_ticks :: "(nat \<Rightarrow> 'e capture_env_scheme) list \<Rightarrow> 'a capture_db_scheme \<Rightarrow> 'a capture_db_scheme \<times> capture_event list" where
  "capture_ticks [] s = (s, [])"
| "capture_ticks (F # Fs) s = (case deferred_capture_job F s of (_, s1, evs) \<Rightarrow> (case capture_ticks Fs s1 of (s2, evs2) \<Rightarrow> (s2, evs @ evs2)))"

end
