(* ===== verification/Captures_Inv.thy ===== *)
theory Captures_Inv
  imports Captures
begin

text \<open>
  What the deferred captures promise. Over any number of ticks an attempt is sent only while pending
  and asked about only while indeterminate: one that may have charged the cardholder is never sent
  again before the acquirer has denied the capture. All requests of an attempt carry its one key.
\<close>

section \<open>The life of an attempt\<close>

text \<open>What may be sent in which status, and the status after the answer.\<close>

fun follow :: "string \<Rightarrow> capture_event list \<Rightarrow> string option" where
  "follow st [] = Some st"
| "follow st (Issued i k r # evs) = (if st \<noteq> ''pending'' then None
     else follow (case outcome_of_answer r of Inl e \<Rightarrow> ''pending'' | Inr (st', _) \<Rightarrow> st') evs)"
| "follow st (Asked i k r # evs) = (if st \<noteq> ''indeterminate'' then None
     else follow (case r of Inr (answer, _) \<Rightarrow> if answer = ''captured'' then ''captured'' else if answer = ''not_captured'' then ''pending'' else st
        | Inl e \<Rightarrow> st) evs)"

lemma follow_append: "follow st (xs @ ys) = (case follow st xs of None \<Rightarrow> None | Some st' \<Rightarrow> follow st' ys)"
  by (induction st xs rule: follow.induct) auto

definition status_of :: "'a capture_db_scheme \<Rightarrow> string \<Rightarrow> string" where
  "status_of s i = (case find_attempt i s of None \<Rightarrow> [] | Some a \<Rightarrow> cap_status a)"

definition of_attempt :: "string \<Rightarrow> capture_event list \<Rightarrow> capture_event list" where
  "of_attempt i evs = filter (\<lambda>e. event_attempt e = i) evs"

text \<open>Every attempt moves along \<^verbatim>\<open>follow\<close> with the events that are its own, and keeps its key.\<close>

definition key_in :: "'a capture_db_scheme \<Rightarrow> string \<Rightarrow> string option" where "key_in s i = map_option cap_key (find_attempt i s)"

fun event_key :: "capture_event \<Rightarrow> string" where
  "event_key (Issued _ k _) = k" | "event_key (Asked _ k _) = k"

definition moved :: "'a capture_db_scheme \<Rightarrow> capture_event list \<Rightarrow> 'a capture_db_scheme \<Rightarrow> bool" where
  "moved s evs s' \<longleftrightarrow> (\<forall>i. follow (status_of s i) (of_attempt i evs) = Some (status_of s' i)) \<and> key_in s' = key_in s
     \<and> (\<forall>e\<in>set evs. key_in s (event_attempt e) = Some (event_key e)) \<and> map cap_id (capture_attempts s') = map cap_id (capture_attempts s)"

lemma moved_nil [simp]: "moved s [] s" by (simp add: moved_def of_attempt_def)

lemma moved_trans: "moved s xs s1 \<Longrightarrow> moved s1 ys s2 \<Longrightarrow> moved s (xs @ ys) s2"
  by (auto simp: moved_def of_attempt_def follow_append)


lemma get_attempt_Inr [simp]: "get_attempt_or_raise i s = Inr a \<longleftrightarrow> find_attempt i s = Some a"
  by (simp add: get_attempt_or_raise_def raise_def split: option.split)

lemma find_attemptD: "find_attempt i s = Some a \<Longrightarrow> a \<in> set (capture_attempts s) \<and> cap_id a = i"
  unfolding find_attempt_def by (drule find_first_SomeD) simp

lemma find_put_attempt:
  assumes "find_attempt (cap_id a) s = Some b"
  shows "find_attempt i (put_attempt a s) = (if i = cap_id a then Some a else find_attempt i s)"
proof -
  have "find_first (\<lambda>x. cap_id x = i) (update_where (\<lambda>x. cap_id x = cap_id a) (\<lambda>_. a) xs)
      = (if i = cap_id a then map_option (\<lambda>_. a) (find_first (\<lambda>x. cap_id x = i) xs) else find_first (\<lambda>x. cap_id x = i) xs)" for xs
    by (induction xs) (auto simp: update_where_def)
  then show ?thesis using assms by (auto simp: find_attempt_def put_attempt_def)
qed

lemma ids_put_attempt [simp]: "map cap_id (capture_attempts (put_attempt a s)) = map cap_id (capture_attempts s)"
  by (simp add: put_attempt_def update_where_def)

lemma apply_outcomeD:
  assumes "apply_outcome E i (st, ref, code) s = Inr s'"
  shows "status_of s' = (status_of s)(i := st)" "key_in s' = key_in s" "map cap_id (capture_attempts s') = map cap_id (capture_attempts s)"
proof -
  obtain a where a: "find_attempt i s = Some a"
    and s': "s' = put_attempt (a\<lparr>cap_status := st, cap_response_reference := ref, cap_last_error_code := code,
       cap_completed_at := if st \<in> {''captured'', ''failed''} then Some (env_now E) else cap_completed_at a\<rparr>) s"
    using assms by (auto simp: apply_outcome_def bindE_Inr_iff)
  have i: "cap_id a = i" using find_attemptD [OF a] by simp
  note f = find_put_attempt [of "a\<lparr>cap_status := st, cap_response_reference := ref, cap_last_error_code := code,
       cap_completed_at := if st \<in> {''captured'', ''failed''} then Some (env_now E) else cap_completed_at a\<rparr>" s a]
  show "status_of s' = (status_of s)(i := st)" using f a by (auto simp: status_of_def s' i fun_eq_iff)
  show "key_in s' = key_in s" using f a by (auto simp: key_in_def s' i fun_eq_iff)
  show "map cap_id (capture_attempts s') = map cap_id (capture_attempts s)" by (simp only: s' ids_put_attempt)
qed

lemma moved_one:
  assumes "event_attempt e = i" "key_in s i = Some (event_key e)" "follow (status_of s i) [e] = Some st"
    and "status_of s' = (status_of s)(i := st)" "key_in s' = key_in s" "map cap_id (capture_attempts s') = map cap_id (capture_attempts s)"
  shows "moved s [e] s'"
  using assms by (auto simp: moved_def of_attempt_def)

lemma issue_moved:
  assumes h: "issue E i s = (out, evs)" and p: "status_of s i = ''pending''"
  shows "moved s evs (case out of Inl _ \<Rightarrow> s | Inr s' \<Rightarrow> s')"
proof (cases "find_attempt i s")
  case None
  then show ?thesis using h by (auto simp: issue_def get_attempt_or_raise_def raise_def)
next
  case (Some a)
  let ?r = "env_issue E (cap_charge a) (cap_amount a) (cap_currency a) (cap_key a) (cap_key a)"
  have o: "out = bindE (outcome_of_answer ?r) (\<lambda>outcome. apply_outcome E i outcome s)" and evs: "evs = [Issued i (cap_key a) ?r]"
    using h Some by (simp_all add: issue_def get_attempt_or_raise_def Let_def)
  have k: "key_in s i = Some (cap_key a)" using Some by (simp add: key_in_def)
  show ?thesis
  proof (cases "outcome_of_answer ?r")
    case (Inl e)
    then show ?thesis using o k p by (auto simp: evs intro!: moved_one [of _ i s "''pending''"])
  next
    case (Inr x)
    obtain st ref code where x: "x = (st, ref, code)" by (cases x) auto
    obtain s' where s': "apply_outcome E i x s = Inr s'" using Some x by (simp add: apply_outcome_def get_attempt_or_raise_def)
    show ?thesis using o k p Inr s' apply_outcomeD [OF s' [unfolded x]] by (auto simp: evs x intro!: moved_one [of _ i s st])
  qed
qed

lemma resolve_moved:
  assumes h: "resolve_indeterminate E i s = (out, evs)" and p: "status_of s i = ''indeterminate''"
  shows "moved s evs (case out of Inl _ \<Rightarrow> s | Inr s' \<Rightarrow> s')"
proof (cases "find_attempt i s")
  case None
  then show ?thesis using h by (auto simp: resolve_indeterminate_def get_attempt_or_raise_def raise_def)
next
  case (Some a)
  let ?r = "env_probe E (cap_acquirer a) (cap_key a)"
  let ?o = "\<lambda>(state, ref). if state = ''captured'' then apply_outcome E i (''captured'', ref, None) s
             else if state = ''not_captured'' then apply_outcome E i (''pending'', None, Some ''not_captured'') s else Inr s"
  have o: "out = bindE ?r ?o" and evs: "evs = [Asked i (cap_key a) ?r]"
    using h Some by (simp_all add: resolve_indeterminate_def get_attempt_or_raise_def Let_def)
  have k: "key_in s i = Some (cap_key a)" using Some by (simp add: key_in_def)
  have same: "moved s evs s" if "follow ''indeterminate'' evs = Some ''indeterminate''"
    using that k p by (auto simp: evs intro!: moved_one [of _ i s "''indeterminate''"])
  show ?thesis
  proof (cases ?r)
    case (Inl e)
    then show ?thesis using o same by (simp add: evs)
  next
    case (Inr x)
    obtain state ref where x: "x = (state, ref)" by (cases x)
    have ap: "\<exists>s'. apply_outcome E i y s = Inr s'" for y using Some by (cases y) (simp add: apply_outcome_def get_attempt_or_raise_def)
    consider "state = ''captured''" | "state = ''not_captured''" | "state \<noteq> ''captured''" "state \<noteq> ''not_captured''" by blast
    then show ?thesis
    proof cases
      case 1
      obtain s' where s': "apply_outcome E i (''captured'', ref, None) s = Inr s'" using ap by blast
      show ?thesis using o k p Inr 1 s' apply_outcomeD [OF s'] by (auto simp: evs x intro!: moved_one [of _ i s "''captured''"])
    next
      case 2
      obtain s' where s': "apply_outcome E i (''pending'', None, Some ''not_captured'') s = Inr s'" using ap by blast
      show ?thesis using o k p Inr 2 s' apply_outcomeD [OF s'] by (auto simp: evs x intro!: moved_one [of _ i s "''pending''"])
    next
      case 3
      then show ?thesis using o Inr same by (simp add: evs x)
    qed
  qed
qed

text \<open>A pass touches each attempt once, in the status it read.\<close>

lemma process_moved:
  "process_attempts F k as s = (out, s', evs) \<Longrightarrow> distinct (map fst as) \<Longrightarrow> \<forall>(i, st)\<in>set as. status_of s i = st \<and> st \<in> set OPEN_STATUSES
     \<Longrightarrow> moved s evs s'"
proof (induction as arbitrary: k s evs)
  case (Cons x as)
  obtain i st where x: "x = (i, st)" by (cases x)
  obtain out1 evs1 where h: "(if st = ''indeterminate'' then resolve_indeterminate (F k) i s else issue (F k) i s) = (out1, evs1)" by force
  have st: "status_of s i = st" "st = ''pending'' \<or> st = ''indeterminate''" using Cons.prems(3) by (auto simp: x OPEN_STATUSES_def)
  have one: "moved s evs1 (case out1 of Inl _ \<Rightarrow> s | Inr s' \<Rightarrow> s')"
    using h st issue_moved [of "F k" i s out1 evs1] resolve_moved [of "F k" i s out1 evs1] by (auto split: if_splits)
  have own: "\<forall>e\<in>set evs1. event_attempt e = i"
    using h by (auto simp: issue_def resolve_indeterminate_def Let_def split: if_splits sum.splits)
  show ?case
  proof (cases out1)
    case (Inl e)
    then show ?thesis using Cons.prems(1) one h by (simp add: x)
  next
    case (Inr s1)
    obtain evs2 where p: "process_attempts F (Suc k) as s1 = (out, s', evs2)" and evs: "evs = evs1 @ evs2"
      using Cons.prems(1) h Inr by (auto simp: x split: prod.splits)
    have m1: "moved s evs1 s1" using one Inr by simp
    have same: "status_of s1 j = status_of s j" if "j \<noteq> i" for j
    proof -
      have "of_attempt j evs1 = []" using own that by (auto simp: of_attempt_def filter_empty_conv)
      then show ?thesis using m1 [unfolded moved_def] by (metis follow.simps(1) option.inject)
    qed
    have "i \<notin> set (map fst as)" "distinct (map fst as)" using Cons.prems(2) by (simp_all add: x)
    have "\<forall>(j, st)\<in>set as. status_of s1 j = st \<and> st \<in> set OPEN_STATUSES"
    proof (intro ballI, clarify)
      fix j st assume a: "(j, st) \<in> set as"
      then have "j \<noteq> i" using \<open>i \<notin> set (map fst as)\<close> by force
      then show "status_of s1 j = st \<and> st \<in> set OPEN_STATUSES" using Cons.prems(3) a same by (auto simp: x)
    qed
    then have "moved s1 evs2 s'" by (rule Cons.IH [OF p \<open>distinct (map fst as)\<close>])
    then show ?thesis unfolding evs by (rule moved_trans [OF m1])
  qed
qed simp

lemma find_attempt_in: "distinct (map cap_id (capture_attempts s)) \<Longrightarrow> a \<in> set (capture_attempts s) \<Longrightarrow> find_attempt (cap_id a) s = Some a"
  unfolding find_attempt_def by (rule find_first_unique)

lemma job_moved:
  assumes j: "deferred_capture_job F s = (out, s', evs)" and d: "distinct (map cap_id (capture_attempts s))"
  shows "moved s evs s'"
proof -
  let ?as = "list_pending CAPTURE_BATCH_SIZE None s"
  have in_s: "a \<in> set (capture_attempts s) \<and> cap_status a \<in> set OPEN_STATUSES" if "a \<in> set ?as" for a
    using that by (auto simp: list_pending_def dest!: in_set_takeD)
  have "distinct (map cap_id (sort_key cap_requested_at (filter (\<lambda>a. cap_status a \<in> set OPEN_STATUSES) (capture_attempts s))))"
    using d by (auto simp: distinct_map inj_on_def)
  then have "distinct (map cap_id ?as)" by (simp add: list_pending_def flip: take_map)
  then show ?thesis
    using j in_s find_attempt_in [OF d]
    by (intro process_moved [of F 0 "map (\<lambda>a. (cap_id a, cap_status a)) ?as" s out s' evs])
      (auto simp: deferred_capture_job_def process_pending_def comp_def status_of_def)
qed

lemma ticks_moved: "capture_ticks Fs s = (s', evs) \<Longrightarrow> distinct (map cap_id (capture_attempts s)) \<Longrightarrow> moved s evs s'"
proof (induction Fs arbitrary: s evs)
  case (Cons F Fs)
  obtain out s1 evs1 where j: "deferred_capture_job F s = (out, s1, evs1)" by (cases "deferred_capture_job F s") auto
  obtain evs2 where t: "capture_ticks Fs s1 = (s', evs2)" and evs: "evs = evs1 @ evs2" using Cons.prems(1) j by (auto split: prod.splits)
  have m: "moved s evs1 s1" by (rule job_moved [OF j Cons.prems(2)])
  then have "distinct (map cap_id (capture_attempts s1))" using Cons.prems(2) by (simp add: moved_def)
  from Cons.IH [OF t this] show ?case unfolding evs by (rule moved_trans [OF m])
qed simp

text \<open>Between two requests for the same capture the acquirer denied the first, or never took it.\<close>

definition not_taken :: "(bool \<times> string) res \<Rightarrow> bool" where
  "not_taken r \<longleftrightarrow> (case r of Inr _ \<Rightarrow> False | Inl e \<Rightarrow> \<not> caught_by e ProcessorIndeterminateError)"

lemma stuck_terminal: "st \<in> {''captured'', ''failed''} \<Longrightarrow> follow st evs = Some st' \<Longrightarrow> evs = []"
  by (cases "(st, evs)" rule: follow.cases) auto

fun is_denial :: "capture_event \<Rightarrow> bool" where
  "is_denial (Asked _ _ (Inr (st, _))) \<longleftrightarrow> st = ''not_captured''"
| "is_denial _ \<longleftrightarrow> False"

lemma undenied: "follow ''indeterminate'' ys = Some st \<Longrightarrow> \<forall>e\<in>set ys. \<not> is_denial e \<Longrightarrow> st \<noteq> ''pending''"
proof (induction ys)
  case (Cons y ys)
  then obtain j q r where y: "y = Asked j q r" by (cases y) auto
  show ?case using Cons stuck_terminal [of "''captured''" ys st] by (auto simp: y split: if_splits sum.splits)
qed auto

lemma follow_resent:
  assumes f: "follow st (xs @ Issued i k r # ys @ Issued i' k' r' # zs) = Some st'"
  shows "not_taken r \<or> (\<exists>e\<in>set ys. is_denial e)"
proof (rule ccontr)
  assume neg: "\<not> ?thesis"
  obtain st1 where st1: "follow st1 (Issued i k r # ys @ Issued i' k' r' # zs) = Some st'"
    using f by (auto simp: follow_append split: option.splits)
  let ?rest = "ys @ Issued i' k' r' # zs"
  have "follow ''indeterminate'' ?rest = Some st'"
  proof (cases r)
    case (Inl e)
    then have "outcome_of_answer r = Inr (''indeterminate'', None, Some (err_code e))" using neg by (simp add: not_taken_def outcome_of_answer_def)
    then show ?thesis using st1 by (simp split: if_splits)
  next
    case (Inr x)
    obtain st2 ref where x: "outcome_of_answer r = Inr (st2, ref, None)" "st2 \<in> {''captured'', ''failed''}"
      using Inr by (cases x) (auto simp: outcome_of_answer_def)
    then have "follow st2 ?rest = Some st'" using st1 by (simp split: if_splits)
    then show ?thesis using stuck_terminal [OF x(2)] by blast
  qed
  then obtain st2 where st2: "follow ''indeterminate'' ys = Some st2" "follow st2 (Issued i' k' r' # zs) = Some st'"
    by (auto simp: follow_append split: option.splits)
  moreover have "st2 = ''pending''" using st2(2) by (auto split: if_splits)
  ultimately show False using undenied neg by blast
qed

lemma of_attempt_two:
  "of_attempt i (xs @ Issued i k r # ys @ Issued i k' r' # zs)
     = of_attempt i xs @ Issued i k r # of_attempt i ys @ Issued i k' r' # of_attempt i zs"
  by (simp add: of_attempt_def)

lemma ticks_resent:
  assumes t: "capture_ticks Fs s = (s', xs @ Issued i k r # ys @ Issued i k' r' # zs)" and d: "distinct (map cap_id (capture_attempts s))"
  shows "k' = k \<and> (not_taken r \<or> (\<exists>e\<in>set ys. event_attempt e = i \<and> is_denial e))"
proof -
  note m = ticks_moved [OF t d, unfolded moved_def]
  have "key_in s i = Some k" "key_in s i = Some k'" using m by auto
  moreover have "follow (status_of s i) (of_attempt i xs @ Issued i k r # of_attempt i ys @ Issued i k' r' # of_attempt i zs) = Some (status_of s' i)"
    using m [THEN conjunct1, THEN spec, of i] by (simp only: of_attempt_two)
  then have "not_taken r \<or> (\<exists>e\<in>set (of_attempt i ys). is_denial e)" by (rule follow_resent)
  ultimately show ?thesis by (auto simp: of_attempt_def)
qed

section \<open>The claim of a capture\<close>

text \<open>The id of an attempt is the end of its key: two batches can take the same one.\<close>

lemma intent_claims_key:
  assumes "record_intent E s0 charge item acq batch amount c l s = Inr (Some a, s')"
  shows "ledger_key ''capture'' batch charge = Inr (cap_key a)" "find_by_key acq (cap_key a) s = None"
    "record_intent E' s0' charge item' acq batch amount' c' l' s' = Inr (None, s0')"
proof -
  obtain key where key: "ledger_key ''capture'' batch charge = Inr key" using assms by (auto simp: record_intent_def bindE_Inr_iff)
  let ?a = "intended_attempt E key charge item acq amount c l"
  have ins: "insert_attempt a s = Inr s'" and a: "a = ?a"
    using assms by (cases "insert_attempt ?a s"; auto simp: record_intent_def key split: if_splits)+
  show "ledger_key ''capture'' batch charge = Inr (cap_key a)" using key by (simp add: a intended_attempt_def)
  show "find_by_key acq (cap_key a) s = None"
    using ins unfolding find_by_key_def find_first_None by (auto simp: insert_attempt_def a intended_attempt_def split: if_splits)
  have "a \<in> set (capture_attempts s')" using ins by (auto simp: insert_attempt_def split: if_splits)
  then have "insert_attempt (intended_attempt E' key charge item' acq amount' c' l') s' = raise IntegrityError"
    unfolding insert_attempt_def a by (auto simp: intended_attempt_def intro!: bexI [of _ "intended_attempt E key charge item acq amount c l"])
  then show "record_intent E' s0' charge item' acq batch amount' c' l' s' = Inr (None, s0')"
    by (simp add: record_intent_def key raise_def caught_by_def subclass_of_def mro.simps exn_def)
qed

lemma intent_id_clash:
  assumes "ledger_key ''capture'' batch charge = Inr key" "x \<in> set (capture_attempts s)" "cap_id x = ''cap_'' @ drop (length key - 24) key"
  shows "record_intent E s0 charge item acq batch amount c l s = Inr (None, s0)"
proof -
  have "insert_attempt (intended_attempt E key charge item acq amount c l) s = raise IntegrityError"
    using assms(2,3) unfolding insert_attempt_def by (auto simp: intended_attempt_def)
  then show ?thesis by (simp add: record_intent_def assms(1) raise_def caught_by_def subclass_of_def mro.simps exn_def)
qed

end
