(* ===== verification/Clients.thy ===== *)
theory Clients
  imports Captures
begin

text \<open>
  The acquirer clients (\<^verbatim>\<open>src/app/clients\<close>): the translation of transport outcomes and HTTP statuses
  into the service's exceptions, the two acquirers over it, and the sandbox. What the network does is a
  function from a request and a world to an outcome and a world. Of a response the model keeps the
  status, the text and the JSON keys that are read; the time stamp of a capture, which no caller reads,
  is left out.
\<close>

section \<open>Transport\<close>

text \<open>An absent key is \<^verbatim>\<open>None\<close>; \<^verbatim>\<open>captured\<close> is its truth value.\<close>

record capture_json =
  cj_captured :: "bool option"
  cj_reference :: "string option"
  cj_state :: "string option"

record http_response =
  hr_status :: nat
  hr_text :: string
  hr_json :: "capture_json option"

datatype transport = Answered http_response | TimedOut | ConnectFailed | ProtocolBroken | Escaped error

record http_request =
  rq_method :: string
  rq_path :: string
  rq_params :: "(string \<times> string) list"
  rq_json :: "(string \<times> json_value) list"
  rq_idempotency_key :: "string option"

text \<open>An exception of the clients with the detail \<^verbatim>\<open>status\<close>.\<close>

record upstream_failure =
  uf_error :: error
  uf_status :: "nat option"

type_synonym 'a ures = "(upstream_failure, 'a) result"
type_synonym ('w, 'a) client_call = "'w \<Rightarrow> 'a ures \<times> 'w"
type_synonym 'w network = "http_request \<Rightarrow> 'w \<Rightarrow> transport \<times> 'w"

definition failure :: "exn_class \<Rightarrow> string \<Rightarrow> nat option \<Rightarrow> 'a ures" where
  "failure c code status = Inl \<lparr>uf_error = Error c code, uf_status = status\<rparr>"

definition andThen :: "('w, 'a) client_call \<Rightarrow> ('a \<Rightarrow> 'b ures) \<Rightarrow> ('w, 'b) client_call" where
  "andThen f g w = (case f w of (r, w1) \<Rightarrow> (bindE r g, w1))"

definition UNAVAILABLE_STATUSES :: "nat list" where "UNAVAILABLE_STATUSES = [500, 502, 503, 504]"

definition raise_for_status :: "http_response \<Rightarrow> http_response ures" where
  "raise_for_status r = (let status = hr_status r in
     if status < 400 then Inr r
     else if status = 429 then failure ProcessorUnavailableError ''rate_limited'' (Some status)
     else if status \<in> set UNAVAILABLE_STATUSES then failure ProcessorUnavailableError ''processor_unavailable'' (Some status)
     else failure UpstreamError ''internal_error'' (Some status))"

definition http_send :: "'w network \<Rightarrow> http_request \<Rightarrow> ('w, http_response) client_call" where
  "http_send net rq w = (case net rq w of
     (Answered r, w1) \<Rightarrow> (raise_for_status r, w1)
   | (TimedOut, w1) \<Rightarrow> (failure ProcessorIndeterminateError ''processor_timeout'' None, w1)
   | (ConnectFailed, w1) \<Rightarrow> (failure ProcessorUnavailableError ''processor_unavailable'' None, w1)
   | (ProtocolBroken, w1) \<Rightarrow> (failure ProcessorIndeterminateError ''processor_connection_reset'' None, w1)
   | (Escaped e, w1) \<Rightarrow> (Inl \<lparr>uf_error = e, uf_status = None\<rparr>, w1))"

definition http_get :: "'w network \<Rightarrow> string \<Rightarrow> (string \<times> string) list \<Rightarrow> ('w, http_response) client_call" where
  "http_get net path params = http_send net \<lparr>rq_method = ''GET'', rq_path = path, rq_params = params, rq_json = [], rq_idempotency_key = None\<rparr>"

definition http_post :: "'w network \<Rightarrow> string \<Rightarrow> (string \<times> json_value) list \<Rightarrow> string \<Rightarrow> ('w, http_response) client_call" where
  "http_post net path body key = http_send net \<lparr>rq_method = ''POST'', rq_path = path, rq_params = [], rq_json = body, rq_idempotency_key = Some key\<rparr>"

text \<open>An \<^verbatim>\<open>except UpstreamError\<close> clause that answers a 404 in its own way.\<close>

definition on_404 :: "'a ures \<Rightarrow> ('w, 'a) client_call \<Rightarrow> ('w, 'a) client_call" where
  "on_404 answer f w = (case f w of
     (Inl e, w1) \<Rightarrow> (if caught_by (uf_error e) UpstreamError \<and> uf_status e = Some 404 then answer else Inl e, w1)
   | (Inr x, w1) \<Rightarrow> (Inr x, w1))"

definition get_settlement_file :: "'w network \<Rightarrow> date \<Rightarrow> string option \<Rightarrow> ('w, string) client_call" where
  "get_settlement_file net d c = andThen (on_404 (failure SettlementFileNotReadyError (class_code SettlementFileNotReadyError) None)
      (http_get net ''/v2/settlement-files'' ((''date'', iso_date d) # (case c of None \<Rightarrow> [] | Some x \<Rightarrow> [(''currency'', x)]))))
    (\<lambda>r. Inr (hr_text r))"

definition json_of :: "http_response \<Rightarrow> capture_json ures" where
  "json_of r = (case hr_json r of None \<Rightarrow> failure ValueError [] None | Some j \<Rightarrow> Inr j)"

section \<open>The two acquirers\<close>

record capture_response =
  cr_captured :: bool
  cr_reference :: string

record capture_status =
  cs_state :: string
  cs_reference :: "string option"

record 'w processor =
  confirm_settlement :: "string \<Rightarrow> string \<Rightarrow> string \<Rightarrow> ('w, unit) client_call"
  capture_deferred :: "string \<Rightarrow> int \<Rightarrow> string \<Rightarrow> string \<Rightarrow> string \<Rightarrow> ('w, capture_response) client_call"
  get_capture_status :: "string \<Rightarrow> string \<Rightarrow> ('w, capture_status) client_call"
  fetch_settlement_file :: "string \<Rightarrow> date \<Rightarrow> string option \<Rightarrow> ('w, string) client_call"

definition worldflow_confirm :: "'w network \<Rightarrow> string \<Rightarrow> string \<Rightarrow> string \<Rightarrow> ('w, unit) client_call" where
  "worldflow_confirm net acquirer reference batch =
     andThen (http_post net (''/v2/settlement-files/'' @ batch @ ''/confirm'')
       [(''acquirer_reference'', JStr reference), (''confirmed_by'', JStr ''payzeno-ledger'')] (''confirm:'' @ batch @ '':'' @ reference)) (\<lambda>_. Inr ())"

definition worldflow_capture :: "'w network \<Rightarrow> string \<Rightarrow> int \<Rightarrow> string \<Rightarrow> string \<Rightarrow> string \<Rightarrow> ('w, capture_response) client_call" where
  "worldflow_capture net charge amount c reference key =
     andThen (http_post net (''/v2/authorizations/'' @ reference @ ''/captures'')
       [(''amount'', JInt amount), (''currency'', JStr c), (''merchant_reference'', JStr charge)] key) (\<lambda>r.
     bindE (json_of r) (\<lambda>j. Inr \<lparr>cr_captured = (case cj_captured j of None \<Rightarrow> True | Some b \<Rightarrow> b),
       cr_reference = text_or (cj_reference j) key\<rparr>))"

definition worldflow_status :: "'w network \<Rightarrow> string \<Rightarrow> string \<Rightarrow> ('w, capture_status) client_call" where
  "worldflow_status net acquirer key =
     on_404 (Inr \<lparr>cs_state = ''not_captured'', cs_reference = None\<rparr>)
       (andThen (http_get net (''/v2/authorizations/'' @ key @ ''/captures/'' @ key) []) (\<lambda>r. bindE (json_of r) (\<lambda>j.
          let state = (case cj_state j of None \<Rightarrow> ''unknown'' | Some x \<Rightarrow> x)
          in Inr \<lparr>cs_state = if state \<in> {''captured'', ''not_captured''} then state else ''unknown'', cs_reference = cj_reference j\<rparr>)))"

definition worldflow_health :: "'w network \<Rightarrow> ('w, bool) client_call" where
  "worldflow_health net w = (case http_get net ''/v2/health'' [] w of
     (Inr _, w1) \<Rightarrow> (Inr True, w1)
   | (Inl e, w1) \<Rightarrow> (if caught_by (uf_error e) UpstreamError \<or> caught_by (uf_error e) ProcessorIndeterminateError then Inr False else Inl e, w1))"

definition worldflow_client :: "'w network \<Rightarrow> 'w processor" where
  "worldflow_client net = \<lparr>confirm_settlement = worldflow_confirm net, capture_deferred = worldflow_capture net,
     get_capture_status = worldflow_status net, fetch_settlement_file = (\<lambda>_. get_settlement_file net)\<rparr>"

definition nordpay_confirm :: "'w network \<Rightarrow> string \<Rightarrow> string \<Rightarrow> string \<Rightarrow> ('w, unit) client_call" where
  "nordpay_confirm net acquirer reference batch =
     andThen (http_post net (''/v2/settlement-files/'' @ batch @ ''/confirm'')
       [(''acquirer_reference'', JStr reference), (''confirmed_by'', JStr ''payzeno-ledger'')] (''confirm:'' @ batch @ '':'' @ reference)) (\<lambda>_. Inr ())"

definition nordpay_capture :: "'w network \<Rightarrow> string \<Rightarrow> int \<Rightarrow> string \<Rightarrow> string \<Rightarrow> string \<Rightarrow> ('w, capture_response) client_call" where
  "nordpay_capture net charge amount c reference key =
     andThen (http_post net (''/v2/authorizations/'' @ reference @ ''/captures'')
       [(''amount'', JInt amount), (''currency'', JStr c), (''merchant_reference'', JStr charge)] key) (\<lambda>r.
     bindE (json_of r) (\<lambda>j. Inr \<lparr>cr_captured = (case cj_captured j of None \<Rightarrow> True | Some b \<Rightarrow> b),
       cr_reference = text_or (cj_reference j) key\<rparr>))"

definition nordpay_status :: "'w network \<Rightarrow> string \<Rightarrow> string \<Rightarrow> ('w, capture_status) client_call" where
  "nordpay_status net acquirer key =
     on_404 (Inr \<lparr>cs_state = ''not_captured'', cs_reference = None\<rparr>)
       (andThen (http_get net (''/v2/authorizations/'' @ key @ ''/captures/'' @ key) []) (\<lambda>r. bindE (json_of r) (\<lambda>j.
          let state = (case cj_state j of None \<Rightarrow> ''unknown'' | Some x \<Rightarrow> x)
          in Inr \<lparr>cs_state = if state \<in> {''captured'', ''not_captured''} then state else ''unknown'', cs_reference = cj_reference j\<rparr>)))"

definition nordpay_health :: "'w network \<Rightarrow> ('w, bool) client_call" where
  "nordpay_health net w = (case http_get net ''/v2/health'' [] w of
     (Inr _, w1) \<Rightarrow> (Inr True, w1)
   | (Inl e, w1) \<Rightarrow> (if caught_by (uf_error e) UpstreamError \<or> caught_by (uf_error e) ProcessorIndeterminateError then Inr False else Inl e, w1))"

definition nordpay_client :: "'w network \<Rightarrow> 'w processor" where
  "nordpay_client net = \<lparr>confirm_settlement = nordpay_confirm net, capture_deferred = nordpay_capture net,
     get_capture_status = nordpay_status net, fetch_settlement_file = (\<lambda>_. get_settlement_file net)\<rparr>"

section \<open>The sandbox\<close>

text \<open>Which keys the digest declines is a parameter.\<close>

record sandbox_state =
  sx_captures :: "(string \<times> capture_response) list"
  sx_calls :: nat

definition SAMPLE_FILE :: string where
  "SAMPLE_FILE = ''acquirer_reference,network_reference,gross_minor,fee_minor,interchange_minor,scheme_fee_minor,net_minor,currency,line_type'' @ [CHR 0x0A]
     @ ''SBX-0001,ntx_sandbox_0001,10000,290,180,40,9710,USD,sale'' @ [CHR 0x0A]
     @ ''SBX-0002,ntx_sandbox_0002,2500,95,60,15,2405,USD,sale'' @ [CHR 0x0A]
     @ ''SBX-0003,ntx_sandbox_0003,-1500,0,0,0,-1500,USD,refund'' @ [CHR 0x0A]"

definition sandbox_confirm :: "string \<Rightarrow> string \<Rightarrow> string \<Rightarrow> (sandbox_state, unit) client_call" where
  "sandbox_confirm acquirer reference batch x = (Inr (), x\<lparr>sx_calls := Suc (sx_calls x)\<rparr>)"

definition sandbox_capture :: "(string \<Rightarrow> bool) \<Rightarrow> string \<Rightarrow> int \<Rightarrow> string \<Rightarrow> string \<Rightarrow> string \<Rightarrow> (sandbox_state, capture_response) client_call" where
  "sandbox_capture decline charge amount c reference key x = (case map_of (sx_captures x) key of
     Some r \<Rightarrow> (Inr r, x)
   | None \<Rightarrow> let x1 = x\<lparr>sx_calls := Suc (sx_calls x)\<rparr> in
       if decline key then (failure ProcessorUnavailableError ''temporary_failure'' None, x1)
       else let r = \<lparr>cr_captured = True, cr_reference = ''sbxcap_'' @ drop (length key - 16) key\<rparr>
            in (Inr r, x1\<lparr>sx_captures := (key, r) # sx_captures x1\<rparr>))"

definition sandbox_status :: "string \<Rightarrow> string \<Rightarrow> (sandbox_state, capture_status) client_call" where
  "sandbox_status acquirer key x = (Inr (case map_of (sx_captures x) key of
     None \<Rightarrow> \<lparr>cs_state = ''not_captured'', cs_reference = None\<rparr>
   | Some r \<Rightarrow> \<lparr>cs_state = ''captured'', cs_reference = Some (cr_reference r)\<rparr>), x)"

definition sandbox_file :: "string \<Rightarrow> date \<Rightarrow> string option \<Rightarrow> (sandbox_state, string) client_call" where
  "sandbox_file acquirer d c x = (Inr SAMPLE_FILE, x)"

definition sandbox_client :: "(string \<Rightarrow> bool) \<Rightarrow> sandbox_state processor" where
  "sandbox_client decline = \<lparr>confirm_settlement = sandbox_confirm, capture_deferred = sandbox_capture decline,
     get_capture_status = sandbox_status, fetch_settlement_file = sandbox_file\<rparr>"

section \<open>What the translation guarantees\<close>

text \<open>A caller sees the service's exceptions alone, except for a transport exception the wrapper does not name.\<close>

lemma raise_for_status_cases:
  "raise_for_status r = Inr r' \<longleftrightarrow> r' = r \<and> hr_status r < 400"
  "raise_for_status r = Inl e \<Longrightarrow> 400 \<le> hr_status r \<and> uf_status e = Some (hr_status r)
     \<and> err_class (uf_error e) = (if hr_status r \<in> {429, 500, 502, 503, 504} then ProcessorUnavailableError else UpstreamError)"
  by (auto simp: raise_for_status_def failure_def UNAVAILABLE_STATUSES_def Let_def split: if_splits)

lemma send_indeterminate:
  "fst (http_send net rq w) = Inl e \<Longrightarrow> err_class (uf_error e) = ProcessorIndeterminateError
     \<Longrightarrow> fst (net rq w) \<in> {TimedOut, ProtocolBroken} \<or> (\<exists>x. fst (net rq w) = Escaped x)"
  by (auto simp: http_send_def failure_def dest: raise_for_status_cases(2) split: prod.splits transport.splits if_splits)

lemma send_world: "snd (http_send net rq w) = snd (net rq w)"
  by (simp add: http_send_def split: prod.split transport.split)

lemma andThen_world [simp]: "snd (andThen f g w) = snd (f w)" by (simp add: andThen_def split: prod.split)

lemma on_404_world [simp]: "snd (on_404 a f w) = snd (f w)" by (simp add: on_404_def split: prod.split sum.split)

lemma nordpay_is_worldflow: "nordpay_client net = worldflow_client net"
  by (simp add: nordpay_client_def worldflow_client_def fun_eq_iff nordpay_confirm_def worldflow_confirm_def nordpay_capture_def
      worldflow_capture_def nordpay_status_def worldflow_status_def)

text \<open>The sandbox replays: one key is captured once, and the status agrees with the capture.\<close>

lemma sandbox_replays:
  assumes "sandbox_capture dec ch a c ref key x = (Inr r, x')"
  shows "sandbox_capture dec ch' a' c' ref' key x' = (Inr r, x')"
    "sandbox_status acq key x' = (Inr \<lparr>cs_state = ''captured'', cs_reference = Some (cr_reference r)\<rparr>, x')"
  using assms by (auto simp: sandbox_capture_def sandbox_status_def Let_def failure_def split: option.splits if_splits)

end
