(* ===== verification/Breaker.thy ===== *)
theory Breaker
  imports Clients
begin

text \<open>
  The circuit breakers and the facade the services hold (\<^verbatim>\<open>src/app/clients/breaker.py\<close>). A breaker keeps
  the outcomes of the last \<^verbatim>\<open>window\<close> calls of each circuit and opens it when too many failed; the times at
  which a call starts and at which its outcome is recorded are arguments. A window of zero, which no
  setting uses, is outside the model.
\<close>

section \<open>The breaker of one process\<close>

record mem_breaker =
  mb_threshold_pct :: nat
  mb_window :: nat
  mb_reset_seconds :: rat
  mb_outcomes :: "string \<Rightarrow> bool list option"
  mb_opened_at :: "string \<Rightarrow> rat option"

definition circuit_open :: "'a ures" where
  "circuit_open = failure ProcessorUnavailableError ''processor_unavailable'' None"

definition too_many :: "nat \<Rightarrow> bool list \<Rightarrow> bool" where
  "too_many threshold bucket \<longleftrightarrow> threshold \<le> length (filter Not bucket) * 100 div length bucket"

definition mem_is_open :: "rat \<Rightarrow> string \<Rightarrow> mem_breaker \<Rightarrow> bool \<times> mem_breaker" where
  "mem_is_open now name b = (case mb_opened_at b name of
     None \<Rightarrow> (False, b)
   | Some opened \<Rightarrow> if now - opened \<ge> mb_reset_seconds b
       then (False, b\<lparr>mb_opened_at := (mb_opened_at b)(name := None), mb_outcomes := (mb_outcomes b)(name := None)\<rparr>)
       else (True, b))"

text \<open>A \<^verbatim>\<open>deque\<close> with \<^verbatim>\<open>maxlen\<close> drops from the left.\<close>

definition deque_append :: "nat \<Rightarrow> bool list \<Rightarrow> bool \<Rightarrow> bool list" where
  "deque_append maxlen xs x = drop (Suc (length xs) - maxlen) (xs @ [x])"

definition mem_record :: "rat \<Rightarrow> string \<Rightarrow> bool \<Rightarrow> mem_breaker \<Rightarrow> mem_breaker" where
  "mem_record now name ok b = (let bucket = deque_append (mb_window b) (case mb_outcomes b name of None \<Rightarrow> [] | Some xs \<Rightarrow> xs) ok;
       b1 = b\<lparr>mb_outcomes := (mb_outcomes b)(name \<mapsto> bucket)\<rparr>
     in if length bucket < mb_window b then b1
        else if too_many (mb_threshold_pct b) bucket then b1\<lparr>mb_opened_at := (mb_opened_at b1)(name \<mapsto> now)\<rparr> else b1)"

definition mem_call :: "rat \<Rightarrow> rat \<Rightarrow> string \<Rightarrow> ('w, 'r) client_call \<Rightarrow> mem_breaker \<times> 'w \<Rightarrow> 'r ures \<times> mem_breaker \<times> 'w" where
  "mem_call t t' name fn st = (case st of (b, w) \<Rightarrow> case mem_is_open t name b of
     (True, b1) \<Rightarrow> (circuit_open, b1, w)
   | (False, b1) \<Rightarrow> (case fn w of
       (Inl e, w1) \<Rightarrow> (Inl e, if caught_by (uf_error e) UpstreamError then mem_record t' name False b1 else b1, w1)
     | (Inr r, w1) \<Rightarrow> (Inr r, mem_record t' name True b1, w1)))"

section \<open>The shared breaker\<close>

text \<open>The outcomes newest first, the time at which the marker of an open circuit expires, and the cache of the last reading.\<close>

record redis_breaker =
  rb_threshold_pct :: nat
  rb_window :: nat
  rb_reset_seconds :: rat
  rb_outcomes :: "string \<Rightarrow> bool list"
  rb_open_until :: "string \<Rightarrow> rat option"
  rb_open_cache :: "string \<Rightarrow> (rat \<times> bool) option"

definition redis_is_open :: "rat \<Rightarrow> string \<Rightarrow> redis_breaker \<Rightarrow> bool" where
  "redis_is_open now name b = (case rb_open_cache b name of
     None \<Rightarrow> False | Some (cached_at, v) \<Rightarrow> if now - cached_at > 1 / 4 then False else v)"

definition marker_set :: "rat \<Rightarrow> string \<Rightarrow> redis_breaker \<Rightarrow> bool" where
  "marker_set now name b = (case rb_open_until b name of None \<Rightarrow> False | Some t \<Rightarrow> now < t)"

definition is_open_remote :: "rat \<Rightarrow> string \<Rightarrow> redis_breaker \<Rightarrow> bool \<times> redis_breaker" where
  "is_open_remote now name b = (let v = marker_set now name b in (v, b\<lparr>rb_open_cache := (rb_open_cache b)(name \<mapsto> (now, v))\<rparr>))"

definition redis_record :: "rat \<Rightarrow> string \<Rightarrow> bool \<Rightarrow> redis_breaker \<Rightarrow> redis_breaker" where
  "redis_record now name ok b = (let outcomes = take (rb_window b) (ok # rb_outcomes b name);
       b1 = b\<lparr>rb_outcomes := (rb_outcomes b)(name := outcomes)\<rparr>
     in if length outcomes < rb_window b then b1
        else if too_many (rb_threshold_pct b) outcomes
        then b1\<lparr>rb_open_until := (rb_open_until b1)(name \<mapsto> now + rb_reset_seconds b), rb_open_cache := (rb_open_cache b1)(name \<mapsto> (now, True))\<rparr>
        else b1)"

definition redis_call :: "rat \<Rightarrow> rat \<Rightarrow> string \<Rightarrow> ('w, 'r) client_call \<Rightarrow> redis_breaker \<times> 'w \<Rightarrow> 'r ures \<times> redis_breaker \<times> 'w" where
  "redis_call t t' name fn st = (case st of (b, w) \<Rightarrow> case is_open_remote t name b of
     (True, b1) \<Rightarrow> (circuit_open, b1, w)
   | (False, b1) \<Rightarrow> (case fn w of
       (Inl e, w1) \<Rightarrow> (Inl e, if caught_by (uf_error e) UpstreamError then redis_record t' name False b1 else b1, w1)
     | (Inr r, w1) \<Rightarrow> (Inr r, redis_record t' name True b1, w1)))"

section \<open>The facade\<close>

text \<open>
  The facade over a breaker's \<^verbatim>\<open>call\<close>. The default acquirer stands in for an absent or empty one, in
  the choice of the client and in the name of the circuit.
\<close>

type_synonym ('b, 'w, 'r) guarded = "string \<Rightarrow> ('w, 'r) client_call \<Rightarrow> 'b \<times> 'w \<Rightarrow> 'r ures \<times> 'b \<times> 'w"

definition client_for :: "(string \<Rightarrow> 'w processor option) \<Rightarrow> string \<Rightarrow> string option \<Rightarrow> 'w processor ures" where
  "client_for clients dflt acquirer = (case clients (text_or acquirer dflt) of
     None \<Rightarrow> failure ProcessorUnavailableError ''processor_unavailable'' None | Some c \<Rightarrow> Inr c)"

definition facade_confirm :: "('b, 'w, unit) guarded \<Rightarrow> (string \<Rightarrow> 'w processor option) \<Rightarrow> string \<Rightarrow> string \<Rightarrow> string \<Rightarrow> string
    \<Rightarrow> 'b \<times> 'w \<Rightarrow> unit ures \<times> 'b \<times> 'w" where
  "facade_confirm call clients dflt acquirer reference batch st = (case client_for clients dflt (Some acquirer) of
     Inl e \<Rightarrow> (Inl e, st)
   | Inr c \<Rightarrow> call (acquirer @ '':confirm_settlement'') (confirm_settlement c acquirer reference batch) st)"

definition facade_capture :: "('b, 'w, capture_response) guarded \<Rightarrow> (string \<Rightarrow> 'w processor option) \<Rightarrow> string \<Rightarrow> string \<Rightarrow> int \<Rightarrow> string
    \<Rightarrow> string \<Rightarrow> string \<Rightarrow> string option \<Rightarrow> 'b \<times> 'w \<Rightarrow> capture_response ures \<times> 'b \<times> 'w" where
  "facade_capture call clients dflt charge amount c reference key acquirer st = (case client_for clients dflt acquirer of
     Inl e \<Rightarrow> (Inl e, st)
   | Inr cl \<Rightarrow> call (text_or acquirer dflt @ '':capture_deferred'') (capture_deferred cl charge amount c reference key) st)"

definition facade_status :: "('b, 'w, capture_status) guarded \<Rightarrow> (string \<Rightarrow> 'w processor option) \<Rightarrow> string \<Rightarrow> string \<Rightarrow> string
    \<Rightarrow> 'b \<times> 'w \<Rightarrow> capture_status ures \<times> 'b \<times> 'w" where
  "facade_status call clients dflt acquirer key st = (case client_for clients dflt (Some acquirer) of
     Inl e \<Rightarrow> (Inl e, st)
   | Inr c \<Rightarrow> call (acquirer @ '':get_capture_status'') (get_capture_status c acquirer key) st)"

definition facade_file :: "('b, 'w, string) guarded \<Rightarrow> (string \<Rightarrow> 'w processor option) \<Rightarrow> string \<Rightarrow> string \<Rightarrow> date \<Rightarrow> string option
    \<Rightarrow> 'b \<times> 'w \<Rightarrow> string ures \<times> 'b \<times> 'w" where
  "facade_file call clients dflt acquirer d c st = (case client_for clients dflt (Some acquirer) of
     Inl e \<Rightarrow> (Inl e, st)
   | Inr cl \<Rightarrow> call (acquirer @ '':fetch_settlement_file'') (fetch_settlement_file cl acquirer d c) st)"

text \<open>The call the deferred-capture service makes: no acquirer, and the key in the place of the reference.\<close>

definition capture_of_attempt :: "('b, 'w, capture_response) guarded \<Rightarrow> (string \<Rightarrow> 'w processor option) \<Rightarrow> string \<Rightarrow> capture_attempt
    \<Rightarrow> 'b \<times> 'w \<Rightarrow> capture_response ures \<times> 'b \<times> 'w" where
  "capture_of_attempt call clients dflt a = facade_capture call clients dflt (cap_charge a) (cap_amount a) (cap_currency a) (cap_key a) (cap_key a) None"

definition status_of_attempt :: "('b, 'w, capture_status) guarded \<Rightarrow> (string \<Rightarrow> 'w processor option) \<Rightarrow> string \<Rightarrow> capture_attempt
    \<Rightarrow> 'b \<times> 'w \<Rightarrow> capture_status ures \<times> 'b \<times> 'w" where
  "status_of_attempt call clients dflt a = facade_status call clients dflt (cap_acquirer a) (cap_key a)"

text \<open>The wiring of the container.\<close>

definition DEFAULT_ACQUIRER :: string where "DEFAULT_ACQUIRER = ''worldflow''"

definition container_clients :: "'w processor \<Rightarrow> 'w processor \<Rightarrow> 'w processor \<Rightarrow> string \<Rightarrow> 'w processor option" where
  "container_clients worldflow nordpay sandbox = [''worldflow'' \<mapsto> worldflow, ''nordpay'' \<mapsto> nordpay, ''sandbox'' \<mapsto> sandbox]"

definition build_breaker :: "nat \<Rightarrow> nat \<Rightarrow> rat \<Rightarrow> mem_breaker" where
  "build_breaker pct n reset = \<lparr>mb_threshold_pct = pct, mb_window = n, mb_reset_seconds = reset,
     mb_outcomes = (\<lambda>_. None), mb_opened_at = (\<lambda>_. None)\<rparr>"

section \<open>Laws of a breaker\<close>

text \<open>An open circuit sends nothing; a closed one sends the call as it is; neither touches another circuit.\<close>

locale circuit_breaker =
  fixes call :: "rat \<Rightarrow> rat \<Rightarrow> string \<Rightarrow> ('w, 'r) client_call \<Rightarrow> 'b \<times> 'w \<Rightarrow> 'r ures \<times> 'b \<times> 'w"
    and open_at :: "rat \<Rightarrow> string \<Rightarrow> 'b \<Rightarrow> bool"
  assumes blocked: "open_at t name b \<Longrightarrow> \<exists>b'. call t t' name fn (b, w) = (circuit_open, b', w)"
    and passed: "\<not> open_at t name b \<Longrightarrow> \<exists>b'. call t t' name fn (b, w) = (fst (fn w), b', snd (fn w))"
    and apart: "call t t' name fn (b, w) = (r, b', w') \<Longrightarrow> name' \<noteq> name \<Longrightarrow> open_at t'' name' b' = open_at t'' name' b"
begin

lemma world_blocked: "open_at t name b \<Longrightarrow> fst (call t t' name fn (b, w)) = circuit_open \<and> snd (snd (call t t' name fn (b, w))) = w"
  using blocked [of t name b t' fn w] by auto

lemma sent_iff: "snd (snd (call t t' name fn (b, w))) = (if open_at t name b then w else snd (fn w))"
  using blocked [of t name b t' fn w] passed [of t name b t' fn w] by auto

fun calls :: "(rat \<times> rat \<times> string \<times> ('w, 'r) client_call) list \<Rightarrow> 'b \<times> 'w \<Rightarrow> 'b \<times> 'w" where
  "calls [] st = st"
| "calls ((t, t', name, fn) # cs) st = calls cs (snd (call t t' name fn st))"

text \<open>Whatever happens on other circuits, a circuit keeps its state.\<close>

lemma calls_apart: "\<forall>(t, t', name', fn)\<in>set cs. name' \<noteq> name \<Longrightarrow> open_at t'' name (fst (calls cs (b, w))) = open_at t'' name b"
proof (induction cs arbitrary: b w)
  case (Cons c cs)
  obtain t t' n fn where c: "c = (t, t', n, fn)" by (cases c) auto
  obtain r b1 w1 where e: "call t t' n fn (b, w) = (r, b1, w1)" by (cases "call t t' n fn (b, w)") auto
  have "name \<noteq> n" using Cons.prems by (auto simp: c)
  then show ?case using Cons.IH [of b1 w1] Cons.prems apart [OF e, of name t''] by (simp add: c e)
qed simp

end

definition mem_open :: "rat \<Rightarrow> string \<Rightarrow> mem_breaker \<Rightarrow> bool" where "mem_open t name b = fst (mem_is_open t name b)"

lemma mem_record_apart: "n \<noteq> name \<Longrightarrow> mb_opened_at (mem_record t name ok b) n = mb_opened_at b n"
  "mb_reset_seconds (mem_record t name ok b) = mb_reset_seconds b"
  by (auto simp: mem_record_def Let_def)

lemma mem_is_open_apart: "mem_is_open t name b = (v, b') \<Longrightarrow> n \<noteq> name \<Longrightarrow> mb_opened_at b' n = mb_opened_at b n"
  "mem_is_open t name b = (v, b') \<Longrightarrow> mb_reset_seconds b' = mb_reset_seconds b"
  by (auto simp: mem_is_open_def split: option.splits if_splits)

lemma mem_open_cong: "mb_opened_at b' n = mb_opened_at b n \<Longrightarrow> mb_reset_seconds b' = mb_reset_seconds b \<Longrightarrow> mem_open t n b' = mem_open t n b"
  by (simp add: mem_open_def mem_is_open_def split: option.split)

interpretation memory: circuit_breaker mem_call mem_open
proof unfold_locales
  show "mem_open t name b \<Longrightarrow> \<exists>b'. mem_call t t' name fn (b, w) = (circuit_open, b', w)" for t t' name b w and fn :: "('a, 'b) client_call"
    by (auto simp: mem_open_def mem_call_def split: prod.splits bool.splits)
  show "\<not> mem_open t name b \<Longrightarrow> \<exists>b'. mem_call t t' name fn (b, w) = (fst (fn w), b', snd (fn w))" for t t' name b w and fn :: "('a, 'b) client_call"
    by (auto simp: mem_open_def mem_call_def split: prod.splits bool.splits sum.splits)
  show "mem_open t'' name' b' = mem_open t'' name' b" if "mem_call t t' name fn (b, w) = (r, b', w')" "name' \<noteq> name"
    for t t' t'' name name' b b' w w' r and fn :: "('a, 'b) client_call"
  proof (rule mem_open_cong)
    obtain v b1 where o: "mem_is_open t name b = (v, b1)" by (cases "mem_is_open t name b")
    note s = that(1) [unfolded mem_call_def] mem_is_open_apart [OF o]
    show "mb_opened_at b' name' = mb_opened_at b name'" using s o that(2)
      by (auto simp: mem_record_apart split: bool.splits prod.splits sum.splits)
    show "mb_reset_seconds b' = mb_reset_seconds b" using s o
      by (auto simp: mem_record_apart split: bool.splits prod.splits sum.splits)
  qed
qed

lemma redis_record_apart: "n \<noteq> name \<Longrightarrow> rb_open_until (redis_record t name ok b) n = rb_open_until b n"
  by (auto simp: redis_record_def Let_def)

interpretation shared: circuit_breaker redis_call marker_set
proof unfold_locales
  show "marker_set t name b \<Longrightarrow> \<exists>b'. redis_call t t' name fn (b, w) = (circuit_open, b', w)" for t t' name b w and fn :: "('a, 'b) client_call"
    by (simp add: redis_call_def is_open_remote_def Let_def)
  show "\<not> marker_set t name b \<Longrightarrow> \<exists>b'. redis_call t t' name fn (b, w) = (fst (fn w), b', snd (fn w))" for t t' name b w and fn :: "('a, 'b) client_call"
    by (simp add: redis_call_def is_open_remote_def Let_def split: prod.split sum.split)
  show "marker_set t'' name' b' = marker_set t'' name' b" if "redis_call t t' name fn (b, w) = (r, b', w')" "name' \<noteq> name"
    for t t' t'' name name' b b' w w' r and fn :: "('a, 'b) client_call"
  proof -
    have "rb_open_until b' name' = rb_open_until b name'" using that
      by (cases "marker_set t name b") (auto simp: redis_call_def is_open_remote_def Let_def redis_record_apart split: if_splits prod.splits sum.splits)
    then show ?thesis by (simp add: marker_set_def)
  qed
qed

section \<open>When a circuit opens\<close>

definition last_n :: "nat \<Rightarrow> 'a list \<Rightarrow> 'a list" where "last_n n xs = drop (length xs - n) xs"

lemma deque_is_last: "deque_append n (last_n n xs) x = last_n n (xs @ [x])"
  by (cases "length xs \<le> n") (auto simp: deque_append_def last_n_def Suc_diff_le)

fun mem_records :: "string \<Rightarrow> (rat \<times> bool) list \<Rightarrow> mem_breaker \<Rightarrow> mem_breaker" where
  "mem_records name [] b = b"
| "mem_records name ((t, ok) # os) b = mem_records name os (mem_record t name ok b)"

fun redis_records :: "string \<Rightarrow> (rat \<times> bool) list \<Rightarrow> redis_breaker \<Rightarrow> redis_breaker" where
  "redis_records name [] b = b"
| "redis_records name ((t, ok) # os) b = redis_records name os (redis_record t name ok b)"

definition bucket_of :: "string \<Rightarrow> mem_breaker \<Rightarrow> bool list" where
  "bucket_of name b = (case mb_outcomes b name of None \<Rightarrow> [] | Some xs \<Rightarrow> xs)"

definition trips :: "nat \<Rightarrow> nat \<Rightarrow> bool list \<Rightarrow> bool" where
  "trips w pct oks \<longleftrightarrow> w \<le> length oks \<and> too_many pct (last_n w oks)"

lemma mem_record_window:
  assumes "bucket_of name b = last_n (mb_window b) past"
  shows "bucket_of name (mem_record t name ok b) = last_n (mb_window b) (past @ [ok])"
    "mb_opened_at (mem_record t name ok b) name = (if trips (mb_window b) (mb_threshold_pct b) (past @ [ok]) then Some t else mb_opened_at b name)"
    "mb_window (mem_record t name ok b) = mb_window b" "mb_threshold_pct (mem_record t name ok b) = mb_threshold_pct b"
proof -
  have d: "deque_append (mb_window b) (case mb_outcomes b name of None \<Rightarrow> [] | Some xs \<Rightarrow> xs) ok = last_n (mb_window b) (past @ [ok])"
    using assms by (simp add: deque_is_last flip: bucket_of_def)
  have l: "length (last_n (mb_window b) (past @ [ok])) < mb_window b \<longleftrightarrow> length (past @ [ok]) < mb_window b" by (auto simp: last_n_def)
  show "bucket_of name (mem_record t name ok b) = last_n (mb_window b) (past @ [ok])"
    "mb_opened_at (mem_record t name ok b) name = (if trips (mb_window b) (mb_threshold_pct b) (past @ [ok]) then Some t else mb_opened_at b name)"
    "mb_window (mem_record t name ok b) = mb_window b" "mb_threshold_pct (mem_record t name ok b) = mb_threshold_pct b"
    unfolding mem_record_def Let_def d l by (auto simp: trips_def bucket_of_def)
qed

lemma mem_records_window:
  assumes "bucket_of name b = last_n (mb_window b) past"
  shows "bucket_of name (mem_records name os b) = last_n (mb_window b) (past @ map snd os)
    \<and> (mb_opened_at (mem_records name os b) name \<noteq> None \<longleftrightarrow> mb_opened_at b name \<noteq> None
        \<or> (\<exists>n. 0 < n \<and> n \<le> length os \<and> trips (mb_window b) (mb_threshold_pct b) (past @ map snd (take n os))))"
  using assms
proof (induction os arbitrary: b past)
  case (Cons x os)
  obtain t ok where x: "x = (t, ok)" by (cases x)
  note r = mem_record_window [OF Cons.prems, of t ok]
  have IH: "bucket_of name (mem_records name os (mem_record t name ok b)) = last_n (mb_window b) ((past @ [ok]) @ map snd os)
    \<and> (mb_opened_at (mem_records name os (mem_record t name ok b)) name \<noteq> None \<longleftrightarrow> mb_opened_at (mem_record t name ok b) name \<noteq> None
        \<or> (\<exists>n. 0 < n \<and> n \<le> length os \<and> trips (mb_window b) (mb_threshold_pct b) ((past @ [ok]) @ map snd (take n os))))"
    using Cons.IH [of "mem_record t name ok b" "past @ [ok]"] r by simp
  have split: "(\<exists>n. 0 < n \<and> n \<le> Suc (length os) \<and> P (take n (x # os))) \<longleftrightarrow> P [x] \<or> (\<exists>n. 0 < n \<and> n \<le> length os \<and> P (x # take n os))" for P
  proof
    assume "\<exists>n. 0 < n \<and> n \<le> Suc (length os) \<and> P (take n (x # os))"
    then obtain n where n: "0 < n" "n \<le> Suc (length os)" "P (take n (x # os))" by blast
    then obtain m where "n = Suc m" by (cases n) auto
    then show "P [x] \<or> (\<exists>n. 0 < n \<and> n \<le> length os \<and> P (x # take n os))" using n by (cases m) auto
  next
    assume "P [x] \<or> (\<exists>n. 0 < n \<and> n \<le> length os \<and> P (x # take n os))"
    then show "\<exists>n. 0 < n \<and> n \<le> Suc (length os) \<and> P (take n (x # os))"
    proof
      assume "P [x]" then show ?thesis by (intro exI [of _ 1]) simp
    next
      assume "\<exists>n. 0 < n \<and> n \<le> length os \<and> P (x # take n os)"
      then obtain n where "0 < n" "n \<le> length os" "P (x # take n os)" by blast
      then show ?thesis by (intro exI [of _ "Suc n"]) simp
    qed
  qed
  show ?case using IH r(2) split [of "\<lambda>ys. trips (mb_window b) (mb_threshold_pct b) (past @ map snd ys)"] by (auto simp: x)
qed simp

section \<open>The two breakers\<close>

text \<open>Up to the reset of an open circuit the shared breaker records what the other one records.\<close>

definition agree :: "string \<Rightarrow> mem_breaker \<Rightarrow> redis_breaker \<Rightarrow> bool" where
  "agree name b r \<longleftrightarrow> rb_window r = mb_window b \<and> rb_threshold_pct r = mb_threshold_pct b \<and> rb_outcomes r name = rev (bucket_of name b)
     \<and> length (bucket_of name b) \<le> mb_window b \<and> (rb_open_until r name \<noteq> None \<longleftrightarrow> mb_opened_at b name \<noteq> None)"

lemma too_many_rev: "too_many pct (rev xs) = too_many pct xs" by (simp add: too_many_def flip: rev_filter)

lemma take_rev_deque: "length xs \<le> n \<Longrightarrow> take n (x # rev xs) = rev (deque_append n xs x)"
proof -
  assume l: "length xs \<le> n"
  have "rev (deque_append n xs x) = take (Suc (length xs) - (Suc (length xs) - n)) (x # rev xs)"
    unfolding deque_append_def rev_drop by (simp del: take_append)
  then show ?thesis using l by (cases "n = length xs") simp_all
qed

lemma agree_record:
  assumes "agree name b r" shows "agree name (mem_record t name ok b) (redis_record t' name ok r)"
proof -
  let ?d = "deque_append (mb_window b) (bucket_of name b) ok"
  have d: "take (mb_window b) (ok # rev (bucket_of name b)) = rev ?d" using assms by (intro take_rev_deque) (simp add: agree_def)
  have l: "length ?d \<le> mb_window b" by (simp add: deque_append_def)
  have m: "mem_record t name ok b = (let b1 = b\<lparr>mb_outcomes := (mb_outcomes b)(name \<mapsto> ?d)\<rparr>
     in if length ?d < mb_window b then b1 else if too_many (mb_threshold_pct b) ?d then b1\<lparr>mb_opened_at := (mb_opened_at b1)(name \<mapsto> t)\<rparr> else b1)"
    by (simp add: mem_record_def Let_def bucket_of_def)
  have r: "redis_record t' name ok r = (let b1 = r\<lparr>rb_outcomes := (rb_outcomes r)(name := rev ?d)\<rparr>
     in if length ?d < mb_window b then b1 else if too_many (mb_threshold_pct b) ?d
        then b1\<lparr>rb_open_until := (rb_open_until b1)(name \<mapsto> t' + rb_reset_seconds r), rb_open_cache := (rb_open_cache b1)(name \<mapsto> (t', True))\<rparr> else b1)"
    using assms by (simp add: redis_record_def Let_def agree_def d too_many_rev)
  show ?thesis using assms l unfolding m r by (auto simp: agree_def Let_def bucket_of_def)
qed

lemma agree_records: "agree name b r \<Longrightarrow> agree name (mem_records name os b) (redis_records name os r)"
proof (induction os arbitrary: b r)
  case (Cons x os)
  then show ?case using agree_record by (cases x) simp
qed simp

text \<open>After the reset they part: one forgets, the other keeps the outcomes that opened the circuit.\<close>

lemma mem_forgets:
  assumes "mb_opened_at b name = Some opened" "mb_reset_seconds b \<le> t - opened" "1 < mb_window b" "fn w = (Inr x, w')"
  shows "\<exists>b'. mem_call t t' name fn (b, w) = (Inr x, b', w') \<and> \<not> mem_open t'' name b' \<and> bucket_of name b' = [True]"
  using assms by (simp add: mem_call_def mem_is_open_def mem_record_def Let_def deque_append_def mem_open_def bucket_of_def)

lemma redis_reopens:
  assumes "\<not> marker_set t name r" "rb_window r \<le> Suc (length (rb_outcomes r name))" "0 < rb_window r" "fn w = (Inr x, w')"
    and "too_many (rb_threshold_pct r) (True # take (rb_window r - 1) (rb_outcomes r name))" "t' \<le> t''" "t'' < t' + rb_reset_seconds r"
  shows "\<exists>r'. redis_call t t' name fn (r, w) = (Inr x, r', w') \<and> marker_set t'' name r'"
proof -
  have "take (rb_window r) (True # rb_outcomes r name) = True # take (rb_window r - 1) (rb_outcomes r name)"
    using assms(3) by (cases "rb_window r") auto
  moreover have "\<not> length (True # take (rb_window r - 1) (rb_outcomes r name)) < rb_window r" using assms(2) by auto
  moreover have "\<not> Suc (rb_window r - Suc 0) < rb_window r" by simp
  ultimately show ?thesis using assms(1,4,5,7)
    by (simp add: redis_call_def is_open_remote_def redis_record_def Let_def marker_set_def)
qed

section \<open>Routing\<close>

lemma capture_ignores_acquirer:
  "capture_of_attempt call clients dflt (a\<lparr>cap_acquirer := x\<rparr>) = capture_of_attempt call clients dflt a"
  by (simp add: capture_of_attempt_def)

lemma mem_open_iff: "mem_open t name b \<longleftrightarrow> (\<exists>o'. mb_opened_at b name = Some o' \<and> t - o' < mb_reset_seconds b)"
  by (auto simp: mem_open_def mem_is_open_def split: option.split)

lemma facade_silent:
  assumes "mem_open t (text_or acquirer dflt @ '':capture_deferred'') b"
  shows "facade_capture (mem_call t t') clients dflt charge amount c ref key acquirer (b, w) = (circuit_open, snd (facade_capture (mem_call t t') clients dflt charge amount c ref key acquirer (b, w)))
    \<and> snd (snd (facade_capture (mem_call t t') clients dflt charge amount c ref key acquirer (b, w))) = w"
proof (cases "client_for clients dflt acquirer")
  case (Inl e)
  then show ?thesis by (auto simp: facade_capture_def client_for_def circuit_open_def failure_def split: option.splits)
next
  case (Inr cl)
  then show ?thesis using memory.world_blocked [OF assms, of t' "capture_deferred cl charge amount c ref key" w]
    by (simp add: facade_capture_def prod_eq_iff)
qed

end
