(* ===== verification/BusExamples.thy ===== *)
theory BusExamples
  imports ReconExamples Funding_Inv Captures_Inv Breaker
begin

text \<open>
  Concrete messages, credits, capture attempts and a tripped breaker for the witnesses about the
  consumers, funding, deferred captures and the breakers. Nothing here models code.
\<close>

section \<open>Messages\<close>

definition bus_renv :: recon_env where
  "bus_renv = demo_renv\<lparr>env_contracts := demo_contracts\<lparr>EVENT_TOPICS := (''funding'', [''settlement.funded'']) # EVENT_TOPICS demo_contracts\<rparr>\<rparr>"

definition inbox_demo :: inbox_db where "inbox_demo = recon_db.extend empty_rdb \<lparr>processed_events = []\<rparr>"

definition demo_authorized :: authorized_data where
  "demo_authorized = \<lparr>au_charge = ''ch_9'', au_merchant = ''mch_1'', au_amount = 4000, au_currency = ''USD'', au_acquirer = ''worldflow'',
     au_network_txn = Some ''NET90'', au_processor_reference = None, au_capture_method = ''automatic'', au_capture_at_settlement = False,
     au_reserve_bps = 0, au_platform_fee_bps = 290, au_platform_fee_fixed_minor = 30, au_authorized_at = 1700000000\<rparr>"

definition demo_auth_event :: event_envelope where
  "demo_auth_event = \<lparr>en_id = ''evt_9'', en_occurred_at = 5, en_livemode = True, en_body = PaymentAuthorized demo_authorized\<rparr>"

definition demo_deliveries :: "(consumer \<times> recon_env \<times> message) list" where
  "demo_deliveries = [(PaymentEventConsumer, bus_renv, Delivered demo_auth_event), (PaymentEventConsumer, bus_renv, Unparseable),
     (PaymentEventConsumer, bus_renv, Delivered demo_auth_event), (MerchantEventConsumer, bus_renv, Delivered demo_auth_event)]"

lemma demo_delivered: "fst (deliver_all demo_deliveries inbox_demo) = [(''evt_9'', ''payment_events'')]" by code_simp

lemma inbox_demo_ok: "ledger_ok inbox_demo"
  by (rule blank_books_ok) (simp_all add: inbox_demo_def empty_rdb_def empty_db_def db.defs recon_db.defs)

definition demo_bank_event :: event_envelope where
  "demo_bank_event = \<lparr>en_id = ''evt_10'', en_occurred_at = 5, en_livemode = True, en_body = BankAccountVerified
     \<lparr>bd_id = Some ''ba_2'', bd_merchant = Some ''mch_1'', bd_currency = Some ''USD'', bd_country = Some ''US'', bd_scheme = Some ''aba'',
      bd_account_number_token = Some ''tok_2'', bd_routing_last_four = None, bd_iban_last_four = None, bd_bic = None,
      bd_sort_code_last_four = None, bd_is_default = True\<rparr>\<rparr>"

section \<open>Credits\<close>

definition demo_fund_batch :: "string \<Rightarrow> int \<Rightarrow> settlement_batch" where
  "demo_fund_batch i expected = \<lparr>sb_id = i, sb_currency = ''USD'', sb_processing_date = 19000, sb_acquirer = ''worldflow'',
     sb_file_reference = i, sb_expected_total_minor = expected, sb_posted_total_minor = expected, sb_funded_amount_minor = 0,
     sb_funding_event = None, sb_item_count = 1, sb_status = ''reconciled'', sb_opened_at = 0, sb_closed_at = Some 1,
     sb_reconciled_at = Some 2, sb_funded_at = None, sb_livemode = True\<rparr>"

definition demo_credit :: funding_event where
  "demo_credit = \<lparr>fe_id = ''fe_1'', fe_acquirer = ''worldflow'', fe_currency = ''USD'', fe_amount = 9821, fe_value_date = 19002,
     fe_bank_reference = ''BANK1'', fe_status = ''unmatched'', fe_matched_batch = None, fe_variance_minor = 0, fe_received_at = 7, fe_livemode = True\<rparr>"

definition fund_db :: funding_db where
  "fund_db = inbox_db.extend (inbox_demo\<lparr>settlement_batches := [demo_fund_batch ''sb_A'' 5000, demo_fund_batch ''sb_B'' 9820]\<rparr>)
     \<lparr>funding_events = [demo_credit]\<rparr>"

definition funded_db :: funding_db where "funded_db = snd (match_pending (\<lambda>_. bus_renv) 5 200 fund_db)"

definition refunded :: "(settlement_batch \<times> funding_db) res" where
  "refunded = record_funding bus_renv ''sb_A'' ''BANK1'' 5000 19003 funded_db"

lemma demo_placed: "fst (match_pending (\<lambda>_. bus_renv) 5 200 fund_db) = Inr 1
    \<and> map sb_status (settlement_batches funded_db) = [''reconciled'', ''funded''] \<and> cash_in funded_db = 9821"
  by code_simp

lemma demo_refunded: "case refunded of Inl e \<Rightarrow> False | Inr (b, s) \<Rightarrow> cash_in s = 19642" by code_simp

lemma demo_credit_known: "case find_by_bank_reference ''BANK1'' funded_db of None \<Rightarrow> False | Some e \<Rightarrow> fe_status e = ''matched'' \<and> fe_amount e = 9821"
  by code_simp

lemma demo_credit_ids: "distinct (map fe_id (funding_events funded_db))" by code_simp

lemma fund_db_ok: "ledger_ok fund_db"
  by (rule blank_books_ok) (simp_all add: fund_db_def inbox_demo_def empty_rdb_def empty_db_def db.defs recon_db.defs inbox_db.defs)

lemma fund_db_inv: "funding_inv tol fund_db"
  by (simp add: funding_inv_def fund_db_def inbox_demo_def empty_rdb_def empty_db_def db.defs recon_db.defs inbox_db.defs demo_fund_batch_def demo_credit_def)

section \<open>Captures\<close>

definition demo_attempt :: capture_attempt where
  "demo_attempt = \<lparr>cap_id = ''cap_1'', cap_charge = ''ch_1'', cap_item = None, cap_acquirer = ''nordpay'', cap_key = ''capture:sb_1:ch_1'',
     cap_amount = 10000, cap_currency = ''USD'', cap_status = ''pending'', cap_response_reference = None, cap_last_error_code = None,
     cap_requested_at = 0, cap_completed_at = None, cap_livemode = True\<rparr>"

definition capture_demo_db :: capture_db where "capture_demo_db = funding_db.extend fund_db \<lparr>capture_attempts = [demo_attempt]\<rparr>"

definition demo_capture_env :: "(bool \<times> string) res \<Rightarrow> (string \<times> string option) res \<Rightarrow> capture_env" where
  "demo_capture_env sent asked = recon_env.extend bus_renv \<lparr>env_issue = (\<lambda>_ _ _ _ _. sent), env_probe = (\<lambda>_ _. asked)\<rparr>"

definition timed_out :: "(bool \<times> string) res" where "timed_out = Inl (Error ProcessorIndeterminateError ''processor_timeout'')"

text \<open>A timeout, a denial, and the capture.\<close>

definition demo_ticks :: "(nat \<Rightarrow> capture_env) list" where
  "demo_ticks = [\<lambda>_. demo_capture_env timed_out (Inr (''unknown'', None)), \<lambda>_. demo_capture_env timed_out (Inr (''not_captured'', None)),
     \<lambda>_. demo_capture_env (Inr (True, ''R1'')) (Inr (''unknown'', None))]"

lemma demo_ticked: "snd (capture_ticks demo_ticks capture_demo_db) = [Issued ''cap_1'' ''capture:sb_1:ch_1'' timed_out,
    Asked ''cap_1'' ''capture:sb_1:ch_1'' (Inr (''not_captured'', None)), Issued ''cap_1'' ''capture:sb_1:ch_1'' (Inr (True, ''R1''))]"
  by code_simp

section \<open>A tripped breaker\<close>

definition tripped :: mem_breaker where
  "tripped = mem_record 1 ''worldflow:capture_deferred'' False (mem_record 0 ''worldflow:capture_deferred'' True (build_breaker 50 2 30))"

lemma tripped_open: "mem_open 20 ''worldflow:capture_deferred'' tripped" "\<not> mem_open 31 ''worldflow:capture_deferred'' tripped"
  by code_simp+

end
