(* ===== verification/Drain.thy ===== *)
theory Drain
  imports Store Backoff "HOL-Library.Sublist"
begin

text \<open>
  The far side of the outbox: the repository of \<^verbatim>\<open>event_outbox\<close> (\<^verbatim>\<open>src/app/repositories/outbox.py\<close>), the SNS
  publisher (\<^verbatim>\<open>src/app/publishers/sns.py\<close>) and the drain (\<^verbatim>\<open>src/app/workers/outbox_drain.py\<close>). What SNS answers,
  the random spread of the backoff and the clocks are the environment of a step. The last section lets any
  number of tasks drain the same table at the same time.
\<close>

section \<open>The repository\<close>

definition OUTBOX_MAX_ATTEMPTS :: nat where "OUTBOX_MAX_ATTEMPTS = 12"

definition find_event :: "string \<Rightarrow> 'a ledger_scheme \<Rightarrow> outbox_row option" where
  "find_event i s = find_first (\<lambda>r. ev_id r = i) (outbox s)"

definition get_event_or_raise :: "string \<Rightarrow> 'a ledger_scheme \<Rightarrow> outbox_row res" where
  "get_event_or_raise i s = (case find_event i s of None \<Rightarrow> raise NotFoundError | Some r \<Rightarrow> Inr r)"

definition put_event :: "outbox_row \<Rightarrow> 'a ledger_scheme \<Rightarrow> 'a ledger_scheme" where
  "put_event r s = s\<lparr>outbox := update_where (\<lambda>x. ev_id x = ev_id r) (\<lambda>_. r) (outbox s)\<rparr>"

definition event_is_due :: "int \<Rightarrow> outbox_row \<Rightarrow> bool" where
  "event_is_due now r \<longleftrightarrow> ev_published_at r = None \<and> ev_dead_at r = None \<and> ev_next_attempt_at r \<le> now"

definition is_exhausted :: "outbox_row \<Rightarrow> bool" where "is_exhausted r \<longleftrightarrow> OUTBOX_MAX_ATTEMPTS \<le> ev_attempt_count r"

definition backoff_seconds :: "outbox_row \<Rightarrow> int" where "backoff_seconds r = 2 ^ min (ev_attempt_count r) OUTBOX_MAX_ATTEMPTS"

text \<open>\<^verbatim>\<open>FOR UPDATE SKIP LOCKED\<close>: the rows another transaction has locked are passed over.\<close>

definition claim_due :: "nat \<Rightarrow> string \<Rightarrow> int \<Rightarrow> (string \<Rightarrow> bool) \<Rightarrow> 'a ledger_scheme \<Rightarrow> outbox_row list \<times> 'a ledger_scheme" where
  "claim_due limit claimed_by stamp locked s =
    (let rows = take limit (filter (\<lambda>r. \<not> locked (ev_id r)) (sort_key ev_occurred_at (filter (event_is_due stamp) (outbox s))));
         claim = (\<lambda>r. r\<lparr>ev_claimed_at := Some stamp, ev_claimed_by := Some claimed_by\<rparr>)
     in (map claim rows, s\<lparr>outbox := update_where (\<lambda>r. ev_id r \<in> set (map ev_id rows)) claim (outbox s)\<rparr>))"

definition list_unpublished :: "nat \<Rightarrow> nat \<Rightarrow> 'a ledger_scheme \<Rightarrow> outbox_row list" where
  "list_unpublished limit max_attempts s = take limit (sort_key ev_occurred_at
     (filter (\<lambda>r. ev_published_at r = None \<and> ev_attempt_count r < max_attempts) (outbox s)))"

definition mark_published :: "int \<Rightarrow> string \<Rightarrow> 'a ledger_scheme \<Rightarrow> ('a ledger_scheme) res" where
  "mark_published t i s = bindE (get_event_or_raise i s) (\<lambda>r.
     Inr (put_event (r\<lparr>ev_published_at := Some t, ev_last_error := None\<rparr>) s))"

text \<open>\<^verbatim>\<open>timedelta(seconds=x)\<close> for a float of at least one second: whole seconds, and the rest rounded to microseconds.\<close>

definition of_seconds :: "rat \<Rightarrow> int" where
  "of_seconds x = \<lfloor>x\<rfloor> * SECOND + round_half_even (double ((x - of_int \<lfloor>x\<rfloor>) * 1000000))"

definition failed_row :: "(rat \<Rightarrow> rat) \<Rightarrow> int \<Rightarrow> string \<Rightarrow> int \<Rightarrow> outbox_row \<Rightarrow> outbox_row" where
  "failed_row uniform stamp err base_seconds r =
    (let n = Suc (ev_attempt_count r);
         r1 = r\<lparr>ev_attempt_count := n, ev_last_error := Some (take 1000 err), ev_claimed_at := None, ev_claimed_by := None\<rparr>
     in if OUTBOX_MAX_ATTEMPTS \<le> n then r1\<lparr>ev_dead_at := Some stamp\<rparr>
        else let delay = of_int (base_seconds ^ n); jitter = double (delay * JITTER_FRACTION); spread = uniform jitter
             in r1\<lparr>ev_next_attempt_at := stamp + of_seconds (max 1 (double (delay + spread)))\<rparr>)"

definition mark_failed :: "(rat \<Rightarrow> rat) \<Rightarrow> int \<Rightarrow> string \<Rightarrow> string \<Rightarrow> int \<Rightarrow> 'a ledger_scheme \<Rightarrow> ('a ledger_scheme) res" where
  "mark_failed uniform stamp i err base_seconds s =
     bindE (get_event_or_raise i s) (\<lambda>r. Inr (put_event (failed_row uniform stamp err base_seconds r) s))"

definition list_dead :: "nat \<Rightarrow> 'a ledger_scheme \<Rightarrow> outbox_row list" where
  "list_dead limit s = take limit (sort_key ev_occurred_at (filter (\<lambda>r. ev_dead_at r \<noteq> None) (outbox s)))"

definition revive :: "int \<Rightarrow> string \<Rightarrow> 'a ledger_scheme \<Rightarrow> ('a ledger_scheme) res" where
  "revive now i s = bindE (get_event_or_raise i s) (\<lambda>r.
     Inr (put_event (r\<lparr>ev_dead_at := None, ev_attempt_count := 0, ev_last_error := None, ev_next_attempt_at := now\<rparr>) s))"

definition count_pending :: "'a ledger_scheme \<Rightarrow> nat" where
  "count_pending s = length (filter (\<lambda>r. ev_published_at r = None \<and> ev_dead_at r = None) (outbox s))"

definition purge_published_before :: "int \<Rightarrow> 'a ledger_scheme \<Rightarrow> nat \<times> 'a ledger_scheme" where
  "purge_published_before before s =
    (let kept = filter (\<lambda>r. \<not> (case ev_published_at r of None \<Rightarrow> False | Some t \<Rightarrow> t < before)) (outbox s)
     in (length (outbox s) - length kept, s\<lparr>outbox := kept\<rparr>))"

section \<open>The publisher\<close>

text \<open>The stored envelope, which is the message's body, and the message attributes.\<close>

record bus_message =
  bm_id :: string
  bm_type :: string
  bm_version :: int
  bm_payload :: payload
  bm_merchant :: "string option"
  bm_correlation :: string
  bm_causation :: "string option"
  bm_occurred_at :: int
  bm_livemode :: bool
  bm_attributes :: "(string \<times> string) list"

definition sns_message :: "outbox_row \<Rightarrow> bus_message" where
  "sns_message r = \<lparr>bm_id = ev_id r, bm_type = ev_type r, bm_version = ev_version r, bm_payload = ev_payload r, bm_merchant = ev_merchant r,
     bm_correlation = ev_correlation r, bm_causation = ev_causation r, bm_occurred_at = ev_occurred_at r, bm_livemode = ev_livemode r,
     bm_attributes = [(''event_type'', ev_type r), (''correlation_id'', ev_correlation r)]
       @ (case ev_merchant r of None \<Rightarrow> [] | Some m \<Rightarrow> [(''merchant_id'', m)])\<rparr>"

definition publish_raw :: "contracts \<Rightarrow> (bus_message \<Rightarrow> bool) \<Rightarrow> outbox_row \<Rightarrow> unit res" where
  "publish_raw K sns r = bindE (topic_for K (ev_type r)) (\<lambda>_.
     if sns (sns_message r) then Inr () else Inl (Error BusPublishError ''internal_error''))"

section \<open>The drain\<close>

record drain_env =
  dn_sns :: "bus_message \<Rightarrow> bool"
  dn_now :: int
  dn_wall :: int
  dn_uniform :: "rat \<Rightarrow> rat"

definition DRAIN_BATCH_SIZE :: nat where "DRAIN_BATCH_SIZE = 100"
definition MAX_PUBLISH_ATTEMPTS :: nat where "MAX_PUBLISH_ATTEMPTS = 10"

text \<open>The loop over the staged rows: how many were published, the table, and the ids SNS has taken.\<close>

fun drain_staged :: "contracts \<Rightarrow> (nat \<Rightarrow> drain_env) \<Rightarrow> nat \<Rightarrow> outbox_row list \<Rightarrow> 'a ledger_scheme
    \<Rightarrow> nat res \<times> 'a ledger_scheme \<times> string list" where
  "drain_staged K F k [] s = (Inr 0, s, [])"
| "drain_staged K F k (r # rs) s = (case publish_raw K (dn_sns (F k)) r of
     Inl e \<Rightarrow> if \<not> caught_by e BusPublishError then (Inl e, s, [])
       else (case mark_failed (dn_uniform (F k)) (dn_wall (F k)) (ev_id r) (err_code e) 2 s of
           Inl e \<Rightarrow> (Inl e, s, []) | Inr s1 \<Rightarrow> drain_staged K F (Suc k) rs s1)
   | Inr _ \<Rightarrow> (case mark_published (dn_now (F k)) (ev_id r) s of
       Inl e \<Rightarrow> (Inl e, s, [ev_id r])
     | Inr s1 \<Rightarrow> (case drain_staged K F (Suc k) rs s1 of (out, s2, sent) \<Rightarrow> (mapE Suc out, s2, ev_id r # sent))))"

definition drain_once :: "contracts \<Rightarrow> (nat \<Rightarrow> drain_env) \<Rightarrow> 'a ledger_scheme \<Rightarrow> nat res \<times> 'a ledger_scheme \<times> string list" where
  "drain_once K F s = drain_staged K F 0 (list_unpublished DRAIN_BATCH_SIZE MAX_PUBLISH_ATTEMPTS s) s"

fun drain_ticks :: "contracts \<Rightarrow> (nat \<Rightarrow> drain_env) list \<Rightarrow> 'a ledger_scheme \<Rightarrow> 'a ledger_scheme \<times> string list" where
  "drain_ticks K [] s = (s, [])"
| "drain_ticks K (F # Fs) s = (case drain_once K F s of (_, s1, sent) \<Rightarrow>
     (case drain_ticks K Fs s1 of (s2, sent2) \<Rightarrow> (s2, sent @ sent2)))"

section \<open>Rows under updates\<close>

lemma find_first_put:
  "find_first (\<lambda>x. key x = i) (update_where (\<lambda>x. key x = key r) (\<lambda>_. r) xs)
     = (if i = key r then map_option (\<lambda>_. r) (find_first (\<lambda>x. key x = i) xs) else find_first (\<lambda>x. key x = i) xs)"
  by (induction xs) (auto simp: update_where_def)

lemma find_put_event:
  "find_event i (put_event r s) = (if i = ev_id r then map_option (\<lambda>_. r) (find_event i s) else find_event i s)"
  using find_first_put [of ev_id i r "outbox s"] by (simp add: find_event_def put_event_def)

lemma put_event_ids [simp]: "map ev_id (outbox (put_event r s)) = map ev_id (outbox s)"
  by (simp add: put_event_def update_where_def)

lemma put_event_books [simp]: "same_books s (put_event r s)"
  by (simp add: put_event_def same_books_def)

lemma find_event_id: "find_event i s = Some r \<Longrightarrow> ev_id r = i"
  by (auto simp: find_event_def dest: find_first_SomeD)

lemma subseq_in: "subseq xs ys \<Longrightarrow> x \<in> set xs \<Longrightarrow> x \<in> set ys"
  by (erule list_emb_set) auto

lemma subseq_distinct: "subseq xs ys \<Longrightarrow> distinct ys \<Longrightarrow> distinct xs"
  by (auto simp: subseq_conv_nths intro: distinct_nthsI)

lemma mark_published_iff:
  "mark_published t i s = Inr s1 \<longleftrightarrow>
     (\<exists>r. find_event i s = Some r \<and> s1 = put_event (r\<lparr>ev_published_at := Some t, ev_last_error := None\<rparr>) s)"
  by (auto simp: mark_published_def get_event_or_raise_def split: option.splits)

text \<open>What a refused row becomes.\<close>

definition refused :: "outbox_row \<Rightarrow> outbox_row \<Rightarrow> bool" where
  "refused r r' \<longleftrightarrow> sns_message r' = sns_message r \<and> ev_id r' = ev_id r \<and> ev_published_at r' = ev_published_at r
     \<and> ev_attempt_count r' = Suc (ev_attempt_count r)
     \<and> (if OUTBOX_MAX_ATTEMPTS \<le> ev_attempt_count r' then ev_dead_at r' \<noteq> None else ev_dead_at r' = ev_dead_at r)"

lemma refused_failed_row: "refused r (failed_row u t err base r)"
  by (simp add: refused_def failed_row_def sns_message_def Let_def)

lemma mark_failed_iff:
  "mark_failed u t i err base s = Inr s1 \<longleftrightarrow> (\<exists>r. find_event i s = Some r \<and> s1 = put_event (failed_row u t err base r) s)"
  by (auto simp: mark_failed_def get_event_or_raise_def split: option.splits)

section \<open>One pass\<close>

text \<open>What a pass does to a row: nothing, a publication, or a refusal.\<close>

definition drained :: "string list \<Rightarrow> string set \<Rightarrow> 'a ledger_scheme \<Rightarrow> 'a ledger_scheme \<Rightarrow> bool" where
  "drained sent failed s s' \<longleftrightarrow> same_books s s' \<and> map ev_id (outbox s') = map ev_id (outbox s) \<and> (\<forall>i r. find_event i s = Some r \<longrightarrow>
     (\<exists>r'. find_event i s' = Some r' \<and> (if i \<in> set sent then (\<exists>t. r' = r\<lparr>ev_published_at := Some t, ev_last_error := None\<rparr>)
        else if i \<in> failed then refused r r' else r' = r)))"

lemma drained_refl: "drained [] {} s s" by (simp add: drained_def)

lemma same_books_trans: "same_books s t \<Longrightarrow> same_books t u \<Longrightarrow> same_books s u"
  by (simp add: same_books_def)

lemma drained_row:
  "drained sent failed s s' \<Longrightarrow> find_event i s = Some r \<Longrightarrow> \<exists>r'. find_event i s' = Some r'
     \<and> (if i \<in> set sent then (\<exists>t. r' = r\<lparr>ev_published_at := Some t, ev_last_error := None\<rparr>) else if i \<in> failed then refused r r' else r' = r)"
  by (simp add: drained_def)

lemma drained_put:
  assumes d: "drained sent failed (put_event r' s) s'" and f: "find_event i s = Some r" "ev_id r' = i" "i \<notin> set sent" "i \<notin> failed"
  shows "(\<exists>t. r' = r\<lparr>ev_published_at := Some t, ev_last_error := None\<rparr>) \<Longrightarrow> drained (i # sent) failed s s'"
    and "refused r r' \<Longrightarrow> drained sent (insert i failed) s s'"
proof -
  have b: "same_books s s'" "map ev_id (outbox s') = map ev_id (outbox s)"
    using d same_books_trans [OF put_event_books] by (auto simp: drained_def)
  have "find_event i (put_event r' s) = Some r'" using f by (simp add: find_put_event)
  from drained_row [OF d this] have own: "find_event i s' = Some r'" using f by simp
  have rest: "find_event j (put_event r' s) = Some x" if "j \<noteq> i" "find_event j s = Some x" for j x
    using that f(2) by (simp add: find_put_event)
  show "drained (i # sent) failed s s'" if p: "\<exists>t. r' = r\<lparr>ev_published_at := Some t, ev_last_error := None\<rparr>"
    unfolding drained_def
  proof (intro conjI b allI impI)
    fix j x assume x: "find_event j s = Some x"
    show "\<exists>y. find_event j s' = Some y \<and> (if j \<in> set (i # sent) then (\<exists>t. y = x\<lparr>ev_published_at := Some t, ev_last_error := None\<rparr>)
        else if j \<in> failed then refused x y else y = x)"
    proof (cases "j = i")
      case True
      then show ?thesis using own p x f(1) by simp
    next
      case False
      obtain y where "find_event j s' = Some y" "if j \<in> set sent then (\<exists>t. y = x\<lparr>ev_published_at := Some t, ev_last_error := None\<rparr>)
          else if j \<in> failed then refused x y else y = x" using drained_row [OF d rest [OF False x]] by blast
      then show ?thesis using False by (intro exI [of _ y]) simp
    qed
  qed
  show "drained sent (insert i failed) s s'" if p: "refused r r'"
    unfolding drained_def
  proof (intro conjI b allI impI)
    fix j x assume x: "find_event j s = Some x"
    show "\<exists>y. find_event j s' = Some y \<and> (if j \<in> set sent then (\<exists>t. y = x\<lparr>ev_published_at := Some t, ev_last_error := None\<rparr>)
        else if j \<in> insert i failed then refused x y else y = x)"
    proof (cases "j = i")
      case True
      then show ?thesis using own p x f(1,3) by simp
    next
      case False
      obtain y where "find_event j s' = Some y" "if j \<in> set sent then (\<exists>t. y = x\<lparr>ev_published_at := Some t, ev_last_error := None\<rparr>)
          else if j \<in> failed then refused x y else y = x" using drained_row [OF d rest [OF False x]] by blast
      then show ?thesis using False by (intro exI [of _ y]) simp
    qed
  qed
qed

lemma drain_staged_drained:
  assumes "distinct (map ev_id rs)" "\<forall>r\<in>set rs. find_event (ev_id r) s \<noteq> None" "\<forall>r\<in>set rs. \<exists>t. topic_for K (ev_type r) = Inr t"
    and "drain_staged K F k rs s = (out, s', sent)"
  shows "out = Inr (length sent) \<and> subseq sent (map ev_id rs) \<and> drained sent (set (map ev_id rs) - set sent) s s'
    \<and> ((\<forall>j m. dn_sns (F j) m) \<longrightarrow> sent = map ev_id rs)"
  using assms
proof (induction rs arbitrary: k s out sent)
  case Nil
  then show ?case by (simp add: drained_refl)
next
  case (Cons r rs)
  obtain x where x: "find_event (ev_id r) s = Some x" using Cons.prems(2) by auto
  have ids: "ev_id x = ev_id r" using find_event_id [OF x] .
  obtain tp where tp: "topic_for K (ev_type r) = Inr tp" using Cons.prems(3) by auto
  show ?case
  proof (cases "dn_sns (F k) (sns_message r)")
    case True
    let ?x = "x\<lparr>ev_published_at := Some (dn_now (F k)), ev_last_error := None\<rparr>"
    let ?s = "put_event ?x s"
    obtain out1 sent1 where d: "drain_staged K F (Suc k) rs ?s = (out1, s', sent1)" "out = mapE Suc out1" "sent = ev_id r # sent1"
      using Cons.prems(4) True tp x ids
      by (auto simp: publish_raw_def mark_published_def get_event_or_raise_def split: prod.splits)
    have "\<forall>y\<in>set rs. find_event (ev_id y) ?s \<noteq> None" using Cons.prems(2) by (auto simp: find_put_event ids x)
    note IH = Cons.IH [OF _ this _ d(1)]
    have IH: "out1 = Inr (length sent1)" "subseq sent1 (map ev_id rs)" "drained sent1 (set (map ev_id rs) - set sent1) ?s s'"
        "(\<forall>j m. dn_sns (F j) m) \<longrightarrow> sent1 = map ev_id rs"
      using IH Cons.prems(1,3) by auto
    have n: "ev_id r \<notin> set (map ev_id rs)" using Cons.prems(1) by simp
    then have n': "ev_id r \<notin> set sent1" using IH(2) by (blast dest: subseq_in)
    have "drained (ev_id r # sent1) (set (map ev_id rs) - set sent1) s s'"
      using drained_put(1) [OF IH(3) x _ n'] n ids by auto
    moreover have "set (map ev_id (r # rs)) - set sent = set (map ev_id rs) - set sent1" using n n' d(3) by auto
    ultimately show ?thesis using IH d by (simp add: mapE_def)
  next
    case False
    let ?e = "Error BusPublishError ''internal_error''"
    have c: "caught_by ?e BusPublishError" by code_simp
    obtain x' where m: "mark_failed (dn_uniform (F k)) (dn_wall (F k)) (ev_id r) ''internal_error'' 2 s = Inr (put_event x' s)" "refused x x'"
      using x refused_failed_row by (metis mark_failed_iff)
    have i: "ev_id x' = ev_id r" using m(2) ids by (simp add: refused_def)
    have d: "drain_staged K F (Suc k) rs (put_event x' s) = (out, s', sent)"
      using Cons.prems(4) False tp c m(1) by (simp add: publish_raw_def)
    have "\<forall>y\<in>set rs. find_event (ev_id y) (put_event x' s) \<noteq> None" using Cons.prems(2) by (auto simp: find_put_event i x)
    note IH = Cons.IH [OF _ this _ d]
    have IH: "out = Inr (length sent)" "subseq sent (map ev_id rs)" "drained sent (set (map ev_id rs) - set sent) (put_event x' s) s'"
      using IH Cons.prems(1,3) by auto
    have n: "ev_id r \<notin> set (map ev_id rs)" using Cons.prems(1) by simp
    then have n': "ev_id r \<notin> set sent" using IH(2) by (blast dest: subseq_in)
    have "drained sent (insert (ev_id r) (set (map ev_id rs) - set sent)) s s'"
      using drained_put(2) [OF IH(3) x i n' _ m(2)] n by auto
    moreover have "set (map ev_id (r # rs)) - set sent = insert (ev_id r) (set (map ev_id rs) - set sent)" using n' by auto
    ultimately have D: "drained sent (set (map ev_id (r # rs)) - set sent) s s'" by simp
    have "subseq sent (map ev_id (r # rs))" using IH(2) by (simp add: list_emb_Cons)
    then show ?thesis using IH(1) D False by blast
  qed
qed

section \<open>Any number of passes\<close>

definition event_ids_distinct :: "'a ledger_scheme \<Rightarrow> bool" where "event_ids_distinct s \<longleftrightarrow> distinct (map ev_id (outbox s))"

definition topics_known :: "contracts \<Rightarrow> 'a ledger_scheme \<Rightarrow> bool" where
  "topics_known K s \<longleftrightarrow> (\<forall>r\<in>set (outbox s). \<exists>t. topic_for K (ev_type r) = Inr t)"

definition event_published :: "string \<Rightarrow> 'a ledger_scheme \<Rightarrow> bool" where
  "event_published i s \<longleftrightarrow> (\<exists>r. find_event i s = Some r \<and> ev_published_at r \<noteq> None)"

lemma find_event_mem: "event_ids_distinct s \<Longrightarrow> r \<in> set (outbox s) \<Longrightarrow> find_event (ev_id r) s = Some r"
  by (simp add: event_ids_distinct_def find_event_def find_first_unique)

lemma find_event_in: "find_event i s = Some r \<Longrightarrow> r \<in> set (outbox s)"
  by (auto simp: find_event_def dest: find_first_SomeD)

lemma unpublished_rows:
  assumes "r \<in> set (list_unpublished n m s)"
  shows "r \<in> set (outbox s)" "ev_published_at r = None" "ev_attempt_count r < m"
  using assms by (auto simp: list_unpublished_def dest: in_set_takeD)

lemma unpublished_distinct: "event_ids_distinct s \<Longrightarrow> distinct (map ev_id (list_unpublished n m s))"
  by (auto simp: list_unpublished_def event_ids_distinct_def distinct_map intro: inj_on_subset dest!: in_set_takeD)

lemma drain_once_result:
  assumes "event_ids_distinct s" "topics_known K s" "drain_once K F s = (out, s', sent)"
  shows "out = Inr (length sent) \<and> subseq sent (map ev_id (list_unpublished DRAIN_BATCH_SIZE MAX_PUBLISH_ATTEMPTS s))
    \<and> drained sent (set (map ev_id (list_unpublished DRAIN_BATCH_SIZE MAX_PUBLISH_ATTEMPTS s)) - set sent) s s'
    \<and> ((\<forall>j m. dn_sns (F j) m) \<longrightarrow> sent = map ev_id (list_unpublished DRAIN_BATCH_SIZE MAX_PUBLISH_ATTEMPTS s))"
proof (rule drain_staged_drained)
  let ?rs = "list_unpublished DRAIN_BATCH_SIZE MAX_PUBLISH_ATTEMPTS s"
  show "distinct (map ev_id ?rs)" by (rule unpublished_distinct [OF assms(1)])
  show "\<forall>r\<in>set ?rs. find_event (ev_id r) s \<noteq> None" using find_event_mem [OF assms(1)] unpublished_rows(1) by fastforce
  show "\<forall>r\<in>set ?rs. \<exists>t. topic_for K (ev_type r) = Inr t" using assms(2) unpublished_rows(1) unfolding topics_known_def by blast
  show "drain_staged K F 0 ?rs s = (out, s', sent)" using assms(3) by (simp add: drain_once_def)
qed

lemma drained_type:
  assumes "drained sent failed s s'" "event_ids_distinct s" "r' \<in> set (outbox s')"
  shows "\<exists>r. find_event (ev_id r') s = Some r \<and> find_event (ev_id r') s' = Some r' \<and> sns_message r' = sns_message r
    \<and> (if ev_id r' \<in> set sent then (\<exists>t. r' = r\<lparr>ev_published_at := Some t, ev_last_error := None\<rparr>) else if ev_id r' \<in> failed then refused r r' else r' = r)"
proof -
  have d': "event_ids_distinct s'" using assms(1,2) by (simp add: drained_def event_ids_distinct_def)
  have "ev_id r' \<in> set (map ev_id (outbox s))" using assms(1,3) by (metis drained_def image_eqI set_map)
  then obtain r where "r \<in> set (outbox s)" "ev_id r = ev_id r'" by auto
  then have f: "find_event (ev_id r') s = Some r" using find_event_mem [OF assms(2)] by metis
  have f': "find_event (ev_id r') s' = Some r'" by (rule find_event_mem [OF d' assms(3)])
  have w: "if ev_id r' \<in> set sent then (\<exists>t. r' = r\<lparr>ev_published_at := Some t, ev_last_error := None\<rparr>) else if ev_id r' \<in> failed then refused r r' else r' = r"
    using drained_row [OF assms(1) f] f' by simp
  then have "sns_message r' = sns_message r" by (auto simp: refused_def sns_message_def split: if_splits)
  with f f' w show ?thesis by blast
qed

lemma drained_keeps:
  assumes "drained sent failed s s'" "event_ids_distinct s"
  shows "event_ids_distinct s'" "topics_known K s \<Longrightarrow> topics_known K s'"
proof -
  show "event_ids_distinct s'" using assms by (simp add: drained_def event_ids_distinct_def)
  show "topics_known K s'" if "topics_known K s"
    unfolding topics_known_def
  proof
    fix r' assume "r' \<in> set (outbox s')"
    then obtain r where "find_event (ev_id r') s = Some r" "sns_message r' = sns_message r" using drained_type [OF assms] by blast
    moreover from this have "ev_type r' = ev_type r" by (simp add: sns_message_def)
    ultimately show "\<exists>t. topic_for K (ev_type r') = Inr t" using that find_event_in unfolding topics_known_def by metis
  qed
qed

lemma drained_published:
  assumes "drained sent failed s s'" "\<forall>i\<in>set sent. \<exists>r. find_event i s = Some r"
  shows "event_published i s' \<longleftrightarrow> event_published i s \<or> i \<in> set sent"
proof (cases "find_event i s")
  case None
  then have "i \<notin> set (map ev_id (outbox s))" by (auto simp: find_event_def find_first_None)
  then have "i \<notin> set (map ev_id (outbox s'))" using assms(1) by (simp add: drained_def)
  then have "find_event i s' = None" by (auto simp: find_event_def find_first_None)
  then show ?thesis using None assms(2) by (auto simp: event_published_def)
next
  case (Some r)
  obtain y where y: "find_event i s' = Some y" "if i \<in> set sent then (\<exists>t. y = r\<lparr>ev_published_at := Some t, ev_last_error := None\<rparr>)
      else if i \<in> failed then refused r y else y = r" using drained_row [OF assms(1) Some] by blast
  then have "ev_published_at y \<noteq> None \<longleftrightarrow> ev_published_at r \<noteq> None \<or> i \<in> set sent"
    by (cases "i \<in> set sent"; cases "i \<in> failed") (auto simp: refused_def)
  then show ?thesis using Some y(1) by (simp add: event_published_def)
qed

text \<open>What no number of passes changes: the rows that have failed ten times are neither sent nor buried.\<close>

lemma drained_quiet:
  assumes "drained sent (set (map ev_id (list_unpublished n MAX_PUBLISH_ATTEMPTS s)) - set sent) s s'" "event_ids_distinct s"
    and "\<forall>r\<in>set (outbox s). ev_dead_at r = None \<and> ev_attempt_count r \<le> MAX_PUBLISH_ATTEMPTS"
  shows "\<forall>r\<in>set (outbox s'). ev_dead_at r = None \<and> ev_attempt_count r \<le> MAX_PUBLISH_ATTEMPTS"
proof
  fix r' assume "r' \<in> set (outbox s')"
  then obtain r where r: "find_event (ev_id r') s = Some r"
      "if ev_id r' \<in> set sent then (\<exists>t. r' = r\<lparr>ev_published_at := Some t, ev_last_error := None\<rparr>)
       else if ev_id r' \<in> set (map ev_id (list_unpublished n MAX_PUBLISH_ATTEMPTS s)) - set sent then refused r r' else r' = r"
    using drained_type [OF assms(1,2)] by blast
  have q: "ev_dead_at r = None" "ev_attempt_count r \<le> MAX_PUBLISH_ATTEMPTS" using assms(3) find_event_in [OF r(1)] by auto
  have "ev_attempt_count r < MAX_PUBLISH_ATTEMPTS" if "ev_id r' \<in> set (map ev_id (list_unpublished n MAX_PUBLISH_ATTEMPTS s))"
  proof -
    obtain x where x: "x \<in> set (list_unpublished n MAX_PUBLISH_ATTEMPTS s)" "ev_id x = ev_id r'" using \<open>ev_id r' \<in> _\<close> by auto
    then have "x = r" using find_event_mem [OF assms(2) unpublished_rows(1) [OF x(1)]] r(1) by simp
    then show ?thesis using unpublished_rows(3) [OF x(1)] by simp
  qed
  then show "ev_dead_at r' = None \<and> ev_attempt_count r' \<le> MAX_PUBLISH_ATTEMPTS" using r(2) q
    by (auto simp: refused_def OUTBOX_MAX_ATTEMPTS_def MAX_PUBLISH_ATTEMPTS_def split: if_splits)
qed

lemma drain_once_sent:
  assumes "event_ids_distinct s" "topics_known K s" "drain_once K F s = (out, s', sent)" "i \<in> set sent"
  shows "\<exists>r. find_event i s = Some r \<and> ev_published_at r = None \<and> ev_attempt_count r < MAX_PUBLISH_ATTEMPTS"
proof -
  have "subseq sent (map ev_id (list_unpublished DRAIN_BATCH_SIZE MAX_PUBLISH_ATTEMPTS s))"
    using drain_once_result [OF assms(1-3)] by (elim conjE)
  then have "i \<in> set (map ev_id (list_unpublished DRAIN_BATCH_SIZE MAX_PUBLISH_ATTEMPTS s))" using assms(4) by (rule subseq_in)
  then obtain r where r: "r \<in> set (list_unpublished DRAIN_BATCH_SIZE MAX_PUBLISH_ATTEMPTS s)" "ev_id r = i" by auto
  then show ?thesis using find_event_mem [OF assms(1) unpublished_rows(1) [OF r(1)]] unpublished_rows [OF r(1)] by auto
qed

lemma drain_ticks_result:
  assumes "event_ids_distinct s" "topics_known K s" "drain_ticks K Fs s = (s', sent)"
  shows "distinct sent \<and> same_books s s' \<and> map ev_id (outbox s') = map ev_id (outbox s)
    \<and> (\<forall>i. event_published i s' \<longleftrightarrow> event_published i s \<or> i \<in> set sent) \<and> (\<forall>i\<in>set sent. \<not> event_published i s)"
  using assms
proof (induction Fs arbitrary: s s' sent)
  case (Cons F Fs)
  obtain out s1 sent1 sent2 where d: "drain_once K F s = (out, s1, sent1)" "drain_ticks K Fs s1 = (s', sent2)" "sent = sent1 @ sent2"
    using Cons.prems(3) by (auto split: prod.splits)
  note r = drain_once_result [OF Cons.prems(1,2) d(1)]
  then have D: "drained sent1 (set (map ev_id (list_unpublished DRAIN_BATCH_SIZE MAX_PUBLISH_ATTEMPTS s)) - set sent1) s s1" by (elim conjE)
  note k = drained_keeps [OF D Cons.prems(1)]
  note IH = Cons.IH [OF k(1) k(2) [OF Cons.prems(2)] d(2)]
  have u: "\<forall>i\<in>set sent1. \<exists>r. find_event i s = Some r \<and> ev_published_at r = None"
    using drain_once_sent [OF Cons.prems(1,2) d(1)] by blast
  then have p: "event_published i s1 \<longleftrightarrow> event_published i s \<or> i \<in> set sent1" for i using drained_published [OF D] by blast
  have n1: "\<forall>i\<in>set sent1. \<not> event_published i s" using u by (auto simp: event_published_def)
  have "subseq sent1 (map ev_id (list_unpublished DRAIN_BATCH_SIZE MAX_PUBLISH_ATTEMPTS s))" using r by (elim conjE)
  then have "distinct sent1" using unpublished_distinct [OF Cons.prems(1)] by (rule subseq_distinct)
  moreover have "same_books s s1" "map ev_id (outbox s1) = map ev_id (outbox s)" using D by (simp_all add: drained_def)
  ultimately show ?case using IH p n1 d(3) same_books_trans by (auto simp: disjoint_iff)
qed simp

lemma drain_ticks_quiet:
  assumes "event_ids_distinct s" "topics_known K s" "drain_ticks K Fs s = (s', sent)"
    and "\<forall>r\<in>set (outbox s). ev_dead_at r = None \<and> ev_attempt_count r \<le> MAX_PUBLISH_ATTEMPTS"
  shows "list_dead n s' = [] \<and> (\<forall>i r. find_event i s = Some r \<longrightarrow> ev_published_at r = None \<longrightarrow> ev_attempt_count r = MAX_PUBLISH_ATTEMPTS
    \<longrightarrow> i \<notin> set sent \<and> find_event i s' = Some r)"
  using assms
proof (induction Fs arbitrary: s s' sent)
  case (Cons F Fs)
  obtain out s1 sent1 sent2 where d: "drain_once K F s = (out, s1, sent1)" "drain_ticks K Fs s1 = (s', sent2)" "sent = sent1 @ sent2"
    using Cons.prems(3) by (auto split: prod.splits)
  have D: "drained sent1 (set (map ev_id (list_unpublished DRAIN_BATCH_SIZE MAX_PUBLISH_ATTEMPTS s)) - set sent1) s s1"
    using drain_once_result [OF Cons.prems(1,2) d(1)] by (elim conjE)
  note k = drained_keeps [OF D Cons.prems(1)]
  note IH = Cons.IH [OF k(1) k(2) [OF Cons.prems(2)] d(2) drained_quiet [OF D Cons.prems(1,4)]]
  have "i \<notin> set sent1 \<and> find_event i s1 = Some r" if r: "find_event i s = Some r" "ev_published_at r = None" "ev_attempt_count r = MAX_PUBLISH_ATTEMPTS" for i r
  proof -
    have "i \<notin> set sent1" using drain_once_sent [OF Cons.prems(1,2) d(1)] r by fastforce
    moreover have "i \<notin> set (map ev_id (list_unpublished DRAIN_BATCH_SIZE MAX_PUBLISH_ATTEMPTS s))"
    proof
      assume "i \<in> set (map ev_id (list_unpublished DRAIN_BATCH_SIZE MAX_PUBLISH_ATTEMPTS s))"
      then obtain x where x: "x \<in> set (list_unpublished DRAIN_BATCH_SIZE MAX_PUBLISH_ATTEMPTS s)" "ev_id x = i" by auto
      then have "x = r" using find_event_mem [OF Cons.prems(1) unpublished_rows(1) [OF x(1)]] r(1) by simp
      then show False using unpublished_rows(3) [OF x(1)] r(3) by simp
    qed
    ultimately show ?thesis using drained_row [OF D r(1)] by auto
  qed
  then show ?case using IH d(3) by auto
qed (auto simp: list_dead_def filter_empty_conv)

end
