(* ===== verification/Drain_Tasks.thy ===== *)
theory Drain_Tasks
  imports Drain
begin

text \<open>
  The drain runs in every task of the service at the same time (\<^verbatim>\<open>src/app/workers/__init__.py\<close>), each pass reading,
  sending and marking in transactions of its own. A state is the database, the rows each task has staged, the
  row it has sent and not yet marked, and what SNS has taken. Each rule is one transaction or one call to SNS,
  as \<^verbatim>\<open>run_once\<close> makes them; a task may stop at any point.
\<close>

section \<open>Steps\<close>

record 'd bus =
  bus_db :: 'd
  bus_staged :: "nat \<Rightarrow> outbox_row list"
  bus_unmarked :: "nat \<Rightarrow> string option"
  bus_sent :: "bus_message list"

inductive bus_step :: "contracts \<Rightarrow> ('a ledger_scheme) bus \<Rightarrow> ('a ledger_scheme) bus \<Rightarrow> bool" for K where
  staged_event: "publish E ty pl m cid ca lm (bus_db b) = Inr (i, s1) \<Longrightarrow> bus_step K b (b\<lparr>bus_db := s1\<rparr>)"
| other_work: "outbox s1 = outbox (bus_db b) \<Longrightarrow> bus_step K b (b\<lparr>bus_db := s1\<rparr>)"
| read_rows: "bus_staged b t = [] \<Longrightarrow> bus_unmarked b t = None
    \<Longrightarrow> bus_step K b (b\<lparr>bus_staged := (bus_staged b)(t := list_unpublished DRAIN_BATCH_SIZE MAX_PUBLISH_ATTEMPTS (bus_db b))\<rparr>)"
| taken: "bus_staged b t = r # rs \<Longrightarrow> bus_unmarked b t = None \<Longrightarrow> publish_raw K sns r = Inr ()
    \<Longrightarrow> bus_step K b (b\<lparr>bus_staged := (bus_staged b)(t := rs), bus_unmarked := (bus_unmarked b)(t := Some (ev_id r)),
          bus_sent := bus_sent b @ [sns_message r]\<rparr>)"
| marked: "bus_unmarked b t = Some i \<Longrightarrow> mark_published now i (bus_db b) = Inr s1
    \<Longrightarrow> bus_step K b (b\<lparr>bus_unmarked := (bus_unmarked b)(t := None), bus_db := s1\<rparr>)"
| rejected: "bus_staged b t = r # rs \<Longrightarrow> bus_unmarked b t = None \<Longrightarrow> publish_raw K sns r = Inl e \<Longrightarrow> caught_by e BusPublishError
    \<Longrightarrow> mark_failed u now (ev_id r) (err_code e) 2 (bus_db b) = Inr s1
    \<Longrightarrow> bus_step K b (b\<lparr>bus_staged := (bus_staged b)(t := rs), bus_db := s1\<rparr>)"
| stopped: "bus_step K b (b\<lparr>bus_staged := (bus_staged b)(t := []), bus_unmarked := (bus_unmarked b)(t := None)\<rparr>)"
| revived: "revive now i (bus_db b) = Inr s1 \<Longrightarrow> bus_step K b (b\<lparr>bus_db := s1\<rparr>)"

definition bus_started :: "('a ledger_scheme) bus \<Rightarrow> bool" where
  "bus_started b \<longleftrightarrow> outbox (bus_db b) = [] \<and> bus_staged b = (\<lambda>_. []) \<and> bus_unmarked b = (\<lambda>_. None) \<and> bus_sent b = []"

inductive bus_reachable :: "contracts \<Rightarrow> ('a ledger_scheme) bus \<Rightarrow> bool" for K where
  start: "bus_started b \<Longrightarrow> bus_reachable K b"
| step: "bus_reachable K b \<Longrightarrow> bus_step K b b' \<Longrightarrow> bus_reachable K b'"

section \<open>At least once, and only what was committed\<close>

definition stored_message :: "'a ledger_scheme \<Rightarrow> bus_message \<Rightarrow> bool" where
  "stored_message s m \<longleftrightarrow> (\<exists>x\<in>set (outbox s). sns_message x = m)"

definition bus_inv :: "('a ledger_scheme) bus \<Rightarrow> bool" where
  "bus_inv b \<longleftrightarrow> event_ids_distinct (bus_db b)
     \<and> (\<forall>t. \<forall>r\<in>set (bus_staged b t). stored_message (bus_db b) (sns_message r))
     \<and> (\<forall>m\<in>set (bus_sent b). stored_message (bus_db b) m)
     \<and> (\<forall>t i. bus_unmarked b t = Some i \<longrightarrow> i \<in> bm_id ` set (bus_sent b))
     \<and> (\<forall>x\<in>set (outbox (bus_db b)). ev_published_at x \<noteq> None \<longrightarrow> ev_id x \<in> bm_id ` set (bus_sent b))"

lemma sns_message_id [simp]: "bm_id (sns_message r) = ev_id r" by (simp add: sns_message_def)

text \<open>What the writes of the table keep: every stored message, and the rows that are published but for those in \<^verbatim>\<open>new\<close>.\<close>

definition table_step :: "string set \<Rightarrow> 'a ledger_scheme \<Rightarrow> 'b ledger_scheme \<Rightarrow> bool" where
  "table_step new s s1 \<longleftrightarrow> event_ids_distinct s1 \<and> (\<forall>m. (\<exists>x\<in>set (outbox s). sns_message x = m) \<longrightarrow> (\<exists>x\<in>set (outbox s1). sns_message x = m))
     \<and> (\<forall>x\<in>set (outbox s1). ev_published_at x \<noteq> None \<longrightarrow> ev_id x \<in> new \<or> (\<exists>y\<in>set (outbox s). ev_id y = ev_id x \<and> ev_published_at y \<noteq> None))"

lemma bus_inv_db:
  assumes "bus_inv b" "table_step new (bus_db b) s1" "new \<subseteq> bm_id ` set (bus_sent b)"
  shows "bus_inv (b\<lparr>bus_db := s1\<rparr>)"
  unfolding bus_inv_def
proof (intro conjI allI ballI impI)
  fix x assume x: "x \<in> set (outbox (bus_db (b\<lparr>bus_db := s1\<rparr>)))" "ev_published_at x \<noteq> None"
  then have "ev_id x \<in> new \<or> (\<exists>y\<in>set (outbox (bus_db b)). ev_id y = ev_id x \<and> ev_published_at y \<noteq> None)" using assms(2) by (simp add: table_step_def)
  then show "ev_id x \<in> bm_id ` set (bus_sent (b\<lparr>bus_db := s1\<rparr>))" using assms(1,3) unfolding bus_inv_def by auto metis
qed (use assms in \<open>auto simp: bus_inv_def table_step_def stored_message_def\<close>)

lemma put_event_step:
  assumes "event_ids_distinct s" "find_event i s = Some r" "ev_id r' = i" "sns_message r' = sns_message r"
    and "ev_published_at r' \<noteq> None \<Longrightarrow> i \<in> new \<or> ev_published_at r \<noteq> None"
  shows "table_step new s (put_event r' s)"
proof -
  have r: "r \<in> set (outbox s)" "ev_id r = i" using find_event_in [OF assms(2)] find_event_id [OF assms(2)] by auto
  have rows: "set (outbox (put_event r' s)) = insert r' {x \<in> set (outbox s). ev_id x \<noteq> i}"
    using r assms(3) by (auto simp: put_event_def update_where_set split: if_splits)
  have same: "x = r" if "x \<in> set (outbox s)" "ev_id x = i" for x using find_event_mem [OF assms(1) that(1)] that(2) assms(2) by simp
  show ?thesis unfolding table_step_def rows
  proof (intro conjI allI impI ballI)
    show "event_ids_distinct (put_event r' s)" using assms(1) by (simp add: event_ids_distinct_def)
  next
    fix m assume "\<exists>x\<in>set (outbox s). sns_message x = m"
    then obtain x where "x \<in> set (outbox s)" "sns_message x = m" by blast
    then show "\<exists>x\<in>insert r' {x \<in> set (outbox s). ev_id x \<noteq> i}. sns_message x = m" using same assms(4) by (cases "ev_id x = i") auto
  next
    fix x assume "x \<in> insert r' {x \<in> set (outbox s). ev_id x \<noteq> i}" "ev_published_at x \<noteq> None"
    then show "ev_id x \<in> new \<or> (\<exists>y\<in>set (outbox s). ev_id y = ev_id x \<and> ev_published_at y \<noteq> None)" using assms(3,5) r by auto
  qed
qed

lemma publish_step: "publish E ty pl m cid ca lm s = Inr (i, s1) \<Longrightarrow> event_ids_distinct s \<Longrightarrow> table_step {} s s1"
proof -
  assume p: "publish E ty pl m cid ca lm s = Inr (i, s1)" and d: "event_ids_distinct s"
  obtain r where r: "outbox s1 = outbox s @ [r]" "ev_published_at r = None" "ev_id r \<notin> set (map ev_id (outbox s))"
    using p by (auto simp: publish_def bindE_Inr_iff resolve_correlation_def insert_outbox_def split: if_splits option.splits dest!: mint_same)
  then show ?thesis using d by (auto simp: table_step_def event_ids_distinct_def)
qed

lemma bus_inv_step: "bus_step K b b' \<Longrightarrow> bus_inv b \<Longrightarrow> bus_inv b'"
proof (induction rule: bus_step.induct)
  case (staged_event E ty pl m cid ca lm b i s1)
  have "table_step {} (bus_db b) s1" using publish_step [OF staged_event.hyps] staged_event.prems by (simp add: bus_inv_def)
  then show ?case using bus_inv_db [OF staged_event.prems] by simp
next
  case (other_work s1 b)
  have "table_step {} (bus_db b) s1" using other_work by (auto simp: table_step_def bus_inv_def event_ids_distinct_def)
  then show ?case using bus_inv_db [OF other_work.prems] by simp
next
  case (read_rows b t)
  have "\<forall>r\<in>set (list_unpublished DRAIN_BATCH_SIZE MAX_PUBLISH_ATTEMPTS (bus_db b)). stored_message (bus_db b) (sns_message r)"
    using unpublished_rows(1) unfolding stored_message_def by blast
  then show ?case using read_rows.prems by (auto simp: bus_inv_def)
next
  case (taken b t r rs sns)
  then have "\<forall>x\<in>set (r # rs). stored_message (bus_db b) (sns_message x)" unfolding bus_inv_def by metis
  then show ?case using taken.prems by (auto simp: bus_inv_def)
next
  case (marked b t i now s1)
  obtain r where r: "find_event i (bus_db b) = Some r" "s1 = put_event (r\<lparr>ev_published_at := Some now, ev_last_error := None\<rparr>) (bus_db b)"
    using marked.hyps(2) by (auto simp: mark_published_iff)
  have "table_step {i} (bus_db b) s1" unfolding r(2)
    using marked.prems find_event_id [OF r(1)] by (intro put_event_step [OF _ r(1)]) (auto simp: bus_inv_def sns_message_def)
  then have "bus_inv (b\<lparr>bus_db := s1\<rparr>)" using bus_inv_db [OF marked.prems] marked.hyps(1) marked.prems by (auto simp: bus_inv_def)
  then show ?case by (auto simp: bus_inv_def)
next
  case (rejected b t r rs sns e u now s1)
  obtain x where x: "find_event (ev_id r) (bus_db b) = Some x" "s1 = put_event (failed_row u now (err_code e) 2 x) (bus_db b)"
    using rejected.hyps(5) by (auto simp: mark_failed_iff)
  have "table_step {} (bus_db b) s1" unfolding x(2)
    using rejected.prems find_event_id [OF x(1)] refused_failed_row [of x u now "err_code e" 2]
    by (intro put_event_step [OF _ x(1)]) (auto simp: bus_inv_def refused_def)
  then have i: "bus_inv (b\<lparr>bus_db := s1\<rparr>)" using bus_inv_db [OF rejected.prems] by simp
  have "bus_staged (b\<lparr>bus_db := s1\<rparr>) t = r # rs" using rejected.hyps(1) by simp
  then have "\<forall>x\<in>set rs. stored_message s1 (sns_message x)" using i unfolding bus_inv_def by (metis list.set_intros(2) bus.select_convs(1) bus.update_convs(1) bus.surjective)
  then show ?case using i by (auto simp: bus_inv_def)
next
  case (stopped b t)
  then show ?case by (auto simp: bus_inv_def)
next
  case (revived now i b s1)
  obtain r where r: "find_event i (bus_db b) = Some r"
      "s1 = put_event (r\<lparr>ev_dead_at := None, ev_attempt_count := 0, ev_last_error := None, ev_next_attempt_at := now\<rparr>) (bus_db b)"
    using revived.hyps by (auto simp: revive_def get_event_or_raise_def split: option.splits)
  have "table_step {} (bus_db b) s1" unfolding r(2)
    using revived.prems find_event_id [OF r(1)] by (intro put_event_step [OF _ r(1)]) (auto simp: bus_inv_def sns_message_def)
  then show ?case using bus_inv_db [OF revived.prems] by simp
qed

lemma bus_reachable_inv: "bus_reachable K b \<Longrightarrow> bus_inv b"
  by (induction rule: bus_reachable.induct) (auto simp: bus_started_def bus_inv_def event_ids_distinct_def dest: bus_inv_step)

text \<open>A published row has been sent as it was stored, and whatever has been sent is a stored row.\<close>

lemma reachable_sent:
  assumes "bus_reachable K b"
  shows "event_ids_distinct (bus_db b)" "x \<in> set (outbox (bus_db b)) \<Longrightarrow> ev_published_at x \<noteq> None \<Longrightarrow> sns_message x \<in> set (bus_sent b)"
    "m \<in> set (bus_sent b) \<Longrightarrow> \<exists>y\<in>set (outbox (bus_db b)). sns_message y = m"
proof -
  have d: "event_ids_distinct (bus_db b)" and s1: "\<forall>m\<in>set (bus_sent b). stored_message (bus_db b) m"
    and p: "\<forall>x\<in>set (outbox (bus_db b)). ev_published_at x \<noteq> None \<longrightarrow> ev_id x \<in> bm_id ` set (bus_sent b)"
    using bus_reachable_inv [OF assms] unfolding bus_inv_def by simp_all
  show "event_ids_distinct (bus_db b)" by (rule d)
  show s: "m \<in> set (bus_sent b) \<Longrightarrow> \<exists>y\<in>set (outbox (bus_db b)). sns_message y = m" for m using s1 by (simp add: stored_message_def)
  show "sns_message x \<in> set (bus_sent b)" if x: "x \<in> set (outbox (bus_db b))" "ev_published_at x \<noteq> None"
  proof -
    have "ev_id x \<in> bm_id ` set (bus_sent b)" using p x by blast
    then obtain m where m: "m \<in> set (bus_sent b)" "bm_id m = ev_id x" by auto
    obtain y where y: "y \<in> set (outbox (bus_db b))" "sns_message y = m" using s [OF m(1)] by (elim bexE)
    have "bm_id (sns_message y) = ev_id x" unfolding y(2) by (rule m(2))
    then have "ev_id y = ev_id x" by simp
    then have "find_event (ev_id x) (bus_db b) = Some y" using find_event_mem [OF d y(1)] by simp
    then have "y = x" using find_event_mem [OF d x(1)] by simp
    then show ?thesis using m(1) y(2) by simp
  qed
qed

section \<open>Two tasks send one event twice\<close>

text \<open>Nothing claims the rows that a pass reads, so a second task may send what the first one is sending.\<close>

lemma two_tasks_send_twice:
  fixes s0 :: "'a ledger_scheme"
  assumes "outbox s0 = []" "publish E ty pl m cid ca lm s0 = Inr (i, s1)"
  shows "\<exists>b. bus_reachable (env_contracts E) (b :: ('a ledger_scheme) bus) \<and> (\<exists>msg. bm_id msg = i \<and> bus_sent b = [msg, msg])"
proof -
  let ?K = "env_contracts E"
  obtain r where r: "outbox s1 = [r]" "ev_published_at r = None" "ev_attempt_count r = 0" "ev_id r = i" "ev_type r = ty"
    using assms by (auto simp: publish_def bindE_Inr_iff resolve_correlation_def insert_outbox_def split: if_splits option.splits dest!: mint_same)
  have u: "list_unpublished DRAIN_BATCH_SIZE MAX_PUBLISH_ATTEMPTS s1 = [r]"
    by (simp add: list_unpublished_def r DRAIN_BATCH_SIZE_def MAX_PUBLISH_ATTEMPTS_def)
  have p: "publish_raw ?K (\<lambda>_. True) r = Inr ()"
    using assms(2) r(5) by (auto simp: publish_raw_def publish_def bindE_Inr_iff)
  let ?b0 = "\<lparr>bus_db = s0, bus_staged = (\<lambda>_. []), bus_unmarked = (\<lambda>_. None), bus_sent = []\<rparr>"
  let ?b1 = "?b0\<lparr>bus_db := s1\<rparr>"
  let ?b2 = "?b1\<lparr>bus_staged := (bus_staged ?b1)(0 := [r])\<rparr>"
  let ?b3 = "?b2\<lparr>bus_staged := (bus_staged ?b2)(1 := [r])\<rparr>"
  let ?b4 = "?b3\<lparr>bus_staged := (bus_staged ?b3)(0 := []), bus_unmarked := (bus_unmarked ?b3)(0 := Some (ev_id r)), bus_sent := bus_sent ?b3 @ [sns_message r]\<rparr>"
  let ?b5 = "?b4\<lparr>bus_staged := (bus_staged ?b4)(1 := []), bus_unmarked := (bus_unmarked ?b4)(1 := Some (ev_id r)), bus_sent := bus_sent ?b4 @ [sns_message r]\<rparr>"
  have "bus_reachable ?K ?b0" by (rule bus_reachable.start) (simp add: bus_started_def assms(1))
  moreover have "bus_step ?K ?b0 ?b1" using assms(2) by (intro bus_step.staged_event) simp
  ultimately have "bus_reachable ?K ?b1" by (rule bus_reachable.step)
  moreover have "bus_step ?K ?b1 ?b2" using bus_step.read_rows [of ?b1 0 ?K] u by simp
  ultimately have "bus_reachable ?K ?b2" by (rule bus_reachable.step)
  moreover have "bus_step ?K ?b2 ?b3" using bus_step.read_rows [of ?b2 1 ?K] u by simp
  ultimately have "bus_reachable ?K ?b3" by (rule bus_reachable.step)
  moreover have "bus_step ?K ?b3 ?b4" by (rule bus_step.taken [OF _ _ p]) simp_all
  ultimately have "bus_reachable ?K ?b4" by (rule bus_reachable.step)
  moreover have "bus_step ?K ?b4 ?b5" by (rule bus_step.taken [OF _ _ p]) simp_all
  ultimately have "bus_reachable ?K ?b5" by (rule bus_reachable.step)
  then show ?thesis using r(4) by (intro exI [of _ ?b5]) simp
qed

text \<open>The same first steps with a mark reach a state in which the event is published.\<close>

lemma one_task_publishes:
  fixes s0 :: "'a ledger_scheme"
  assumes "outbox s0 = []" "publish E ty pl m cid ca lm s0 = Inr (i, s1)"
  shows "\<exists>b. bus_reachable (env_contracts E) (b :: ('a ledger_scheme) bus) \<and> (\<exists>x\<in>set (outbox (bus_db b)). ev_id x = i \<and> ev_published_at x = Some now)"
proof -
  let ?K = "env_contracts E"
  obtain r where r: "outbox s1 = [r]" "ev_published_at r = None" "ev_attempt_count r = 0" "ev_id r = i" "ev_type r = ty"
    using assms by (auto simp: publish_def bindE_Inr_iff resolve_correlation_def insert_outbox_def split: if_splits option.splits dest!: mint_same)
  have u: "list_unpublished DRAIN_BATCH_SIZE MAX_PUBLISH_ATTEMPTS s1 = [r]"
    by (simp add: list_unpublished_def r DRAIN_BATCH_SIZE_def MAX_PUBLISH_ATTEMPTS_def)
  have p: "publish_raw ?K (\<lambda>_. True) r = Inr ()"
    using assms(2) r(5) by (auto simp: publish_raw_def publish_def bindE_Inr_iff)
  let ?r = "r\<lparr>ev_published_at := Some now, ev_last_error := None\<rparr>"
  have k: "mark_published now i s1 = Inr (put_event ?r s1)" using r by (simp add: mark_published_iff find_event_def)
  let ?b0 = "\<lparr>bus_db = s0, bus_staged = (\<lambda>_. []), bus_unmarked = (\<lambda>_. None), bus_sent = []\<rparr>"
  let ?b1 = "?b0\<lparr>bus_db := s1\<rparr>"
  let ?b2 = "?b1\<lparr>bus_staged := (bus_staged ?b1)(0 := [r])\<rparr>"
  let ?b3 = "?b2\<lparr>bus_staged := (bus_staged ?b2)(0 := []), bus_unmarked := (bus_unmarked ?b2)(0 := Some (ev_id r)), bus_sent := bus_sent ?b2 @ [sns_message r]\<rparr>"
  let ?b4 = "?b3\<lparr>bus_unmarked := (bus_unmarked ?b3)(0 := None), bus_db := put_event ?r s1\<rparr>"
  have "bus_reachable ?K ?b0" by (rule bus_reachable.start) (simp add: bus_started_def assms(1))
  moreover have "bus_step ?K ?b0 ?b1" using assms(2) by (intro bus_step.staged_event) simp
  ultimately have "bus_reachable ?K ?b1" by (rule bus_reachable.step)
  moreover have "bus_step ?K ?b1 ?b2" using bus_step.read_rows [of ?b1 0 ?K] u by simp
  ultimately have "bus_reachable ?K ?b2" by (rule bus_reachable.step)
  moreover have "bus_step ?K ?b2 ?b3" by (rule bus_step.taken [OF _ _ p]) simp_all
  ultimately have "bus_reachable ?K ?b3" by (rule bus_reachable.step)
  moreover have "bus_step ?K ?b3 ?b4" by (rule bus_step.marked [of _ _ i now]) (simp_all add: r k)
  ultimately have "bus_reachable ?K ?b4" by (rule bus_reachable.step)
  moreover have "\<exists>x\<in>set (outbox (bus_db ?b4)). ev_id x = i \<and> ev_published_at x = Some now" by (simp add: put_event_def update_where_def r)
  ultimately show ?thesis by blast
qed

end
