(* ===== verification/Paging.thy ===== *)
theory Paging
  imports Text Errors
begin

text \<open>
  Keyset paging (\<^verbatim>\<open>src/app/repositories/base.py\<close>): the opaque cursor, which is the URL-safe base64 of the
  UTF-8 text of the last id without its padding, the clamp of the page size, and \<^verbatim>\<open>list_page\<close>. A text is the
  list of its code points, a cursor a list of code points too, since a caller may send any; bytes are numbers
  below 256. The base64 decoder is the library's lenient one: characters outside the alphabet are skipped and
  a complete padding ends the input. How the database collates texts is a parameter, a strict total order.
\<close>

section \<open>UTF-8\<close>

definition valid_code_point :: "nat \<Rightarrow> bool" where
  "valid_code_point c \<longleftrightarrow> c < 0x110000 \<and> \<not> (0xD800 \<le> c \<and> c < 0xE000)"

definition utf8_char :: "nat \<Rightarrow> nat list" where
  "utf8_char c = (if c < 0x80 then [c]
     else if c < 0x800 then [0xC0 + c div 64, 0x80 + c mod 64]
     else if c < 0x10000 then [0xE0 + c div 4096, 0x80 + c div 64 mod 64, 0x80 + c mod 64]
     else [0xF0 + c div 262144, 0x80 + c div 4096 mod 64, 0x80 + c div 64 mod 64, 0x80 + c mod 64])"

definition utf8_encode :: "nat list \<Rightarrow> nat list res" where
  "utf8_encode cs = (if \<forall>c\<in>set cs. valid_code_point c then Inr (concat (map utf8_char cs)) else raise ValueError)"

definition continuation :: "nat \<Rightarrow> bool" where "continuation b \<longleftrightarrow> 0x80 \<le> b \<and> b < 0xC0"

text \<open>The decoder rejects stray and missing continuation bytes, overlong forms, surrogates and values past the last code point.\<close>

fun utf8_decode :: "nat list \<Rightarrow> nat list option" where
  "utf8_decode [] = Some []"
| "utf8_decode (a # bs) =
    (if a < 0x80 then map_option (Cons a) (utf8_decode bs)
     else case bs of
       b # bs1 \<Rightarrow>
         if 0xC2 \<le> a \<and> a < 0xE0 then
           (if continuation b then map_option (Cons ((a - 0xC0) * 64 + (b - 0x80))) (utf8_decode bs1) else None)
         else (case bs1 of
           c # bs2 \<Rightarrow>
             if 0xE0 \<le> a \<and> a < 0xF0 then
               (let v = (a - 0xE0) * 4096 + (b - 0x80) * 64 + (c - 0x80)
                in if continuation b \<and> continuation c \<and> 0x800 \<le> v \<and> valid_code_point v then map_option (Cons v) (utf8_decode bs2) else None)
             else (case bs2 of
               d # bs3 \<Rightarrow>
                 (let v = (a - 0xF0) * 262144 + (b - 0x80) * 4096 + (c - 0x80) * 64 + (d - 0x80)
                  in if 0xF0 \<le> a \<and> a < 0xF5 \<and> continuation b \<and> continuation c \<and> continuation d \<and> 0x10000 \<le> v \<and> valid_code_point v
                     then map_option (Cons v) (utf8_decode bs3) else None)
             | [] \<Rightarrow> None)
         | [] \<Rightarrow> None)
     | [] \<Rightarrow> None)"

section \<open>Base64\<close>

definition base64_char :: "nat \<Rightarrow> nat" where
  "base64_char n = (if n < 26 then 65 + n else if n < 52 then 71 + n else if n < 62 then n - 4 else if n = 62 then 45 else 95)"

definition base64_value :: "nat \<Rightarrow> nat option" where
  "base64_value c = (if 65 \<le> c \<and> c \<le> 90 then Some (c - 65) else if 97 \<le> c \<and> c \<le> 122 then Some (c - 71)
     else if 48 \<le> c \<and> c \<le> 57 then Some (c + 4) else if c = 45 \<or> c = 43 then Some 62 else if c = 95 \<or> c = 47 then Some 63 else None)"

text \<open>Three bytes are four characters; \<^verbatim>\<open>rstrip\<close> takes the padding of the last group away.\<close>

fun base64_encode :: "nat list \<Rightarrow> nat list" where
  "base64_encode [] = []"
| "base64_encode [a] = [base64_char (a div 4), base64_char (a mod 4 * 16)]"
| "base64_encode [a, b] = [base64_char (a div 4), base64_char (a mod 4 * 16 + b div 16), base64_char (b mod 16 * 4)]"
| "base64_encode (a # b # c # bs) = base64_char (a div 4) # base64_char (a mod 4 * 16 + b div 16) # base64_char (b mod 16 * 4 + c div 64)
     # base64_char (c mod 64) # base64_encode bs"

text \<open>The state of the decoder: position in the group of four, bits left over, padding characters since the last digit.\<close>

fun a2b_loop :: "nat \<Rightarrow> nat \<Rightarrow> nat \<Rightarrow> nat list \<Rightarrow> nat list option" where
  "a2b_loop quad left pads [] = (if quad = 0 then Some [] else None)"
| "a2b_loop quad left pads (c # cs) =
    (if c = 61 then (if 2 \<le> quad \<and> 4 \<le> quad + Suc pads then Some [] else a2b_loop quad left (if 2 \<le> quad then Suc pads else pads) cs)
     else case base64_value c of
       None \<Rightarrow> a2b_loop quad left pads cs
     | Some v \<Rightarrow>
         if quad = 0 then a2b_loop 1 v 0 cs
         else if quad = 1 then map_option (Cons (left * 4 + v div 16)) (a2b_loop 2 (v mod 16) 0 cs)
         else if quad = 2 then map_option (Cons (left * 16 + v div 4)) (a2b_loop 3 (v mod 4) 0 cs)
         else map_option (Cons (left * 64 + v)) (a2b_loop 0 0 0 cs))"

definition urlsafe_b64decode :: "nat list \<Rightarrow> nat list option" where "urlsafe_b64decode cs = a2b_loop 0 0 0 cs"

section \<open>Cursors\<close>

definition encode_cursor :: "nat list \<Rightarrow> nat list res" where
  "encode_cursor v = mapE base64_encode (utf8_encode v)"

definition decode_cursor :: "nat list \<Rightarrow> nat list res" where
  "decode_cursor cursor =
    (let padded = cursor @ replicate (nat (- int (length cursor) mod 4)) 61
     in if \<exists>c\<in>set padded. \<not> c < 128 then raise ValidationError
        else case urlsafe_b64decode padded of None \<Rightarrow> raise ValidationError
          | Some bs \<Rightarrow> (case utf8_decode bs of None \<Rightarrow> raise ValidationError | Some v \<Rightarrow> Inr v))"

definition MAX_PAGE_SIZE :: nat where "MAX_PAGE_SIZE = 200"
definition DEFAULT_PAGE_SIZE :: nat where "DEFAULT_PAGE_SIZE = 50"

definition clamp_limit :: "int option \<Rightarrow> nat res" where
  "clamp_limit limit = (case limit of None \<Rightarrow> Inr DEFAULT_PAGE_SIZE
   | Some n \<Rightarrow> if n < 1 then raise ValidationError else Inr (min (nat n) MAX_PAGE_SIZE))"

section \<open>Pages\<close>

record 'r page =
  page_items :: "'r list"
  next_cursor :: "nat list option"
  has_more :: bool

text \<open>\<^verbatim>\<open>ORDER BY key DESC\<close>, by insertion. The order of texts is the collation of the database.\<close>

fun insert_desc :: "(nat list \<Rightarrow> nat list \<Rightarrow> bool) \<Rightarrow> ('r \<Rightarrow> nat list) \<Rightarrow> 'r \<Rightarrow> 'r list \<Rightarrow> 'r list" where
  "insert_desc lt key x [] = [x]"
| "insert_desc lt key x (y # ys) = (if lt (key x) (key y) then y # insert_desc lt key x ys else x # y # ys)"

definition order_desc :: "(nat list \<Rightarrow> nat list \<Rightarrow> bool) \<Rightarrow> ('r \<Rightarrow> nat list) \<Rightarrow> 'r list \<Rightarrow> 'r list" where
  "order_desc lt key rows = foldr (insert_desc lt key) rows []"

lemma order_desc_simps [simp]:
  "order_desc lt key [] = []" "order_desc lt key (r # rows) = insert_desc lt key r (order_desc lt key rows)"
  by (simp_all add: order_desc_def)

lemma order_desc_length: "length (order_desc lt key rows) = length rows"
proof (induction rows)
  case (Cons r rows)
  have "length (insert_desc lt key r ys) = Suc (length ys)" for ys by (induction ys) auto
  with Cons show ?case by simp
qed simp

text \<open>\<^verbatim>\<open>wanted\<close> stands for the predicates of the caller, \<^verbatim>\<open>known\<close> for the columns of the table.\<close>

definition filter_columns :: "(string \<Rightarrow> bool) \<Rightarrow> ('r \<Rightarrow> string \<Rightarrow> 'v) \<Rightarrow> (string \<times> 'v option) list \<Rightarrow> ('r \<Rightarrow> bool) res" where
  "filter_columns known column filters = (let given = filter (\<lambda>(_, v). v \<noteq> None) filters in
     if \<exists>(c, _)\<in>set given. \<not> known c then raise ValidationError
     else Inr (\<lambda>r. \<forall>(c, v)\<in>set given. v = Some (column r c)))"

definition list_page :: "(nat list \<Rightarrow> nat list \<Rightarrow> bool) \<Rightarrow> ('r \<Rightarrow> nat list) \<Rightarrow> ('r \<Rightarrow> bool) res \<Rightarrow> nat list option \<Rightarrow> int option \<Rightarrow> 'r list \<Rightarrow> 'r page res" where
  "list_page lt key filters cursor limit rows =
     bindE (clamp_limit limit) (\<lambda>page_size.
     bindE filters (\<lambda>wanted.
     bindE (case cursor of None \<Rightarrow> Inr (\<lambda>_. True) | Some c \<Rightarrow> mapE (\<lambda>v r. lt (key r) v) (decode_cursor c)) (\<lambda>after.
       let found = take (Suc page_size) (order_desc lt key (filter after (filter wanted rows)));
           more = length found > page_size; items = take page_size found
       in bindE (if more \<and> items \<noteq> [] then mapE Some (encode_cursor (key (last items))) else Inr None) (\<lambda>nxt.
            Inr \<lparr>page_items = items, next_cursor = nxt, has_more = more\<rparr>))))"

definition count_rows :: "('r \<Rightarrow> bool) res \<Rightarrow> 'r list \<Rightarrow> nat res" where
  "count_rows filters rows = mapE (\<lambda>wanted. length (filter wanted rows)) filters"

definition exists_row :: "('r \<Rightarrow> string) \<Rightarrow> string \<Rightarrow> 'r list \<Rightarrow> bool" where
  "exists_row ident i rows \<longleftrightarrow> find_first (\<lambda>r. ident r = i) rows \<noteq> None"

text \<open>A caller that loops on the cursor, with fuel for the number of pages.\<close>

fun all_pages :: "nat \<Rightarrow> (nat list \<Rightarrow> nat list \<Rightarrow> bool) \<Rightarrow> ('r \<Rightarrow> nat list) \<Rightarrow> ('r \<Rightarrow> bool) res \<Rightarrow> nat list option \<Rightarrow> int option \<Rightarrow> 'r list \<Rightarrow> 'r list res option" where
  "all_pages 0 lt key filters cursor limit rows = None"
| "all_pages (Suc n) lt key filters cursor limit rows = (case list_page lt key filters cursor limit rows of
     Inl e \<Rightarrow> Some (Inl e)
   | Inr p \<Rightarrow> (case next_cursor p of None \<Rightarrow> Some (Inr (page_items p))
       | Some c \<Rightarrow> map_option (mapE (\<lambda>rest. page_items p @ rest)) (all_pages n lt key filters (Some c) limit rows)))"

section \<open>A cursor reads back\<close>

lemma split_64: "(c::nat) div 4096 * 4096 + c div 64 mod 64 * 64 + c mod 64 = c"
proof -
  have "c div 4096 = c div 64 div 64" using div_mult2_eq [of c 64 64] by simp
  then show ?thesis using div_mult_mod_eq [of c 64] div_mult_mod_eq [of "c div 64" 64] by linarith
qed

lemma split_64': "(c::nat) div 262144 * 262144 + c div 4096 mod 64 * 4096 + c div 64 mod 64 * 64 + c mod 64 = c"
proof -
  have "c div 262144 = c div 4096 div 64" using div_mult2_eq [of c 4096 64] by simp
  then show ?thesis using split_64 [of c] div_mult_mod_eq [of "c div 4096" 64] by linarith
qed

lemma continuation_low [simp]: "continuation (128 + n mod 64)" by (simp add: continuation_def)

lemma utf8_decode_char:
  assumes "valid_code_point c"
  shows "utf8_decode (utf8_char c @ bs) = map_option (Cons c) (utf8_decode bs)"
proof -
  consider "c < 0x80" | "0x80 \<le> c" "c < 0x800" | "0x800 \<le> c" "c < 0x10000" | "0x10000 \<le> c" "c < 0x110000"
    using assms unfolding valid_code_point_def by linarith
  then show ?thesis
  proof cases
    case 2
    then have "2 \<le> c div 64" "c div 64 < 32" by auto
    then show ?thesis using 2 by (simp add: utf8_char_def)
  next
    case 3
    then have "c div 4096 < 16" by auto
    then show ?thesis using 3 assms split_64 [of c] by (simp add: utf8_char_def)
  next
    case 4
    then have "c div 262144 < 5" by auto
    then show ?thesis using 4 assms split_64' [of c] by (simp add: utf8_char_def)
  qed (simp add: utf8_char_def)
qed

lemma utf8_roundtrip: "utf8_encode cs = Inr bs \<Longrightarrow> utf8_decode bs = Some cs"
proof (induction cs arbitrary: bs)
  case (Cons c cs)
  then show ?case by (auto simp: utf8_encode_def utf8_decode_char split: if_splits)
qed (simp add: utf8_encode_def)

lemma utf8_char_bytes:
  assumes "valid_code_point c" "b \<in> set (utf8_char c)" shows "b < 256"
proof -
  have m [simp]: "n mod 64 < 128" for n :: nat by (rule less_le_trans [OF mod_less_divisor]) simp_all
  show ?thesis using assms
    by (auto simp: utf8_char_def valid_code_point_def less_mult_imp_div_less split: if_splits)
qed

lemma utf8_bytes: "utf8_encode cs = Inr bs \<Longrightarrow> b \<in> set bs \<Longrightarrow> b < 256"
proof -
  assume e: "utf8_encode cs = Inr bs" and b: "b \<in> set bs"
  from e have "bs = concat (map utf8_char cs)" "\<forall>c\<in>set cs. valid_code_point c" by (auto simp: utf8_encode_def split: if_splits)
  then obtain c where "valid_code_point c" "b \<in> set (utf8_char c)" using b by auto
  then show "b < 256" by (rule utf8_char_bytes)
qed

lemma base64_digit: "n < 64 \<Longrightarrow> base64_value (base64_char n) = Some n \<and> base64_char n \<noteq> 61 \<and> base64_char n < 128"
  by (auto simp: base64_value_def base64_char_def)

lemma a2b_digit:
  assumes "v < 64"
  shows "a2b_loop 0 l p (base64_char v # cs) = a2b_loop (Suc 0) v 0 cs"
    "a2b_loop (Suc 0) l p (base64_char v # cs) = map_option (Cons (l * 4 + v div 16)) (a2b_loop 2 (v mod 16) 0 cs)"
    "a2b_loop 2 l p (base64_char v # cs) = map_option (Cons (l * 16 + v div 4)) (a2b_loop 3 (v mod 4) 0 cs)"
    "a2b_loop 3 l p (base64_char v # cs) = map_option (Cons (l * 64 + v)) (a2b_loop 0 0 0 cs)"
  using base64_digit [OF assms] by simp_all

lemma a2b_pad: "a2b_loop q l p (61 # cs) = (if 2 \<le> q \<and> 4 \<le> q + Suc p then Some [] else a2b_loop q l (if 2 \<le> q then Suc p else p) cs)"
  by simp

declare a2b_loop.simps(2) [simp del]

lemma sextets:
  assumes "(a::nat) < 256" "(b::nat) < 256" "(c::nat) < 256"
  shows "a div 4 < 64" "a mod 4 * 16 + b div 16 < 64" "b mod 16 * 4 + c div 64 < 64" "c mod 64 < 64"
    "a div 4 * 4 + (a mod 4 * 16 + b div 16) div 16 = a" "(a mod 4 * 16 + b div 16) mod 16 * 16 + (b mod 16 * 4 + c div 64) div 4 = b"
    "(b mod 16 * 4 + c div 64) mod 4 * 64 + c mod 64 = c"
    "b div 16 mod 16 * 16 + b mod 16 = b"
proof -
  have l: "b div 16 < 16" "c div 64 < 4" "a mod 4 < 4" "b mod 16 < 16" using assms by auto
  show "a div 4 < 64" "c mod 64 < 64" using assms by auto
  show "a mod 4 * 16 + b div 16 < 64" "b mod 16 * 4 + c div 64 < 64" using l by linarith+
  have "(a mod 4 * 16 + b div 16) div 16 = a mod 4" "(a mod 4 * 16 + b div 16) mod 16 = b div 16"
    "(b mod 16 * 4 + c div 64) div 4 = b mod 16" "(b mod 16 * 4 + c div 64) mod 4 = c div 64"
    using l by simp_all
  then show "a div 4 * 4 + (a mod 4 * 16 + b div 16) div 16 = a" "(a mod 4 * 16 + b div 16) mod 16 * 16 + (b mod 16 * 4 + c div 64) div 4 = b"
    "(b mod 16 * 4 + c div 64) mod 4 * 64 + c mod 64 = c"
    by (simp_all only: div_mult_mod_eq)
  have "b div 16 mod 16 = b div 16" using l by simp
  then show "b div 16 mod 16 * 16 + b mod 16 = b" by (simp only: div_mult_mod_eq)
qed

definition padded :: "nat list \<Rightarrow> nat list" where "padded cs = cs @ replicate (nat (- int (length cs) mod 4)) 61"

lemma padded_group: "padded (a # b # c # d # cs) = a # b # c # d # padded cs"
proof -
  have "- int (length (a # b # c # d # cs)) mod 4 = - int (length cs) mod 4" by simp presburger
  then show ?thesis by (simp only: padded_def append_Cons)
qed

lemma base64_roundtrip: "\<forall>b\<in>set bs. b < 256 \<Longrightarrow> urlsafe_b64decode (padded (base64_encode bs)) = Some bs"
proof (induction bs rule: base64_encode.induct)
  case (2 a)
  have "replicate 2 (61::nat) = [61, 61]" by (simp add: numeral_2_eq_2)
  then show ?case using 2 sextets [of a 0 0] by (simp add: urlsafe_b64decode_def padded_def a2b_digit a2b_pad)
next
  case (3 a b)
  then show ?case using sextets [of a b 0] by (simp add: urlsafe_b64decode_def padded_def a2b_digit a2b_pad)
next
  case (4 a b c bs)
  then show ?case using sextets [of a b c] by (simp add: urlsafe_b64decode_def padded_group a2b_digit)
qed (simp add: urlsafe_b64decode_def padded_def)

lemma base64_ascii: "\<forall>b\<in>set bs. b < 256 \<Longrightarrow> c \<in> set (base64_encode bs) \<Longrightarrow> c < 128"
proof (induction bs rule: base64_encode.induct)
  case (2 a)
  then show ?case using sextets [of a 0 0] base64_digit by auto
next
  case (3 a b)
  then show ?case using sextets [of a b 0] base64_digit by auto
next
  case (4 a b c bs)
  then show ?case using sextets [of a b c] base64_digit by auto
qed simp

lemma cursor_roundtrip:
  assumes "encode_cursor v = Inr c" shows "decode_cursor c = Inr v"
proof -
  obtain bs where bs: "utf8_encode v = Inr bs" "c = base64_encode bs" using assms by (auto simp: encode_cursor_def mapE_def split: sum.splits)
  have b: "\<forall>b\<in>set bs. b < 256" using utf8_bytes [OF bs(1)] by blast
  have "\<forall>x\<in>set (padded c). x < 128" using base64_ascii [OF b] bs(2) by (auto simp: padded_def)
  moreover have "urlsafe_b64decode (padded c) = Some bs" using base64_roundtrip [OF b] bs(2) by simp
  ultimately show ?thesis by (auto simp: decode_cursor_def padded_def Let_def utf8_roundtrip [OF bs(1)])
qed

section \<open>Pages enumerate the rows\<close>

text \<open>What a collation promises.\<close>

locale text_order =
  fixes lt :: "nat list \<Rightarrow> nat list \<Rightarrow> bool"
  assumes irrefl: "\<not> lt x x"
    and trans: "lt x y \<Longrightarrow> lt y z \<Longrightarrow> lt x z"
    and total: "x \<noteq> y \<Longrightarrow> lt x y \<or> lt y x"
begin

lemma set_insert_desc [simp]: "set (insert_desc lt key x ys) = insert x (set ys)"
  by (induction ys) auto

lemma set_order_desc [simp]: "set (order_desc lt key rows) = set rows"
  by (induction rows) auto

lemma insert_desc_sorted:
  assumes "sorted_wrt (\<lambda>a b. lt (key b) (key a)) ys" "\<forall>y\<in>set ys. key y \<noteq> key x"
  shows "sorted_wrt (\<lambda>a b. lt (key b) (key a)) (insert_desc lt key x ys)"
  using assms by (induction ys) (auto intro: trans dest: total)

lemma order_desc_sorted:
  "distinct (map key rows) \<Longrightarrow> sorted_wrt (\<lambda>a b. lt (key b) (key a)) (order_desc lt key rows)"
proof (induction rows)
  case (Cons r rows)
  then have "\<forall>y\<in>set (order_desc lt key rows). key y \<noteq> key r" by simp (metis imageI)
  with Cons show ?case using insert_desc_sorted [of key "order_desc lt key rows" r] by simp
qed simp

lemma filter_insert_desc:
  "sorted_wrt (\<lambda>a b. lt (key b) (key a)) ys \<Longrightarrow> \<forall>y\<in>set ys. key y \<noteq> key x
     \<Longrightarrow> filter P (insert_desc lt key x ys) = (if P x then insert_desc lt key x (filter P ys) else filter P ys)"
proof (induction ys)
  case (Cons y ys)
  have "insert_desc lt key x (filter P ys) = x # filter P ys" if "\<not> lt (key x) (key y)"
  proof (cases "filter P ys")
    case (Cons z zs)
    then have "z \<in> set ys" by (metis filter_is_subset list.set_intros(1) subsetD)
    then have "lt (key z) (key y)" using Cons.prems(1) by simp
    then have "\<not> lt (key x) (key z)" using that trans by blast
    then show ?thesis using Cons by simp
  qed simp
  then show ?case using Cons by auto
qed simp

lemma filter_order_desc:
  "distinct (map key rows) \<Longrightarrow> order_desc lt key (filter P rows) = filter P (order_desc lt key rows)"
proof (induction rows)
  case (Cons r rows)
  then have "\<forall>y\<in>set (order_desc lt key rows). key y \<noteq> key r" by simp (metis imageI)
  with Cons filter_insert_desc [OF order_desc_sorted [of key rows], of r P] show ?case by simp
qed simp

text \<open>The rows after a row are those below it.\<close>

lemma filter_below:
  assumes "sorted_wrt (\<lambda>a b. lt (key b) (key a)) (xs @ y # zs)"
  shows "filter (\<lambda>r. lt (key r) (key y)) (xs @ y # zs) = zs"
proof -
  have "\<not> lt (key x) (key y)" if "x \<in> set xs" for x
  proof -
    have "lt (key y) (key x)" using assms that by (simp add: sorted_wrt_append)
    then show ?thesis using irrefl trans by blast
  qed
  then have "filter (\<lambda>r. lt (key r) (key y)) xs = []" by (simp add: filter_empty_conv)
  moreover have "filter (\<lambda>r. lt (key r) (key y)) zs = zs" using assms by (auto simp: sorted_wrt_append)
  ultimately show ?thesis using irrefl by simp
qed

text \<open>What one page is, when the cursor is that of the row before \<^verbatim>\<open>zs\<close>.\<close>

definition cursor_at :: "('r \<Rightarrow> nat list) \<Rightarrow> 'r list \<Rightarrow> nat list option \<Rightarrow> bool" where
  "cursor_at key xs c \<longleftrightarrow> (if xs = [] then c = None else \<exists>t. c = Some t \<and> encode_cursor (key (last xs)) = Inr t)"

lemma page_from:
  assumes "order_desc lt key (filter wanted rows) = xs @ zs" "cursor_at key xs cursor" "clamp_limit limit = Inr n"
    and d: "distinct (map key (filter wanted rows))" and v: "\<forall>r\<in>set zs. \<exists>t. encode_cursor (key r) = Inr t"
  shows "\<exists>c. list_page lt key (Inr wanted) cursor limit rows = Inr \<lparr>page_items = take n zs, next_cursor = c, has_more = (n < length zs)\<rparr>
    \<and> (if n < length zs then cursor_at key (xs @ take n zs) c \<and> c \<noteq> None else c = None)"
proof -
  have n: "1 \<le> n" using assms(3) by (auto simp: clamp_limit_def DEFAULT_PAGE_SIZE_def MAX_PAGE_SIZE_def split: option.splits if_splits)
  have s: "sorted_wrt (\<lambda>a b. lt (key b) (key a)) (xs @ zs)" using order_desc_sorted [OF d] assms(1) by simp
  obtain after where after: "(case cursor of None \<Rightarrow> Inr (\<lambda>_. True) | Some c \<Rightarrow> mapE (\<lambda>v r. lt (key r) v) (decode_cursor c)) = Inr after"
      "order_desc lt key (filter after (filter wanted rows)) = zs"
  proof (cases "xs = []")
    case True
    then show ?thesis using assms(1,2) that [of "\<lambda>_. True"] by (simp add: cursor_at_def)
  next
    case False
    then obtain t where t: "cursor = Some t" "encode_cursor (key (last xs)) = Inr t" using assms(2) by (auto simp: cursor_at_def)
    have x: "xs @ zs = butlast xs @ last xs # zs" using False by simp
    have "order_desc lt key (filter (\<lambda>r. lt (key r) (key (last xs))) (filter wanted rows)) = zs"
      using filter_order_desc [OF d] assms(1) filter_below [of key "butlast xs" "last xs" zs] s by (simp only: x)
    then show ?thesis using t cursor_roundtrip [OF t(2)] that [of "\<lambda>r. lt (key r) (key (last xs))"] by (simp add: mapE_def)
  qed
  show ?thesis
  proof (cases "n < length zs")
    case True
    then have ne: "take n zs \<noteq> []" using n by auto
    then have "last (take n zs) \<in> set zs" by (meson in_set_takeD last_in_set)
    then obtain t where "encode_cursor (key (last (take n zs))) = Inr t" using v by blast
    then show ?thesis using True ne n assms(3) after by (simp add: list_page_def Let_def cursor_at_def mapE_def min_def take_take)
  next
    case False
    then show ?thesis using n assms(3) after by (simp add: list_page_def Let_def)
  qed
qed

lemma pages_enumerate:
  assumes "order_desc lt key (filter wanted rows) = xs @ zs" "cursor_at key xs cursor" "clamp_limit limit = Inr n"
    and "distinct (map key (filter wanted rows))" and "\<forall>r\<in>set zs. \<exists>t. encode_cursor (key r) = Inr t" and "length zs < fuel"
  shows "all_pages fuel lt key (Inr wanted) cursor limit rows = Some (Inr zs)"
  using assms
proof (induction fuel arbitrary: xs zs cursor)
  case (Suc fuel)
  obtain c where p: "list_page lt key (Inr wanted) cursor limit rows = Inr \<lparr>page_items = take n zs, next_cursor = c, has_more = (n < length zs)\<rparr>"
      "if n < length zs then cursor_at key (xs @ take n zs) c \<and> c \<noteq> None else c = None"
    using page_from [OF Suc.prems(1-5)] by blast
  have n: "1 \<le> n" using assms(3) by (auto simp: clamp_limit_def DEFAULT_PAGE_SIZE_def MAX_PAGE_SIZE_def split: option.splits if_splits)
  show ?case
  proof (cases "n < length zs")
    case True
    then obtain t where t: "c = Some t" using p(2) by auto
    have "all_pages fuel lt key (Inr wanted) c limit rows = Some (Inr (drop n zs))"
      using Suc.prems n True p(2) by (intro Suc.IH [of "xs @ take n zs"]) (auto dest: in_set_dropD)
    then show ?thesis using p(1) t by (simp add: mapE_def)
  qed (use p in simp)
qed simp

end

text \<open>Order by code point, the collation \<^verbatim>\<open>C\<close>: texts are ordered by their first difference, a prefix coming first.\<close>

fun text_less :: "nat list \<Rightarrow> nat list \<Rightarrow> bool" where
  "text_less xs [] = False"
| "text_less [] (y # ys) = True"
| "text_less (x # xs) (y # ys) = (x < y \<or> x = y \<and> text_less xs ys)"

interpretation codepoints: text_order text_less
proof
  show "\<not> text_less x x" for x by (induction x) auto
  show "text_less x y \<Longrightarrow> text_less y z \<Longrightarrow> text_less x z" for x y z
  proof (induction x y arbitrary: z rule: text_less.induct)
    case (2 y ys)
    then show ?case by (cases z) auto
  next
    case (3 x xs y ys)
    then show ?case by (cases z) auto
  qed simp
  show "x \<noteq> y \<Longrightarrow> text_less x y \<or> text_less y x" for x y
    by (induction x y rule: text_less.induct) (auto simp: neq_Nil_conv)
qed

end
