(* ===== verification/Edge.thy ===== *)
theory Edge
  imports Ids Text Errors
begin

text \<open>
  The HTTP edge: the six middleware of \<^verbatim>\<open>src/app/middleware\<close> in their order, the exception handlers of
  \<^verbatim>\<open>src/app/api/error_handlers.py\<close>, the caller checks of \<^verbatim>\<open>src/app/api/deps.py\<close> and the flag registry
  \<^verbatim>\<open>src/app/flags.py\<close>. A route is a function from the request's context, the request and a state to an
  outcome and a state. The context variables are passed down explicitly. Rendering an envelope as JSON is a
  parameter. The Prometheus counters and the duration and route template of an access log line are left out; the two values that
  the redaction middleware stores on the request are in the theory of redaction.
\<close>

section \<open>Requests and responses\<close>

text \<open>Header names are compared in lower case; the model writes them so.\<close>

record http_in =
  hi_method :: string
  hi_path :: string
  hi_header :: "string \<Rightarrow> string option"

record http_context =
  cx_request_id :: "string option"
  cx_correlation_id :: "string option"

record error_body =
  eb_type :: string
  eb_code :: string
  eb_fields :: "(string \<times> string \<times> string) list"
  eb_reason :: "string option"
  eb_request_id :: "string option"
  eb_correlation_id :: "string option"

record http_out =
  ho_status :: nat
  ho_header :: "string \<Rightarrow> string option"
  ho_body :: "string list"

datatype failure_kind = Raised error | Invalid "(string list \<times> string \<times> string) list"

type_synonym 's route = "http_context \<Rightarrow> http_in \<Rightarrow> 's \<Rightarrow> (failure_kind, http_out) result \<times> 's"
type_synonym 's app = "http_context \<Rightarrow> http_in \<Rightarrow> 's \<Rightarrow> (error, http_out) result \<times> 's"

record access_line =
  al_method :: string
  al_path :: string
  al_status :: nat
  al_request_id :: "string option"
  al_correlation_id :: "string option"
  al_caller :: string
  al_outcome :: string

record edge_env =
  ee_request_ulid :: string
  ee_correlation_ulid :: string
  ee_secret :: string
  ee_allowed :: "string list"
  ee_require_client_cert :: bool
  ee_redact :: bool
  ee_render :: "error_body \<Rightarrow> string"

section \<open>Error envelopes\<close>

definition TYPE_BY_STATUS :: "(nat \<times> string) list" where
  "TYPE_BY_STATUS = [(400, ''invalid_request_error''), (401, ''authentication_error''), (403, ''permission_error''),
     (404, ''invalid_request_error''), (409, ''conflict_error''), (422, ''validation_error''), (429, ''rate_limit_error''), (502, ''upstream_error'')]"

definition envelope :: "http_context \<Rightarrow> string \<Rightarrow> nat \<Rightarrow> (string \<times> string \<times> string) list \<Rightarrow> error_body" where
  "envelope cx code status details =
     \<lparr>eb_type = (case map_of TYPE_BY_STATUS status of None \<Rightarrow> ''api_error'' | Some t \<Rightarrow> t), eb_code = code, eb_fields = details, eb_reason = None,
      eb_request_id = cx_request_id cx, eb_correlation_id = cx_correlation_id cx\<rparr>"

definition json_response :: "edge_env \<Rightarrow> nat \<Rightarrow> error_body \<Rightarrow> http_out" where
  "json_response E status b = \<lparr>ho_status = status, ho_header = (\<lambda>h. if h = ''content-type'' then Some ''application/json'' else None),
     ho_body = [ee_render E b]\<rparr>"

definition handle_payzeno_error :: "edge_env \<Rightarrow> http_context \<Rightarrow> error \<Rightarrow> http_out" where
  "handle_payzeno_error E cx e = (let status = (case http_status (err_class e) of None \<Rightarrow> 500 | Some n \<Rightarrow> n)
     in json_response E status (envelope cx (err_code e) status []))"

fun join_dots :: "string list \<Rightarrow> string" where
  "join_dots [] = []"
| "join_dots [x] = x"
| "join_dots (x # y # ys) = x @ ''.'' @ join_dots (y # ys)"

definition field_error :: "string list \<times> string \<times> string \<Rightarrow> string \<times> string \<times> string" where
  "field_error v = (case v of (loc, typ, msg) \<Rightarrow> (let f = join_dots (drop 1 loc) in if f = [] then ''body'' else f, typ, msg))"

definition handle_validation_error :: "edge_env \<Rightarrow> http_context \<Rightarrow> (string list \<times> string \<times> string) list \<Rightarrow> http_out" where
  "handle_validation_error E cx errs = json_response E 422 (envelope cx ''validation_failed'' 422 (map field_error errs))"

definition handle_unexpected_error :: "edge_env \<Rightarrow> http_context \<Rightarrow> http_out" where
  "handle_unexpected_error E cx = json_response E 500 (envelope cx ''internal_error'' 500 [])"

text \<open>The two handlers that sit inside the middleware; any other exception goes on up.\<close>

definition with_handlers :: "edge_env \<Rightarrow> 's route \<Rightarrow> 's app" where
  "with_handlers E route cx req s = (case route cx req s of
     (Inr resp, s1) \<Rightarrow> (Inr resp, s1)
   | (Inl (Invalid errs), s1) \<Rightarrow> (Inr (handle_validation_error E cx errs), s1)
   | (Inl (Raised e), s1) \<Rightarrow> if caught_by e PayzenoLedgerError then (Inr (handle_payzeno_error E cx e), s1) else (Inl e, s1))"

section \<open>Internal callers\<close>

definition PUBLIC_PATHS :: "string list" where "PUBLIC_PATHS = [''/healthz'', ''/readyz'', ''/metrics'']"

definition ALLOWED_SERVICES :: "string list" where "ALLOWED_SERVICES = [''payzeno-api'', ''payzeno-billing-legacy'', ''payzeno-ops'']"

definition is_ascii :: "string \<Rightarrow> bool" where "is_ascii s \<longleftrightarrow> list_all (\<lambda>c. (of_char c :: nat) < 128) s"

text \<open>\<^verbatim>\<open>hmac.compare_digest\<close> takes texts of ASCII characters only.\<close>

definition compare_digest :: "string \<Rightarrow> string \<Rightarrow> bool res" where
  "compare_digest a b = (if is_ascii a \<and> is_ascii b then Inr (a = b) else raise TypeError)"

definition check_caller :: "edge_env \<Rightarrow> http_in \<Rightarrow> (string option) res" where
  "check_caller E req = (case hi_header req ''x-payzeno-service'' of
     None \<Rightarrow> Inr (Some ''missing_service_header'')
   | Some service \<Rightarrow>
       if service = [] then Inr (Some ''missing_service_header'')
       else if service \<notin> set (ee_allowed E) then Inr (Some ''unknown_service'')
       else let presented = (case hi_header req ''x-payzeno-internal-secret'' of None \<Rightarrow> [] | Some v \<Rightarrow> v)
            in if presented = [] then Inr (Some ''missing_secret'')
               else bindE (compare_digest presented (ee_secret E)) (\<lambda>same.
                 if \<not> same then Inr (Some ''bad_secret'')
                 else if ee_require_client_cert E \<and> (case hi_header req ''x-payzeno-client-cert-subject'' of None \<Rightarrow> True | Some v \<Rightarrow> v = [])
                 then Inr (Some ''missing_client_cert'') else Inr None))"

definition denied :: "edge_env \<Rightarrow> http_context \<Rightarrow> string \<Rightarrow> http_out" where
  "denied E cx reason = json_response E 401 \<lparr>eb_type = ''authentication_error'', eb_code = ''authentication_required'', eb_fields = [],
     eb_reason = Some reason, eb_request_id = cx_request_id cx, eb_correlation_id = None\<rparr>"

definition internal_auth :: "edge_env \<Rightarrow> 's app \<Rightarrow> 's app" where
  "internal_auth E next cx req s = (if hi_path req \<in> set PUBLIC_PATHS then next cx req s
     else case check_caller E req of
       Inl e \<Rightarrow> (Inl e, s)
     | Inr (Some reason) \<Rightarrow> (Inr (denied E cx reason), s)
     | Inr None \<Rightarrow> next cx req s)"

section \<open>Bodies of errors\<close>

definition MAX_LOGGED_BODY_BYTES :: nat where "MAX_LOGGED_BODY_BYTES = 8192"

text \<open>The chunks read until the body is longer than the limit.\<close>

fun buffer_body :: "string \<Rightarrow> string list \<Rightarrow> string" where
  "buffer_body body [] = body"
| "buffer_body body (c # cs) = (let b = body @ c in if length b > MAX_LOGGED_BODY_BYTES then b else buffer_body b cs)"

definition redaction :: "edge_env \<Rightarrow> 's app \<Rightarrow> 's app" where
  "redaction E next cx req s = (case next cx req s of
     (Inl e, s1) \<Rightarrow> (Inl e, s1)
   | (Inr resp, s1) \<Rightarrow> (Inr (if \<not> ee_redact E \<or> ho_status resp < 400 then resp
         else resp\<lparr>ho_body := [buffer_body [] (ho_body resp)]\<rparr>), s1))"

section \<open>The access log\<close>

definition QUIET_PATHS :: "string list" where "QUIET_PATHS = [''/healthz'', ''/readyz'', ''/metrics'']"

definition access_log :: "'s app \<Rightarrow> http_context \<Rightarrow> http_in \<Rightarrow> 's \<Rightarrow> (error, http_out) result \<times> 's \<times> access_line list" where
  "access_log next cx req s = (case next cx req s of (out, s1) \<Rightarrow>
     (out, s1, if hi_path req \<in> set QUIET_PATHS then []
       else let status = (case out of Inr resp \<Rightarrow> ho_status resp | Inl _ \<Rightarrow> 500)
            in [\<lparr>al_method = hi_method req, al_path = hi_path req, al_status = status, al_request_id = cx_request_id cx,
                 al_correlation_id = cx_correlation_id cx,
                 al_caller = (case hi_header req ''x-payzeno-service'' of None \<Rightarrow> ''unknown'' | Some v \<Rightarrow> v),
                 al_outcome = (case out of Inr resp \<Rightarrow> if ho_status resp < 500 then ''ok'' else ''error'' | Inl _ \<Rightarrow> ''error'')\<rparr>]))"

section \<open>Request and correlation ids\<close>

definition MAX_REQUEST_ID_LENGTH :: nat where "MAX_REQUEST_ID_LENGTH = 128"

definition printable :: "char \<Rightarrow> bool" where "printable c \<longleftrightarrow> (let n = of_char c :: nat in 33 \<le> n \<and> n \<le> 126)"

definition sanitise :: "string option \<Rightarrow> string option" where
  "sanitise raw = (case raw of None \<Rightarrow> None
   | Some r \<Rightarrow> if r = [] then None
       else let candidate = strip r
            in if candidate = [] \<or> length candidate > MAX_REQUEST_ID_LENGTH then None
               else if \<not> list_all printable candidate then None else Some candidate)"

definition with_header :: "string \<Rightarrow> string \<Rightarrow> http_out \<Rightarrow> http_out" where
  "with_header h v resp = resp\<lparr>ho_header := (ho_header resp)(h \<mapsto> v)\<rparr>"

type_synonym 's logged_app = "http_context \<Rightarrow> http_in \<Rightarrow> 's \<Rightarrow> (error, http_out) result \<times> 's \<times> access_line list"

definition correlation_id_layer :: "edge_env \<Rightarrow> 's logged_app \<Rightarrow> 's logged_app" where
  "correlation_id_layer E next cx req s =
    (case (case sanitise (hi_header req ''x-correlation-id'') of Some c \<Rightarrow> Inr c
           | None \<Rightarrow> (case cx_request_id cx of Some r \<Rightarrow> if r \<noteq> [] then Inr r else new_id ''cor'' (ee_correlation_ulid E)
               | None \<Rightarrow> new_id ''cor'' (ee_correlation_ulid E))) of
       Inl e \<Rightarrow> (Inl e, s, [])
     | Inr c \<Rightarrow> (case next (cx\<lparr>cx_correlation_id := Some c\<rparr>) req s of
         (Inl e, r) \<Rightarrow> (Inl e, r) | (Inr resp, r) \<Rightarrow> (Inr (with_header ''x-correlation-id'' c resp), r)))"

definition request_id_layer :: "edge_env \<Rightarrow> 's logged_app \<Rightarrow> 's logged_app" where
  "request_id_layer E next cx req s =
    (case (case sanitise (hi_header req ''x-request-id'') of Some i \<Rightarrow> Inr i | None \<Rightarrow> new_id ''req'' (ee_request_ulid E)) of
       Inl e \<Rightarrow> (Inl e, s, [])
     | Inr i \<Rightarrow> (case next (cx\<lparr>cx_request_id := Some i\<rparr>) req s of
         (Inl e, r) \<Rightarrow> (Inl e, r) | (Inr resp, r) \<Rightarrow> (Inr (with_header ''x-request-id'' i resp), r)))"

section \<open>The application\<close>

text \<open>
  The stack of \<^verbatim>\<open>install_middleware\<close>, and around it the handler of every other exception, which the framework
  puts outside all middleware, where the context variables are those of no request.
\<close>

definition no_context :: http_context where "no_context = \<lparr>cx_request_id = None, cx_correlation_id = None\<rparr>"

definition stack :: "edge_env \<Rightarrow> 's route \<Rightarrow> 's logged_app" where
  "stack E route = request_id_layer E (correlation_id_layer E (access_log (redaction E (internal_auth E (with_handlers E route)))))"

definition serve :: "edge_env \<Rightarrow> 's route \<Rightarrow> http_in \<Rightarrow> 's \<Rightarrow> http_out \<times> 's \<times> access_line list" where
  "serve E route req s = (case stack E route no_context req s of
     (Inr resp, r) \<Rightarrow> (resp, r)
   | (Inl _, r) \<Rightarrow> (handle_unexpected_error E no_context, r))"

section \<open>Dependencies and flags\<close>

definition require_internal_service :: "http_in \<Rightarrow> string res" where
  "require_internal_service req = (case hi_header req ''x-payzeno-service'' of
     None \<Rightarrow> raise ValidationError | Some v \<Rightarrow> if v = [] then raise ValidationError else Inr v)"

definition require_staff_claim :: "http_in \<Rightarrow> string res" where
  "require_staff_claim req = (let staff_id = strip (case hi_header req ''x-payzeno-staff-id'' of None \<Rightarrow> [] | Some v \<Rightarrow> v)
     in if staff_id = [] then raise DualControlRequiredError else Inr staff_id)"

definition FLAG_NAMES :: "string list" where
  "FLAG_NAMES = [''duplicate_settlement_alarm'', ''payout_same_day_ach'', ''redact_pan_in_logs'']"

definition env_name_for :: "string \<Rightarrow> string" where "env_name_for flag = ''FLAG_'' @ map upper_char flag"

definition env_flag_enabled :: "(string \<Rightarrow> bool option) \<Rightarrow> string \<Rightarrow> bool" where
  "env_flag_enabled settings flag = (if flag \<notin> set FLAG_NAMES then False
     else case settings (''flag_'' @ flag) of None \<Rightarrow> False | Some v \<Rightarrow> v)"

definition static_flag_enabled :: "(string \<Rightarrow> bool option) \<Rightarrow> string \<Rightarrow> bool" where
  "static_flag_enabled values flag = (case values flag of None \<Rightarrow> False | Some v \<Rightarrow> v)"

definition static_flag_set :: "string \<Rightarrow> bool \<Rightarrow> (string \<Rightarrow> bool option) \<Rightarrow> string \<Rightarrow> bool option" where
  "static_flag_set flag v values = values(flag \<mapsto> v)"

section \<open>Who gets in\<close>

definition credentials :: "edge_env \<Rightarrow> http_in \<Rightarrow> bool" where
  "credentials E req \<longleftrightarrow> (\<exists>service\<in>set (ee_allowed E). service \<noteq> [] \<and> hi_header req ''x-payzeno-service'' = Some service)
     \<and> ee_secret E \<noteq> [] \<and> hi_header req ''x-payzeno-internal-secret'' = Some (ee_secret E)
     \<and> (ee_require_client_cert E \<longrightarrow> (\<exists>subject. subject \<noteq> [] \<and> hi_header req ''x-payzeno-client-cert-subject'' = Some subject))"

lemma check_caller_passes: "check_caller E req = Inr None \<longleftrightarrow> credentials E req \<and> is_ascii (ee_secret E)"
  by (auto simp: check_caller_def credentials_def compare_digest_def Let_def split: option.splits if_splits)

definition sane_id :: "string \<Rightarrow> bool" where "sane_id i \<longleftrightarrow> i \<noteq> [] \<and> length i \<le> MAX_REQUEST_ID_LENGTH \<and> list_all printable i"

lemma sanitise_sane: "sanitise raw = Some i \<Longrightarrow> sane_id i"
  by (auto simp: sanitise_def sane_id_def Let_def split: option.splits if_splits)

lemma new_id_owned: "p \<in> set OWNED_PREFIXES \<Longrightarrow> new_id p u = Inr (p @ ''_'' @ u)"
  by (simp add: new_id_def)

definition request_id_of :: "edge_env \<Rightarrow> http_in \<Rightarrow> string" where
  "request_id_of E req = (case sanitise (hi_header req ''x-request-id'') of Some i \<Rightarrow> i | None \<Rightarrow> ''req_'' @ ee_request_ulid E)"

definition correlation_id_of :: "edge_env \<Rightarrow> http_in \<Rightarrow> string" where
  "correlation_id_of E req = (case sanitise (hi_header req ''x-correlation-id'') of Some i \<Rightarrow> i | None \<Rightarrow> request_id_of E req)"

lemma request_id_of_nonempty: "request_id_of E req \<noteq> []"
  by (auto simp: request_id_of_def sane_id_def dest: sanitise_sane split: option.splits)

text \<open>What the two id layers do to the application below them.\<close>

lemma correlation_layer:
  assumes "cx_request_id cx = Some (request_id_of E req)"
  shows "correlation_id_layer E next cx req s = (case next (cx\<lparr>cx_correlation_id := Some (correlation_id_of E req)\<rparr>) req s of
     (Inl e, r) \<Rightarrow> (Inl e, r) | (Inr resp, r) \<Rightarrow> (Inr (with_header ''x-correlation-id'' (correlation_id_of E req) resp), r))"
  using assms request_id_of_nonempty [of E req]
  by (cases "sanitise (hi_header req ''x-correlation-id'')") (simp_all add: correlation_id_layer_def correlation_id_of_def split: prod.split sum.split)

lemma request_layer:
  "request_id_layer E next cx req s = (case next (cx\<lparr>cx_request_id := Some (request_id_of E req)\<rparr>) req s of
     (Inl e, r) \<Rightarrow> (Inl e, r) | (Inr resp, r) \<Rightarrow> (Inr (with_header ''x-request-id'' (request_id_of E req) resp), r))"
  by (cases "sanitise (hi_header req ''x-request-id'')")
    (simp_all add: request_id_layer_def request_id_of_def new_id_owned OWNED_PREFIXES_def split: prod.split sum.split)

definition request_context :: "edge_env \<Rightarrow> http_in \<Rightarrow> http_context" where
  "request_context E req = \<lparr>cx_request_id = Some (request_id_of E req), cx_correlation_id = Some (correlation_id_of E req)\<rparr>"

lemma stack_below:
  "stack E route no_context req s =
    (case access_log (redaction E (internal_auth E (with_handlers E route))) (request_context E req) req s of
       (Inl e, r) \<Rightarrow> (Inl e, r)
     | (Inr resp, r) \<Rightarrow> (Inr (with_header ''x-request-id'' (request_id_of E req) (with_header ''x-correlation-id'' (correlation_id_of E req) resp)), r))"
  unfolding stack_def request_layer
  by (simp add: correlation_layer no_context_def request_context_def split: prod.split sum.split)

text \<open>A request without credentials reaches no route, and is logged and answered with its request id.\<close>

lemma stopped_below:
  assumes "hi_path req \<notin> set PUBLIC_PATHS" "\<not> credentials E req"
  shows "snd (internal_auth E next cx req s) = s
    \<and> (\<forall>resp. fst (internal_auth E next cx req s) = Inr resp \<longrightarrow> ho_status resp = 401)"
  using assms check_caller_passes [of E req]
  by (auto simp: internal_auth_def denied_def json_response_def split: sum.splits option.splits)

lemma no_entry:
  assumes "hi_path req \<notin> set PUBLIC_PATHS" "\<not> credentials E req" "serve E route req s = (resp, s', lines)"
  shows "s' = s \<and> ho_status resp \<in> {401, 500} \<and> length lines = 1"
proof -
  let ?a = "internal_auth E (with_handlers E route)"
  let ?cx = "request_context E req"
  obtain out t where a: "?a ?cx req s = (out, t)" by (cases "?a ?cx req s")
  have t: "t = s" "\<And>r. out = Inr r \<Longrightarrow> ho_status r = 401" using stopped_below [OF assms(1,2), of "with_handlers E route" ?cx s] a by auto
  have q: "hi_path req \<notin> set QUIET_PATHS" using assms(1) by (simp add: PUBLIC_PATHS_def QUIET_PATHS_def)
  have e: "resp = fst (serve E route req s)" "s' = fst (snd (serve E route req s))" "lines = snd (snd (serve E route req s))"
    using assms(3) by simp_all
  show ?thesis
  proof (cases out)
    case (Inl x)
    then show ?thesis unfolding e using a t(1) q
      by (simp add: serve_def stack_below access_log_def redaction_def handle_unexpected_error_def json_response_def)
  next
    case (Inr r)
    then have "ho_status r = 401" by (rule t(2))
    then show ?thesis unfolding e using a t(1) q Inr
      by (simp add: serve_def stack_below access_log_def redaction_def with_header_def)
  qed
qed

text \<open>Every response to a request that did not crash carries the id the caller sent, or a minted one.\<close>

lemma id_echoed:
  assumes "serve E route req s = (resp, s', lines)" "\<And>cx r s1. route cx req s = (Inl (Raised r), s1) \<Longrightarrow> caught_by r PayzenoLedgerError"
    and "\<forall>e. check_caller E req \<noteq> Inl e"
  shows "ho_header resp ''x-request-id'' = Some (request_id_of E req) \<and> ho_header resp ''x-correlation-id'' = Some (correlation_id_of E req)
    \<and> (\<forall>l\<in>set lines. al_request_id l = Some (request_id_of E req) \<and> al_status l = ho_status resp)"
proof -
  let ?cx = "request_context E req"
  have "\<exists>r. fst (with_handlers E route ?cx req s) = Inr r"
    using assms(2) [of ?cx] by (auto simp: with_handlers_def split: prod.split sum.split failure_kind.split)
  then have "\<exists>r. fst (internal_auth E (with_handlers E route) ?cx req s) = Inr r"
    using assms(3) by (auto simp: internal_auth_def split: sum.split option.split)
  then obtain r t where "internal_auth E (with_handlers E route) ?cx req s = (Inr r, t)"
    by (cases "internal_auth E (with_handlers E route) ?cx req s") auto
  then show ?thesis using assms(1)
    by (auto simp: serve_def stack_below access_log_def redaction_def Let_def with_header_def request_context_def split: if_splits)
qed

text \<open>An exception that is not the service's own is answered without the request id, in the body and in the headers.\<close>

lemma crash_is_anonymous:
  assumes "hi_path req \<in> set PUBLIC_PATHS \<or> check_caller E req = Inr None" "\<And>cx. route cx req s = (Inl (Raised e), s')"
    and "\<not> caught_by e PayzenoLedgerError"
  shows "\<exists>lines. serve E route req s = (json_response E 500 \<lparr>eb_type = ''api_error'', eb_code = ''internal_error'', eb_fields = [], eb_reason = None,
      eb_request_id = None, eb_correlation_id = None\<rparr>, s', lines)"
  unfolding serve_def stack_below using assms
  by (auto simp: access_log_def redaction_def internal_auth_def with_handlers_def handle_unexpected_error_def envelope_def
      no_context_def TYPE_BY_STATUS_def)

text \<open>An error response whose body is longer than the limit loses what follows the chunk that passes it.\<close>

lemma long_error_truncated:
  assumes "ho_status r \<ge> 400" "ho_body r = [a, b]" "length a > MAX_LOGGED_BODY_BYTES" "ee_redact E" "next cx req s = (Inr r, s')"
  shows "redaction E next cx req s = (Inr (r\<lparr>ho_body := [a]\<rparr>), s')"
  using assms by (simp add: redaction_def Let_def)

end
