(* ===== verification/Invoices.thy ===== *)
theory Invoices
  imports Store Calendar "HOL-Library.Multiset"
begin

text \<open>
  Invoice staging (\<^verbatim>\<open>src/app/services/invoices.py\<close>, \<^verbatim>\<open>src/app/repositories/invoice_staging.py\<close>, the row in
  \<^verbatim>\<open>src/app/models/invoice_line_staging.py\<close> and the two routes of \<^verbatim>\<open>src/app/api/routers/invoices.py\<close>). The table is a
  list of rows. The rows are built without a \<^verbatim>\<open>livemode\<close>: what the mapper inserts for the column that was not set
  is a parameter, \<^verbatim>\<open>None\<close> standing for the \<^verbatim>\<open>NULL\<close> that the column refuses. The columns that no code writes
  (invoice number, fee schedule, payload) are left out, and quantities are the integers the service converts them to.
\<close>

section \<open>Rows\<close>

record staged_line =
  sl_id :: string
  sl_merchant :: string
  sl_invoice :: string
  sl_line_no :: nat
  sl_description :: string
  sl_quantity :: int
  sl_unit_amount_minor :: int
  sl_amount_minor :: int
  sl_tax_minor :: int
  sl_currency :: string
  sl_period_start :: "date option"
  sl_period_end :: "date option"
  sl_promoted :: bool
  sl_livemode :: bool
  sl_created_at :: int
  sl_updated_at :: int

definition line_total_minor :: "staged_line \<Rightarrow> int" where "line_total_minor r = sl_amount_minor r + sl_tax_minor r"

definition natural_key :: "staged_line \<Rightarrow> string \<times> nat" where "natural_key r = (sl_invoice r, sl_line_no r)"

text \<open>A pushed line: a dictionary, of which these keys are read.\<close>

record pushed_line =
  pl_description :: "string option"
  pl_quantity :: "int option"
  pl_unit_amount_minor :: "int option"
  pl_amount_minor :: "int option"
  pl_tax_minor :: "int option"

record invoice_env =
  iv_ulid :: "nat \<Rightarrow> string"
  iv_now :: int
  iv_wall :: int
  iv_unset_livemode :: "bool option"

section \<open>The repository\<close>

definition of_invoice :: "string \<Rightarrow> string \<Rightarrow> staged_line \<Rightarrow> bool" where
  "of_invoice merchant invoice r \<longleftrightarrow> sl_merchant r = merchant \<and> sl_invoice r = invoice"

definition list_for_invoice :: "string \<Rightarrow> string \<Rightarrow> staged_line list \<Rightarrow> staged_line list" where
  "list_for_invoice merchant invoice t = sort_key sl_line_no (filter (of_invoice merchant invoice) t)"

definition delete_for_invoice :: "string \<Rightarrow> string \<Rightarrow> staged_line list \<Rightarrow> nat \<times> staged_line list" where
  "delete_for_invoice merchant invoice t =
    (length (filter (of_invoice merchant invoice) t), filter (\<lambda>r. \<not> of_invoice merchant invoice r) t)"

text \<open>The \<^verbatim>\<open>WHERE\<close> of the merchant is added to the query after its \<^verbatim>\<open>LIMIT\<close>, and \<^verbatim>\<open>LIMIT\<close> is still applied last.\<close>

definition list_unpromoted :: "string option \<Rightarrow> nat \<Rightarrow> staged_line list \<Rightarrow> staged_line list" where
  "list_unpromoted merchant limit t = take limit (sort_key sl_created_at
     (filter (\<lambda>r. \<not> sl_promoted r \<and> (merchant = None \<or> merchant = Some (sl_merchant r))) t))"

definition mark_promoted :: "invoice_env \<Rightarrow> string \<Rightarrow> string \<Rightarrow> int option \<Rightarrow> staged_line list \<Rightarrow> nat \<times> staged_line list" where
  "mark_promoted E merchant invoice promoted_at t =
    (let hit = (\<lambda>r. of_invoice merchant invoice r \<and> \<not> sl_promoted r);
         stamp = (case promoted_at of None \<Rightarrow> iv_wall E | Some x \<Rightarrow> x)
     in (length (filter hit t), update_where hit (\<lambda>r. r\<lparr>sl_promoted := True, sl_updated_at := stamp\<rparr>) t))"

definition sum_for_invoice :: "string \<Rightarrow> string \<Rightarrow> staged_line list \<Rightarrow> int" where
  "sum_for_invoice merchant invoice t = (\<Sum>r\<leftarrow>filter (of_invoice merchant invoice) t. sl_amount_minor r + sl_tax_minor r)"

text \<open>\<^verbatim>\<open>add_all\<close>: the primary key and \<^verbatim>\<open>uq_invoice_line_staging_source_line\<close>, over the columns the migration gives it.\<close>

definition insert_lines :: "staged_line list \<Rightarrow> staged_line list \<Rightarrow> staged_line list res" where
  "insert_lines rows t = (let all = t @ rows in
     if distinct (map sl_id all) \<and> distinct (map (\<lambda>r. (sl_merchant r, sl_invoice r, sl_line_no r)) all)
     then Inr all else raise IntegrityError)"

section \<open>The service\<close>

definition MAX_LINES_PER_STAGE :: nat where "MAX_LINES_PER_STAGE = 5000"

definition staged_row :: "invoice_env \<Rightarrow> string \<Rightarrow> string \<Rightarrow> date \<Rightarrow> date \<Rightarrow> string \<Rightarrow> nat \<Rightarrow> pushed_line \<Rightarrow> staged_line res" where
  "staged_row E merchant invoice period_start period_end cur index line =
     bindE (new_id ''ils'' (iv_ulid E index)) (\<lambda>i. case iv_unset_livemode E of
       None \<Rightarrow> raise IntegrityError
     | Some livemode \<Rightarrow> Inr \<lparr>sl_id = i, sl_merchant = merchant, sl_invoice = invoice, sl_line_no = index,
         sl_description = take 255 (case pl_description line of None \<Rightarrow> [] | Some d \<Rightarrow> d),
         sl_quantity = (case pl_quantity line of None \<Rightarrow> 1 | Some n \<Rightarrow> n),
         sl_unit_amount_minor = (case pl_unit_amount_minor line of None \<Rightarrow> 0 | Some n \<Rightarrow> n),
         sl_amount_minor = (case pl_amount_minor line of None \<Rightarrow> 0 | Some n \<Rightarrow> n),
         sl_tax_minor = (case pl_tax_minor line of None \<Rightarrow> 0 | Some n \<Rightarrow> n),
         sl_currency = cur, sl_period_start = Some period_start, sl_period_end = Some period_end,
         sl_promoted = False, sl_livemode = livemode, sl_created_at = iv_now E, sl_updated_at = iv_wall E\<rparr>)"

fun staged_rows :: "invoice_env \<Rightarrow> string \<Rightarrow> string \<Rightarrow> date \<Rightarrow> date \<Rightarrow> string \<Rightarrow> nat \<Rightarrow> pushed_line list \<Rightarrow> staged_line list res" where
  "staged_rows E m i ps pe c index [] = Inr []"
| "staged_rows E m i ps pe c index (l # ls) =
    bindE (staged_row E m i ps pe c index l) (\<lambda>r. mapE (Cons r) (staged_rows E m i ps pe c (Suc index) ls))"

definition stage_lines :: "invoice_env \<Rightarrow> string \<Rightarrow> string \<Rightarrow> date \<Rightarrow> date \<Rightarrow> string \<Rightarrow> pushed_line list \<Rightarrow> staged_line list
    \<Rightarrow> (nat \<times> staged_line list) res" where
  "stage_lines E merchant invoice period_start period_end cur lines t =
    (if lines = [] then raise ValidationError
     else if length lines > MAX_LINES_PER_STAGE then raise ValidationError
     else if period_end < period_start then raise ValidationError
     else let t1 = snd (delete_for_invoice merchant invoice t)
          in bindE (staged_rows E merchant invoice period_start period_end cur 0 lines) (\<lambda>rows.
             bindE (insert_lines rows t1) (\<lambda>t2. Inr (length rows, t2))))"

record staged_view =
  sv_description :: string
  sv_quantity :: int
  sv_unit_amount_minor :: int
  sv_amount_minor :: int
  sv_tax_minor :: int
  sv_currency :: string
  sv_period_start :: "date option"
  sv_period_end :: "date option"

definition view_of :: "staged_line \<Rightarrow> staged_view" where
  "view_of r = \<lparr>sv_description = sl_description r, sv_quantity = sl_quantity r, sv_unit_amount_minor = sl_unit_amount_minor r,
     sv_amount_minor = sl_amount_minor r, sv_tax_minor = sl_tax_minor r, sv_currency = sl_currency r,
     sv_period_start = sl_period_start r, sv_period_end = sl_period_end r\<rparr>"

definition list_staged_lines :: "string \<Rightarrow> string \<Rightarrow> staged_line list \<Rightarrow> staged_view list" where
  "list_staged_lines merchant invoice t = map view_of (list_for_invoice merchant invoice t)"

definition staged_total_minor :: "string \<Rightarrow> string \<Rightarrow> staged_line list \<Rightarrow> int" where
  "staged_total_minor merchant invoice t = (\<Sum>r\<leftarrow>list_for_invoice merchant invoice t. sl_amount_minor r + sl_tax_minor r)"

section \<open>The routes\<close>

definition MAX_LINES_PER_REQUEST :: nat where "MAX_LINES_PER_REQUEST = 10000"

text \<open>A request rolls back on every error.\<close>

definition stage_lines_route :: "invoice_env \<Rightarrow> string \<Rightarrow> string \<Rightarrow> date \<Rightarrow> date \<Rightarrow> string \<Rightarrow> pushed_line list \<Rightarrow> staged_line list
    \<Rightarrow> nat res \<times> staged_line list" where
  "stage_lines_route E merchant invoice period_start period_end cur lines t =
    (if lines = [] then (raise ValidationError, t)
     else if length lines > MAX_LINES_PER_REQUEST then (raise ValidationError, t)
     else if period_end < period_start then (raise ValidationError, t)
     else case stage_lines E merchant invoice period_start period_end cur lines t of
         Inl e \<Rightarrow> (Inl e, t) | Inr (n, t1) \<Rightarrow> (Inr n, t1))"

definition list_staged_lines_route :: "string \<Rightarrow> string \<Rightarrow> staged_line list \<Rightarrow> staged_view list" where
  "list_staged_lines_route merchant invoice t = list_staged_lines merchant invoice t"

section \<open>A push replaces the invoice\<close>

definition staged_as :: "string \<Rightarrow> string \<Rightarrow> string \<Rightarrow> date \<Rightarrow> date \<Rightarrow> pushed_line \<Rightarrow> staged_view" where
  "staged_as merchant invoice cur period_start period_end line =
     \<lparr>sv_description = take 255 (case pl_description line of None \<Rightarrow> [] | Some d \<Rightarrow> d),
      sv_quantity = (case pl_quantity line of None \<Rightarrow> 1 | Some n \<Rightarrow> n),
      sv_unit_amount_minor = (case pl_unit_amount_minor line of None \<Rightarrow> 0 | Some n \<Rightarrow> n),
      sv_amount_minor = (case pl_amount_minor line of None \<Rightarrow> 0 | Some n \<Rightarrow> n),
      sv_tax_minor = (case pl_tax_minor line of None \<Rightarrow> 0 | Some n \<Rightarrow> n),
      sv_currency = cur, sv_period_start = Some period_start, sv_period_end = Some period_end\<rparr>"

lemma staged_row_of:
  "staged_row E m i ps pe c k l = Inr r \<Longrightarrow> of_invoice m i r \<and> sl_line_no r = k \<and> view_of r = staged_as m i c ps pe l \<and> \<not> sl_promoted r"
  by (auto simp: staged_row_def bindE_Inr_iff of_invoice_def view_of_def staged_as_def split: option.splits)

lemma staged_rows_of:
  "staged_rows E m i ps pe c k ls = Inr rows \<Longrightarrow> (\<forall>r\<in>set rows. of_invoice m i r \<and> \<not> sl_promoted r)
     \<and> map sl_line_no rows = [k..<k + length ls] \<and> map view_of rows = map (staged_as m i c ps pe) ls"
proof (induction ls arbitrary: k rows)
  case (Cons l ls)
  obtain r rs where r: "staged_row E m i ps pe c k l = Inr r" "staged_rows E m i ps pe c (Suc k) ls = Inr rs" "rows = r # rs"
    using Cons.prems by (auto simp: bindE_Inr_iff mapE_Inr_iff)
  show ?case using Cons.IH [OF r(2)] staged_row_of [OF r(1)] r(3) by (simp add: upt_rec)
qed simp

lemma staged_rows_length: "staged_rows E m i ps pe c k ls = Inr rows \<Longrightarrow> length rows = length ls"
  using staged_rows_of [of E m i ps pe c k ls rows] by (metis length_map)

text \<open>An accepted push: the invoice is exactly the lines pushed, in their order, and no other row is touched.\<close>

lemma stage_replaces:
  assumes "stage_lines E m i ps pe c ls t = Inr (n, t')"
  shows "n = length ls \<and> list_staged_lines m i t' = map (staged_as m i c ps pe) ls
    \<and> filter (\<lambda>r. \<not> of_invoice m i r) t' = filter (\<lambda>r. \<not> of_invoice m i r) t"
proof -
  obtain rows where r: "staged_rows E m i ps pe c 0 ls = Inr rows" "t' = filter (\<lambda>r. \<not> of_invoice m i r) t @ rows" "n = length rows"
    using assms by (auto simp: stage_lines_def delete_for_invoice_def insert_lines_def Let_def bindE_Inr_iff split: if_splits)
  note s = staged_rows_of [OF r(1)]
  have f: "filter (of_invoice m i) t' = rows" using s r(2) by (simp add: filter_empty_conv)
  have "sort_key sl_line_no rows = rows" using s by (intro sort_key_id_if_sorted) simp
  then have "list_staged_lines m i t' = map (staged_as m i c ps pe) ls" using s f by (simp add: list_staged_lines_def list_for_invoice_def)
  moreover have "filter (\<lambda>r. \<not> of_invoice m i r) t' = filter (\<lambda>r. \<not> of_invoice m i r) t" using s r(2) by (auto simp: filter_empty_conv)
  ultimately show ?thesis using staged_rows_length [OF r(1)] r(3) by simp
qed

text \<open>The service's total is the repository's.\<close>

lemma totals_agree: "staged_total_minor m i t = sum_for_invoice m i t"
proof -
  have "mset (list_for_invoice m i t) = mset (filter (of_invoice m i) t)" by (simp add: list_for_invoice_def)
  then have "mset (map (\<lambda>r. sl_amount_minor r + sl_tax_minor r) (list_for_invoice m i t))
      = mset (map (\<lambda>r. sl_amount_minor r + sl_tax_minor r) (filter (of_invoice m i) t))" by (simp only: mset_map)
  then show ?thesis unfolding staged_total_minor_def sum_for_invoice_def by (metis sum_mset_sum_list)
qed

text \<open>Where the mapper inserts \<^verbatim>\<open>NULL\<close> for the column that was not set, no push is ever accepted.\<close>

lemma stage_without_livemode:
  assumes "iv_unset_livemode E = None"
  shows "\<exists>e. stage_lines_route E m i ps pe c ls t = (Inl e, t)"
proof (cases "stage_lines E m i ps pe c ls t")
  case (Inr r)
  obtain l ls' where "ls = l # ls'" using Inr by (cases ls) (simp_all add: stage_lines_def)
  then have "\<exists>e. staged_rows E m i ps pe c 0 ls = Inl e"
    using assms by (cases "new_id ''ils'' (iv_ulid E 0)") (simp_all add: staged_row_def)
  then show ?thesis using Inr by (auto simp: stage_lines_def Let_def split: if_splits)
qed (auto simp: stage_lines_route_def)

end
