(* ===== verification/Redaction.thy ===== *)
theory Redaction
  imports Text Store
begin

text \<open>
  What the service removes from texts before they are logged: \<^verbatim>\<open>src/app/middleware/redaction.py\<close> and the scrubbing
  in \<^verbatim>\<open>src/app/logging.py\<close>. The regular expressions are written out as matchers that return the length of the
  match at a position, in the order in which the engine tries its alternatives; \<^verbatim>\<open>sub_scan\<close> is \<^verbatim>\<open>re.sub\<close>. A text is one
  of Latin-1 characters.
\<close>

section \<open>Matching\<close>

text \<open>\<^verbatim>\<open>\w\<close>.\<close>

definition is_word :: "char \<Rightarrow> bool" where
  "is_word c \<longleftrightarrow> (let n = of_char c :: nat in 48 \<le> n \<and> n \<le> 57 \<or> 65 \<le> n \<and> n \<le> 90 \<or> n = 95 \<or> 97 \<le> n \<and> n \<le> 122 \<or> n = 170 \<or> n = 178 \<or> n = 179
     \<or> n = 181 \<or> n = 185 \<or> n = 186 \<or> 188 \<le> n \<and> n \<le> 190 \<or> 192 \<le> n \<and> n \<le> 214 \<or> 216 \<le> n \<and> n \<le> 246 \<or> 248 \<le> n)"

definition is_sep :: "char \<Rightarrow> bool" where "is_sep c \<longleftrightarrow> c = CHR '' '' \<or> c = CHR ''-''"

primrec first_some :: "('a \<Rightarrow> 'b option) \<Rightarrow> 'a list \<Rightarrow> 'b option" where
  "first_some f [] = None"
| "first_some f (x # xs) = (case f x of None \<Rightarrow> first_some f xs | Some y \<Rightarrow> Some y)"

text \<open>The length of \<^verbatim>\<open>k\<close> times a digit and an optional separator. A separator that is there has to be taken when a digit is to follow.\<close>

fun units :: "nat \<Rightarrow> string \<Rightarrow> nat option" where
  "units 0 s = Some 0"
| "units (Suc k) [] = None"
| "units (Suc k) (c # s) = (if \<not> is_digit c then None
     else if s \<noteq> [] \<and> is_sep (hd s) then map_option ((+) 2) (units k (tl s)) else map_option Suc (units k s))"

definition boundary :: "nat \<Rightarrow> string \<Rightarrow> bool" where
  "boundary i s \<longleftrightarrow> is_word (s ! (i - 1)) \<noteq> (i < length s \<and> is_word (s ! i))"

text \<open>\<^verbatim>\<open>re.sub\<close> for a matcher that is told whether a word character precedes.\<close>

function sub_scan :: "(bool \<Rightarrow> string \<Rightarrow> nat option) \<Rightarrow> (string \<Rightarrow> string) \<Rightarrow> bool \<Rightarrow> string \<Rightarrow> string" where
  "sub_scan pattern repl w [] = []"
| "sub_scan pattern repl w (c # s) = (case pattern w (c # s) of
     None \<Rightarrow> c # sub_scan pattern repl (is_word c) s
   | Some n \<Rightarrow> repl (take n (c # s)) @ sub_scan pattern repl (is_word (last (take n (c # s)))) (drop (n - 1) s))"
  by pat_completeness auto
termination by (relation "measure (\<lambda>(_, _, _, s). length s)") auto

section \<open>Card numbers in bodies\<close>

text \<open>13 to 19 digits, the last one at the end of a word.\<close>

definition pan_at :: "string \<Rightarrow> nat \<Rightarrow> nat option" where
  "pan_at s k = (case units k s of None \<Rightarrow> None | Some n \<Rightarrow>
     if n < length s \<and> is_digit (s ! n) \<and> boundary (Suc n) s then Some (Suc n) else None)"

definition PAN_PATTERN :: "bool \<Rightarrow> string \<Rightarrow> nat option" where
  "PAN_PATTERN w s = (if w then None else first_some (pan_at s) (rev [12..<19]))"

definition luhn_value :: "bool \<Rightarrow> nat \<Rightarrow> nat" where
  "luhn_value doubled v = (if doubled then if 9 < v * 2 then v * 2 - 9 else v * 2 else v)"

definition luhn_ok :: "string \<Rightarrow> bool" where
  "luhn_ok digits \<longleftrightarrow> (let parity = length digits mod 2 in
     sum_list (map (\<lambda>(i, c). luhn_value (i mod 2 = parity) (digit_val c)) (enumerate 0 digits)) mod 10 = 0)"

definition mask_pan :: "string \<Rightarrow> string" where
  "mask_pan raw = (let digits = filter (\<lambda>c. \<not> is_sep c) raw in if \<not> luhn_ok digits then raw
     else take 6 digits @ replicate (length digits - 10) (CHR ''*'') @ drop (length digits - 4) digits)"

section \<open>Card verification values in bodies\<close>

definition REDACTED :: string where "REDACTED = ''[redacted]''"

definition CVV_NAMES :: "string list" where "CVV_NAMES = [''cvc'', ''cvv'', ''cvv2'', ''security_code'']"

text \<open>The length of the group before the value, and of the whole match.\<close>

definition cvv_match :: "string \<Rightarrow> (nat \<times> nat) option" where
  "cvv_match s = (if s = [] \<or> hd s \<noteq> CHR 0x22 then None
     else first_some (\<lambda>name. let m = length name; r = drop (Suc m) s in
       if map lower_char (take m (tl s)) \<noteq> name \<or> r = [] \<or> hd r \<noteq> CHR 0x22 then None
       else let r1 = dropWhile is_space (tl r) in if r1 = [] \<or> hd r1 \<noteq> CHR '':'' then None
       else let r2 = dropWhile is_space (tl r1) in if r2 = [] \<or> hd r2 \<noteq> CHR 0x22 then None
       else let g = length s - length (tl r2); d = length (takeWhile is_digit (take 4 (tl r2))); r3 = drop d (tl r2)
            in if 3 \<le> d \<and> r3 \<noteq> [] \<and> hd r3 = CHR 0x22 then Some (g, g + d + 1) else None) CVV_NAMES)"

definition CVV_PATTERN :: "bool \<Rightarrow> string \<Rightarrow> nat option" where "CVV_PATTERN w s = map_option snd (cvv_match s)"

definition mask_cvv :: "string \<Rightarrow> string" where
  "mask_cvv raw = (case cvv_match raw of None \<Rightarrow> raw | Some (g, _) \<Rightarrow> take g raw @ REDACTED @ [CHR 0x22])"

definition redact_text :: "string \<Rightarrow> string" where
  "redact_text value = sub_scan CVV_PATTERN mask_cvv False (sub_scan PAN_PATTERN mask_pan False value)"

definition SECRET_HEADERS :: "string list" where
  "SECRET_HEADERS = [''authorization'', ''x-payzeno-internal-secret'', ''cookie'', ''set-cookie'', ''proxy-authorization'']"

definition redact_headers :: "(string \<times> string) list \<Rightarrow> (string \<times> string) list" where
  "redact_headers hs = map (\<lambda>(name, value). (name, if map lower_char name \<in> set SECRET_HEADERS then REDACTED else redact_text value)) hs"

text \<open>What the middleware stores on the request.\<close>

definition stored_headers :: "bool \<Rightarrow> (string \<times> string) list \<Rightarrow> (string \<times> string) list" where
  "stored_headers enabled hs = (if enabled then redact_headers hs else hs)"

section \<open>Log lines\<close>

text \<open>13 to 19 times a digit and an optional separator, ending at a boundary: with the last separator first, then without.\<close>

definition scrub_at :: "string \<Rightarrow> nat \<Rightarrow> nat option" where
  "scrub_at s k = (case units k s of None \<Rightarrow> None | Some n \<Rightarrow>
     if boundary n s then Some n else if is_sep (s ! (n - 1)) \<and> boundary (n - 1) s then Some (n - 1) else None)"

definition LOG_PAN_PATTERN :: "bool \<Rightarrow> string \<Rightarrow> nat option" where
  "LOG_PAN_PATTERN w s = (if w then None else first_some (scrub_at s) (rev [13..<20]))"

definition scrub :: "string \<Rightarrow> string" where "scrub value = sub_scan LOG_PAN_PATTERN (\<lambda>_. REDACTED) False value"

definition SENSITIVE_KEYS :: "string list" where
  "SENSITIVE_KEYS = [''account_number'', ''api_key'', ''authorization'', ''card_number'', ''iban'', ''internal_api_secret'', ''pan'',
     ''routing_number'', ''secret'', ''x-payzeno-internal-secret'']"

definition redact_event_dict :: "payload \<Rightarrow> payload" where
  "redact_event_dict d = map (\<lambda>(key, value). (key, if map lower_char key \<in> set SENSITIVE_KEYS then JStr REDACTED
     else case value of JStr v \<Rightarrow> JStr (scrub v) | _ \<Rightarrow> value)) d"

section \<open>The check digit\<close>

lemma luhn_value_inj:
  assumes "a < 10" "b < 10" "a \<noteq> b" shows "luhn_value d a mod 10 \<noteq> luhn_value d b mod 10"
proof -
  have "\<forall>a\<in>set [0..<10]. \<forall>b\<in>set [0..<10]. a \<noteq> b \<longrightarrow> luhn_value d a mod 10 \<noteq> luhn_value d b mod 10"
    by (cases d) (simp_all add: luhn_value_def upt_rec)
  then show ?thesis using assms by simp
qed

lemma digit_val_eq:
  assumes "is_digit c" "is_digit d" "digit_val c = digit_val d" shows "c = d"
proof -
  have "48 \<le> (of_char c :: nat)" "48 \<le> (of_char d :: nat)" "(of_char c :: nat) - 48 = of_char d - 48"
    using assms by (simp_all add: is_digit_def digit_val_def Let_def)
  then have "(of_char c :: nat) = of_char d" by linarith
  then show ?thesis by simp
qed

lemma digit_val_less: "is_digit c \<Longrightarrow> digit_val c < 10"
  by (auto simp: is_digit_def digit_val_def Let_def)

lemma mod_10_shift:
  fixes a b n :: nat
  assumes "(n + a) mod 10 = (n + b) mod 10" shows "a mod 10 = b mod 10"
proof -
  have "int (n + a) mod 10 = int (n + b) mod 10" using assms by (metis of_nat_mod of_nat_numeral)
  then have "int a mod 10 = int b mod 10" by (simp add: mod_eq_dvd_iff)
  then show ?thesis by (metis of_nat_eq_iff of_nat_mod of_nat_numeral)
qed

text \<open>No number that passes the check passes it with one digit changed.\<close>

lemma luhn_one_digit:
  assumes "luhn_ok xs" "list_all is_digit xs" "is_digit d" "i < length xs" "d \<noteq> xs ! i"
  shows "\<not> luhn_ok (xs[i := d])"
proof -
  let ?p = "length xs mod 2"
  define f where "f = (\<lambda>(j, c). luhn_value (j mod 2 = ?p) (digit_val c))"
  define A where "A = sum_list (map f (enumerate 0 (take i xs)))"
  define B where "B = sum_list (map f (enumerate (Suc i) (drop (Suc i) xs)))"
  have split: "sum_list (map f (enumerate 0 (take i xs @ y # drop (Suc i) xs))) = A + f (i, y) + B" for y
    using assms(4) by (simp add: enumerate_append_eq A_def B_def min_def)
  have x: "sum_list (map f (enumerate 0 xs)) = A + f (i, xs ! i) + B" using split [of "xs ! i"] id_take_nth_drop [OF assms(4)] by simp
  have y: "sum_list (map f (enumerate 0 (xs[i := d]))) = A + f (i, d) + B" using split [of d] upd_conv_take_nth_drop [OF assms(4)] by simp
  have dx: "is_digit (xs ! i)" using assms(2,4) by (simp add: list_all_length)
  have n: "f (i, d) mod 10 \<noteq> f (i, xs ! i) mod 10"
    using luhn_value_inj [OF digit_val_less [OF assms(3)] digit_val_less [OF dx]] digit_val_eq [OF assms(3) dx] assms(5) by (auto simp: f_def)
  have "(A + f (i, xs ! i) + B) mod 10 = 0" using assms(1) x by (simp add: luhn_ok_def f_def Let_def)
  moreover have "(A + f (i, d) + B) mod 10 \<noteq> (A + f (i, xs ! i) + B) mod 10" 
  proof
    assume "(A + f (i, d) + B) mod 10 = (A + f (i, xs ! i) + B) mod 10"
    then have "(A + B + f (i, d)) mod 10 = (A + B + f (i, xs ! i)) mod 10" by (simp add: ac_simps)
    then show False using n mod_10_shift by blast
  qed
  ultimately show ?thesis using y by (simp add: luhn_ok_def f_def Let_def)
qed

section \<open>A card number is masked\<close>

lemma digit_not_sep: "is_digit c \<Longrightarrow> \<not> is_sep c"
  by (auto simp: is_digit_def is_sep_def Let_def)

lemma digit_is_word: "is_digit c \<Longrightarrow> is_word c"
  by (auto simp: is_digit_def is_word_def Let_def)

lemma units_digits: "list_all is_digit s \<Longrightarrow> units k s = (if k \<le> length s then Some k else None)"
proof (induction k s rule: units.induct)
  case (3 k c s)
  have "\<not> (s \<noteq> [] \<and> is_sep (hd s))" using 3(3) digit_not_sep by (cases s) auto
  then show ?case using 3 by auto
qed auto

lemma first_some_none: "\<forall>x\<in>set xs. f x = None \<Longrightarrow> first_some f xs = None"
  by (induction xs) auto

lemma first_some_unique: "\<forall>x\<in>set xs. x \<noteq> k \<longrightarrow> f x = None \<Longrightarrow> k \<in> set xs \<Longrightarrow> first_some f xs = f k"
proof (induction xs)
  case (Cons x xs)
  have "first_some f xs = None" if "f k = None" using that Cons.prems(1) by (intro first_some_none) (metis list.set_intros(2))
  then show ?case using Cons by (cases "x = k"; cases "f k") auto
qed simp

lemma pan_at_digits:
  assumes "list_all is_digit s" "s \<noteq> []"
  shows "pan_at s k = (if Suc k = length s then Some (length s) else None)"
proof -
  have "boundary (Suc k) s \<longleftrightarrow> Suc k = length s" if "Suc k \<le> length s"
  proof -
    have w: "is_word (s ! j)" if "j < length s" for j using assms(1) that digit_is_word by (simp add: list_all_length)
    have l: "s ! (Suc k - 1) = s ! k" by simp
    show ?thesis unfolding boundary_def l using w [of k] w [of "Suc k"] that by (cases "Suc k < length s") auto
  qed
  then show ?thesis using assms units_digits [OF assms(1), of k] by (auto simp: pan_at_def list_all_length)
qed

lemma no_quote_no_cvv: "CHR 0x22 \<notin> set s \<Longrightarrow> sub_scan CVV_PATTERN repl w s = s"
proof (induction CVV_PATTERN repl w s rule: sub_scan.induct)
  case (2 repl w c s)
  then show ?case by (auto simp: CVV_PATTERN_def cvv_match_def)
qed simp

lemma pan_masked:
  assumes "list_all is_digit s" "13 \<le> length s" "length s \<le> 19" "luhn_ok s"
  shows "redact_text s = take 6 s @ replicate (length s - 10) (CHR ''*'') @ drop (length s - 4) s"
proof -
  have ne: "s \<noteq> []" using assms(2) by auto
  then obtain c t where s: "s = c # t" by (cases s) auto
  have "length s - 1 \<in> set (rev [12..<19])" using assms(2,3) by auto
  then have m: "PAN_PATTERN False s = Some (length s)"
    using first_some_unique [of "rev [12..<19]" "length s - 1" "pan_at s"] pan_at_digits [OF assms(1) ne] ne by (auto simp: PAN_PATTERN_def)
  have f: "filter (\<lambda>c. \<not> is_sep c) s = s" using assms(1) digit_not_sep by (auto simp: filter_id_conv list_all_iff)
  let ?m = "take 6 s @ replicate (length s - 10) (CHR ''*'') @ drop (length s - 4) s"
  have "sub_scan PAN_PATTERN mask_pan False s = ?m"
    using m f assms(4) by (simp add: s mask_pan_def)
  moreover have "\<not> is_digit (CHR 0x22)" by (simp add: is_digit_def)
  then have "CHR 0x22 \<notin> set ?m" using assms(1) by (auto simp: list_all_iff dest: in_set_takeD in_set_dropD)
  ultimately show ?thesis by (simp add: redact_text_def no_quote_no_cvv)
qed

text \<open>A number after another digit and a blank is taken for a longer one, which fails the check and is left as it is.\<close>

lemma preceded_pan_kept: "redact_text ''5 4111 1111 1111 1111'' = ''5 4111 1111 1111 1111''"
  by code_simp

text \<open>More than nineteen digits in a row are kept in log lines.\<close>

lemma long_run_kept: "scrub ''41111111111111112222'' = ''41111111111111112222''"
  by code_simp

end
