(* ===== verification/EdgeExamples.thy ===== *)
theory EdgeExamples
  imports Examples Drain_Tasks Paging Edge Invoices Redaction
begin

text \<open>
  Concrete outbox rows, pages and requests for the witnesses about the drain, the paging and the HTTP edge.
  Nothing here models code.
\<close>

definition demo_event :: "string \<Rightarrow> int \<Rightarrow> nat \<Rightarrow> outbox_row" where
  "demo_event i t n = \<lparr>ev_id = i, ev_type = ''ledger.imbalance_detected'', ev_version = 1, ev_payload = [], ev_merchant = None, ev_correlation = ''cor_1'',
     ev_causation = None, ev_occurred_at = t, ev_livemode = True, ev_attempt_count = n, ev_published_at = None, ev_next_attempt_at = t,
     ev_dead_at = None, ev_claimed_at = None, ev_claimed_by = None, ev_last_error = None\<rparr>"

definition drain_db :: ledger where
  "drain_db = \<lparr>accounts = [], transactions = [], entries = [], balance_cache = [],
     outbox = [demo_event ''evt_1'' 5 0, demo_event ''evt_2'' 3 10, demo_event ''evt_3'' 4 9], id_supply = 0\<rparr>"

text \<open>SNS takes the first event and refuses the third in the first pass, and takes everything in the second.\<close>

definition demo_passes :: "(nat \<Rightarrow> drain_env) list" where
  "demo_passes = [\<lambda>_. \<lparr>dn_sns = (\<lambda>m. bm_id m = ''evt_1''), dn_now = 9, dn_wall = 9, dn_uniform = (\<lambda>_. 0)\<rparr>,
     \<lambda>_. \<lparr>dn_sns = (\<lambda>_. True), dn_now = 14, dn_wall = 14, dn_uniform = (\<lambda>_. 0)\<rparr>]"

lemma drain_db_topics: "topics_known demo_contracts drain_db"
  by (simp add: topics_known_def drain_db_def demo_event_def topic_for_def TOPIC_BY_EVENT_TYPE_def demo_contracts_def)

lemma drain_db_ok: "event_ids_distinct drain_db"
    "\<forall>r\<in>set (outbox drain_db). ev_dead_at r = None \<and> ev_attempt_count r \<le> MAX_PUBLISH_ATTEMPTS"
  by code_simp+

lemma demo_drained: "snd (drain_ticks demo_contracts demo_passes drain_db) = [''evt_1'']" by code_simp

lemma demo_staged: "is_ok (publish demo_env ''ledger.imbalance_detected'' [] None ''cor_1'' None True (drain_db\<lparr>outbox := []\<rparr>))"
  by code_simp

definition demo_keys :: "nat list list" where "demo_keys = [[112, 51], [112, 49], [112, 50]]"

definition demo_edge :: edge_env where
  "demo_edge = \<lparr>ee_request_ulid = ''1'', ee_correlation_ulid = ''1'', ee_secret = ''s3cret'', ee_allowed = ALLOWED_SERVICES, ee_require_client_cert = True,
     ee_redact = True, ee_render = (\<lambda>b. eb_code b)\<rparr>"

text \<open>The right secret and a service of the list, but no client certificate.\<close>

definition demo_request :: http_in where
  "demo_request = \<lparr>hi_method = ''POST'', hi_path = ''/internal/v1/payouts'',
     hi_header = [''x-payzeno-service'' \<mapsto> ''payzeno-api'', ''x-payzeno-internal-secret'' \<mapsto> ''s3cret'']\<rparr>"

lemma demo_request_stopped: "hi_path demo_request \<notin> set PUBLIC_PATHS" "\<not> credentials demo_edge demo_request"
  by (simp_all add: demo_request_def demo_edge_def PUBLIC_PATHS_def credentials_def)

end
