(* ===== verification/Listings.thy ===== *)
theory Listings
  imports Settlements Reserves AuditChecks Paging
begin

text \<open>
  The reads and writes of the repositories that the services themselves do not call, but the routes and
  operators do: listings of accounts, transactions, entries, payouts, holds, calendar days, adjustments and
  bank accounts, the status updates of \<^verbatim>\<open>src/app/repositories/payout.py\<close>, \<^verbatim>\<open>ledger_adjustment.py\<close> and
  \<^verbatim>\<open>reserve_hold.py\<close>, and the pages of transactions, entries, payouts, batches and items. Rows with equal
  values of an \<^verbatim>\<open>ORDER BY\<close> keep the order of their insertion.
\<close>

section \<open>Accounts\<close>

text \<open>A filter left at \<^verbatim>\<open>None\<close> is not applied.\<close>

definition given :: "'v option \<Rightarrow> 'v \<Rightarrow> bool" where
  "given wanted v \<longleftrightarrow> (case wanted of None \<Rightarrow> True | Some w \<Rightarrow> v = w)"

lemma given_simps [simp]: "given None v" "given (Some w) v \<longleftrightarrow> v = w"
  by (simp_all add: given_def)

definition list_merchant_accounts :: "string \<Rightarrow> string option \<Rightarrow> bool option \<Rightarrow> 'a ledger_scheme \<Rightarrow> account list" where
  "list_merchant_accounts m c l s = sort_key (\<lambda>a. (acct_type a, acct_currency a))
     (filter (\<lambda>a. acct_merchant a = Some m \<and> given c (acct_currency a) \<and> given l (acct_livemode a)) (accounts s))"

text \<open>The database sorts \<^verbatim>\<open>NULL\<close> after every merchant.\<close>

definition merchant_rank :: "string option \<Rightarrow> bool \<times> string" where
  "merchant_rank m = (case m of None \<Rightarrow> (True, []) | Some x \<Rightarrow> (False, x))"

definition list_filtered :: "string option \<Rightarrow> string option \<Rightarrow> string option \<Rightarrow> bool option \<Rightarrow> nat \<Rightarrow> 'a ledger_scheme \<Rightarrow> account list" where
  "list_filtered m c t l limit s = take limit (sort_key (\<lambda>a. (merchant_rank (acct_merchant a), acct_type a))
     (filter (\<lambda>a. (m = None \<or> acct_merchant a = m) \<and> given c (acct_currency a) \<and> given t (acct_type a) \<and> given l (acct_livemode a))
       (accounts s)))"

definition list_platform_accounts :: "string \<Rightarrow> bool \<Rightarrow> 'a ledger_scheme \<Rightarrow> account list" where
  "list_platform_accounts c l s = sort_key acct_type
     (filter (\<lambda>a. acct_merchant a = None \<and> acct_currency a = c \<and> acct_livemode a = l) (accounts s))"

text \<open>\<^verbatim>\<open>AccountResolver.list_accounts\<close>.\<close>

definition list_accounts :: "string option \<Rightarrow> string option \<Rightarrow> string option \<Rightarrow> bool \<Rightarrow> 'a ledger_scheme \<Rightarrow> account list" where
  "list_accounts m c t l s = list_filtered m c t (Some l) 200 s"

section \<open>Transactions and entries\<close>

definition list_by_reference :: "string \<Rightarrow> string \<Rightarrow> 'a ledger_scheme \<Rightarrow> ledger_transaction list" where
  "list_by_reference ref_type ref_id s = sort_key (\<lambda>t. - txn_posted_at t)
     (filter (\<lambda>t. txn_reference_type t = ref_type \<and> txn_reference_id t = ref_id) (transactions s))"

definition list_merchant_transactions :: "string \<Rightarrow> string option \<Rightarrow> nat \<Rightarrow> 'a ledger_scheme \<Rightarrow> ledger_transaction list" where
  "list_merchant_transactions m p limit s = take limit (sort_key (\<lambda>t. - txn_posted_at t)
     (filter (\<lambda>t. txn_merchant t = Some m \<and> given p (txn_purpose t)) (transactions s)))"

text \<open>One query for the legs of a page of transactions, spread over a dict.\<close>

definition append_entry :: "ledger_entry \<Rightarrow> (string \<times> ledger_entry list) list \<Rightarrow> (string \<times> ledger_entry list) list" where
  "append_entry e grouped = map (\<lambda>(t, es). if t = le_transaction e then (t, es @ [e]) else (t, es)) grouped"

definition list_for_transactions :: "string list \<Rightarrow> 'a ledger_scheme \<Rightarrow> (string \<times> ledger_entry list) list" where
  "list_for_transactions tids s =
    (let grouped = fold (\<lambda>t g. dict_set t [] g) tids [] in
     if tids = [] then grouped
     else fold append_entry (sort_key (\<lambda>e. (le_transaction e, le_sequence e)) (filter (\<lambda>e. le_transaction e \<in> set tids) (entries s))) grouped)"

section \<open>Pages\<close>

text \<open>The id of a row as the code points of its text.\<close>

definition codes :: "string \<Rightarrow> nat list" where "codes i = map of_char i"

type_synonym collation = "nat list \<Rightarrow> nat list \<Rightarrow> bool"
type_synonym cursor = "nat list"

definition page_transactions :: "collation \<Rightarrow> cursor option \<Rightarrow> int option \<Rightarrow> string option \<Rightarrow> string option \<Rightarrow> string option
    \<Rightarrow> string option \<Rightarrow> 'a ledger_scheme \<Rightarrow> ledger_transaction page res" where
  "page_transactions lt cursor limit m ref_type ref_id p s =
     list_page lt (\<lambda>t. codes (txn_id t)) (Inr (\<lambda>t. (m = None \<or> txn_merchant t = m) \<and> given ref_type (txn_reference_type t)
       \<and> given ref_id (txn_reference_id t) \<and> given p (txn_purpose t))) cursor limit (transactions s)"

definition page_entries :: "collation \<Rightarrow> cursor option \<Rightarrow> int option \<Rightarrow> string \<Rightarrow> int option \<Rightarrow> int option \<Rightarrow> 'a ledger_scheme \<Rightarrow> ledger_entry page res" where
  "page_entries lt cursor limit account created_from created_to s =
     list_page lt (\<lambda>e. codes (le_id e)) (Inr (\<lambda>e. (case created_from of None \<Rightarrow> True | Some x \<Rightarrow> x \<le> le_created_at e)
       \<and> (case created_to of None \<Rightarrow> True | Some x \<Rightarrow> le_created_at e < x) \<and> le_account e = account)) cursor limit (entries s)"

definition page_payouts :: "collation \<Rightarrow> cursor option \<Rightarrow> int option \<Rightarrow> string option \<Rightarrow> string option \<Rightarrow> string option \<Rightarrow> 'a db_scheme \<Rightarrow> payout page res" where
  "page_payouts lt cursor limit m st c s =
     list_page lt (\<lambda>p. codes (po_id p)) (Inr (\<lambda>p. given m (po_merchant p) \<and> given st (po_status p) \<and> given c (po_currency p)))
       cursor limit (payouts s)"

text \<open>A batch is a merchant's when one of its items is.\<close>

definition page_batches :: "collation \<Rightarrow> cursor option \<Rightarrow> int option \<Rightarrow> string option \<Rightarrow> string option \<Rightarrow> string option \<Rightarrow> string option
    \<Rightarrow> 'a recon_db_scheme \<Rightarrow> settlement_batch page res" where
  "page_batches lt cursor limit m c st acquirer s =
     list_page lt (\<lambda>b. codes (sb_id b)) (Inr (\<lambda>b. (m = None \<or> (\<exists>r\<in>set (recon_items s). ri_batch r = sb_id b \<and> ri_merchant r = m))
       \<and> given c (sb_currency b) \<and> given st (sb_status b) \<and> given acquirer (sb_acquirer b))) cursor limit (settlement_batches s)"

definition page_items_of_batch :: "collation \<Rightarrow> cursor option \<Rightarrow> int option \<Rightarrow> string \<Rightarrow> string \<Rightarrow> string option \<Rightarrow> string option
    \<Rightarrow> 'a recon_db_scheme \<Rightarrow> recon_item page res" where
  "page_items_of_batch lt cursor limit batch m st kind s =
     list_page lt (\<lambda>r. codes (ri_id r)) (Inr (\<lambda>r. ri_batch r = batch \<and> ri_merchant r = Some m \<and> given st (ri_status r)
       \<and> given kind (ri_line_type r))) cursor limit (recon_items s)"

section \<open>Payouts\<close>

definition list_merchant_payouts :: "string \<Rightarrow> string option \<Rightarrow> nat \<Rightarrow> 'a db_scheme \<Rightarrow> payout list" where
  "list_merchant_payouts m st limit s = take limit (sort_key (\<lambda>p. - po_created_at p)
     (filter (\<lambda>p. po_merchant p = m \<and> given st (po_status p)) (payouts s)))"

text \<open>The updates of the repository: each writes the row and flushes it.\<close>

definition change_payout :: "string \<Rightarrow> (payout \<Rightarrow> payout) \<Rightarrow> 'a db_scheme \<Rightarrow> (payout \<times> 'a db_scheme) res" where
  "change_payout i f s = bindE (get_payout_or_raise i s) (\<lambda>p. mapE (\<lambda>s'. (f p, s')) (flush_payout (f p) s))"

definition repo_mark_in_transit :: "string \<Rightarrow> int \<Rightarrow> string option \<Rightarrow> 'a db_scheme \<Rightarrow> (payout \<times> 'a db_scheme) res" where
  "repo_mark_in_transit i stamp rail_reference s = change_payout i (\<lambda>p. p\<lparr>po_status := ''in_transit'', po_initiated_at := Some stamp,
     po_bank_reference := (case rail_reference of None \<Rightarrow> po_bank_reference p | Some r \<Rightarrow> Some r)\<rparr>) s"

definition repo_mark_paid :: "string \<Rightarrow> int \<Rightarrow> string \<Rightarrow> 'a db_scheme \<Rightarrow> (payout \<times> 'a db_scheme) res" where
  "repo_mark_paid i paid_at reference s = change_payout i (\<lambda>p. p\<lparr>po_status := ''paid'', po_paid_at := Some paid_at,
     po_bank_reference := Some reference\<rparr>) s"

definition repo_mark_failed :: "int \<Rightarrow> string \<Rightarrow> string \<Rightarrow> string \<Rightarrow> string \<Rightarrow> int option \<Rightarrow> 'a db_scheme \<Rightarrow> (payout \<times> 'a db_scheme) res" where
  "repo_mark_failed wall i code message reversal stamp s = change_payout i (\<lambda>p. p\<lparr>po_status := ''failed'', po_failure_code := Some code,
     po_failure_message := Some message, po_reversal_transaction := Some reversal,
     po_failed_at := Some (case stamp of None \<Rightarrow> wall | Some x \<Rightarrow> x)\<rparr>) s"

definition repo_mark_returned :: "int \<Rightarrow> string \<Rightarrow> string \<Rightarrow> string \<Rightarrow> string \<Rightarrow> int option \<Rightarrow> 'a db_scheme \<Rightarrow> (payout \<times> 'a db_scheme) res" where
  "repo_mark_returned wall i code message reversal stamp s = change_payout i (\<lambda>p. p\<lparr>po_status := ''returned'', po_failure_code := Some code,
     po_failure_message := Some message, po_reversal_transaction := Some reversal,
     po_returned_at := Some (case stamp of None \<Rightarrow> wall | Some x \<Rightarrow> x)\<rparr>) s"

definition repo_mark_canceled :: "string \<Rightarrow> 'a db_scheme \<Rightarrow> (payout \<times> 'a db_scheme) res" where
  "repo_mark_canceled i s = change_payout i (\<lambda>p. p\<lparr>po_status := ''canceled''\<rparr>) s"

definition count_payouts_by_status :: "string option \<Rightarrow> 'a db_scheme \<Rightarrow> (string \<times> nat) list" where
  "count_payouts_by_status m s = (let rows = filter (\<lambda>p. given m (po_merchant p)) (payouts s) in
     map (\<lambda>st. (st, length (filter (\<lambda>p. po_status p = st) rows))) (remdups (map po_status rows)))"

section \<open>Holds, calendar days, bank accounts and adjustments\<close>

definition mark_released :: "string \<Rightarrow> string \<Rightarrow> 'a db_scheme \<Rightarrow> (reserve_hold \<times> 'a db_scheme) res" where
  "mark_released i tid s = (case find_hold i s of None \<Rightarrow> raise NotFoundError
   | Some h \<Rightarrow> let h' = h\<lparr>rh_released := Some tid\<rparr> in
       Inr (h', s\<lparr>reserve_holds := update_where (\<lambda>x. rh_id x = i) (\<lambda>_. h') (reserve_holds s)\<rparr>))"

definition find_hold_by_transaction :: "string \<Rightarrow> 'a db_scheme \<Rightarrow> reserve_hold option" where
  "find_hold_by_transaction tid s = find_first (\<lambda>h. rh_held_from h = tid) (reserve_holds s)"

record banking_day =
  cd_currency :: string
  cd_rail :: string
  cd_date :: date
  cd_is_business_day :: bool

text \<open>The primary key of the table is (currency, rail, date).\<close>

definition calendar_is_business_day :: "date \<Rightarrow> string \<Rightarrow> string \<Rightarrow> banking_day list \<Rightarrow> bool option" where
  "calendar_is_business_day day c rail rows = map_option cd_is_business_day
     (find_first (\<lambda>d. cd_currency d = c \<and> cd_rail d = rail \<and> cd_date d = day) rows)"

definition list_calendar_days :: "string \<Rightarrow> string \<Rightarrow> date \<Rightarrow> date \<Rightarrow> banking_day list \<Rightarrow> banking_day list" where
  "list_calendar_days c rail start stop rows = sort_key cd_date
     (filter (\<lambda>d. cd_currency d = c \<and> cd_rail d = rail \<and> start \<le> cd_date d \<and> cd_date d \<le> stop) rows)"

definition list_merchant_banks :: "string \<Rightarrow> string option \<Rightarrow> bool \<Rightarrow> 'a db_scheme \<Rightarrow> bank_account list" where
  "list_merchant_banks m c default_only s = sort_key (\<lambda>b. (\<not> ba_is_default b, ba_currency b))
     (filter (\<lambda>b. ba_merchant b = m \<and> given c (ba_currency b) \<and> (default_only \<longrightarrow> ba_is_default b)) (banks s))"

definition list_pending_adjustments :: "nat \<Rightarrow> 'a db_scheme \<Rightarrow> adjustment_request list" where
  "list_pending_adjustments limit s = take limit (sort_key ar_requested_at (filter (\<lambda>r. ar_status r = ''pending'') (adjustments s)))"

definition list_merchant_adjustments :: "string \<Rightarrow> nat \<Rightarrow> 'a db_scheme \<Rightarrow> adjustment_request list" where
  "list_merchant_adjustments m limit s = take limit (sort_key (\<lambda>r. - ar_requested_at r) (filter (\<lambda>r. ar_merchant r = Some m) (adjustments s)))"

text \<open>Each update flushes the row against the dual-control constraint.\<close>

definition change_adjustment :: "string \<Rightarrow> (adjustment_request \<Rightarrow> adjustment_request) \<Rightarrow> 'a db_scheme
    \<Rightarrow> (adjustment_request \<times> 'a db_scheme) res" where
  "change_adjustment i f s = (case find_adjustment i s of None \<Rightarrow> raise NotFoundError
   | Some r \<Rightarrow> if ar_approved_by (f r) = Some (ar_requested_by (f r)) then raise IntegrityError
       else Inr (f r, s\<lparr>adjustments := update_where (\<lambda>x. ar_id x = i) (\<lambda>_. f r) (adjustments s)\<rparr>))"

definition repo_approve :: "int \<Rightarrow> string \<Rightarrow> string \<Rightarrow> int option \<Rightarrow> 'a db_scheme \<Rightarrow> (adjustment_request \<times> 'a db_scheme) res" where
  "repo_approve wall i approver stamp s = change_adjustment i (\<lambda>r. r\<lparr>ar_status := ''approved'', ar_approved_by := Some approver,
     ar_approved_at := Some (case stamp of None \<Rightarrow> wall | Some x \<Rightarrow> x)\<rparr>) s"

definition repo_reject :: "int \<Rightarrow> string \<Rightarrow> string \<Rightarrow> int option \<Rightarrow> 'a db_scheme \<Rightarrow> (adjustment_request \<times> 'a db_scheme) res" where
  "repo_reject wall i rejecter stamp s = change_adjustment i (\<lambda>r. r\<lparr>ar_status := ''rejected'', ar_approved_by := Some rejecter,
     ar_approved_at := Some (case stamp of None \<Rightarrow> wall | Some x \<Rightarrow> x)\<rparr>) s"

definition repo_mark_posted :: "string \<Rightarrow> string \<Rightarrow> 'a db_scheme \<Rightarrow> (adjustment_request \<times> 'a db_scheme) res" where
  "repo_mark_posted i tid s = change_adjustment i (\<lambda>r. r\<lparr>ar_status := ''posted'', ar_posted_transaction := Some tid\<rparr>) s"

definition find_adjustment_by_transaction :: "string \<Rightarrow> 'a db_scheme \<Rightarrow> adjustment_request option" where
  "find_adjustment_by_transaction tid s = find_first (\<lambda>r. ar_posted_transaction r = Some tid) (adjustments s)"

section \<open>The legs of a page are the legs of its transactions\<close>

lemma map_of_append_entry: "map_of (append_entry e g) t = map_option (\<lambda>es. if t = le_transaction e then es @ [e] else es) (map_of g t)"
  by (induction g) (auto simp: append_entry_def)

lemma map_of_fold_append: "map_of (fold append_entry es g) t = map_option (\<lambda>xs. xs @ filter (\<lambda>e. le_transaction e = t) es) (map_of g t)"
  by (induction es arbitrary: g) (auto simp: map_of_append_entry option.map_comp comp_def option.map_ident split: option.splits intro!: map_option_cong)

lemma map_of_blank: "map_of (fold (\<lambda>t g. dict_set t [] g) ts g) t = (if t \<in> set ts then Some [] else map_of g t)"
  by (induction ts arbitrary: g) (auto simp: store_simps)

lemma sort_key_pair_filter: "filter (\<lambda>e. f e = x) (sort_key (\<lambda>e. (f e, g e)) es) = sort_key g (filter (\<lambda>e. f e = x) es)"
proof -
  have "filter (\<lambda>e. f e = x) (sort_key (\<lambda>e. (f e, g e)) es) = sort_key (\<lambda>e. (f e, g e)) (filter (\<lambda>e. f e = x) es)"
    by (simp add: filter_sort)
  also have "\<dots> = sort_key g (filter (\<lambda>e. f e = x) es)"
  proof -
    have "sort_key (\<lambda>e. (f e, g e)) ys = sort_key g ys" if "\<forall>y\<in>set ys. f y = x" for ys
      using that
    proof (induction ys)
      case (Cons y ys)
      have "insort_key (\<lambda>e. (f e, g e)) y zs = insort_key g y zs" if "\<forall>z\<in>set zs. f z = x" for zs
        using that Cons.prems by (induction zs) (auto simp: less_eq_prod_def)
      with Cons show ?case by simp
    qed simp
    then show ?thesis by simp
  qed
  finally show ?thesis .
qed

lemma legs_of_page: "t \<in> set tids \<Longrightarrow> map_of (list_for_transactions tids s) t = Some (list_for_transaction t s)"
  by (auto simp: list_for_transactions_def Let_def map_of_fold_append map_of_blank sort_key_pair_filter list_for_transaction_def
      filter_filter intro!: arg_cong [where f = "sort_key le_sequence"] filter_cong)

end
