(* ===== verification/Wire.thy ===== *)
theory Wire
  imports Listings
begin

text \<open>
  The response bodies of the routes: \<^verbatim>\<open>contract_payload\<close> and \<^verbatim>\<open>contract_page\<close> of \<^verbatim>\<open>src/app/api/schemas.py\<close> and
  the \<^verbatim>\<open>_serialise\<close> functions of the routers. The contract models are generated in \<^verbatim>\<open>payzeno_contracts\<close>; the
  fields of a model, each with its alias, are the parameter \<^verbatim>\<open>wi_model\<close>. A date is written as the text
  that \<^verbatim>\<open>_wire_value\<close> makes of it, \<^verbatim>\<open>wi_iso\<close> is \<^verbatim>\<open>datetime.isoformat\<close>, and the creation and update times
  that the rows of the model do not carry are looked up by the id of the row.
\<close>

datatype wire = Plain json_value | Objects "(string \<times> wire) list list"

type_synonym body = "(string \<times> wire) list"

record wire_env =
  wi_iso :: "int \<Rightarrow> string"
  wi_model :: "string \<Rightarrow> (string \<times> string option) list"
  wi_created_at :: "string \<Rightarrow> int option"
  wi_updated_at :: "string \<Rightarrow> int option"

definition wire_value :: "(int \<Rightarrow> string) \<Rightarrow> wire \<Rightarrow> wire" where
  "wire_value render v = (case v of Plain (JTime t) \<Rightarrow> Plain (JStr (render t)) | _ \<Rightarrow> v)"

definition wire_name :: "string \<times> string option \<Rightarrow> string" where
  "wire_name field = (case snd field of None \<Rightarrow> fst field | Some a \<Rightarrow> if a = [] then fst field else a)"

definition contract_payload :: "(int \<Rightarrow> string) \<Rightarrow> (string \<times> string option) list \<Rightarrow> body \<Rightarrow> body" where
  "contract_payload render model given_values =
     fold (\<lambda>field payload. case map_of given_values (wire_name field) of
         None \<Rightarrow> payload | Some v \<Rightarrow> dict_set (wire_name field) (wire_value render v) payload) model []"

record page_body =
  pb_data :: "body list"
  pb_next_cursor :: "nat list option"
  pb_has_more :: bool

definition contract_page :: "(int \<Rightarrow> string) \<Rightarrow> (string \<times> string option) list \<Rightarrow> body list \<Rightarrow> bool \<Rightarrow> nat list option \<Rightarrow> page_body" where
  "contract_page render model rows has_next cursor =
     \<lparr>pb_data = map (contract_payload render model) rows, pb_next_cursor = cursor, pb_has_more = has_next\<rparr>"

section \<open>The rows\<close>

definition jstr :: "string \<Rightarrow> wire" where "jstr t = Plain (JStr t)"
definition jint :: "int \<Rightarrow> wire" where "jint n = Plain (JInt n)"
definition jbool :: "bool \<Rightarrow> wire" where "jbool b = Plain (JBool b)"
definition or_null :: "('v \<Rightarrow> json_value) \<Rightarrow> 'v option \<Rightarrow> wire" where
  "or_null f v = Plain (case v of None \<Rightarrow> JNull | Some x \<Rightarrow> f x)"

definition direction_text :: "direction \<Rightarrow> string" where
  "direction_text d = (case d of Debit \<Rightarrow> ''debit'' | Credit \<Rightarrow> ''credit'')"

definition serialise_account :: "wire_env \<Rightarrow> account \<Rightarrow> body" where
  "serialise_account W a = contract_payload (wi_iso W) (wi_model W ''Account'')
    [(''id'', jstr (acct_id a)), (''object'', jstr ''account''), (''merchant_id'', or_null JStr (acct_merchant a)),
     (''type'', jstr (acct_type a)), (''currency'', jstr (acct_currency a)),
     (''normal_balance'', jstr (direction_text (acct_normal a))), (''status'', jstr (acct_status a)),
     (''livemode'', jbool (acct_livemode a)), (''created_at'', or_null JTime (wi_created_at W (acct_id a)))]"

definition serialise_entry :: "wire_env \<Rightarrow> ledger_entry \<Rightarrow> body" where
  "serialise_entry W e = contract_payload (wi_iso W) (wi_model W ''LedgerEntry'')
    [(''id'', jstr (le_id e)), (''object'', jstr ''ledger_entry''), (''transaction_id'', jstr (le_transaction e)),
     (''account_id'', jstr (le_account e)), (''direction'', jstr (direction_text (le_direction e))),
     (''amount_minor'', jint (le_amount e)), (''currency'', jstr (le_currency e)), (''sequence'', jint (int (le_sequence e))),
     (''created_at'', Plain (JTime (le_created_at e)))]"

definition serialise_transaction :: "wire_env \<Rightarrow> ledger_transaction \<Rightarrow> ledger_entry list \<Rightarrow> body" where
  "serialise_transaction W t es = contract_payload (wi_iso W) (wi_model W ''LedgerTransaction'')
    [(''id'', jstr (txn_id t)), (''object'', jstr ''ledger_transaction''), (''idempotency_key'', jstr (txn_key t)),
     (''request_fingerprint'', jstr (txn_fingerprint t)), (''purpose'', jstr (txn_purpose t)),
     (''merchant_id'', or_null JStr (txn_merchant t)), (''currency'', jstr (txn_currency t)), (''livemode'', jbool (txn_livemode t)),
     (''reference_type'', jstr (txn_reference_type t)), (''reference_id'', jstr (txn_reference_id t)),
     (''reverses_transaction_id'', or_null JStr (txn_reverses t)), (''created_by'', jstr (txn_created_by t)),
     (''posted_at'', Plain (JTime (txn_posted_at t))), (''entries'', Objects (map (serialise_entry W) es))]"

definition serialise_payout :: "wire_env \<Rightarrow> payout \<Rightarrow> body" where
  "serialise_payout W p = contract_payload (wi_iso W) (wi_model W ''Payout'')
    [(''id'', jstr (po_id p)), (''object'', jstr ''payout''), (''merchant_id'', jstr (po_merchant p)),
     (''bank_account_id'', jstr (po_bank_account p)), (''amount_minor'', jint (po_amount p)), (''currency'', jstr (po_currency p)),
     (''status'', jstr (po_status p)), (''method'', jstr (po_method p)), (''statement_descriptor'', jstr (po_descriptor p)),
     (''available_on'', jstr (iso_date (po_available_on p))),
     (''arrival_estimate'', or_null (\<lambda>d. JStr (iso_date d)) (po_arrival_estimate p)),
     (''initiated_at'', or_null JTime (po_initiated_at p)), (''paid_at'', or_null JTime (po_paid_at p)),
     (''failed_at'', or_null JTime (po_failed_at p)), (''returned_at'', or_null JTime (po_returned_at p)),
     (''failure_code'', or_null JStr (po_failure_code p)), (''ledger_transaction_id'', or_null JStr (po_ledger_transaction p)),
     (''reversal_transaction_id'', or_null JStr (po_reversal_transaction p)), (''livemode'', jbool (po_livemode p)),
     (''created_at'', Plain (JTime (po_created_at p))), (''source_amount_minor'', or_null JInt (po_source_amount p)),
     (''source_currency'', or_null JStr (po_source_currency p)), (''fx_rate'', or_null (\<lambda>r. JStr (format_rate r)) (po_fx_rate p))]"

definition serialise_batch :: "wire_env \<Rightarrow> settlement_batch \<Rightarrow> body" where
  "serialise_batch W b = contract_payload (wi_iso W) (wi_model W ''SettlementBatch'')
    [(''id'', jstr (sb_id b)), (''object'', jstr ''settlement_batch''), (''acquirer'', jstr (sb_acquirer b)),
     (''currency'', jstr (sb_currency b)), (''processing_date'', jstr (iso_date (sb_processing_date b))),
     (''file_reference'', jstr (sb_file_reference b)), (''status'', jstr (sb_status b)), (''item_count'', jint (sb_item_count b)),
     (''expected_total_minor'', jint (sb_expected_total_minor b)), (''posted_total_minor'', jint (sb_posted_total_minor b)),
     (''opened_at'', Plain (JTime (sb_opened_at b))), (''closed_at'', or_null JTime (sb_closed_at b)),
     (''funded_at'', or_null JTime (sb_funded_at b)), (''reconciled_at'', or_null JTime (sb_reconciled_at b))]"

definition serialise_item :: "wire_env \<Rightarrow> recon_item \<Rightarrow> body" where
  "serialise_item W r = contract_payload (wi_iso W) (wi_model W ''ReconciliationItem'')
    [(''id'', jstr (ri_id r)), (''object'', jstr ''reconciliation_item''), (''batch_id'', jstr (ri_batch r)),
     (''charge_id'', or_null JStr (ri_charge r)), (''merchant_id'', or_null JStr (ri_merchant r)), (''line_type'', jstr (ri_line_type r)),
     (''gross_minor'', jint (ri_gross_minor r)), (''fee_minor'', jint (ri_fee_minor r)),
     (''interchange_minor'', jint (ri_interchange_minor r)), (''scheme_fee_minor'', jint (ri_scheme_fee_minor r)),
     (''net_minor'', jint (ri_net_minor r)), (''expected_gross_minor'', or_null JInt (ri_expected_gross_minor r)),
     (''variance_minor'', jint (ri_variance_minor r)), (''currency'', jstr (ri_currency r)), (''livemode'', jbool (ri_livemode r)),
     (''acquirer_reference'', jstr (ri_acquirer_reference r)), (''match_method'', jstr (ri_match_method r)),
     (''matched_at'', or_null JTime (ri_matched_at r)), (''status'', jstr (ri_status r)),
     (''attempt_count'', jint (int (ri_attempt_count r))), (''last_error_code'', or_null JStr (ri_last_error_code r)),
     (''last_attempt_at'', or_null JTime (ri_last_attempt_at r)), (''next_attempt_at'', Plain (JTime (ri_next_attempt_at r))),
     (''settled_transaction_id'', or_null JStr (ri_settled_transaction r)), (''created_at'', Plain (JTime (ri_created_at r))),
     (''updated_at'', or_null JTime (wi_updated_at W (ri_id r)))]"

definition serialise_run :: "wire_env \<Rightarrow> recon_run \<Rightarrow> body" where
  "serialise_run W r = contract_payload (wi_iso W) (wi_model W ''ReconciliationRun'')
    [(''id'', jstr (rr_id r)), (''object'', jstr ''reconciliation_run''), (''batch_id'', jstr (rr_batch r)),
     (''trigger'', jstr (rr_trigger r)), (''status'', jstr (rr_status r)), (''items_total'', jint (int (rr_items_total r))),
     (''items_settled'', jint (int (rr_items_settled r))), (''items_failed'', jint (int (rr_items_failed r))),
     (''started_at'', Plain (JTime (rr_started_at r))), (''finished_at'', or_null JTime (rr_finished_at r)),
     (''error_summary'', or_null JStr (rr_error_summary r))]"

definition serialise_request :: "wire_env \<Rightarrow> adjustment_request \<Rightarrow> body" where
  "serialise_request W r = contract_payload (wi_iso W) (wi_model W ''LedgerAdjustmentRequest'')
    [(''id'', jstr (ar_id r)), (''object'', jstr ''ledger_adjustment_request''), (''merchant_id'', or_null JStr (ar_merchant r)),
     (''currency'', jstr (ar_currency r)), (''lines'', Objects (map (map (apsnd Plain)) (ar_lines r))),
     (''reason_code'', jstr (ar_reason_code r)), (''requested_by'', jstr (ar_requested_by r)),
     (''requested_at'', Plain (JTime (ar_requested_at r))), (''approved_by'', or_null JStr (ar_approved_by r)),
     (''approved_at'', or_null JTime (ar_approved_at r)), (''posted_transaction_id'', or_null JStr (ar_posted_transaction r)),
     (''status'', jstr (ar_status r))]"

section \<open>What a payload carries\<close>

text \<open>The fields of the contract that were supplied, under their wire names, and no others.\<close>

lemma payload_fold:
  "map_of (fold (\<lambda>field payload. case map_of vs (wire_name field) of
         None \<Rightarrow> payload | Some v \<Rightarrow> dict_set (wire_name field) (wire_value render v) payload) model acc) k
   = (if k \<in> set (map wire_name model) \<and> map_of vs k \<noteq> None then map_option (wire_value render) (map_of vs k) else map_of acc k)"
  by (induction model arbitrary: acc) (auto simp: map_of_dict_set split: option.splits)

lemma payload_reads: "map_of (contract_payload render model vs) k = (if k \<in> wire_name ` set model then map_option (wire_value render) (map_of vs k) else None)"
  by (auto simp: contract_payload_def payload_fold)

end
