(* ===== verification/Routes.thy ===== *)
theory Routes
  imports Wire Edge Funding
begin

text \<open>
  The routers of \<^verbatim>\<open>src/app/api/routers\<close>, over the services. A request runs in one transaction, which an
  exception rolls back (\<^verbatim>\<open>in_session\<close>); an answer is its status and its body. The checks FastAPI makes of a path, a
  query or a body before the handler runs are outside: a handler is applied to what they let through.
  Starting and retrying reconciliations, recording a funding, the manual match and the invoice routes are in the
  theories of their services.
\<close>

record 'b answer =
  an_status :: nat
  an_body :: 'b

definition ok :: "'b \<Rightarrow> 'b answer" where "ok b = \<lparr>an_status = 200, an_body = b\<rparr>"
definition made :: "'b \<Rightarrow> 'b answer" where "made b = \<lparr>an_status = 201, an_body = b\<rparr>"
definition accepted :: "'b \<Rightarrow> 'b answer" where "accepted b = \<lparr>an_status = 202, an_body = b\<rparr>"

lemmas answer_simps = ok_def made_def accepted_def

definition in_session :: "('x \<times> 's) res \<Rightarrow> 's \<Rightarrow> 'x res \<times> 's" where
  "in_session r s = (case r of Inl e \<Rightarrow> (Inl e, s) | Inr (x, s') \<Rightarrow> (Inr x, s'))"

lemma in_session_simps [simp]: "in_session (Inl e) s = (Inl e, s)" "in_session (Inr (x, s')) s = (Inr x, s')"
  by (simp_all add: in_session_def)

lemma in_session_Inl: "in_session r s = (Inl e, s1) \<longleftrightarrow> r = Inl e \<and> s1 = s"
  by (auto simp: in_session_def split: sum.splits)

lemma in_session_Inr: "in_session r s = (Inr x, s1) \<longleftrightarrow> r = Inr (x, s1)"
  by (auto simp: in_session_def split: sum.splits)

section \<open>Transactions\<close>

record wire_line =
  wl_account_type :: string
  wl_direction :: direction
  wl_amount_minor :: int

text \<open>
  The fields of \<^verbatim>\<open>PostTransactionRequest\<close> that the route reads. The class is generated; \<^verbatim>\<open>pt_other\<close> is what \<^verbatim>\<open>getattr\<close>
  finds in it under the names that are not among them.
\<close>

record post_body =
  pt_key :: string
  pt_purpose :: string
  pt_merchant :: "string option"
  pt_currency :: string
  pt_livemode :: bool
  pt_reference_type :: string
  pt_reference_id :: string
  pt_lines :: "wire_line list"
  pt_other :: "string \<Rightarrow> json_value"

definition to_lines :: "post_body \<Rightarrow> posting_line list" where
  "to_lines b = map (\<lambda>l. \<lparr>account_type = wl_account_type l, direction = wl_direction l, line_amount = wl_amount_minor l\<rparr>) (pt_lines b)"

text \<open>\<^verbatim>\<open>fingerprint_of\<close> of a request: the attributes of a settlement line, as far as the request has them.\<close>

definition body_attr :: "post_body \<Rightarrow> string \<Rightarrow> json_value" where
  "body_attr b name = (if name = ''merchant_id'' then opt_str (pt_merchant b) else if name = ''currency'' then JStr (pt_currency b)
     else if name = ''livemode'' then JBool (pt_livemode b) else pt_other b name)"

definition fingerprint_of_body :: "'e recon_env_scheme \<Rightarrow> post_body \<Rightarrow> string" where
  "fingerprint_of_body E b = env_digest E
     [(''batch_id'', body_attr b ''batch_id''), (''item_id'', body_attr b ''id''), (''charge_id'', body_attr b ''charge_id''),
      (''merchant_id'', body_attr b ''merchant_id''), (''line_type'', body_attr b ''line_type''), (''currency'', body_attr b ''currency''),
      (''livemode'', body_attr b ''livemode''), (''gross_minor'', body_attr b ''gross_minor''), (''fee_minor'', body_attr b ''fee_minor''),
      (''net_minor'', body_attr b ''net_minor''), (''interchange_minor'', body_attr b ''interchange_minor''),
      (''scheme_fee_minor'', body_attr b ''scheme_fee_minor''), (''acquirer_reference'', body_attr b ''acquirer_reference'')]"

definition request_of :: "'e recon_env_scheme \<Rightarrow> post_body \<Rightarrow> string \<Rightarrow> on_conflict \<Rightarrow> post_request" where
  "request_of E b created_by policy = \<lparr>pr_key = pt_key b, pr_purpose = pt_purpose b, pr_merchant = pt_merchant b,
     pr_currency = pt_currency b, pr_livemode = pt_livemode b, pr_reference_type = pt_reference_type b,
     pr_reference_id = pt_reference_id b, pr_lines = to_lines b, pr_created_by = created_by,
     pr_fingerprint = fingerprint_of_body E b, pr_on_conflict = policy\<rparr>"

definition shown :: "wire_env \<Rightarrow> ledger_transaction \<Rightarrow> 'a ledger_scheme \<Rightarrow> body" where
  "shown W t s = serialise_transaction W t (list_for_transaction (txn_id t) s)"

definition post_transaction :: "'e recon_env_scheme \<Rightarrow> wire_env \<Rightarrow> string \<Rightarrow> post_body \<Rightarrow> 'a ledger_scheme \<Rightarrow> body answer res \<times> 'a ledger_scheme" where
  "post_transaction E W caller b s = in_session
     (bindE (post (books_env E) (request_of E b (if caller = ''payzeno-api'' then ''system'' else ''admin'') RaiseConflict) s) (\<lambda>(res, s1).
        let payload = shown W (result_transaction res) s1 in Inr (if result_created res then made payload else ok payload, s1))) s"

text \<open>\<^verbatim>\<open>entries[row.id]\<close> raises \<^verbatim>\<open>KeyError\<close> for a transaction that is not in the dict.\<close>

definition legs_in :: "string \<Rightarrow> (string \<times> ledger_entry list) list \<Rightarrow> ledger_entry list res" where
  "legs_in i grouped = (case map_of grouped i of None \<Rightarrow> raise KeyError | Some es \<Rightarrow> Inr es)"

definition list_transactions :: "wire_env \<Rightarrow> collation \<Rightarrow> int option \<Rightarrow> string option \<Rightarrow> string option \<Rightarrow> string option \<Rightarrow> string option
    \<Rightarrow> cursor option \<Rightarrow> 'a ledger_scheme \<Rightarrow> page_body answer res" where
  "list_transactions W lt limit m ref_type ref_id p cursor s =
     bindE (page_transactions lt cursor limit m ref_type ref_id p s) (\<lambda>page.
     let grouped = list_for_transactions (map txn_id (page_items page)) s in
     bindE (traverse (\<lambda>t. mapE (serialise_transaction W t) (legs_in (txn_id t) grouped)) (page_items page)) (\<lambda>rows.
       Inr (ok (contract_page (wi_iso W) (wi_model W ''LedgerTransaction'') rows (has_more page) (next_cursor page)))))"

definition get_transaction :: "wire_env \<Rightarrow> string \<Rightarrow> 'a ledger_scheme \<Rightarrow> body answer res" where
  "get_transaction W i s = bindE (get_transaction_or_raise i s) (\<lambda>t. Inr (ok (serialise_transaction W t (list_for_transaction i s))))"

definition reverse_transaction :: "'e recon_env_scheme \<Rightarrow> wire_env \<Rightarrow> string \<Rightarrow> string \<Rightarrow> 'a ledger_scheme \<Rightarrow> body answer res \<times> 'a ledger_scheme" where
  "reverse_transaction E W i key s = in_session
     (bindE (get_transaction_or_raise i s) (\<lambda>original.
        if txn_reverses original \<noteq> None then raise ValidationError
        else bindE (reverse (books_env E) original key ''admin'' s) (\<lambda>(res, s1).
               Inr (made (shown W (result_transaction res) s1), s1)))) s"

fun post_each :: "'e recon_env_scheme \<Rightarrow> post_body list \<Rightarrow> 'a ledger_scheme \<Rightarrow> (string list \<times> 'a ledger_scheme) res" where
  "post_each E [] s = Inr ([], s)"
| "post_each E (b # bs) s = bindE (post (books_env E) (request_of E b ''system'' ReturnExisting) s) (\<lambda>(res, s1).
     bindE (post_each E bs s1) (\<lambda>(ids, s2). Inr (txn_id (result_transaction res) # ids, s2)))"

definition post_transactions_bulk :: "'e recon_env_scheme \<Rightarrow> post_body list \<Rightarrow> 'a ledger_scheme \<Rightarrow> (nat \<times> string list) answer res \<times> 'a ledger_scheme" where
  "post_transactions_bulk E bs s = in_session (mapE (\<lambda>(ids, s1). (made (length ids, ids), s1)) (post_each E bs s)) s"

section \<open>Accounts, balances and entries\<close>

text \<open>\<^verbatim>\<open>created\<close> counts the accounts whose creation time is not before the start of the request.\<close>

definition bootstrap_accounts :: "'e recon_env_scheme \<Rightarrow> wire_env \<Rightarrow> int \<Rightarrow> string \<Rightarrow> string \<Rightarrow> bool \<Rightarrow> 'a ledger_scheme
    \<Rightarrow> (body list \<times> nat) answer res \<times> 'a ledger_scheme" where
  "bootstrap_accounts E W started_at m c l s = in_session
     (bindE (bootstrap (books_env E) m c l s) (\<lambda>(as, s1).
        let fresh = (\<lambda>a. case wi_created_at W (acct_id a) of None \<Rightarrow> False | Some t \<Rightarrow> started_at \<le> t) in
        Inr (made (map (serialise_account W) as, length (filter fresh as)), s1))) s"

definition list_accounts_route :: "wire_env \<Rightarrow> string option \<Rightarrow> string option \<Rightarrow> string option \<Rightarrow> bool \<Rightarrow> 'a ledger_scheme \<Rightarrow> body list answer" where
  "list_accounts_route W m c t l s = ok (map (serialise_account W) (list_accounts m c t l s))"

definition freeze_account :: "'e recon_env_scheme \<Rightarrow> wire_env \<Rightarrow> string \<Rightarrow> 'a ledger_scheme \<Rightarrow> body answer res \<times> 'a ledger_scheme" where
  "freeze_account E W i s = in_session (mapE (\<lambda>(a, s1). (ok (serialise_account W a), s1)) (freeze (books_env E) i s)) s"

datatype balance_answer = OneBalance balance | Balances "balance list"

definition get_balance_route :: "int \<Rightarrow> string \<Rightarrow> string option \<Rightarrow> int option \<Rightarrow> bool \<Rightarrow> 'a ledger_scheme \<Rightarrow> balance_answer answer" where
  "get_balance_route now m c as_of l s = (case c of
     None \<Rightarrow> ok (Balances (list_balances now m l as_of s))
   | Some x \<Rightarrow> ok (OneBalance (get_balance now m (upper x) l as_of s)))"

definition HISTORY_INTERVALS :: "string list" where "HISTORY_INTERVALS = [''hour'', ''day'']"
definition MAX_HISTORY_DAYS :: int where "MAX_HISTORY_DAYS = 400"
definition MAX_WINDOW_DAYS :: int where "MAX_WINDOW_DAYS = 92"

definition get_balance_history_route :: "string \<Rightarrow> string \<Rightarrow> int \<Rightarrow> int \<Rightarrow> string \<Rightarrow> bool \<Rightarrow> 'a ledger_scheme
    \<Rightarrow> (int \<times> int \<times> nat) list answer res" where
  "get_balance_history_route m c start stop interval l s =
    (if interval \<notin> set HISTORY_INTERVALS then raise ValidationError
     else if stop \<le> start then raise ValidationError
     else if MAX_HISTORY_DAYS < (stop - start) div DAY then raise ValidationError
     else mapE ok (get_balance_history m (upper c) l start stop interval s))"

definition list_entries :: "wire_env \<Rightarrow> collation \<Rightarrow> int option \<Rightarrow> string \<Rightarrow> int option \<Rightarrow> int option \<Rightarrow> cursor option \<Rightarrow> 'a ledger_scheme
    \<Rightarrow> page_body answer res" where
  "list_entries W lt limit account start stop cursor s =
     bindE (case (start, stop) of
         (Some x, Some y) \<Rightarrow> if y \<le> x then raise ValidationError else if MAX_WINDOW_DAYS < (y - x) div DAY then raise ValidationError else Inr ()
       | _ \<Rightarrow> Inr ()) (\<lambda>_.
     bindE (page_entries lt cursor limit account start stop s) (\<lambda>page.
       Inr (ok (contract_page (wi_iso W) (wi_model W ''LedgerEntry'') (map (serialise_entry W) (page_items page)) (has_more page) (next_cursor page)))))"

section \<open>Payouts\<close>

definition list_payouts :: "wire_env \<Rightarrow> collation \<Rightarrow> int option \<Rightarrow> string option \<Rightarrow> string option \<Rightarrow> string option \<Rightarrow> cursor option
    \<Rightarrow> 'a db_scheme \<Rightarrow> page_body answer res" where
  "list_payouts W lt limit m st c cursor s = bindE (page_payouts lt cursor limit m st c s) (\<lambda>page.
     Inr (ok (contract_page (wi_iso W) (wi_model W ''Payout'') (map (serialise_payout W) (page_items page)) (has_more page) (next_cursor page))))"

definition get_payout :: "wire_env \<Rightarrow> string \<Rightarrow> 'a db_scheme \<Rightarrow> body answer res" where
  "get_payout W i s = mapE (\<lambda>p. ok (serialise_payout W p)) (get_payout_or_raise i s)"

text \<open>\<^verbatim>\<open>str(body.get('merchant_id') or '').strip()\<close>: zero, \<^verbatim>\<open>False\<close> and the empty text count as missing.\<close>

definition body_merchant :: "json_value option \<Rightarrow> string" where
  "body_merchant v = (case v of None \<Rightarrow> [] | Some (JInt n) \<Rightarrow> if n = 0 then [] else str_int n
     | Some (JBool b) \<Rightarrow> if b then ''True'' else [] | Some (JStr t) \<Rightarrow> strip t | Some JNull \<Rightarrow> [] | Some _ \<Rightarrow> ''[]'')"

definition create_payout_route :: "'e service_env_scheme \<Rightarrow> wire_env \<Rightarrow> json_value option \<Rightarrow> payout_req \<Rightarrow> fx_cache \<Rightarrow> 'a db_scheme
    \<Rightarrow> body answer res \<times> 'a db_scheme \<times> fx_cache" where
  "create_payout_route E W merchant req cache s = (let m = body_merchant merchant in
     if m = [] then (raise ValidationError, s, cache)
     else (case create_payout E m req cache s of (r, cache') \<Rightarrow>
       (case in_session (mapE (\<lambda>(p, s1). (made (serialise_payout W p), s1)) r) s of (out, s1) \<Rightarrow> (out, s1, cache'))))"

definition cancel_payout_route :: "'e service_env_scheme \<Rightarrow> wire_env \<Rightarrow> string \<Rightarrow> 'a db_scheme \<Rightarrow> body answer res \<times> 'a db_scheme" where
  "cancel_payout_route E W i s = in_session (mapE (\<lambda>(p, s1). (ok (serialise_payout W p), s1)) (cancel_payout E i s)) s"

definition mark_paid_route :: "'e service_env_scheme \<Rightarrow> wire_env \<Rightarrow> string \<Rightarrow> int \<Rightarrow> string \<Rightarrow> 'a db_scheme \<Rightarrow> body answer res \<times> 'a db_scheme" where
  "mark_paid_route E W i paid_at reference s = in_session (mapE (\<lambda>(p, s1). (ok (serialise_payout W p), s1)) (mark_paid E i paid_at reference s)) s"

definition mark_failed_route :: "'e service_env_scheme \<Rightarrow> wire_env \<Rightarrow> string \<Rightarrow> string \<Rightarrow> string \<Rightarrow> 'a db_scheme \<Rightarrow> body answer res \<times> 'a db_scheme" where
  "mark_failed_route E W i code message s = in_session (mapE (\<lambda>(p, s1). (ok (serialise_payout W p), s1)) (mark_failed E i code message s)) s"

section \<open>Settlement batches\<close>

definition list_batches :: "wire_env \<Rightarrow> collation \<Rightarrow> int option \<Rightarrow> string option \<Rightarrow> string option \<Rightarrow> string option \<Rightarrow> string option
    \<Rightarrow> cursor option \<Rightarrow> 'a recon_db_scheme \<Rightarrow> page_body answer res" where
  "list_batches W lt limit m c st acquirer cursor s = bindE (page_batches lt cursor limit m c st acquirer s) (\<lambda>page.
     Inr (ok (contract_page (wi_iso W) (wi_model W ''SettlementBatch'') (map (serialise_batch W) (page_items page)) (has_more page) (next_cursor page))))"

text \<open>The merchant of the query is ignored.\<close>

definition get_batch :: "wire_env \<Rightarrow> string \<Rightarrow> string option \<Rightarrow> 'a recon_db_scheme \<Rightarrow> body answer res" where
  "get_batch W i m s = mapE (\<lambda>b. ok (serialise_batch W b)) (get_batch_or_raise i s)"

definition open_batch_route :: "'e recon_env_scheme \<Rightarrow> wire_env \<Rightarrow> string \<Rightarrow> string \<Rightarrow> date \<Rightarrow> string \<Rightarrow> bool \<Rightarrow> 'a recon_db_scheme
    \<Rightarrow> body answer res \<times> 'a recon_db_scheme" where
  "open_batch_route E W acquirer c d reference l s =
     in_session (mapE (\<lambda>(b, s1). (made (serialise_batch W b), s1)) (open_batch E acquirer c d reference l s)) s"

definition close_batch_route :: "'e recon_env_scheme \<Rightarrow> wire_env \<Rightarrow> string \<Rightarrow> 'a recon_db_scheme \<Rightarrow> body answer res \<times> 'a recon_db_scheme" where
  "close_batch_route E W i s = in_session (mapE (\<lambda>(b, s1). (ok (serialise_batch W b), s1)) (close_batch E i s)) s"

definition list_items :: "wire_env \<Rightarrow> collation \<Rightarrow> int option \<Rightarrow> string \<Rightarrow> string \<Rightarrow> string option \<Rightarrow> string option \<Rightarrow> cursor option
    \<Rightarrow> 'a recon_db_scheme \<Rightarrow> page_body answer res" where
  "list_items W lt limit batch m st kind cursor s = bindE (page_items_of_batch lt cursor limit batch m st kind s) (\<lambda>page.
     Inr (ok (contract_page (wi_iso W) (wi_model W ''ReconciliationItem'') (map (serialise_item W) (page_items page)) (has_more page) (next_cursor page))))"

definition record_funding_route :: "'e recon_env_scheme \<Rightarrow> wire_env \<Rightarrow> string \<Rightarrow> string \<Rightarrow> int \<Rightarrow> date \<Rightarrow> 'a funding_db_scheme
    \<Rightarrow> body answer res \<times> 'a funding_db_scheme" where
  "record_funding_route E W batch reference amount d s =
     in_session (mapE (\<lambda>(b, s1). (ok (serialise_batch W b), s1)) (record_funding E batch reference amount d s)) s"

definition import_legacy_route :: "'e recon_env_scheme \<Rightarrow> match_strategy list \<Rightarrow> string \<Rightarrow> date \<Rightarrow> string \<Rightarrow> legacy_record list \<Rightarrow> 'a recon_db_scheme
    \<Rightarrow> (string \<times> nat) answer res \<times> 'a recon_db_scheme" where
  "import_legacy_route E strategies acquirer d reference records s =
     in_session (mapE (\<lambda>(i, n, s1). (accepted (i, n), s1)) (import_legacy_records E strategies acquirer d reference records s)) s"

section \<open>Reconciliation and operations\<close>

definition get_run :: "wire_env \<Rightarrow> string \<Rightarrow> 'a recon_db_scheme \<Rightarrow> body answer res" where
  "get_run W i s = (case find_run i s of None \<Rightarrow> raise NotFoundError | Some r \<Rightarrow> Inr (ok (serialise_run W r)))"

definition get_backlog_route :: "string option \<Rightarrow> string option \<Rightarrow> 'a recon_db_scheme \<Rightarrow> backlog_summary answer" where
  "get_backlog_route c b s = ok (summary c b s)"

definition run_trial_balance_route :: "'e recon_env_scheme \<Rightarrow> wire_env \<Rightarrow> string \<Rightarrow> int option \<Rightarrow> 'a ledger_scheme
    \<Rightarrow> body answer res \<times> 'a ledger_scheme" where
  "run_trial_balance_route E W c as_of s = (case run_trial_balance (books_env E) c as_of s of
     (Inl e, s1) \<Rightarrow> (Inl e, s1)
   | (Inr r, s1) \<Rightarrow> (Inr (ok (contract_payload (wi_iso W) (wi_model W ''TrialBalanceResult'')
       [(''object'', jstr ''trial_balance''), (''currency'', jstr (tr_currency r)), (''balanced'', jbool (tr_balanced r)),
        (''delta_minor'', jint (result_delta_minor r)), (''debit_total_minor'', jint (tr_debit_minor r)),
        (''credit_total_minor'', jint (tr_credit_minor r)), (''as_of'', Plain (JTime (tr_as_of r)))])), s1))"

definition request_adjustment_route :: "'e recon_env_scheme \<Rightarrow> wire_env \<Rightarrow> string option \<Rightarrow> string \<Rightarrow> (string \<times> json_value) list list \<Rightarrow> string \<Rightarrow> string
    \<Rightarrow> 'a db_scheme \<Rightarrow> body answer res \<times> 'a db_scheme" where
  "request_adjustment_route E W m c lines reason staff s =
    (if lines = [] then (raise ValidationError, s)
     else in_session (mapE (\<lambda>(r, s1). (made (serialise_request W r), s1)) (request_adjustment (books_env E) m c lines reason staff s)) s)"

definition approve_adjustment_route :: "'e recon_env_scheme \<Rightarrow> wire_env \<Rightarrow> string \<Rightarrow> string \<Rightarrow> 'a db_scheme \<Rightarrow> body answer res \<times> 'a db_scheme" where
  "approve_adjustment_route E W i staff s =
     in_session (mapE (\<lambda>(r, s1). (ok (serialise_request W r), s1)) (approve_adjustment (service_of E) i staff s)) s"

section \<open>Probes\<close>

definition READINESS_BUDGET_MS :: nat where "READINESS_BUDGET_MS = 1000"

text \<open>The round trip of \<^verbatim>\<open>SELECT 1\<close> is an argument: how long it took, or \<^verbatim>\<open>None\<close> when it raised.\<close>

definition healthz :: "string \<Rightarrow> (string \<times> string) list answer" where
  "healthz version = ok [(''status'', ''ok''), (''service'', ''payzeno-ledger''), (''version'', version)]"

definition readyz :: "nat option \<Rightarrow> (string \<times> string) answer" where
  "readyz round_trip = (let database = (case round_trip of None \<Rightarrow> ''unavailable''
        | Some ms \<Rightarrow> if ms \<le> READINESS_BUDGET_MS then ''ok'' else ''slow'') in
     if database = ''ok'' then ok (''ok'', database) else \<lparr>an_status = 503, an_body = (''degraded'', database)\<rparr>)"

end
