(* ===== verification/Jobs.thy ===== *)
theory Jobs
  imports Routes
begin

text \<open>
  The periodic jobs: the wrapper of \<^verbatim>\<open>src/app/workers/base.py\<close> around \<^verbatim>\<open>run_once\<close>, the registry of
  \<^verbatim>\<open>src/app/workers/__init__.py\<close> and \<^verbatim>\<open>POST /internal/v1/ops/jobs/{name}/run\<close>. A job is its name, its interval and
  its pass over the database. The lock of a job makes its ticks in one process take turns, so a run of ticks is a
  sequence. How long a pass took and the text of an exception are arguments. The trigger of the scheduler's
  package is a parameter.
\<close>

section \<open>One tick\<close>

record job_result =
  jr_name :: string
  jr_items_processed :: nat
  jr_duration_ms :: int
  jr_error :: "string option"

record 's periodic_job =
  pj_name :: string
  pj_interval_seconds :: int
  pj_run_once :: "'s \<Rightarrow> nat res \<times> 's"

text \<open>\<^verbatim>\<open>_result\<close>, the result of a pass that returned.\<close>

definition job_done :: "'s periodic_job \<Rightarrow> int \<Rightarrow> nat \<Rightarrow> job_result" where
  "job_done j ms n = \<lparr>jr_name = pj_name j, jr_items_processed = n, jr_duration_ms = ms, jr_error = None\<rparr>"

definition tick :: "(error \<Rightarrow> string) \<Rightarrow> int \<Rightarrow> 's periodic_job \<Rightarrow> 's \<Rightarrow> job_result \<times> 's" where
  "tick exn_text ms j s = (case pj_run_once j s of
     (Inr n, s1) \<Rightarrow> (job_done j ms n, s1)
   | (Inl e, s1) \<Rightarrow> (\<lparr>jr_name = pj_name j, jr_items_processed = 0, jr_duration_ms = ms,
        jr_error = Some (if caught_by e PayzenoLedgerError then err_code e else take 200 (exn_text e))\<rparr>, s1))"

fun ticks :: "(error \<Rightarrow> string) \<Rightarrow> (int \<times> 's periodic_job) list \<Rightarrow> 's \<Rightarrow> job_result list \<times> 's" where
  "ticks exn_text [] s = ([], s)"
| "ticks exn_text ((ms, j) # js) s = (case tick exn_text ms j s of (r, s1) \<Rightarrow>
     (case ticks exn_text js s1 of (rs, s2) \<Rightarrow> (r # rs, s2)))"

section \<open>The registry\<close>

definition JOB_ATTRIBUTES :: "string list" where
  "JOB_ATTRIBUTES = [''reconciliation_sweep_job'', ''retry_drain_job'', ''settlement_import_job'', ''batch_close_job'',
     ''funding_match_job'', ''deferred_capture_job'', ''payout_sweep_job'', ''payout_scheduler_job'', ''reserve_release_job'',
     ''negative_balance_job'', ''ledger_audit_job'', ''outbox_drain_job'']"

definition jobs_by_name :: "(string \<Rightarrow> 's periodic_job option) \<Rightarrow> (string \<times> 's periodic_job) list" where
  "jobs_by_name container = fold (\<lambda>a jobs. case container a of None \<Rightarrow> jobs | Some j \<Rightarrow> dict_set (pj_name j) j jobs) JOB_ATTRIBUTES []"

definition register_jobs :: "(string \<Rightarrow> 's periodic_job option) \<Rightarrow> 's periodic_job list" where
  "register_jobs container = filter (\<lambda>j. 0 < pj_interval_seconds j) (concat (map (\<lambda>a. case container a of None \<Rightarrow> [] | Some j \<Rightarrow> [j]) JOB_ATTRIBUTES))"

definition run_job :: "(error \<Rightarrow> string) \<Rightarrow> int \<Rightarrow> (string \<times> 's periodic_job) list \<Rightarrow> string \<Rightarrow> 's \<Rightarrow> job_result answer res \<times> 's" where
  "run_job exn_text ms jobs name s = (case map_of jobs name of
     None \<Rightarrow> (raise NotFoundError, s)
   | Some j \<Rightarrow> (case tick exn_text ms j s of (r, s1) \<Rightarrow> (Inr (ok r), s1)))"

section \<open>The next slot\<close>

text \<open>\<^verbatim>\<open>CatchUpIntervalTrigger.get_next_fire_time\<close> over the trigger of the package, called with the last fire time and now.\<close>

definition next_fire_time :: "(int option \<Rightarrow> int \<Rightarrow> int) \<Rightarrow> int \<Rightarrow> int option \<Rightarrow> int \<Rightarrow> int" where
  "next_fire_time base interval previous now = base (case previous of None \<Rightarrow> None
     | Some p \<Rightarrow> if interval < now - p then None else Some p) now"

text \<open>What the package documents: the slot after a fire time, and from no fire time the first slot from now on.\<close>

definition interval_trigger :: "int \<Rightarrow> int \<Rightarrow> int option \<Rightarrow> int \<Rightarrow> int" where
  "interval_trigger start interval previous now = (case previous of Some p \<Rightarrow> p + interval
   | None \<Rightarrow> if now \<le> start then start else start + ((now - start + interval - 1) div interval) * interval)"

lemma first_slot:
  assumes "0 < interval" "start \<le> now"
  shows "now \<le> interval_trigger start interval None now \<and> interval_trigger start interval None now < now + interval"
proof -
  define q where "q = (now - start + interval - 1) div interval"
  have "q * interval + (now - start + interval - 1) mod interval = now - start + interval - 1" by (simp add: q_def)
  moreover have "0 \<le> (now - start + interval - 1) mod interval" "(now - start + interval - 1) mod interval < interval" using assms(1) by simp_all
  ultimately have "now \<le> start + q * interval" "start + q * interval < now + interval" by linarith+
  then show ?thesis using assms by (auto simp: interval_trigger_def q_def [symmetric])
qed

section \<open>Ticks never raise\<close>

lemma tick_name: "jr_name (fst (tick msg ms j s)) = pj_name j"
  by (auto simp: tick_def job_done_def split: prod.split sum.split)

lemma tick_state: "snd (tick msg ms j s) = snd (pj_run_once j s)"
  by (auto simp: tick_def split: prod.split sum.split)

lemma tick_ok_iff: "jr_error (fst (tick msg ms j s)) = None \<longleftrightarrow> is_ok (fst (pj_run_once j s))"
  by (auto simp: tick_def job_done_def is_ok_def split: prod.split sum.split)

lemma ticks_length: "length (fst (ticks msg js s)) = length js"
  by (induction msg js s rule: ticks.induct) (auto split: prod.split)

text \<open>A job that keeps a property of the database keeps it on every tick, whether its pass returns or raises.\<close>

lemma ticks_keep:
  assumes "\<forall>(ms, j)\<in>set js. \<forall>s. P s \<longrightarrow> P (snd (pj_run_once j s))" "P s"
  shows "P (snd (ticks msg js s))"
  using assms
proof (induction msg js s rule: ticks.induct)
  case (2 msg ms j js s)
  then have "P (snd (tick msg ms j s))" by (simp add: tick_state)
  with 2 show ?case by (auto split: prod.split)
qed simp

lemma map_of_fold_names:
  assumes "inj_on (\<lambda>a. map_option pj_name (container a)) {a \<in> set as. container a \<noteq> None}" "distinct as" "a \<in> set as" "container a = Some j"
  shows "map_of (fold (\<lambda>a jobs. case container a of None \<Rightarrow> jobs | Some j \<Rightarrow> dict_set (pj_name j) j jobs) as g) (pj_name j) = Some j"
  using assms
proof (induction as arbitrary: g)
  case (Cons b bs)
  have keep: "map_of (fold (\<lambda>a jobs. case container a of None \<Rightarrow> jobs | Some j \<Rightarrow> dict_set (pj_name j) j jobs) cs g') n = map_of g' n"
    if "\<forall>c\<in>set cs. \<forall>i. container c = Some i \<longrightarrow> pj_name i \<noteq> n" for cs g' n
    using that by (induction cs arbitrary: g') (auto simp: map_of_dict_set split: option.split)
  show ?case
  proof (cases "a = b")
    case True
    have "\<forall>c\<in>set bs. \<forall>i. container c = Some i \<longrightarrow> pj_name i \<noteq> pj_name j"
      using Cons.prems True by (auto simp: inj_on_def) (metis option.simps(9))
    then show ?thesis using True Cons.prems(4) by (simp add: keep map_of_dict_set)
  next
    case False
    then show ?thesis using Cons.IH [of "case container b of None \<Rightarrow> g | Some j \<Rightarrow> dict_set (pj_name j) j g"] Cons.prems
      by (auto simp: inj_on_def)
  qed
qed simp

end
