(* ===== verification/Routes_Inv.thy ===== *)
theory Routes_Inv
  imports Jobs
begin

text \<open>
  What the routes promise. Whatever is requested, the books take steps, and they only grow: no step changes a transaction or its legs, so what a posting answered
  is what a later read answers. A key that was posted is refused ever after, the same body included; a bulk
  request may be repeated. A page of transactions carries the legs each transaction has.
\<close>

section \<open>The books only grow\<close>

definition appends :: "'a ledger_scheme \<Rightarrow> 'a ledger_scheme \<Rightarrow> bool" where
  "appends s s' \<longleftrightarrow> (\<exists>ts es. transactions s' = transactions s @ ts \<and> entries s' = entries s @ es
     \<and> (\<forall>e\<in>set es. le_transaction e \<notin> txn_id ` set (transactions s)))"

lemma appends_refl: "transactions s' = transactions s \<Longrightarrow> entries s' = entries s \<Longrightarrow> appends s s'"
  by (simp add: appends_def)

lemma appends_trans: "appends s s1 \<Longrightarrow> appends s1 s2 \<Longrightarrow> appends s s2"
  by (fastforce simp: appends_def)

lemma posted_appends:
  assumes "posted E r t es s s'" shows "appends s s'"
proof -
  have "\<forall>e\<in>set es. le_transaction e = txn_id t"
    using arg_cong [OF posted_rows(4) [OF assms], of "map fst"] by (auto simp: list_eq_iff_nth_eq in_set_conv_nth)
  moreover have "txn_id t \<notin> txn_id ` set (transactions s)" using assms by (simp add: posted_def)
  ultimately show ?thesis using posted_rows(1,3) [OF assms] by (auto simp: appends_def)
qed

lemma same_books_appends: "same_books s s' \<Longrightarrow> appends s s'"
  by (rule appends_refl) (simp_all add: same_books_def)

lemma post_appends: "post E r s = Inr (res, s') \<Longrightarrow> accounts_ok s \<Longrightarrow> appends s s'"
  by (cases "result_created res") (auto dest: post_created post_existing(1) intro: posted_appends same_books_appends)

lemma update_where_other: "\<forall>x\<in>set xs. \<not> P x \<Longrightarrow> update_where P f xs = xs"
  by (induction xs) (auto simp: update_where_def)

lemma reverse_appends:
  assumes "reverse E t key by s = Inr (res, s')" "accounts_ok s" shows "appends s s'"
proof -
  obtain r res0 s1 where p: "post E r s = Inr (res0, s1)" "pr_on_conflict r = RaiseConflict"
    and s': "s' = s1\<lparr>transactions := update_where (\<lambda>x. txn_id x = txn_id (result_transaction res0))
        (\<lambda>x. x\<lparr>txn_reverses := Some (txn_id t)\<rparr>) (transactions s1)\<rparr>"
    using assms(1) by (auto simp: reverse_def bindE_Inr_iff Let_def)
  have "result_created res0" using post_existing(3) [OF p(1)] p(2) by auto
  then obtain es where po: "posted E r (result_transaction res0) es s s1" using post_created [OF p(1)] assms(2) by blast
  have "\<forall>x\<in>set (transactions s). txn_id x \<noteq> txn_id (result_transaction res0)" proof -
    have "txn_id (result_transaction res0) \<notin> txn_id ` set (transactions s)" using po unfolding posted_def by (elim conjE)
    then show ?thesis by (metis imageI)
  qed
  then have "transactions s' = transactions s @ [(result_transaction res0)\<lparr>txn_reverses := Some (txn_id t)\<rparr>]"
    using posted_rows(1) [OF po] update_where_other by (simp add: s' update_where_def)
  moreover have "entries s' = entries s1" by (simp add: s')
  ultimately show ?thesis using posted_appends [OF po] posted_rows(1) [OF po] by (auto simp: appends_def)
qed

lemma bootstrap_types_rows: "bootstrap_types E ts m c l s = Inr (as, s') \<Longrightarrow> transactions s' = transactions s \<and> entries s' = entries s"
  by (induction ts arbitrary: s as) (auto simp: bindE_Inr_iff dest: resolver.resolve_frame)

lemma step_appends:
  assumes "ledger_step s s'" "accounts_ok s" shows "appends s s'"
  using assms
proof cases
  case step_resolve
  then show ?thesis using resolver.resolve_frame by (blast intro: appends_refl)
next
  case step_bootstrap
  then show ?thesis using bootstrap_types_rows unfolding bootstrap_def by (blast intro: appends_refl)
next
  case step_freeze
  then show ?thesis by (auto simp: freeze_def Let_def update_account_def split: option.splits if_splits intro: appends_refl)
next
  case step_status
  then show ?thesis by (auto simp: set_status_def bindE_Inr_iff update_account_def intro: appends_refl)
next
  case step_publish
  then show ?thesis using publish_same(1) by (blast intro: same_books_appends)
qed (use assms(2) in \<open>auto intro: post_appends reverse_appends\<close>)

lemma steps_append:
  assumes "ledger_step\<^sup>*\<^sup>* s s'" "ledger_ok s" shows "appends s s'"
  using assms
proof (induction rule: rtranclp_induct)
  case (step y z)
  then have "ledger_ok y" using ledger_steps_ok by blast
  then have "accounts_ok y" by (simp add: ledger_ok_def)
  then show ?case using step.IH [OF step.prems] step_appends [OF step.hyps(2)] appends_trans by blast
qed (simp add: appends_refl)

text \<open>A transaction of the books and its legs read the same after any steps.\<close>

lemma reads_same:
  assumes "ledger_step\<^sup>*\<^sup>* s s'" "ledger_ok s" "t \<in> set (transactions s)"
  shows "get_transaction_or_raise (txn_id t) s' = Inr t" "list_for_transaction (txn_id t) s' = list_for_transaction (txn_id t) s"
proof -
  obtain ts es where a: "transactions s' = transactions s @ ts" "entries s' = entries s @ es"
    "\<forall>e\<in>set es. le_transaction e \<notin> txn_id ` set (transactions s)" using steps_append [OF assms(1,2)] by (auto simp: appends_def)
  have "ledger_ok s'" using ledger_steps_ok assms(1,2) by blast
  then have "find_transaction (txn_id t) s' = Some t" using find_transaction_in [of s' t] a(1) assms(3) by (auto simp: ledger_ok_def)
  then show "get_transaction_or_raise (txn_id t) s' = Inr t" by (simp add: get_transaction_or_raise_def)
  have "filter (\<lambda>e. le_transaction e = txn_id t) es = []" using a(3) assms(3) by (auto simp: filter_empty_conv)
  then show "list_for_transaction (txn_id t) s' = list_for_transaction (txn_id t) s" by (simp add: list_for_transaction_def a(2))
qed

section \<open>A posting and its repeats\<close>

lemma post_route_cases:
  assumes "post_transaction E W caller b s = (Inr a, s1)" "ledger_ok s"
  obtains who res t where "post (books_env E) (request_of E b who RaiseConflict) s = Inr (res, s1)" "t = result_transaction res"
    "a = made (shown W t s1)" "t \<in> set (transactions s1)" "txn_key t = pt_key b"
proof -
  let ?r = "request_of E b (if caller = ''payzeno-api'' then ''system'' else ''admin'') RaiseConflict"
  obtain res where p: "post (books_env E) ?r s = Inr (res, s1)"
    and a: "a = (if result_created res then made (shown W (result_transaction res) s1) else ok (shown W (result_transaction res) s1))"
    using assms(1) by (auto simp: post_transaction_def in_session_Inr bindE_Inr_iff Let_def)
  have c: "result_created res" using post_existing(3) [OF p] by (auto simp: request_of_def)
  have "accounts_ok s" using assms(2) by (simp add: ledger_ok_def)
  then obtain es where "posted (books_env E) ?r (result_transaction res) es s s1" using post_created [OF p c] by blast
  note po = posted_rows(1,2) [OF this]
  show ?thesis using that [OF p refl] a c po by (simp add: request_of_def)
qed

lemma post_route_reads_same:
  assumes "post_transaction E W caller b s = (Inr a, s1)" "ledger_ok s" "ledger_step\<^sup>*\<^sup>* s1 s2"
  shows "an_status a = 201 \<and> (\<exists>t\<in>set (transactions s2). txn_key t = pt_key b \<and> get_transaction W (txn_id t) s2 = Inr (ok (an_body a)))"
proof -
  from post_route_cases [OF assms(1,2)] obtain who res t where
    c: "post (books_env E) (request_of E b who RaiseConflict) s = Inr (res, s1)" "a = made (shown W t s1)" "t \<in> set (transactions s1)" "txn_key t = pt_key b"
    by metis
  have ok: "ledger_ok s1" using post_ledger_ok [OF c(1) assms(2)] .
  obtain ts where "transactions s2 = transactions s1 @ ts" using steps_append [OF assms(3) ok] by (auto simp: appends_def)
  then have "t \<in> set (transactions s2)" using c(3) by simp
  moreover have "get_transaction W (txn_id t) s2 = Inr (ok (an_body a))"
    using reads_same [OF assms(3) ok c(3)] by (simp add: get_transaction_def c(2) made_def shown_def)
  ultimately show ?thesis using c(2,4) by (auto simp: made_def)
qed

lemma post_route_refused:
  assumes "post_transaction E W caller b s = (Inr a, s1)" "ledger_ok s" "ledger_step\<^sup>*\<^sup>* s1 s2" "pt_key b' = pt_key b" "well_formed_lines (to_lines b')"
  shows "post_transaction E' W' caller' b' s2 = (raise DuplicateSettlementError, s2)"
proof -
  from post_route_cases [OF assms(1,2)] obtain who res t where
    c: "post (books_env E) (request_of E b who RaiseConflict) s = Inr (res, s1)" "t = result_transaction res" by metis
  have k: "ledger_ok s1 \<and> holds_key (pt_key b) (txn_id t) s1" using post_takes_key [OF c(1) assms(2)] c(2) by (simp add: request_of_def)
  obtain u where u: "find_by_idempotency_key (pt_key b) s2 = Some u" using steps_key_stable [OF assms(3) k] by blast
  have ok2: "ledger_ok s2" using ledger_steps_ok assms(3) k by blast
  have "post (books_env E') (request_of E' b' x RaiseConflict) s2 = raise DuplicateSettlementError" for x
    using post_duplicate [of "request_of E' b' x RaiseConflict" s2 u "books_env E'"] ok2 u assms(4,5) by (simp add: request_of_def)
  then show ?thesis by (simp add: post_transaction_def raise_def)
qed

text \<open>Of a body the fingerprint sees the merchant, the currency and the mode: neither the lines nor what they are for.\<close>

lemma fingerprint_ignores_lines:
  "fingerprint_of_body E (b\<lparr>pt_lines := ls, pt_purpose := p, pt_reference_type := rt, pt_reference_id := ri, pt_key := k\<rparr>) = fingerprint_of_body E b"
  by (simp add: fingerprint_of_body_def body_attr_def)

section \<open>A bulk request\<close>

definition held :: "post_body list \<Rightarrow> string list \<Rightarrow> 'a ledger_scheme \<Rightarrow> bool" where
  "held bs ids s \<longleftrightarrow> list_all2 (\<lambda>b i. holds_key (pt_key b) i s \<and> well_formed_lines (to_lines b)) bs ids"

lemma post_each_held:
  "post_each E bs s = Inr (ids, s1) \<Longrightarrow> ledger_ok s \<Longrightarrow> ledger_ok s1 \<and> ledger_step\<^sup>*\<^sup>* s s1 \<and> held bs ids s1"
proof (induction bs arbitrary: s ids)
  case (Cons b bs)
  obtain res y ids' where p: "post (books_env E) (request_of E b ''system'' ReturnExisting) s = Inr (res, y)"
    and rest: "post_each E bs y = Inr (ids', s1)" and ids: "ids = txn_id (result_transaction res) # ids'"
    using Cons.prems(1) by (auto simp: bindE_Inr_iff)
  have k: "ledger_ok y \<and> holds_key (pt_key b) (txn_id (result_transaction res)) y"
    using post_takes_key [OF p Cons.prems(2)] by (simp add: request_of_def)
  note ih = Cons.IH [OF rest conjunct1 [OF k]]
  have "holds_key (pt_key b) (txn_id (result_transaction res)) s1" using steps_key_stable [OF _ k] ih by (auto simp: holds_key_def)
  moreover have "well_formed_lines (to_lines b)"
    using p by (auto simp: post_def bindE_Inr_iff request_of_def assert_invariants_iff)
  moreover have "ledger_step\<^sup>*\<^sup>* s s1" using converse_rtranclp_into_rtranclp [of ledger_step, OF step_post [OF p]] ih by blast
  ultimately show ?case using ih by (simp add: held_def ids)
qed (simp add: held_def)

lemma held_later: "held bs ids s \<Longrightarrow> ledger_ok s \<Longrightarrow> ledger_step\<^sup>*\<^sup>* s s' \<Longrightarrow> held bs ids s'"
  unfolding held_def by (erule list_all2_mono) (auto simp: holds_key_def dest!: steps_key_stable [unfolded holds_key_def])

lemma held_again: "held bs ids s \<Longrightarrow> ledger_ok s \<Longrightarrow> post_each E bs s = Inr (ids, s\<lparr>id_supply := id_supply s + length bs\<rparr>)"
proof (induction bs arbitrary: s ids)
  case (Cons b bs)
  obtain i ids' where ids: "ids = i # ids'" and h: "holds_key (pt_key b) i s" "well_formed_lines (to_lines b)" and rest: "held bs ids' s"
    using Cons.prems(1) by (auto simp: held_def list_all2_Cons1)
  obtain t where t: "find_by_idempotency_key (pt_key b) s = Some t" "txn_id t = i" using h(1) by (auto simp: holds_key_def)
  let ?s = "s\<lparr>id_supply := Suc (id_supply s)\<rparr>"
  have p: "post (books_env E) (request_of E b ''system'' ReturnExisting) s = Inr (\<lparr>result_transaction = t, result_created = False\<rparr>, ?s)"
    using post_duplicate [of "request_of E b ''system'' ReturnExisting" s t "books_env E"] Cons.prems(2) t(1) h(2) by (simp add: request_of_def)
  have "held bs ids' ?s" using rest by (simp add: held_def holds_key_def find_by_idempotency_key_def)
  moreover have "ledger_ok ?s" using post_ledger_ok [OF p Cons.prems(2)] .
  ultimately show ?case using Cons.IH [of ids' ?s] p t(2) by (simp add: ids)
qed (simp add: held_def)

section \<open>Every request is a run of the books\<close>

datatype request = PostOne string post_body | PostBulk "post_body list" | ReverseOne string string
  | Bootstrap int string string bool | Freeze string

text \<open>The database after one request, and after a sequence of them, each in its own environment.\<close>

definition serve_request :: "'e recon_env_scheme \<Rightarrow> wire_env \<Rightarrow> request \<Rightarrow> 'a ledger_scheme \<Rightarrow> 'a ledger_scheme" where
  "serve_request E W q s = (case q of
     PostOne caller b \<Rightarrow> snd (post_transaction E W caller b s)
   | PostBulk bs \<Rightarrow> snd (post_transactions_bulk E bs s)
   | ReverseOne i key \<Rightarrow> snd (reverse_transaction E W i key s)
   | Bootstrap started m c l \<Rightarrow> snd (bootstrap_accounts E W started m c l s)
   | Freeze i \<Rightarrow> snd (freeze_account E W i s))"

definition serve_requests :: "('e recon_env_scheme \<times> wire_env \<times> request) list \<Rightarrow> 'a ledger_scheme \<Rightarrow> 'a ledger_scheme" where
  "serve_requests qs s = fold (\<lambda>(E, W, q) s. serve_request E W q s) qs s"

lemma in_session_run:
  assumes "\<And>x s'. r = Inr (x, s') \<Longrightarrow> ledger_step\<^sup>*\<^sup>* s s'" shows "ledger_step\<^sup>*\<^sup>* s (snd (in_session r s))"
  using assms by (auto simp: in_session_def split: sum.split)

lemma serve_request_run:
  assumes "ledger_ok s" shows "ledger_step\<^sup>*\<^sup>* s (serve_request E W q s)"
proof (cases q)
  case (PostOne caller b)
  show ?thesis unfolding PostOne serve_request_def request.case post_transaction_def
    by (rule in_session_run) (auto simp: bindE_Inr_iff Let_def split: if_splits intro!: r_into_rtranclp step_post)
next
  case (PostBulk bs)
  show ?thesis unfolding PostBulk serve_request_def request.case post_transactions_bulk_def
    by (rule in_session_run) (use post_each_held [OF _ assms] in \<open>auto simp: mapE_Inr_iff\<close>)
next
  case (ReverseOne i key)
  have "t \<in> set (transactions s)" if "get_transaction_or_raise i s = Inr t" for t
    using that by (auto simp: get_transaction_or_raise_def find_transaction_def split: option.splits dest: find_first_SomeD)
  then show ?thesis unfolding ReverseOne serve_request_def request.case reverse_transaction_def
    by (intro in_session_run) (auto simp: bindE_Inr_iff split: if_splits dest: step_reverse)
next
  case (Bootstrap started m c l)
  show ?thesis unfolding Bootstrap serve_request_def request.case bootstrap_accounts_def
    by (rule in_session_run) (auto simp: bindE_Inr_iff Let_def dest: step_bootstrap)
next
  case (Freeze i)
  show ?thesis unfolding Freeze serve_request_def request.case freeze_account_def
    by (rule in_session_run) (auto simp: mapE_Inr_iff dest: step_freeze)
qed

lemma serve_requests_run: "ledger_ok s \<Longrightarrow> ledger_step\<^sup>*\<^sup>* s (serve_requests qs s)"
proof (induction qs arbitrary: s)
  case (Cons q qs)
  obtain E W r where q: "q = (E, W, r)" by (cases q) auto
  have "ledger_step\<^sup>*\<^sup>* s (serve_request E W r s)" by (rule serve_request_run [OF Cons.prems])
  then show ?case using Cons.IH [of "serve_request E W r s"] ledger_steps_ok [OF _ Cons.prems]
    by (auto simp: serve_requests_def q intro: rtranclp_trans)
qed (simp add: serve_requests_def)

lemma serve_requests_reachable:
  assumes "reachable_books s" shows "reachable_books (serve_requests qs s)"
  using serve_requests_run [OF reachable_books_ok [OF assms], of qs] assms by (induction rule: rtranclp_induct) (auto intro: books_step)

section \<open>A page of transactions\<close>

lemma traverse_total: "\<forall>x\<in>set xs. f x = Inr (g x) \<Longrightarrow> traverse f xs = Inr (map g xs)"
  by (induction xs) auto

lemma list_route_legs:
  "list_transactions W lt limit m rt ri p cursor s = mapE (\<lambda>page. ok (contract_page (wi_iso W) (wi_model W ''LedgerTransaction'')
     (map (\<lambda>t. shown W t s) (page_items page)) (has_more page) (next_cursor page))) (page_transactions lt cursor limit m rt ri p s)"
proof -
  have "traverse (\<lambda>t. mapE (serialise_transaction W t) (legs_in (txn_id t) (list_for_transactions (map txn_id ts) s))) ts
      = Inr (map (\<lambda>t. shown W t s) ts)" for ts
    by (rule traverse_total) (simp add: legs_in_def legs_of_page shown_def)
  then show ?thesis by (cases "page_transactions lt cursor limit m rt ri p s") (simp_all add: list_transactions_def)
qed

section \<open>The trigger\<close>

lemma next_slot_near:
  assumes "0 < interval" "start \<le> now" "\<forall>p. previous = Some p \<longrightarrow> p \<le> now"
  shows "now \<le> next_fire_time (interval_trigger start interval) interval previous now
    \<and> next_fire_time (interval_trigger start interval) interval previous now \<le> now + interval"
proof (cases previous)
  case None
  then show ?thesis using first_slot [OF assms(1,2)] by (auto simp: next_fire_time_def)
next
  case (Some p)
  then show ?thesis using first_slot [OF assms(1,2)] assms(3) by (auto simp: next_fire_time_def) (auto simp: interval_trigger_def)
qed

end
