(* ===== verification/RouteExamples.thy ===== *)
theory RouteExamples
  imports Routes_Inv ReconExamples
begin

text \<open>
  Concrete requests for the witnesses about the routes: two postings of a merchant and the answers they get.
  Nothing here models code.
\<close>

definition demo_wire :: wire_env where
  "demo_wire = \<lparr>wi_iso = (\<lambda>_. ''2026-01-01T00:00:00+00:00''), wi_model = (\<lambda>_. [(''id'', None), (''object_'', Some ''object''), (''purpose'', None)]),
     wi_created_at = (\<lambda>_. None), wi_updated_at = (\<lambda>_. None)\<rparr>"

definition demo_body :: "string \<Rightarrow> int \<Rightarrow> post_body" where
  "demo_body key amount = \<lparr>pt_key = key, pt_purpose = ''auth'', pt_merchant = Some ''mch_1'', pt_currency = ''USD'', pt_livemode = True,
     pt_reference_type = ''charge'', pt_reference_id = ''ch_1'',
     pt_lines = [\<lparr>wl_account_type = ''merchant_receivable'', wl_direction = Debit, wl_amount_minor = amount\<rparr>,
       \<lparr>wl_account_type = ''authorization_hold'', wl_direction = Credit, wl_amount_minor = amount\<rparr>], pt_other = (\<lambda>_. JNull)\<rparr>"

definition posted_once :: ledger where
  "posted_once = snd (post_transaction demo_renv demo_wire ''payzeno-api'' (demo_body ''auth:mch_1:ch_1'' 10000) empty_ledger)"

lemma demo_posting: "is_ok (fst (post_transaction demo_renv demo_wire ''payzeno-api'' (demo_body ''auth:mch_1:ch_1'' 10000) empty_ledger))"
  by code_simp

lemma posted_once_row: "map txn_id (transactions posted_once) = [''txn_'' @ demo_ulid 0]"
  by code_simp

lemma posted_once_reachable: "reachable_books posted_once"
  using serve_requests_reachable [OF empty_reachable, of "[(demo_renv, demo_wire, PostOne ''payzeno-api'' (demo_body ''auth:mch_1:ch_1'' 10000))]"]
  by (simp add: serve_requests_def serve_request_def posted_once_def)

lemma demo_body_wf: "well_formed_lines (to_lines (demo_body key 10000))" "well_formed_lines (to_lines (demo_body key 20000))"
  by (simp_all add: demo_body_def to_lines_def well_formed_lines_def signed_minor_def)

definition demo_bulk :: "post_body list" where
  "demo_bulk = [demo_body ''auth:mch_1:ch_2'' 10000, demo_body ''auth:mch_1:ch_3'' 20000, demo_body ''auth:mch_1:ch_2'' 20000]"

lemma demo_bulk_posted: "case fst (post_transactions_bulk demo_renv demo_bulk empty_ledger) of Inl e \<Rightarrow> False
    | Inr a \<Rightarrow> snd (an_body a) = [''txn_'' @ demo_ulid 0, ''txn_'' @ demo_ulid 6, ''txn_'' @ demo_ulid 0]"
  by code_simp

section \<open>Reversing twice\<close>

text \<open>The same transaction reversed under two keys: both requests succeed, and the account ends below zero.\<close>

definition reversed_once :: ledger where
  "reversed_once = snd (reverse_transaction demo_renv demo_wire (''txn_'' @ demo_ulid 0) ''reversal:mch_1:1'' posted_once)"

lemma reversed_under_two_keys:
  "is_ok (fst (reverse_transaction demo_renv demo_wire (''txn_'' @ demo_ulid 0) ''reversal:mch_1:1'' posted_once))"
  "is_ok (fst (reverse_transaction demo_renv demo_wire (''txn_'' @ demo_ulid 0) ''reversal:mch_1:2'' reversed_once))"
  "account_balance (snd (reverse_transaction demo_renv demo_wire (''txn_'' @ demo_ulid 0) ''reversal:mch_1:2'' reversed_once))
     (le_account (hd (entries posted_once))) = - 10000"
  by code_simp+

end
