(* ===== verification/Ops.thy ===== *)
theory Ops
  imports Wire Recon_Pass Drain
begin

text \<open>
  What operators use: the commands of \<^verbatim>\<open>src/app/ops/commands.py\<close> with the exit codes of \<^verbatim>\<open>src/app/ops/cli.py\<close>, the keys of
  the advisory locks in \<^verbatim>\<open>src/app/db/locks.py\<close>, and the client of the FX provider, \<^verbatim>\<open>src/app/clients/fx.py\<close>. A command prints
  lines and returns a number. How a time is written, the rows of \<^verbatim>\<open>pg_locks\<close>, the digest BLAKE2b and what the network and the
  JSON reader yield are parameters.
\<close>

section \<open>Tables\<close>

fun spread :: "string list \<Rightarrow> string" where
  "spread [] = []"
| "spread [t] = t"
| "spread (t # ts) = t @ ''  '' @ spread ts"

text \<open>Every row has as many cells as there are headers; \<^verbatim>\<open>None\<close> is an empty cell.\<close>

definition cell :: "string option \<Rightarrow> string" where "cell v = (case v of None \<Rightarrow> [] | Some t \<Rightarrow> t)"

definition column_width :: "string list \<Rightarrow> string list list \<Rightarrow> nat \<Rightarrow> nat" where
  "column_width headers cells i = fold max (map (\<lambda>row. length (row ! i)) cells) (length (headers ! i))"

definition print_table :: "string list \<Rightarrow> string option list list \<Rightarrow> string list" where
  "print_table headers rows = (if rows = [] then [''(no rows)''] else
     let cells = map (map cell) rows; is = [0 ..< length headers]; widths = map (column_width headers cells) is;
         padded = (\<lambda>ts. spread (map (\<lambda>i. ljust (widths ! i) (ts ! i)) is))
     in padded headers # spread (map (\<lambda>i. replicate (widths ! i) CHR ''-'') is) # map padded cells
        @ [[], str_nat (length cells) @ '' row(s)''])"

section \<open>Commands\<close>

definition cmd_backlog :: "(int \<Rightarrow> string) \<Rightarrow> string option \<Rightarrow> 'a recon_db_scheme \<Rightarrow> string list \<times> nat" where
  "cmd_backlog time c s = (let buckets = aggregate_backlog RETRYABLE_STATUSES c None s in
     (print_table [''batch_id'', ''currency'', ''status'', ''items'', ''oldest_next_attempt_at'', ''gross_minor'']
        (map (\<lambda>g. [Some (br_batch g), Some (br_currency g), Some (br_status g), Some (str_nat (br_item_count g)),
            Some (time (br_oldest_next_attempt_at g)), Some (str_int (br_gross_minor g))]) buckets),
      sum_list (map br_item_count (filter (\<lambda>g. br_status g \<in> set RETRYABLE_STATUSES) buckets))))"

text \<open>The fields of an item in the order \<^verbatim>\<open>sort_keys\<close> gives them; a missing time is printed as \<^verbatim>\<open>None\<close>.\<close>

definition time_or_none :: "(int \<Rightarrow> string) \<Rightarrow> int option \<Rightarrow> json_value" where
  "time_or_none time v = JStr (case v of None \<Rightarrow> ''None'' | Some t \<Rightarrow> time t)"

definition opt_json :: "string option \<Rightarrow> json_value" where "opt_json v = (case v of None \<Rightarrow> JNull | Some t \<Rightarrow> JStr t)"

definition cmd_show_item :: "(int \<Rightarrow> string) \<Rightarrow> string \<Rightarrow> 'a recon_db_scheme \<Rightarrow> (string \<times> json_value) list res" where
  "cmd_show_item time i s = bindE (get_item_or_raise i s) (\<lambda>r. Inr (sort_key fst
     [(''id'', JStr (ri_id r)), (''batch_id'', JStr (ri_batch r)), (''charge_id'', opt_json (ri_charge r)), (''merchant_id'', opt_json (ri_merchant r)),
      (''line_type'', JStr (ri_line_type r)), (''status'', JStr (ri_status r)), (''gross_minor'', JInt (ri_gross_minor r)),
      (''fee_minor'', JInt (ri_fee_minor r)), (''net_minor'', JInt (ri_net_minor r)), (''variance_minor'', JInt (ri_variance_minor r)),
      (''currency'', JStr (ri_currency r)), (''acquirer_reference'', JStr (ri_acquirer_reference r)), (''match_method'', JStr (ri_match_method r)),
      (''attempt_count'', JInt (int (ri_attempt_count r))), (''last_error_code'', opt_json (ri_last_error_code r)),
      (''last_attempt_at'', time_or_none time (ri_last_attempt_at r)), (''next_attempt_at'', JStr (time (ri_next_attempt_at r))),
      (''settled_transaction_id'', opt_json (ri_settled_transaction r))]))"

definition cmd_find_duplicates :: "int \<Rightarrow> int \<Rightarrow> 'a ledger_scheme \<Rightarrow> string list \<times> nat" where
  "cmd_find_duplicates now since_hours s = (let rows = list_duplicate_idempotency_keys ''settle'' (now - since_hours * HOUR) s in
     (print_table [''idempotency_key'', ''count'', ''currency'', ''sample_transaction_id'']
        (map (\<lambda>d. [Some (dk_key d), Some (str_nat (dk_count d)), Some (dk_currency d), Some (dk_sample_transaction_id d)]) rows), length rows))"

definition cmd_show_batch :: "(int \<Rightarrow> string) \<Rightarrow> string \<Rightarrow> 'a recon_db_scheme \<Rightarrow> string list res" where
  "cmd_show_batch time i s = bindE (get_batch_or_raise i s) (\<lambda>b. Inr (
     print_table [''field'', ''value'']
       [[Some ''id'', Some (sb_id b)], [Some ''acquirer'', Some (sb_acquirer b)], [Some ''currency'', Some (sb_currency b)],
        [Some ''processing_date'', Some (iso_date (sb_processing_date b))], [Some ''file_reference'', Some (sb_file_reference b)],
        [Some ''status'', Some (sb_status b)], [Some ''item_count'', Some (str_int (sb_item_count b))],
        [Some ''expected_total_minor'', Some (str_int (sb_expected_total_minor b))], [Some ''posted_total_minor'', Some (str_int (sb_posted_total_minor b))],
        [Some ''funded_amount_minor'', Some (str_int (sb_funded_amount_minor b))], [Some ''funded_at'', map_option time (sb_funded_at b)],
        [Some ''reconciled_at'', map_option time (sb_reconciled_at b)]]
     @ [[]] @ print_table [''status'', ''items''] (map (\<lambda>(st, n). [Some st, Some (str_nat n)]) (sort (SettlementStore.count_by_status (Some i) s)))))"

text \<open>\<^verbatim>\<open>created_at\<close> is set by the database and no operation reads it, so the row of the model has none: \<^verbatim>\<open>created\<close> gives it as text.\<close>

definition cmd_outbox :: "(outbox_row \<Rightarrow> string) \<Rightarrow> nat \<Rightarrow> 'a ledger_scheme \<Rightarrow> string list \<times> nat" where
  "cmd_outbox created limit s = (let pending = list_unpublished limit 99 s in
     (print_table [''id'', ''event_type'', ''attempts'', ''created_at'', ''last_error'']
        (map (\<lambda>r. [Some (ev_id r), Some (ev_type r), Some (str_nat (ev_attempt_count r)), Some (created r), ev_last_error r]) pending),
      length pending))"

definition cmd_locks :: "string option list list \<Rightarrow> string list \<times> nat" where
  "cmd_locks rows = (print_table [''classid'', ''objid'', ''granted'', ''state'', ''query_start'', ''query''] rows, length rows)"

definition cmd_stale_open_batches :: "int \<Rightarrow> int \<Rightarrow> 'a recon_db_scheme \<Rightarrow> string list \<times> nat" where
  "cmd_stale_open_batches now older_than_hours s =
    (let cutoff = date_of (now - older_than_hours * HOUR); stale = filter (\<lambda>b. sb_processing_date b \<le> cutoff) (list_by_status [''open''] s) in
     (print_table [''id'', ''acquirer'', ''currency'', ''processing_date'', ''item_count'', ''expected_total_minor'']
        (map (\<lambda>b. [Some (sb_id b), Some (sb_acquirer b), Some (sb_currency b), Some (iso_date (sb_processing_date b)), Some (str_int (sb_item_count b)),
            Some (str_int (sb_expected_total_minor b))]) stale), length stale))"

datatype command = Backlog "string option" | Item string | Duplicates int | Batch string | Outbox nat | Locks | StaleBatches int

definition EXIT_CLEAN :: nat where "EXIT_CLEAN = 0"
definition EXIT_FINDINGS :: nat where "EXIT_FINDINGS = 1"
definition EXIT_ERROR :: nat where "EXIT_ERROR = 2"

definition exit_of :: "nat \<Rightarrow> nat" where "exit_of found = (if found = 0 then EXIT_CLEAN else EXIT_FINDINGS)"

definition dispatch :: "(int \<Rightarrow> string) \<Rightarrow> (outbox_row \<Rightarrow> string) \<Rightarrow> int \<Rightarrow> string option list list \<Rightarrow> command \<Rightarrow> 'a recon_db_scheme \<Rightarrow> nat res" where
  "dispatch time created now pg_locks c s = (case c of
     Backlog cur \<Rightarrow> Inr (exit_of (snd (cmd_backlog time cur s)))
   | Item i \<Rightarrow> mapE (\<lambda>_. EXIT_CLEAN) (cmd_show_item time i s)
   | Duplicates hours \<Rightarrow> Inr (exit_of (snd (cmd_find_duplicates now hours s)))
   | Batch i \<Rightarrow> mapE (\<lambda>_. EXIT_CLEAN) (cmd_show_batch time i s)
   | Outbox limit \<Rightarrow> Inr (exit_of (snd (cmd_outbox created limit s)))
   | Locks \<Rightarrow> Inr (exit_of (snd (cmd_locks pg_locks)))
   | StaleBatches hours \<Rightarrow> Inr (exit_of (snd (cmd_stale_open_batches now hours s))))"

text \<open>\<^verbatim>\<open>run\<close>: an exception of the service's own tree is the exit code of an error, any other escapes.\<close>

definition run_command :: "(int \<Rightarrow> string) \<Rightarrow> (outbox_row \<Rightarrow> string) \<Rightarrow> int \<Rightarrow> string option list list \<Rightarrow> command \<Rightarrow> 'a recon_db_scheme \<Rightarrow> nat res" where
  "run_command time created now pg_locks c s = (case dispatch time created now pg_locks c s of
     Inr n \<Rightarrow> Inr n | Inl e \<Rightarrow> if caught_by e PayzenoLedgerError then Inr EXIT_ERROR else Inl e)"

section \<open>Lock keys\<close>

unbundle bit_operations_syntax

definition NAMESPACE :: int where "NAMESPACE = 0x504159"

definition from_bytes_signed :: "nat list \<Rightarrow> int" where
  "from_bytes_signed bs = (let n = foldl (\<lambda>n b. 256 * n + int b) 0 bs in if n < 2 ^ (8 * length bs - 1) then n else n - 2 ^ (8 * length bs))"

text \<open>\<^verbatim>\<open>digest\<close> is the BLAKE2b digest of four bytes.\<close>

definition lock_key :: "(string \<Rightarrow> nat list) \<Rightarrow> int \<Rightarrow> string \<Rightarrow> int" where
  "lock_key digest namespace v = from_bytes_signed (digest v) XOR namespace"

definition batch_key :: "(string \<Rightarrow> nat list) \<Rightarrow> string \<Rightarrow> int" where "batch_key digest i = lock_key digest NAMESPACE i"

definition merchant_currency_key :: "(string \<Rightarrow> nat list) \<Rightarrow> string \<Rightarrow> string \<Rightarrow> int" where
  "merchant_currency_key digest m c = lock_key digest NAMESPACE (m @ '':'' @ c)"

section \<open>The FX provider\<close>

text \<open>
  The reply of the provider. A body that is JSON is an object or not; of an object the model has the text of \<^verbatim>\<open>base\<close> (empty when
  absent), the rates when they are an object, and \<^verbatim>\<open>as_of\<close> when it is a text. \<^verbatim>\<open>fromiso\<close> is \<^verbatim>\<open>datetime.fromisoformat\<close>, a time
  without a zone read in UTC.
\<close>

record fx_object =
  fo_base :: string
  fo_rates :: "(string \<times> raw_rate) list option"
  fo_as_of :: "string option"

datatype fx_reply = FxUnreachable | FxAnswered nat "fx_object option option" | FxEscaped error

definition replace_z :: "string \<Rightarrow> string" where
  "replace_z t = concat (map (\<lambda>c. if c = CHR ''Z'' then ''+00:00'' else [c]) t)"

definition parse_as_of :: "(string \<Rightarrow> int option) \<Rightarrow> string option \<Rightarrow> int res" where
  "parse_as_of fromiso raw = (case raw of None \<Rightarrow> raise ValidationError
   | Some t \<Rightarrow> (case fromiso (replace_z t) of None \<Rightarrow> raise ValidationError | Some n \<Rightarrow> Inr n))"

fun read_rates :: "contracts \<Rightarrow> (string \<times> raw_rate) list \<Rightarrow> (string \<times> rat) list \<Rightarrow> (string \<times> rat) list res" where
  "read_rates K [] acc = Inr acc"
| "read_rates K ((code, raw) # rs) acc = (if upper code \<in> SUPPORTED_CURRENCIES K
     then bindE (parse_rate raw) (\<lambda>v. read_rates K rs (dict_set (upper code) v acc)) else read_rates K rs acc)"

definition parse_fx_body :: "contracts \<Rightarrow> (string \<Rightarrow> int option) \<Rightarrow> string \<Rightarrow> fx_object option \<Rightarrow> fx_rates res" where
  "parse_fx_body K fromiso base body = (case body of None \<Rightarrow> raise ValidationError
   | Some b \<Rightarrow> (case fo_rates b of None \<Rightarrow> raise ValidationError
     | Some raws \<Rightarrow> if upper (fo_base b) \<noteq> base then raise ValidationError
       else bindE (read_rates K raws []) (\<lambda>rates. let rates' = (if map_of rates base = None then dict_set base 1 rates else rates) in
            bindE (parse_as_of fromiso (fo_as_of b)) (\<lambda>t. Inr \<lparr>fx_base = base, fx_table = rates', fx_as_of = t\<rparr>))))"

definition fx_latest :: "contracts \<Rightarrow> (string \<Rightarrow> int option) \<Rightarrow> string \<Rightarrow> fx_reply \<Rightarrow> fx_rates res" where
  "fx_latest K fromiso base reply = (case reply of FxUnreachable \<Rightarrow> raise FxRateUnavailableError | FxEscaped e \<Rightarrow> Inl e
   | FxAnswered status json \<Rightarrow> if status \<noteq> 200 then raise FxRateUnavailableError
       else (case bindE (case json of None \<Rightarrow> raise ValueError | Some b \<Rightarrow> Inr b) (parse_fx_body K fromiso base) of
           Inr r \<Rightarrow> Inr r
         | Inl e \<Rightarrow> if caught_by e ValueError \<or> caught_by e ValidationError then raise FxRateUnavailableError else Inl e))"

section \<open>Lines of one width, keys of four bytes\<close>

lemma length_spread: "ts \<noteq> [] \<Longrightarrow> length (spread ts) = sum_list (map length ts) + 2 * (length ts - 1)"
  by (induction ts rule: spread.induct) auto

lemma fold_max: "x \<le> fold max xs x" "y \<in> set xs \<Longrightarrow> y \<le> fold max xs x" for x :: nat
  by (induction xs arbitrary: x) (auto intro: le_trans [OF max.cobounded1] le_trans [OF max.cobounded2])

lemma table_aligned:
  assumes "headers \<noteq> []" "\<forall>row\<in>set rows. length row = length headers" "rows \<noteq> []"
  shows "\<exists>n. \<forall>line\<in>set (take (length rows + 2) (print_table headers rows)). length line = n"
proof -
  define cells where "cells = map (map cell) rows"
  define ws where "ws = map (column_width headers cells) [0 ..< length headers]"
  define n where "n = sum_list ws + 2 * (length headers - 1)"
  have w: "length (headers ! i) \<le> ws ! i" "row \<in> set cells \<Longrightarrow> length (row ! i) \<le> ws ! i" if "i < length headers" for i row
    using that fold_max by (auto simp: ws_def column_width_def)
  have len: "length (spread (map (\<lambda>i. f i) [0 ..< length headers])) = n" if "\<forall>i<length headers. length (f i) = ws ! i" for f
  proof -
    have "map (\<lambda>i. length (f i)) [0 ..< length headers] = ws" using that by (intro nth_equalityI) (simp_all add: ws_def)
    then show ?thesis using assms(1) by (simp add: length_spread n_def comp_def)
  qed
  have padded: "length (spread (map (\<lambda>i. ljust (ws ! i) (ts ! i)) [0 ..< length headers])) = n" if "ts = headers \<or> ts \<in> set cells" for ts
    by (rule len) (use that w in \<open>auto simp: ljust_def\<close>)
  have "length (spread (map (\<lambda>i. replicate (ws ! i) CHR ''-'') [0 ..< length headers])) = n" by (rule len) simp
  then have "\<forall>line\<in>set (take (length rows + 2) (print_table headers rows)). length line = n"
    using padded assms(3) by (auto simp: print_table_def Let_def cells_def [symmetric] ws_def [symmetric]) (auto simp: cells_def)
  then show ?thesis by blast
qed

lemma from_bytes_int4:
  assumes "length bs = 4" "\<forall>b\<in>set bs. b < 256" shows "- (2 ^ 31) \<le> from_bytes_signed bs \<and> from_bytes_signed bs < 2 ^ 31"
proof -
  obtain a b c d where "bs = [a, b, c, d]" using assms(1) by (auto simp: numeral_eq_Suc length_Suc_conv)
  then show ?thesis using assms(2) by (auto simp: from_bytes_signed_def Let_def)
qed

text \<open>A key is a number that PostgreSQL takes as \<^verbatim>\<open>int4\<close>, and different digests give different keys.\<close>

lemma lock_key_int4:
  assumes "length (digest v) = 4" "\<forall>b\<in>set (digest v). b < 256"
  shows "- (2 ^ 31) \<le> batch_key digest v \<and> batch_key digest v < 2 ^ 31"
proof -
  have "signed_take_bit 31 (from_bytes_signed (digest v)) = from_bytes_signed (digest v)"
    using from_bytes_int4 [OF assms] by (simp add: signed_take_bit_int_eq_self_iff)
  moreover have "signed_take_bit 31 NAMESPACE = NAMESPACE" by (simp add: signed_take_bit_int_eq_self_iff NAMESPACE_def)
  moreover have "signed_take_bit 31 (a XOR b) = signed_take_bit 31 a XOR signed_take_bit 31 b" for a b :: int
    by (rule bit_eqI) (auto simp: bit_signed_take_bit_iff bit_xor_iff)
  ultimately have "signed_take_bit 31 (batch_key digest v) = batch_key digest v" by (simp add: batch_key_def lock_key_def)
  then show ?thesis by (simp only: signed_take_bit_int_eq_self_iff)
qed

lemma lock_key_digest: "lock_key digest ns v = lock_key digest ns w \<longleftrightarrow> from_bytes_signed (digest v) = from_bytes_signed (digest w)"
proof -
  have "(a XOR n) XOR n = a" for a n :: int by (simp add: xor.assoc)
  then show ?thesis unfolding lock_key_def by metis
qed

section \<open>The number an operator reads\<close>

lemma filter_all_rows: "filter (\<lambda>g. br_status g \<in> set statuses) (aggregate_backlog statuses c b s) = aggregate_backlog statuses c b s"
  by (rule filter_True) (auto simp: aggregate_backlog_def Let_def backlog_group_def)

lemma cmd_backlog_count: "snd (cmd_backlog time c s) = length (filter (in_backlog RETRYABLE_STATUSES c None) (recon_items s))"
  by (simp add: cmd_backlog_def Let_def filter_all_rows aggregate_totals)

lemma backlog_exit: "dispatch time created now locks (Backlog c) s = Inr EXIT_CLEAN \<longleftrightarrow> (\<forall>r\<in>set (recon_items s). \<not> in_backlog RETRYABLE_STATUSES c None r)"
  by (auto simp: dispatch_def cmd_backlog_count exit_of_def EXIT_CLEAN_def EXIT_FINDINGS_def filter_empty_conv)

section \<open>A rate table that passes\<close>

lemma parse_rate_positive: "parse_rate raw = Inr v \<Longrightarrow> 0 < v"
  by (auto simp: parse_rate_def Let_def split: raw_rate.splits decimal.splits option.splits if_splits)

lemma dict_set_subset: "set (dict_set k v ps) \<subseteq> insert (k, v) (set ps)"
  by (induction ps) auto

lemma read_rates_sound:
  "read_rates K rs acc = Inr t \<Longrightarrow> \<forall>(c, v)\<in>set acc. c \<in> SUPPORTED_CURRENCIES K \<and> 0 < v \<Longrightarrow> \<forall>(c, v)\<in>set t. c \<in> SUPPORTED_CURRENCIES K \<and> 0 < v"
proof (induction K rs acc rule: read_rates.induct)
  case (2 K code raw rs acc)
  show ?case
  proof (cases "upper code \<in> SUPPORTED_CURRENCIES K")
    case True
    then obtain v where v: "parse_rate raw = Inr v" "read_rates K rs (dict_set (upper code) v acc) = Inr t" using 2(3) by (auto simp: bindE_Inr_iff)
    then show ?thesis using 2(1) [OF True, of v] 2(4) True parse_rate_positive [OF v(1)] dict_set_subset [of "upper code" v acc] by fastforce
  qed (use 2 in simp)
qed simp

lemma fx_latest_sound:
  assumes "fx_latest K fromiso base reply = Inr r" "base \<in> SUPPORTED_CURRENCIES K"
  shows "fx_base r = base" "map_of (fx_table r) base \<noteq> None" "\<forall>(c, v)\<in>set (fx_table r). c \<in> SUPPORTED_CURRENCIES K \<and> 0 < v"
proof -
  have "fx_base r = base \<and> (\<exists>raws rates. read_rates K raws [] = Inr rates
      \<and> (fx_table r = rates \<and> map_of rates base \<noteq> None \<or> fx_table r = dict_set base 1 rates))"
    using assms(1) by (auto simp: fx_latest_def parse_fx_body_def bindE_Inr_iff Let_def split: fx_reply.splits if_splits sum.splits option.splits) blast+
  then obtain raws rates where b: "read_rates K raws [] = Inr rates" "fx_base r = base"
      and r: "fx_table r = rates \<and> map_of rates base \<noteq> None \<or> fx_table r = dict_set base 1 rates" by blast
  show "fx_base r = base" "map_of (fx_table r) base \<noteq> None" using b(2) r by (auto simp: map_of_dict_set)
  have "x \<in> set (fx_table r) \<Longrightarrow> x = (base, 1) \<or> x \<in> set rates" for x using r subsetD [OF dict_set_subset, of x base 1 rates] by (metis insert_iff)
  then show "\<forall>(c, v)\<in>set (fx_table r). c \<in> SUPPORTED_CURRENCIES K \<and> 0 < v"
    using read_rates_sound [OF b(1)] assms(2) by fastforce
qed

end
