(* ===== verification/Spec2Isabelle.thy ===== *)
theory Spec2Isabelle
  imports Fx Examples BusExamples EdgeExamples RouteExamples Ops
begin

text \<open>
  A model of the Payzeno ledger service (the Python package under \<^verbatim>\<open>src/app\<close>) and the theorems that make
  it correct. Every operation is a function of the state of the database and of what comes from
  outside; an operation that may raise returns a sum, the exception on the left (\<^verbatim>\<open>res\<close>, theory Prelude).
  A name of the model is the name of the code wherever Isabelle allows it.

  THE PROGRAM. Merchants' money is kept in double-entry books. Facts reach the service over HTTP
  (\<^verbatim>\<open>api\<close>, \<^verbatim>\<open>middleware\<close>), over the event bus (\<^verbatim>\<open>consumers\<close>) and in the settlement files of acquirers
  (\<^verbatim>\<open>services/settlements.py\<close>). Each fact becomes balanced lines (\<^verbatim>\<open>domain/rules\<close>) that one writer,
  \<^verbatim>\<open>LedgerPoster.post\<close>, commits under an idempotency key together with the change of the balance cache
  and an event in the outbox. Reconciliation (\<^verbatim>\<open>services/reconciliation\<close>) settles the items of a batch
  and captures charges at the acquirer; funding, payouts, reserves and manual adjustments post
  through the same writer; the nightly audit reads the books back. Jobs (\<^verbatim>\<open>workers\<close>) drive all of this on a
  timer, and the outbox drain sends the events.

  STATE. The record \<^verbatim>\<open>ledger\<close> (Store) holds the tables account, ledger_transaction, ledger_entry,
  merchant_balance_cache and event_outbox, each a list of rows in insertion order. It is extended, table by
  table, with record extension: \<^verbatim>\<open>db\<close> (Tables: payouts, projections of merchants and bank accounts, reserve
  holds, adjustment requests), \<^verbatim>\<open>recon_db\<close> (SettlementStore: charges, batches, items, runs), \<^verbatim>\<open>inbox_db\<close> (Inbox:
  processed_event), \<^verbatim>\<open>funding_db\<close>, \<^verbatim>\<open>capture_db\<close>, so an operation on the books runs unchanged on each. An insert
  checks the unique indexes of its table and raises IntegrityError. A session that ends with an exception
  is rolled back: its caller keeps the state it had. Operations of several sessions (a sweep, an import, a
  drain) return the state after those that committed, also when they raise.

  WHAT COMES FROM OUTSIDE is an argument. The record \<^verbatim>\<open>env\<close> and its extensions carry the clock, the ids the
  package \<^verbatim>\<open>ulid\<close> mints, the tables of the package \<^verbatim>\<open>payzeno_contracts\<close> (currencies, event topics), the digest
  SHA-256, flags and settings, the FX provider, the banking calendar, and the answers of acquirers, of SNS and of
  the advisory locks. A pass over many rows takes one environment for each row. No law is assumed of these
  but the ones a theorem names: that fresh ids are fresh, that the contracts list the documented currencies,
  that a collation is a strict total order.

  THEORIES, in the order of the code's layers.

  Domain.
  Prelude: results, sequencing, the list idioms. Errors: the exception tree of \<^verbatim>\<open>errors.py\<close>, its codes and
  statuses along the base classes. Decimals, Text: Python's decimal context (28 digits, half even) and strings.
  Money, Fees, Fx: \<^verbatim>\<open>domain/money.py\<close>, \<^verbatim>\<open>fees.py\<close>, \<^verbatim>\<open>fx.py\<close>. Postings: \<^verbatim>\<open>domain/postings.py\<close> and the 21 rules.
  Ids: \<^verbatim>\<open>domain/ids.py\<close>, \<^verbatim>\<open>idempotency.py\<close>. Calendar, Backoff: \<^verbatim>\<open>domain/calendar.py\<close>, \<^verbatim>\<open>backoff.py\<close>, the
  latter over a model of binary64.

  Books.
  Store: the rows and \<^verbatim>\<open>publishers/outbox.py\<close>. Accounts: \<^verbatim>\<open>services/accounts.py\<close>. Ledger: \<^verbatim>\<open>services/transactions.py\<close>
  with its repositories. Ledger_Inv: the invariant \<^verbatim>\<open>ledger_ok\<close> and that \<^verbatim>\<open>post\<close> and \<^verbatim>\<open>reverse\<close> keep it. Books: what it
  gives, and the step relation \<^verbatim>\<open>ledger_step\<close>. Runs: sequences of steps. Balances: \<^verbatim>\<open>services/balances.py\<close>.
  AuditChecks: \<^verbatim>\<open>services/audit.py\<close>. Listings: the remaining reads and writes of the repositories.

  Services.
  Tables, Rails, Payouts, Payouts_Inv, Payout_Life: payouts, their rails, and \<^verbatim>\<open>payout_step\<close>, the life of
  payouts beside the steps of the books. Reserves: holds. SettlementFile: the two file formats with the
  reader of the csv module. SettlementStore, Matching, Settling, Reconcile: the tables, strategies, the
  settlement of one item, the sweep, the retry and the backlog. Recon_Inv, Recon_Pass, Recon_Types: \<^verbatim>\<open>recon_step\<close> with its
  runs, the counters of a pass, the typing of items. Settlements, Settlements_Inv: opening, closing and
  importing batches, as runs of \<^verbatim>\<open>recon_step\<close>. Inbox, Inbox_Inv: \<^verbatim>\<open>consumers\<close>. Funding, Funding_Inv, Captures,
  Captures_Inv: \<^verbatim>\<open>services/funding.py\<close>, \<^verbatim>\<open>captures.py\<close>. Invoices: the staging of invoice lines.

  Edges.
  Clients, Breaker: \<^verbatim>\<open>clients\<close>, over a network that is a function of requests. Drain: the outbox repository,
  SNS and the drain; Drain_Tasks: \<^verbatim>\<open>bus_step\<close>, the drains of several tasks in one database, with crashes.
  Paging: the cursor codec and \<^verbatim>\<open>list_page\<close> of \<^verbatim>\<open>repositories/base.py\<close>. Edge: \<^verbatim>\<open>middleware\<close>, error handlers, the
  checks of \<^verbatim>\<open>api/deps.py\<close>, flags. Wire: the response bodies of \<^verbatim>\<open>api/schemas.py\<close> and the serialisers. Routes: the
  routers of \<^verbatim>\<open>api/routers\<close>. Jobs: the periodic job of \<^verbatim>\<open>workers/base.py\<close>, its trigger, the registry and the route that
  runs one. Routes_Inv: what requests do to the books. Redaction: what is scrubbed from logs. Ops: the commands
  and exit codes of \<^verbatim>\<open>ops\<close>, the keys of \<^verbatim>\<open>db/locks.py\<close>, and the FX client, \<^verbatim>\<open>clients/fx.py\<close>.

  Examples, ServiceExamples, ReconExamples, BusExamples, EdgeExamples, RouteExamples hold concrete states for the witnesses.

  INTERFACES are locales, each interpreted on the model's own definitions. \<^verbatim>\<open>posting_rule_contract\<close> (Postings): a rule
  builds well-formed lines; interpreted for all rules. \<^verbatim>\<open>account_resolver\<close> (Accounts): the account that comes
  back is the one of its key; for \<^verbatim>\<open>get_or_create\<close>. \<^verbatim>\<open>payout_rail\<close> (Rails): only verified accounts, arrival not
  before submission; for the four rails. \<^verbatim>\<open>circuit_breaker\<close> (Breaker): an open circuit makes no call; for
  both breakers. \<^verbatim>\<open>text_order\<close> (Paging): a collation; for the code points.

  STEP RELATIONS: \<^verbatim>\<open>ledger_step\<close> (writes to the books), \<^verbatim>\<open>payout_step\<close>, \<^verbatim>\<open>quiet_step\<close> and \<^verbatim>\<open>recon_step\<close> (attempts, labelled with the
  captures they sent, among all other writers), \<^verbatim>\<open>bus_step\<close> (the drains). Each comes with its reachable states or
  runs, invariants by rule induction, and theorems that the code's operations are such steps.

  WHAT THE PROPERTIES SHOW. Books: balanced transactions, cache equal to sums, one posting for a key,
  success of \<^verbatim>\<open>post\<close> on well-formed lines, and reversals (reachable_..., key_posts_once, post_creates, reversal_restores_balances).
  Domain: exactness and conservation of money arithmetic, injectivity of ledger keys, acceptance of the rules'
  lines, total calendar, backoff in its band. Round trips of keys and of both settlement formats. Payouts: never more
  than the balance, one in flight, reversed at most once. Reconciliation: settled once, captured at most as the
  locks allow, counters that add up, errors routed; imports repeat without effect. Bus: events take effect once, projections
  converge, published means sent. Upstream: an open circuit sends nothing. Edge: nobody enters without
  credentials, requests only append to the books, a posted key is refused and a bulk request may be repeated
  (requests_only_append, posted_key_refused, bulk_repeats), and pages enumerate the rows. Several theorems state what the code does where its
  documentation says otherwise (adjustment_stuck, second_default_ends_consumer, drains_send_once).

  TERMINATION, BOUNDS AND FUEL. Every recursion is structural or has a measure (\<^verbatim>\<open>mro\<close>, \<^verbatim>\<open>digits_int\<close>, \<^verbatim>\<open>places\<close>,
  \<^verbatim>\<open>count_days\<close>, \<^verbatim>\<open>sub_scan\<close>); the loops of the service walk over lists that were read before, so nothing needs fuel
  but two loops: \<^verbatim>\<open>next_business_day\<close> tries 31 days as the code does, and \<^verbatim>\<open>all_pages\<close>, the caller's
  loop over cursors, takes fuel above the number of rows, for which its theorem gives the result. Integers of Python are
  unbounded ints; columns of 64 bits are a hypothesis where a theorem rests on them (allocation, decimal
  products below 10^28). Decimals are rationals with the context's rounding, floats of the backoff are
  rationals with the rounding of binary64; exponent limits and NaN are outside.

  NOT MODELLED. SQL, SQLAlchemy, FastAPI, httpx and boto themselves; wire schemas, whose models are generated in
  \<^verbatim>\<open>payzeno_contracts\<close>; migrations, whose constraints are the checks of the inserts. Advisory locks and row locks
  appear as the serial order of the steps and as answers of the environment to \<^verbatim>\<open>try_acquire\<close>. Metrics, log lines (but
  for the access log and scrubbing), timeouts, the container's wiring, the settings' defaults, the parsing of command-line arguments and the
  checks FastAPI makes before a handler runs are left out. Timestamps are integers of seconds or minutes as each theory says;
  Latin-1 bounds the characters of texts except in Paging, which has all code points.
\<close>

section \<open>The books\<close>

text \<open>C1: Debits equal credits, always. Start from empty tables and run any sequence of posts,
  reversals, account operations and publications: for every currency, every choice of mode and
  every instant, the trial balance that the audit computes has equal totals, and so has each of
  its rows.\<close>

theorem reachable_trial_balance:
  assumes "reachable_books s"
  shows "tt_debit_minor (trial_balance_by_currency c lm as_of s) = tt_credit_minor (trial_balance_by_currency c lm as_of s)
    \<and> (\<forall>r\<in>set (tt_rows (trial_balance_by_currency c lm as_of s)). delta_minor r = 0)"
  using trial_balance_zero [OF reachable_books_ok [OF assms]]
  by (simp add: trial_balance_by_currency_def Let_def)

theorem trial_balance_witness:
  "reachable_books demo_books \<and> tt_debit_minor (trial_balance_by_currency ''USD'' None None demo_books) = 30000
   \<and> tt_credit_minor (trial_balance_by_currency ''USD'' None None demo_books) = 30000"
proof -
  have "tt_debit_minor (trial_balance_by_currency ''USD'' None None demo_books) = 30000" by code_simp
  then show ?thesis using reachable_trial_balance [OF demo_reachable(2), of "''USD''" None None] demo_reachable(2) by simp
qed

text \<open>C2: The shape of every transaction in reachable books: at least two entries, all positive, of
  the transaction's currency and mode, on accounts of the transaction's merchant (platform accounts
  belong to no merchant), with debits equal to credits. Identifiers and idempotency keys are
  unique, and so are the sequence numbers inside a transaction.\<close>

theorem reachable_transaction_shape:
  assumes "reachable_books s" "t \<in> set (transactions s)"
  shows "2 \<le> length (entries_of (txn_id t) s)
    \<and> side_total Debit (entries_of (txn_id t) s) = side_total Credit (entries_of (txn_id t) s)
    \<and> (\<forall>e\<in>set (entries_of (txn_id t) s). 0 < le_amount e \<and> le_currency e = txn_currency t \<and> le_livemode e = txn_livemode t
        \<and> (\<exists>a. find_account (le_account e) s = Some a \<and> acct_currency a = txn_currency t \<and> acct_livemode a = txn_livemode t
            \<and> acct_merchant a = (if is_platform_account (acct_type a) then None else txn_merchant t)))
    \<and> distinct (map txn_id (transactions s)) \<and> distinct (map txn_key (transactions s)) \<and> distinct (map le_id (entries s))
    \<and> distinct (map (\<lambda>e. (le_transaction e, le_sequence e)) (entries s))"
proof -
  have ok: "ledger_ok s" by (rule reachable_books_ok [OF assms(1)])
  have bal: "txn_balanced s t" using ok assms(2) by (simp add: ledger_ok_def)
  have placed: "0 < le_amount e \<and> le_currency e = txn_currency t \<and> le_livemode e = txn_livemode t
      \<and> (\<exists>a. find_account (le_account e) s = Some a \<and> acct_currency a = txn_currency t \<and> acct_livemode a = txn_livemode t
            \<and> acct_merchant a = (if is_platform_account (acct_type a) then None else txn_merchant t))"
    if "e \<in> set (entries_of (txn_id t) s)" for e
  proof -
    have e: "e \<in> set (entries s)" "le_transaction e = txn_id t" using that by (simp_all add: entries_of_def)
    then have "0 < le_amount e" using ok by (simp add: ledger_ok_def entry_placed_def)
    then show ?thesis using entry_facts [OF ok e(1) assms(2) e(2)] by (auto simp: account_key_def)
  qed
  show ?thesis
    using ok bal placed side_total_net [of "entries_of (txn_id t) s"]
    by (simp add: ledger_ok_def txn_balanced_def entry_net_def)
qed

theorem transaction_shape_witness:
  "reachable_books demo_books \<and> length (transactions demo_books) = 2
   \<and> 2 \<le> length (entries_of (txn_id (transactions demo_books ! 1)) demo_books)"
proof -
  have n: "length (transactions demo_books) = 2" by code_simp
  then have "transactions demo_books ! 1 \<in> set (transactions demo_books)" by simp
  from reachable_transaction_shape [OF demo_reachable(2) this] show ?thesis using demo_reachable(2) n by blast
qed

text \<open>C3: The balance cache is the books: in every reachable state the four cached buckets of a
  merchant are the sums \<^verbatim>\<open>_sum_buckets\<close> recomputes from the entries, and the negative balance is the
  shortfall of the available bucket. A merchant with no row has four zero sums.\<close>

theorem reachable_cache_is_sums:
  assumes "reachable_books s"
  shows "sum_buckets m c l None s =
      [(''merchant_payable'', available_minor (cached s (m, c, l))), (''merchant_pending'', pending_minor (cached s (m, c, l))),
       (''merchant_reserve'', reserved_minor (cached s (m, c, l))), (''merchant_disputed'', disputed_minor (cached s (m, c, l)))]
    \<and> negative_balance_minor (cached s (m, c, l)) = max 0 (- available_minor (cached s (m, c, l)))"
proof -
  have ok: "ledger_ok s" by (rule reachable_books_ok [OF assms])
  then have "row_agrees s (m, c, l)" "accounts_ok s" by (simp_all add: ledger_ok_def cache_agrees_def)
  then show ?thesis unfolding sum_buckets_spec [OF \<open>accounts_ok s\<close>] row_agrees_def by (simp add: BUCKET_ACCOUNT_TYPES_def)
qed

theorem cache_witness:
  "reachable_books demo_books \<and> available_minor (cached demo_books (''mch_1'', ''USD'', True)) = 9180
   \<and> (''merchant_payable'', 9180) \<in> set (sum_buckets ''mch_1'' ''USD'' True None demo_books)"
proof -
  have "available_minor (cached demo_books (''mch_1'', ''USD'', True)) = 9180" by code_simp
  then show ?thesis using reachable_cache_is_sums [OF demo_reachable(2), of "''mch_1''" "''USD''" True] demo_reachable(2) by simp
qed

text \<open>C4: A key posts once. After a transaction was created under a key, and after any further
  operations on the books, a post under the same key writes nothing: with the policy
  \<^verbatim>\<open>return_existing\<close> it returns the transaction that holds the key, with \<^verbatim>\<open>raise\<close> it fails with
  \<^verbatim>\<open>DuplicateSettlementError\<close>; accounts, entries, transactions, balances and outbox stay as they were.\<close>

theorem key_posts_once:
  assumes "reachable_books s" "post E r s = Inr (res, s1)" "ledger_step\<^sup>*\<^sup>* s1 s2"
    "pr_key r' = pr_key r" "well_formed_lines (pr_lines r')"
  shows "\<exists>t. txn_id t = txn_id (result_transaction res) \<and> t \<in> set (transactions s2)
    \<and> post E' r' s2 = (if pr_on_conflict r' = ReturnExisting
        then Inr (\<lparr>result_transaction = t, result_created = False\<rparr>, s2\<lparr>id_supply := Suc (id_supply s2)\<rparr>)
        else raise DuplicateSettlementError)"
proof -
  have ok: "ledger_ok s" by (rule reachable_books_ok [OF assms(1)])
  obtain t where t: "find_by_idempotency_key (pr_key r) s2 = Some t" "txn_id t = txn_id (result_transaction res)"
    using steps_key_stable [OF assms(3) post_takes_key [OF assms(2) ok]] by blast
  have ok2: "ledger_ok s2" using assms(3) ledger_steps_ok post_ledger_ok [OF assms(2) ok] by blast
  have "t \<in> set (transactions s2)" using t(1) by (auto simp: find_by_idempotency_key_def dest: find_first_SomeD)
  then show ?thesis using post_duplicate [OF assms(5) ok2] t assms(4) by auto
qed

theorem key_posts_once_witness:
  "post demo_env auth_request demo_books = raise DuplicateSettlementError"
proof -
  have ok: "is_ok (post demo_env auth_request empty_ledger)" "is_ok (post demo_env capture_request auth_books)" by code_simp+
  then obtain res res' where p: "post demo_env auth_request empty_ledger = Inr (res, auth_books)"
    "post demo_env capture_request auth_books = Inr (res', demo_books)"
    by (auto simp: is_ok_def auth_books_def demo_books_def run_post_def split: sum.splits)
  have "ledger_step\<^sup>*\<^sup>* auth_books demo_books" using step_post [OF p(2)] by blast
  moreover have "well_formed_lines (pr_lines auth_request)" "pr_on_conflict auth_request = RaiseConflict" by code_simp+
  ultimately show ?thesis
    using key_posts_once [OF empty_reachable p(1), of demo_books auth_request demo_env] by auto
qed



text \<open>C6: A reversal takes the money back: after \<^verbatim>\<open>reverse\<close> of a transaction of the books every account
  holds what it held before that transaction's entries, the reversal points at the original, and
  the books still satisfy their invariant.\<close>

theorem reversal_restores_balances:
  assumes "reachable_books s" "t \<in> set (transactions s)" "reverse E t key by s = Inr (res, s')"
  shows "account_balance s' aid = account_balance s aid - entry_net (filter (\<lambda>e. le_account e = aid) (entries_of (txn_id t) s))
    \<and> result_created res \<and> txn_reverses (result_transaction res) = Some (txn_id t) \<and> ledger_ok s'"
  using reverse_spec [OF assms(3) reachable_books_ok [OF assms(1)] assms(2)] by blast

theorem reversal_witness:
  "\<exists>res s'. reverse demo_env (hd (transactions auth_books)) ''reversal:mch_1:ch_1'' ''ops'' auth_books = Inr (res, s')
     \<and> account_balance s' (le_account (hd (entries auth_books))) = 0 \<and> account_balance auth_books (le_account (hd (entries auth_books))) = 10000"
proof -
  let ?t = "hd (transactions auth_books)" and ?a = "le_account (hd (entries auth_books))"
  have "is_ok (reverse demo_env ?t ''reversal:mch_1:ch_1'' ''ops'' auth_books)" by code_simp
  then obtain res s' where r: "reverse demo_env ?t ''reversal:mch_1:ch_1'' ''ops'' auth_books = Inr (res, s')"
    by (auto simp: is_ok_def split: sum.splits)
  have n: "transactions auth_books \<noteq> []" by code_simp
  have "account_balance auth_books ?a = 10000" "entry_net (filter (\<lambda>e. le_account e = ?a) (entries_of (txn_id ?t) auth_books)) = 10000"
    by code_simp+
  then show ?thesis using reversal_restores_balances [OF demo_reachable(1) hd_in_set [OF n] r, of ?a] r by simp
qed

section \<open>Keys and identifiers\<close>

text \<open>C7: A ledger key determines the business fact it stands for: two calls of \<^verbatim>\<open>ledger_key\<close> that
  give the same key had the same purpose, scope and item, and \<^verbatim>\<open>parse_key\<close> recovers them.\<close>

theorem ledger_key_faithful:
  assumes "ledger_key p s t = Inr k"
  shows "parse_key k = Inr (p, s, t) \<and> (\<forall>p' s' t'. ledger_key p' s' t' = Inr k \<longrightarrow> p' = p \<and> s' = s \<and> t' = t)"
  using parse_ledger_key [OF assms] ledger_key_inj [OF assms] by blast

theorem ledger_key_witness:
  "ledger_key ''capture'' ''mch_1'' ''ch_1'' = Inr ''capture:mch_1:ch_1''
   \<and> parse_key ''capture:mch_1:ch_1'' = Inr (''capture'', ''mch_1'', ''ch_1'')"
proof -
  have "ledger_key ''capture'' ''mch_1'' ''ch_1'' = Inr ''capture:mch_1:ch_1''" by code_simp
  then show ?thesis using ledger_key_faithful by blast
qed

text \<open>An identifier minted under an owned prefix from a ULID body splits back into that prefix and
  that body, so it is valid for its prefix and for no other.\<close>

theorem new_id_roundtrip:
  assumes "pre \<in> set OWNED_PREFIXES" "is_ulid u"
  shows "\<exists>i. new_id pre u = Inr i \<and> split_id i = Inr (pre, u)
    \<and> is_valid i (Some pre) \<and> (\<forall>p. p \<noteq> pre \<longrightarrow> \<not> is_valid i (Some p))"
  using split_new_id [OF assms] by (simp add: is_valid_def)

theorem new_id_witness:
  "\<exists>i. new_id ''txn'' ''01HZX4T8K2M9P7Q3R5S6V8W0YB'' = Inr i \<and> is_valid i (Some ''txn'')"
proof -
  have "''txn'' \<in> set OWNED_PREFIXES" "is_ulid ''01HZX4T8K2M9P7Q3R5S6V8W0YB''" by code_simp+
  then show ?thesis using new_id_roundtrip by blast
qed

section \<open>Posting rules\<close>

text \<open>C8: Whatever a posting rule returns, the poster accepts: for each of the twenty-one rules, lines
  that \<^verbatim>\<open>build\<close> returns pass the checks of \<^verbatim>\<open>LedgerPoster._assert_invariants\<close> and of \<^verbatim>\<open>validate\<close>, and
  have both a debit and a credit.\<close>

theorem rules_are_accepted:
  assumes "build K r ctx = Inr lines"
  shows "assert_invariants lines = Inr () \<and> validate lines = Inr ()
    \<and> (\<exists>l\<in>set lines. direction l = Debit) \<and> (\<exists>l\<in>set lines. direction l = Credit)"
  using rule.lines_wf [OF assms] rule.accepted_by_validate [OF assms] rule.has_both_sides [OF assms]
  by (simp add: assert_invariants_iff)

theorem rules_accepted_witness:
  "build demo_contracts CapturePostingRule demo_ctx = Inr capture_lines \<and> assert_invariants capture_lines = Inr ()"
  using rules_are_accepted [OF demo_capture_lines] demo_capture_lines by blast

text \<open>A capture splits the gross without loss: the merchant's share, the platform fee and the
  reserve sum to the gross amount, the fee is the rounded percentage plus the fixed part but never
  above the gross, the authorization is released in full, and when fee and reserve exceed the gross
  the rule refuses.\<close>

theorem capture_split:
  assumes "0 < gross_minor ctx" "bigint (gross_minor ctx)"
    "0 \<le> platform_fee_bps ctx" "platform_fee_bps ctx \<le> 10 ^ 9" "0 \<le> platform_fee_fixed_minor ctx"
    "0 \<le> reserve_bps ctx" "reserve_bps ctx \<le> 10 ^ 9"
    "ctx_currency ctx \<in> SUPPORTED_CURRENCIES K" "currency_ok ctx"
  shows "\<exists>fee reserve. fee = min (bps_of (gross_minor ctx) (platform_fee_bps ctx) + platform_fee_fixed_minor ctx) (gross_minor ctx)
    \<and> reserve = bps_of (gross_minor ctx) (reserve_bps ctx) \<and> 0 \<le> fee \<and> 0 \<le> reserve
    \<and> CapturePostingRule_build K ctx = (if gross_minor ctx < fee + reserve then raise ValidationError
        else Inr (nonzero_lines [debit ''processor_clearing'' (gross_minor ctx),
          credit ''merchant_payable'' (gross_minor ctx - fee - reserve), credit ''platform_fee_revenue'' fee, credit ''reserve'' reserve,
          debit ''authorization_hold'' (gross_minor ctx), credit ''merchant_receivable'' (gross_minor ctx)]))"
  using capture_build_spec [OF assms] assms bps_of_nonneg [of "gross_minor ctx"] by simp

theorem capture_split_witness:
  "CapturePostingRule_build demo_contracts demo_ctx = Inr capture_lines"
  using capture_split [of demo_ctx demo_contracts] demo_currency
  by (simp add: demo_ctx_def demo_bps capture_lines_def bigint_def nonzero_lines_def)

text \<open>A settlement with a positive fee always posts, and its legs account for the fee: interchange,
  scheme fee and acquirer markup are non-negative and sum to the fee, and they are the reported
  components whenever those fit inside the fee.\<close>

theorem settlement_legs_sum:
  assumes "0 < fee_minor ctx" "currency_ok ctx"
  shows "\<exists>i s m. 0 \<le> i \<and> 0 \<le> s \<and> 0 \<le> m \<and> i + s + m = fee_minor ctx
    \<and> SettlementPostingRule_build ctx = Inr (nonzero_lines [debit ''interchange_expense'' i,
        debit ''scheme_fee_expense'' s, debit ''acquirer_fee_expense'' m, credit ''processor_clearing'' (fee_minor ctx)])
    \<and> (0 \<le> interchange_minor ctx \<and> 0 \<le> scheme_fee_minor ctx
        \<and> interchange_minor ctx + scheme_fee_minor ctx \<le> fee_minor ctx
        \<longrightarrow> i = interchange_minor ctx \<and> s = scheme_fee_minor ctx)"
  using settlement_build_spec [OF assms] .

theorem settlement_legs_witness:
  "\<exists>m. SettlementPostingRule_build demo_ctx = Inr (nonzero_lines [debit ''interchange_expense'' 120,
      debit ''scheme_fee_expense'' 20, debit ''acquirer_fee_expense'' m, credit ''processor_clearing'' 180]) \<and> m = 40"
proof -
  have "fee_minor demo_ctx = 180" "interchange_minor demo_ctx = 120" "scheme_fee_minor demo_ctx = 20" by (simp_all add: demo_ctx_def)
  then show ?thesis using settlement_legs_sum [of demo_ctx] demo_currency(1) by auto
qed

section \<open>Money\<close>

text \<open>C9: Basis points are exact up to one rounding: for products inside the 28 digits of the decimal
  context, \<^verbatim>\<open>apply_bps\<close> returns amount times bps over 10000 rounded half up, in the same currency; it is
  never negative on a non-negative amount, monotone in the rate, and at most the amount when the rate
  is at most 10000.\<close>

theorem apply_bps_exact:
  assumes "0 \<le> b" "\<bar>amount_minor m * b\<bar> < 10 ^ 28" "currency m \<in> SUPPORTED_CURRENCIES K"
  shows "\<exists>v. apply_bps K m b = Inr \<lparr>amount_minor = v, currency = currency m\<rparr>
    \<and> v = round_half_up (of_int (amount_minor m * b) / 10000)
    \<and> (0 \<le> amount_minor m \<longrightarrow> 0 \<le> v \<and> (b \<le> 10000 \<longrightarrow> v \<le> amount_minor m)
        \<and> (\<forall>b' w. b \<le> b' \<and> \<bar>amount_minor m * b'\<bar> < 10 ^ 28 \<and> apply_bps K m b' = Inr w \<longrightarrow> v \<le> amount_minor w))"
proof -
  have mono: "bps_of (amount_minor m) b \<le> amount_minor w"
    if "0 \<le> amount_minor m" "b \<le> b'" "\<bar>amount_minor m * b'\<bar> < 10 ^ 28" "apply_bps K m b' = Inr w" for b' w
    using that apply_bps_spec [of b' m K] assms bps_of_mono [of "amount_minor m" b b'] by auto
  show ?thesis
    by (rule exI [of _ "bps_of (amount_minor m) b"], intro conjI impI allI)
       (use mono in \<open>auto simp: apply_bps_spec [OF assms] bps_of_nonneg bps_of_le assms(1)\<close>, simp add: bps_of_def)
qed

theorem apply_bps_witness:
  "apply_bps demo_contracts \<lparr>amount_minor = 1050, currency = ''USD''\<rparr> 290 = Inr \<lparr>amount_minor = 30, currency = ''USD''\<rparr>"
proof -
  have "round_half_up (of_int (1050 * 290) / 10000 :: rat) = 30" "''USD'' \<in> SUPPORTED_CURRENCIES demo_contracts" by code_simp+
  then show ?thesis using apply_bps_exact [of 290 "\<lparr>amount_minor = 1050, currency = ''USD''\<rparr>" demo_contracts] by auto
qed

text \<open>Amounts survive the trip through text: \<^verbatim>\<open>to_minor\<close> reads back what \<^verbatim>\<open>from_minor\<close> printed, for
  every amount below 10^28 in absolute value and every supported currency of the documented tables.\<close>

theorem minor_text_roundtrip:
  assumes "contracts_documented K" "c \<in> SUPPORTED_CURRENCIES K" "\<bar>n\<bar> < 10 ^ 28"
  shows "bindE (from_minor K n c) (\<lambda>s. to_minor K s c) = Inr n"
  using to_minor_from_minor [OF documented_exponent [OF assms(1,2)] _ assms(3)] by simp

theorem minor_text_witness:
  "contracts_documented demo_contracts
   \<and> bindE (from_minor demo_contracts (-123456) ''USD'') (\<lambda>s. to_minor demo_contracts s ''USD'') = Inr (-123456)"
proof -
  have "contracts_documented demo_contracts" "''USD'' \<in> SUPPORTED_CURRENCIES demo_contracts" by code_simp+
  then show ?thesis using minor_text_roundtrip [of demo_contracts "''USD''" "-123456"] by simp
qed

text \<open>Splitting an amount evenly loses nothing: \<^verbatim>\<open>split_evenly\<close> returns the asked number of parts,
  they sum to the amount, and any two parts differ by at most one minor unit.\<close>

theorem split_evenly_fair:
  assumes "0 < parts" "currency m \<in> SUPPORTED_CURRENCIES K"
  shows "\<exists>ms. split_evenly K m parts = Inr ms \<and> int (length ms) = parts \<and> sum_list (map amount_minor ms) = amount_minor m
    \<and> (\<forall>x\<in>set ms. \<forall>y\<in>set ms. \<bar>amount_minor x - amount_minor y\<bar> \<le> 1) \<and> (\<forall>x\<in>set ms. currency x = currency m)"
proof -
  obtain ms where ms: "split_evenly K m parts = Inr ms" "int (length ms) = parts" "sum_list (map amount_minor ms) = amount_minor m"
    "\<forall>x\<in>set ms. currency x = currency m \<and> (amount_minor x = amount_minor m div parts \<or> amount_minor x = amount_minor m div parts + 1)"
    using split_evenly_sum [OF assms] by blast
  have "\<bar>amount_minor x - amount_minor y\<bar> \<le> 1" if "x \<in> set ms" "y \<in> set ms" for x y
    using bspec [OF ms(4) that(1)] bspec [OF ms(4) that(2)] by auto
  then show ?thesis using ms by blast
qed

theorem split_evenly_witness:
  "\<exists>ms. split_evenly demo_contracts \<lparr>amount_minor = 100, currency = ''EUR''\<rparr> 3 = Inr ms \<and> sum_list (map amount_minor ms) = 100"
proof -
  have "''EUR'' \<in> SUPPORTED_CURRENCIES demo_contracts" by code_simp
  then show ?thesis using split_evenly_fair [of 3 "\<lparr>amount_minor = 100, currency = ''EUR''\<rparr>" demo_contracts] by auto
qed

text \<open>C10: Largest-remainder allocation loses nothing: over non-negative weights with a positive sum,
  \<^verbatim>\<open>allocate_remainder\<close> returns one amount per weight, they sum to the total, and each is the exact
  share rounded down, or one more. The decimal divisions inside do not disturb this for 64-bit amounts
  and weights summing to at most 10^8.\<close>

theorem allocation_conserves:
  assumes "bigint (amount_minor m)" "currency m \<in> SUPPORTED_CURRENCIES K"
    "\<forall>w\<in>set ws. 0 \<le> w" "0 < sum_list ws" "sum_list ws \<le> 10 ^ 8"
  shows "\<exists>ms. allocate_remainder K m ws = Inr ms \<and> length ms = length ws
    \<and> sum_list (map amount_minor ms) = amount_minor m
    \<and> (\<forall>i < length ws. amount_minor (ms ! i) - \<lfloor>rat_of_int (amount_minor m * ws ! i) / of_int (sum_list ws)\<rfloor> \<in> {0, 1})"
  by (rule allocate_remainder_sum [OF assms])

theorem allocate_witness:
  "\<exists>ms. allocate_remainder demo_contracts \<lparr>amount_minor = 100, currency = ''EUR''\<rparr> [1, 1, 1] = Inr ms
     \<and> sum_list (map amount_minor ms) = 100"
proof -
  have "''EUR'' \<in> SUPPORTED_CURRENCIES demo_contracts" by code_simp
  then show ?thesis
    using allocation_conserves [of "\<lparr>amount_minor = 100, currency = ''EUR''\<rparr>" demo_contracts "[1, 1, 1]"]
    by (auto simp: bigint_def)
qed

section \<open>Fees\<close>

text \<open>Apportioning a fee rounds once: for distinct component names inside the decimal range the call
  succeeds, its total is the exact sum of the components rounded half up, and the reported parts sum to
  that total; the rounding remainder lands in one component.\<close>

theorem apportion_rounds_once:
  assumes "fees_in_range g cs" "cs \<noteq> []" "distinct (map fc_name cs)" "currency g \<in> SUPPORTED_CURRENCIES K"
  shows "\<exists>fb. apportion_fee K g cs = Inr fb
    \<and> amount_minor (fb_total fb) = round_half_up (of_int (\<Sum>c\<leftarrow>cs. amount_minor g * fc_bps c + 10000 * fc_fixed_minor c) / 10000)
    \<and> sum_list (map (amount_minor \<circ> snd) (fb_components fb)) = amount_minor (fb_total fb)
    \<and> map fst (fb_components fb) = map fc_name cs"
  using apportion_fee_ok [OF assms] apportion_fee_sum(1,2) by (fastforce simp: component_scaled_def)

theorem apportion_witness:
  "\<exists>fb. apportion_fee demo_contracts \<lparr>amount_minor = 1050, currency = ''USD''\<rparr>
       [\<lparr>fc_name = ''interchange'', fc_bps = 150, fc_fixed_minor = 10\<rparr>, \<lparr>fc_name = ''acquirer_markup'', fc_bps = 33, fc_fixed_minor = 0\<rparr>] = Inr fb
     \<and> amount_minor (fb_total fb) = 29"
proof -
  let ?cs = "[\<lparr>fc_name = ''interchange'', fc_bps = 150, fc_fixed_minor = 10\<rparr>, \<lparr>fc_name = ''acquirer_markup'', fc_bps = 33, fc_fixed_minor = 0\<rparr>]"
  have "round_half_up (of_int 292150 / 10000 :: rat) = 29" "''USD'' \<in> SUPPORTED_CURRENCIES demo_contracts" by code_simp+
  then show ?thesis
    using apportion_rounds_once [of "\<lparr>amount_minor = 1050, currency = ''USD''\<rparr>" ?cs demo_contracts] by (auto simp: fees_in_range_def)
qed

text \<open>The legacy blended fee is the platform fee at 290 bps plus 30: the two routines return the same
  money on every amount in range, so switching between them changes no posting.\<close>

theorem legacy_fee_is_platform_fee:
  assumes "\<bar>amount_minor g * 290\<bar> < 10 ^ 28" "currency g \<in> SUPPORTED_CURRENCIES K"
  shows "legacy_blended_fee K g = compute_platform_fee K g LEGACY_BLENDED_BPS LEGACY_BLENDED_FIXED_MINOR"
  by (rule legacy_blended_equiv [OF assms])

theorem legacy_fee_witness:
  "legacy_blended_fee demo_contracts \<lparr>amount_minor = 1050, currency = ''USD''\<rparr> =
   compute_platform_fee demo_contracts \<lparr>amount_minor = 1050, currency = ''USD''\<rparr> LEGACY_BLENDED_BPS LEGACY_BLENDED_FIXED_MINOR"
proof -
  have "''USD'' \<in> SUPPORTED_CURRENCIES demo_contracts" by code_simp
  then show ?thesis using legacy_fee_is_platform_fee [of "\<lparr>amount_minor = 1050, currency = ''USD''\<rparr>" demo_contracts] by simp
qed

section \<open>Foreign exchange\<close>

text \<open>A payout quote never pays more than the mid-market value: the customer rate is at most the mid
  rate, the target and the platform's spread add up to the mid-rate conversion, the spread is not
  negative, and the target is positive in the target currency.\<close>

theorem fx_quote_spread:
  assumes "quote_payout_conversion K src c mid b = Inr q" "0 \<le> mid" "on_rate_grid mid"
  shows "0 < amount_minor (fx_target q) \<and> currency (fx_target q) = c \<and> fx_rate q \<le> mid \<and> 0 \<le> spread_minor q
    \<and> convert_minor K (amount_minor src) (currency src) c mid = Inr (amount_minor (fx_target q) + spread_minor q)"
  using quote_payout_conversionD [OF assms(1)] spread_nonneg [OF assms] marked_down_le_mid [OF _ assms(2,3)]
  by (simp add: spread_minor_def)

theorem fx_quote_witness:
  "\<exists>q. quote_payout_conversion demo_contracts \<lparr>amount_minor = 10000, currency = ''USD''\<rparr> ''EUR'' (92 / 100) 50 = Inr q
     \<and> 0 \<le> spread_minor q"
proof -
  have "on_rate_grid (92 / 100)" by code_simp
  moreover have "is_ok (quote_payout_conversion demo_contracts \<lparr>amount_minor = 10000, currency = ''USD''\<rparr> ''EUR'' (92 / 100) 50)"
    by code_simp
  then obtain q where "quote_payout_conversion demo_contracts \<lparr>amount_minor = 10000, currency = ''USD''\<rparr> ''EUR'' (92 / 100) 50 = Inr q"
    by (auto simp: is_ok_def split: sum.splits)
  ultimately show ?thesis using fx_quote_spread by fastforce
qed

text \<open>A stored rate reads back: \<^verbatim>\<open>format_rate\<close> prints every rate of at most 28 digits as plain
  decimal text whose value is the rate itself.\<close>

theorem rate_text_roundtrip:
  assumes "x * 10 ^ k = of_int n" "\<bar>n\<bar> < 10 ^ 28"
  shows "parse_decimal (format_rate x) = Some (Fin x)"
  by (rule format_rate_parse [OF assms])

theorem rate_text_witness: "parse_decimal (format_rate (9154 / 10000)) = Some (Fin (9154 / 10000))"
  using rate_text_roundtrip [of "9154 / 10000" 4 9154] by simp

section \<open>Accounts\<close>

text \<open>C11: Two requests that create the same account at once agree on one row: when another session
  inserted the account between the lookup and the insert, \<^verbatim>\<open>get_or_create\<close> returns the winner's row,
  adds nothing, and the chart of accounts still has one row per natural key.\<close>

theorem account_race_one_row:
  assumes "accounts_ok s" "find_one m t c l s = None" "map_of NORMAL_BALANCE_BY_TYPE t = Some nb"
    "account_key w = (m, t, c, l)" "acct_normal w = nb" "acct_id w \<notin> acct_id ` set (accounts s)"
  shows "\<exists>s'. get_or_create_racing E (Some w) m t c l s = Inr (w, s') \<and> accounts s' = accounts s @ [w] \<and> accounts_ok s'"
  by (rule get_or_create_race [OF assms])

theorem account_race_witness:
  "\<exists>w s'. get_or_create_racing demo_env (Some w) (Some ''mch_1'') ''reserve'' ''USD'' True auth_books = Inr (w, s')
     \<and> accounts s' = accounts auth_books @ [w]"
proof -
  let ?w = "\<lparr>acct_id = ''acct_w'', acct_merchant = Some ''mch_1'', acct_type = ''reserve'', acct_currency = ''USD'',
     acct_normal = Credit, acct_status = ''active'', acct_livemode = True, acct_updated_at = 0\<rparr>"
  have "accounts_ok auth_books" using reachable_books_ok [OF demo_reachable(1)] by (simp add: ledger_ok_def)
  moreover have "find_one (Some ''mch_1'') ''reserve'' ''USD'' True auth_books = None"
    "map_of NORMAL_BALANCE_BY_TYPE ''reserve'' = Some Credit" "acct_id ?w \<notin> acct_id ` set (accounts auth_books)" by code_simp+
  ultimately show ?thesis
    using account_race_one_row [of auth_books "Some ''mch_1''" "''reserve''" "''USD''" True Credit ?w demo_env]
    by (auto simp: account_key_def)
qed

section \<open>Balances and the nightly audit\<close>

text \<open>C12: The balance the API serves from the cache is the balance replayed from the entries. On
  reachable books, for an instant no entry is later than, \<^verbatim>\<open>get_balance\<close> without a date and the
  replay \<^verbatim>\<open>_historical_balance\<close> at that instant agree in every field but the time stamp, whether or
  not the merchant has a cache row.\<close>

theorem balance_is_replay:
  assumes "reachable_books s" "\<forall>e\<in>set (entries s). le_created_at e \<le> t"
  shows "get_balance now m c l None s = (historical_balance m c l t s)\<lparr>bal_as_of := bal_as_of (get_balance now m c l None s)\<rparr>"
  by (rule get_balance_replay [OF reachable_books_ok [OF assms(1)] assms(2)])

theorem balance_replay_witness:
  "reachable_books demo_books \<and> bal_available (get_balance 5 ''mch_1'' ''USD'' True None demo_books) = 9180
   \<and> bal_available (historical_balance ''mch_1'' ''USD'' True 1700000000 demo_books) = 9180"
proof -
  have t: "\<forall>e\<in>set (entries demo_books). le_created_at e \<le> 1700000000" by code_simp
  have "bal_available (get_balance 5 ''mch_1'' ''USD'' True None demo_books) = 9180" by code_simp
  moreover have "bal_available (b\<lparr>bal_as_of := x\<rparr>) = bal_available b" for b x by simp
  ultimately show ?thesis
    using balance_is_replay [OF demo_reachable(2) t, of 5 "''mch_1''" "''USD''" True] demo_reachable(2) by metis
qed

text \<open>A balance history adds up. Whenever \<^verbatim>\<open>get_balance_history\<close> returns points for the payable
  account, the last running amount is the net movement of the account over the window, the counts
  add up to the number of entries in it, and the buckets come in order of time.\<close>

theorem history_adds_up:
  assumes "get_balance_history m c l start stop interval s = Inr points" "points \<noteq> []"
    and "find_one (Some m) ''merchant_payable'' c l s = Some a"
  shows "fst (snd (last points)) = - entry_net (window (acct_id a) start stop s)
    \<and> sum_list (map (int \<circ> snd \<circ> snd) points) = int (length (window (acct_id a) start stop s))
    \<and> sorted (map fst points)"
proof -
  obtain rows where r: "sum_by_bucket (acct_id a) start stop interval s = Inr rows" "points = running_points 0 rows"
    using assms by (auto simp: get_balance_history_def bindE_Inr_iff split: option.splits if_splits)
  have "map (int \<circ> snd \<circ> snd) points = map int (map (snd \<circ> snd) points)" by (simp add: comp_assoc)
  then have "map (int \<circ> snd \<circ> snd) points = map (int \<circ> bk_count) rows" by (simp only: r(2) running_counts) simp
  then show ?thesis
    using sum_by_bucket_total [OF r(1)] running_last [of rows 0] assms(2) running_starts [of 0 rows] by (simp add: r(2))
qed

theorem history_witness:
  "case get_balance_history ''mch_1'' ''USD'' True 0 1800000000 ''day'' demo_books of
     Inr points \<Rightarrow> fst (snd (last points)) = 9180 | Inl _ \<Rightarrow> False"
proof -
  let ?h = "get_balance_history ''mch_1'' ''USD'' True 0 1800000000 ''day'' demo_books"
  have ok: "case ?h of Inl _ \<Rightarrow> False | Inr points \<Rightarrow> points \<noteq> []" by code_simp
  then obtain points where p: "?h = Inr points" "points \<noteq> []" by (auto split: sum.splits)
  have "find_one (Some ''mch_1'') ''merchant_payable'' ''USD'' True demo_books \<noteq> None
      \<and> - entry_net (window (acct_id (the (find_one (Some ''mch_1'') ''merchant_payable'' ''USD'' True demo_books))) 0 1800000000 demo_books) = 9180"
    by code_simp
  then show ?thesis using history_adds_up [OF p] p(1) by auto
qed

text \<open>The nightly audit is silent on the books this program writes. On reachable books, at an
  instant no entry is later than, the whole pass (the trial balance of every audited currency, the
  duplicate-settlement check and the comparison of every cached balance with its entries) ends with
  no finding, publishes nothing and changes nothing.\<close>

theorem audit_silent:
  assumes "reachable_books s" "\<forall>e\<in>set (entries s). le_created_at e \<le> env_now E"
  shows "ledger_audit_job E s = (Inr 0, s)"
  by (rule audit_job_ok [OF reachable_books_ok [OF assms(1)] assms(2) reachable_cache_keys [OF assms(1)]])

theorem audit_silent_witness:
  "reachable_books demo_books \<and> length (entries demo_books) = 8 \<and> ledger_audit_job demo_env demo_books = (Inr 0, demo_books)"
proof -
  have "\<forall>e\<in>set (entries demo_books). le_created_at e \<le> env_now demo_env" by code_simp
  moreover have "length (entries demo_books) = 8" by code_simp
  ultimately show ?thesis using audit_silent [OF demo_reachable(2)] demo_reachable(2) by blast
qed

text \<open>C13: A manual adjustment filed through \<^verbatim>\<open>AdjustmentService.request\<close> can never be approved. Its id
  is the first 26 characters of a ledger key and so contains the separator; \<^verbatim>\<open>approve\<close> makes a ledger
  key of that id, which refuses it. Whoever approves, whenever and on whatever database, gets an error.\<close>

theorem adjustment_stuck:
  assumes "request_adjustment E m c lines reason requester s = Inr (r, s')"
  shows "\<not> is_ok (approve_adjustment E' (ar_id r) approver s'')"
  by (rule requested_never_approved [OF assms])

theorem adjustment_stuck_witness:
  "\<exists>r s'. request_adjustment demo_env (Some ''mch_1'') ''USD'' [[(''account_type'', JStr ''cash'')]] ''other'' ''ana'' empty_db = Inr (r, s')
     \<and> \<not> is_ok (approve_adjustment demo_senv (ar_id r) ''bob'' s')"
proof -
  have "is_ok (request_adjustment demo_env (Some ''mch_1'') ''USD'' [[(''account_type'', JStr ''cash'')]] ''other'' ''ana'' empty_db)"
    by code_simp
  then obtain r s' where q: "request_adjustment demo_env (Some ''mch_1'') ''USD'' [[(''account_type'', JStr ''cash'')]] ''other'' ''ana'' empty_db = Inr (r, s')"
    by (auto simp: is_ok_def split: sum.splits)
  then show ?thesis using adjustment_stuck [OF q] by blast
qed

section \<open>Reserves\<close>

text \<open>Releasing a reserve hold moves exactly the held amount from the reserve to the payable
  balance of the hold's merchant, currency and mode and of no other, marks the hold with the
  transaction, and does so once: a second release of the same hold changes nothing.\<close>

theorem release_exact_once:
  assumes "release_one E i s = Inr (True, s')" "ledger_ok s" "find_hold i s = Some h"
  shows "bucket_balance s' ''reserve'' k = bucket_balance s ''reserve'' k
      - (if k = (rh_merchant h, rh_currency h, rh_livemode h) then rh_amount h else 0)
    \<and> bucket_balance s' ''merchant_payable'' k = bucket_balance s ''merchant_payable'' k
      + (if k = (rh_merchant h, rh_currency h, rh_livemode h) then rh_amount h else 0)
    \<and> ledger_ok s' \<and> release_one E' i s' = Inr (False, s')"
  using release_moves_held_amount(1,2) [OF assms] release_one_ok [OF assms(1,2)] release_twice [OF assms(1,2)] by blast

theorem release_once_witness:
  "\<exists>s'. release_one demo_senv ''rh_1'' held_db = Inr (True, s')
     \<and> bucket_balance s' ''merchant_payable'' (''mch_1'', ''USD'', True)
         = bucket_balance held_db ''merchant_payable'' (''mch_1'', ''USD'', True) + 500
     \<and> release_one demo_senv ''rh_1'' s' = Inr (False, s')"
proof -
  obtain s' where r: "release_one demo_senv ''rh_1'' held_db = Inr (True, s')" by (rule held_release)
  from release_exact_once [OF r held_db_ok held_hold, of "(''mch_1'', ''USD'', True)" demo_senv] r show ?thesis
    by (auto simp: demo_hold_def)
qed

section \<open>Payouts\<close>

text \<open>C14: A payout never takes more than the merchant can be paid. On reachable books, if creating a
  payout succeeds then its amount, in the currency of the balance it is paid from, is positive and
  at most the payable balance of that merchant, currency and mode at the clock's instant; that
  balance falls by exactly this amount and every other balance stays; the bank account is a verified one of that merchant;
  and no other payout of the balance was in flight. When no entry lies in the future the payable
  balance is therefore not negative afterwards.\<close>

theorem payout_within_balance:
  assumes "reachable_payouts s" "create_payout E m req cache s = (Inr (p, s'), cache')"
    and "\<forall>e\<in>set (entries s). le_created_at e \<le> env_now E"
  shows "\<exists>c l. po_merchant p = m \<and> in_flight_for m c l s = [] \<and> payouts s' = payouts s @ [p]
    \<and> 0 < sql_balance_amount p \<and> sql_balance_amount p \<le> bucket_balance s ''merchant_payable'' (m, c, l)
    \<and> (\<forall>k. bucket_balance s' ''merchant_payable'' k =
           bucket_balance s ''merchant_payable'' k - (if k = (m, c, l) then sql_balance_amount p else 0))
    \<and> 0 \<le> bucket_balance s' ''merchant_payable'' (m, c, l)
    \<and> (\<exists>b\<in>set (banks s). po_bank_account p = ba_id b \<and> ba_merchant b = m \<and> ba_status b = ''verified'')"
proof -
  note inv = reachable_payouts_inv [OF assms(1)]
  obtain c l b meth rate where t: "payout_target E m req s = Inr (c, l, b, meth)" and cr: "create_under_lock E m req c l b meth rate s = Inr (p, s')"
    using assms(2) by (auto simp: create_payout_def split: sum.splits prod.splits)
  note spec = create_spec [OF cr payouts_invD(1,2) [OF inv]]
  have acc: "accounts_ok s" using payouts_invD(1) [OF inv] by (simp add: ledger_ok_def)
  have pay: "total_of (sum_buckets m c l (Some (env_now E)) s) ''merchant_payable'' = bucket_balance s ''merchant_payable'' (m, c, l)"
    unfolding until_all [OF assms(3)] sum_buckets_spec [OF acc] by (simp add: total_of_def BUCKET_ACCOUNT_TYPES_def)
  have "po_merchant p = m" using spec(4) by (simp add: in_flight_key_def)
  moreover have "bucket_balance s' ''merchant_payable'' k =
      bucket_balance s ''merchant_payable'' k - (if k = (m, c, l) then sql_balance_amount p else 0)" for k
    using spec(2) by (cases k) (simp add: moves_def)
  moreover have "po_bank_account p = ba_id b" using cr by (rule create_bank)
  moreover have "b \<in> set (banks s)" "ba_merchant b = m" using payout_target_bank [OF t] by auto
  ultimately show ?thesis using spec(1,4,5) pay by (intro exI [of _ c] exI [of _ l] conjI bexI [of _ b]) auto
qed

theorem payout_within_balance_witness:
  "\<exists>p s' cache. create_payout demo_senv ''mch_1'' demo_req None demo_db = (Inr (p, s'), cache) \<and> po_merchant p = ''mch_1''
     \<and> 0 < sql_balance_amount p"
proof -
  obtain p s cache where c: "create_payout demo_senv ''mch_1'' demo_req None demo_db = (Inr (p, s), cache)" by (rule demo_paid_out)
  have "\<forall>e\<in>set (entries demo_db). le_created_at e \<le> env_now demo_senv" by code_simp
  from payout_within_balance [OF demo_db_reachable c this] c show ?thesis by blast
qed

text \<open>C15: The table of payouts is sound in every reachable state: each merchant, balance currency and
  mode has at most one payout in flight, every amount is positive, a converted payout carries its
  source amount, rate and spread, a failed or returned payout names its reversal, and every named
  reversal is the transaction that holds the payout's reversal key in the books.\<close>

theorem payout_table_sound:
  assumes "reachable_payouts s"
  shows "distinct (map in_flight_key (filter is_in_flight (payouts s))) \<and> distinct (map po_id (payouts s))
    \<and> (\<forall>p\<in>set (payouts s). 0 < po_amount p \<and> fx_complete p
        \<and> (po_status p \<in> {''failed'', ''returned''} \<longrightarrow>
            (\<exists>r key. po_reversal_transaction p = Some r \<and> ledger_key ''payoutrev'' (po_merchant p) (po_id p) = Inr key
               \<and> (\<exists>t. find_by_idempotency_key key s = Some t \<and> txn_id t = r))))"
proof -
  have "ledger_ok s" "payouts_ok (payouts s)" "\<forall>p\<in>set (payouts s). reversal_recorded p s"
    using reachable_payouts_inv [OF assms] by (simp_all add: payouts_inv_def)
  then show ?thesis
    by (fastforce simp: payouts_ok_def payout_row_ok_def list_all_iff requires_reversal_def REVERSED_STATUSES_def reversal_recorded_def holds_key_def)
qed

theorem payout_table_witness:
  "\<exists>p s cache. create_payout demo_senv ''mch_1'' demo_req None demo_db = (Inr (p, s), cache) \<and> reachable_payouts s
     \<and> distinct (map in_flight_key (filter is_in_flight (payouts s)))"
proof -
  obtain p s cache where c: "create_payout demo_senv ''mch_1'' demo_req None demo_db = (Inr (p, s), cache)" by (rule demo_paid_out)
  have r: "reachable_payouts s" by (rule payouts_step [OF demo_db_reachable step_create [OF c]])
  then show ?thesis using payout_table_sound [OF r] c by blast
qed

text \<open>C16: Ending a payout gives back what it took, once. If cancelling a payout succeeds in a
  reachable state, the payable balance it was paid from rises by exactly its amount in that
  currency and no other balance changes; and after any further operations, whether of payouts or of
  the books, it can neither be cancelled again nor does reporting it failed or returned move money.\<close>

theorem payout_reversed_once:
  assumes "reachable_payouts s" "cancel_payout E i s = Inr (p, s')" "payout_step\<^sup>*\<^sup>* s' s''"
  shows "(\<forall>k. bucket_balance s' ''merchant_payable'' k = bucket_balance s ''merchant_payable'' k
            + (if k = (po_merchant p, balance_currency p, po_livemode p) then balance_amount_minor p else 0))
    \<and> \<not> is_ok (cancel_payout E' i s'')
    \<and> (\<forall>q t. Payouts.mark_failed E' i code message s'' = Inr (q, t) \<longrightarrow> t = s'')"
proof -
  note inv = reachable_payouts_inv [OF assms(1)]
  obtain p0 where p0: "find_payout i s = Some p0" and rev: "reverses p0 p s s'"
    using cancel_reverses [OF assms(2) payouts_invD [OF inv]] by blast
  have same: "po_merchant p = po_merchant p0" "balance_currency p = balance_currency p0" "po_livemode p = po_livemode p0"
    "balance_amount_minor p = balance_amount_minor p0" by (rule cancel_keeps [OF assms(2) p0])+
  have row: "payouts_inv s' \<and> reversed_row i (po_merchant p0) s'"
    using cancel_inv [OF assms(2) inv] reversed_after [OF rev p0] by blast
  from run_reversed [OF assms(3) row] have "payouts_inv s''" "reversed_row i (po_merchant p0) s''" by blast+
  from no_second_reversal [OF this] show ?thesis using rev by (auto simp: reverses_def moves_def same)
qed

theorem payout_reversed_once_witness:
  "\<exists>p s p' s' cache. create_payout demo_senv ''mch_1'' demo_req None demo_db = (Inr (p, s), cache)
     \<and> cancel_payout demo_senv (po_id p) s = Inr (p', s') \<and> \<not> is_ok (cancel_payout demo_senv (po_id p) s')"
proof -
  obtain p s p' s' cache where c: "create_payout demo_senv ''mch_1'' demo_req None demo_db = (Inr (p, s), cache)"
    "cancel_payout demo_senv (po_id p) s = Inr (p', s')" by (rule demo_paid_out)
  have "reachable_payouts s" by (rule payouts_step [OF demo_db_reachable step_create [OF c(1)]])
  from payout_reversed_once [OF this c(2) rtranclp.rtrancl_refl, of demo_senv] c show ?thesis by blast
qed

section \<open>Calendar\<close>

text \<open>C17: The search for a business day always ends with an answer. It returns the first business day
  from the given day on, which is at most thirty days away, and otherwise raises a validation error
  because none of these days is open.\<close>

theorem next_business_day_total:
  "(\<exists>e. next_business_day cal d c r = Inr e \<and> d \<le> e \<and> e \<le> d + 30 \<and> is_business_day cal e c r
      \<and> {x. d \<le> x \<and> x < e \<and> is_business_day cal x c r} = {})
   \<or> (next_business_day cal d c r = raise ValidationError \<and> {x. d \<le> x \<and> x \<le> d + 30 \<and> is_business_day cal x c r} = {})"
proof (cases "next_business_day cal d c r")
  case (Inl e)
  then have "\<forall>x. d \<le> x \<and> x < d + 31 \<longrightarrow> \<not> is_business_day cal x c r"
    using look_ahead_fails [of cal c r 31 d] by (auto simp: next_business_day_def MAX_LOOKAHEAD_DAYS_def)
  then show ?thesis using look_ahead_error [OF Inl [unfolded next_business_day_def]] Inl by auto
next
  case (Inr e)
  then show ?thesis by (auto simp: next_business_day_ok)
qed

text \<open>Counting and advancing business days are inverse: the day \<^verbatim>\<open>add_business_days\<close> returns is a
  business day, and \<^verbatim>\<open>business_days_between\<close> counts exactly the requested number from the start to it.\<close>

theorem business_day_arithmetic:
  assumes "add_business_days cal d n c r = Inr e"
  shows "0 \<le> n \<and> d \<le> e \<and> is_business_day cal e c r \<and> business_days_between cal d e c r = Inr n"
  using add_business_days_ok [OF assms] by blast

theorem business_day_witness:
  "add_business_days (mk_calendar [] []) 738000 3 ''USD'' ''standard_ach'' = Inr 738005
   \<and> business_days_between (mk_calendar [] []) 738000 738005 ''USD'' ''standard_ach'' = Inr 3"
proof -
  have a: "add_business_days (mk_calendar [] []) 738000 3 ''USD'' ''standard_ach'' = Inr 738005" by code_simp
  then show ?thesis using business_day_arithmetic [OF a] by simp
qed

section \<open>Settlement files\<close>

text \<open>C18: A nordpay file read back. Lines laid out in fixed-width records, whose references, amounts
  and codes fit their columns, are parsed to exactly the same lines, in order.\<close>

theorem fixed_file_roundtrip:
  assumes "contracts_documented K" "list_all (\<lambda>(code, l). fixed_fits K code l) cls"
  shows "parse_settlement_file K ''nordpay'' (concat (map (\<lambda>(code, l). fixed_record K code l @ [CHR 0x0A]) cls)) = Inr (map snd cls)"
  using parse_fixed_width_layout [OF assms] by (simp add: parse_settlement_file_def)

theorem fixed_file_witness:
  "parse_settlement_file demo_contracts ''nordpay'' (fixed_record demo_contracts ''SL'' demo_line @ [CHR 0x0A]) = Inr [demo_line]"
  using fixed_file_roundtrip [OF demo_documented, of "[(''SL'', demo_line)]"] demo_line_fits by simp

text \<open>C19: A worldflow file read back. With any header that contains the columns of the format, in any
  order and among any others, the lines written as quoted CSV rows are parsed to exactly the same lines.\<close>

theorem csv_file_roundtrip:
  assumes "set CSV_COLUMNS \<subseteq> set hdr" "list_all one_line hdr" "list_all csv_fits ls"
  shows "parse_settlement_file K ''worldflow'' (concat (map csv_text (hdr # map (\<lambda>l. map (csv_column l) hdr) ls))) = Inr ls"
  using parse_csv_file [OF assms(1,2) csv_columns_stripped assms(3)] by (simp add: parse_settlement_file_def)

theorem csv_file_witness:
  "parse_settlement_file demo_contracts ''worldflow''
     (concat (map csv_text [CSV_COLUMNS, map (csv_column demo_line) CSV_COLUMNS])) = Inr [demo_line]"
proof -
  have "list_all one_line CSV_COLUMNS" by code_simp
  then show ?thesis using csv_file_roundtrip [of CSV_COLUMNS "[demo_line]" demo_contracts] demo_line_csv by simp
qed

section \<open>Settlement and reconciliation\<close>

text \<open>C20: A settled line is never captured again. Take any interleaving of sweep attempts, retries,
  marks, matches, imports and other writers, from a database whose books and items are sound. An item
  that carries a transaction keeps exactly that transaction to the end, and no later attempt on it,
  committed or rolled back, asks the acquirer to capture the charge.\<close>

theorem settled_stays_settled:
  assumes "recon_run s tr s'" "items_inv s" "settled_with s i tid"
  shows "settled_with s' i tid \<and> (\<forall>calls. (i, calls) \<in> set tr \<longrightarrow> calls = [])"
  by (rule settled_never_captured [OF assms])

theorem settled_stays_settled_witness:
  "\<exists>out calls. process_item demo_renv demo_item settled_db = (out, calls) \<and> calls = []
     \<and> settled_with settled_db demo_item (''txn_'' @ demo_ulid 4)"
proof -
  have w: "settled_with settled_db demo_item (''txn_'' @ demo_ulid 4)"
    using demo_settled by (auto simp: settled_with_def split: option.splits)
  obtain out calls where p: "process_item demo_renv demo_item settled_db = (out, calls)" by (cases "process_item demo_renv demo_item settled_db")
  then have "recon_step settled_db (Some (demo_item, calls)) (case out of Inl e \<Rightarrow> settled_db | Inr x \<Rightarrow> x)"
    by (auto split: sum.splits intro: step_sweep step_sweep_aborted)
  then have "recon_run settled_db [(demo_item, calls)] (case out of Inl e \<Rightarrow> settled_db | Inr x \<Rightarrow> x)" by (auto dest: run_one)
  from settled_stays_settled [OF this settled_db_inv w] p w show ?thesis by auto
qed

text \<open>C21: The composed operations are runs of the steps that property is about: a pass over a batch,
  the sweep job, a drain, the retry job, an import of one file, the import job and the job that closes
  stale batches each take the database to their result by such a run, whatever their outcome, and the
  capture calls they report are those the run issued. Imports and closes issue none.\<close>

theorem jobs_are_runs:
  fixes s :: "'a recon_db_scheme" and E :: recon_env and F :: "nat \<Rightarrow> recon_env" and G :: "string \<Rightarrow> recon_env" and H :: "string \<Rightarrow> nat \<Rightarrow> recon_env"
  shows "(case reconcile_batch E F b trigger n s of (out, s', calls) \<Rightarrow> runs_to s s' calls)
    \<and> (case reconciliation_sweep_job G H s of (out, s', calls) \<Rightarrow> runs_to s s' calls)
    \<and> (case retry_item E i s of (out, s', calls) \<Rightarrow> runs_to s s' calls)
    \<and> (case retry_drain_job E F s of (out, s', calls) \<Rightarrow> runs_to s s' calls)
    \<and> (case import_file E fetch a d c s of (out, s') \<Rightarrow> runs_to s s' [])
    \<and> (case settlement_import_job E fetch on s of (out, s') \<Rightarrow> runs_to s s' [])
    \<and> (case batch_close_job E s of (out, s') \<Rightarrow> runs_to s s' [])"
  using reconcile_batch_ran [of E F b trigger n s] sweep_job_ran [of G H s] retry_item_ran [of E i s] retry_drain_job_ran [of E F s]
    import_file_ran [of E fetch a d c s] settlement_import_job_ran [of E fetch on s] batch_close_job_ran [of E s]
  by (auto split: prod.splits)



text \<open>C23: Where a failed retry leaves its item. When an attempt raises an error of the service's own
  tree, the retry returns nothing, keeps every other row and table as it was, counts the attempt and
  stamps it with the clock and the error's code. A retryable error makes the item retryable again,
  between one second and 7.2 hours later; every other error makes it failed, an exhausted one with the
  code of exhaustion. The line and the transaction of the item do not change.\<close>

theorem failed_retry_routed:
  assumes "retry_attempt E i s = (Inl e, calls)" "caught_by e PayzenoLedgerError" "0 < env_backoff_base E"
  shows "\<exists>r r'. find_item i s = Some r \<and> retry_item E i s = (Inr None, put_item r' s, calls)
    \<and> find_item i (put_item r' s) = Some r' \<and> routed E e r r'"
  by (rule retry_item_fails [OF assms])

theorem failed_retry_routed_witness:
  "\<exists>r' s'. retry_item outage_renv demo_item imported_db = (Inr None, s', []) \<and> find_item demo_item s' = Some r'
     \<and> ri_status r' = ''retryable''"
proof -
  obtain e where a: "retry_attempt outage_renv demo_item imported_db = (Inl e, [])" and e: "caught_by e RetryableSettlementError"
    using demo_outage by (cases "retry_attempt outage_renv demo_item imported_db"; cases "fst (retry_attempt outage_renv demo_item imported_db)") auto
  have "caught_by e PayzenoLedgerError" using e by (rule retryable_is_ledger_error)
  moreover have "0 < env_backoff_base outage_renv" by (simp add: outage_renv_def demo_renv_def recon_env.defs service_env.defs)
  ultimately show ?thesis using failed_retry_routed [OF a] e by (fastforce simp: routed_def)
qed



text \<open>C25: Importing is idempotent. After an import of a currency's file that returned the batch of that
  currency, the same request returns the same batch and changes nothing, whatever the acquirer would
  answer by then; it is not even asked.\<close>

theorem import_twice_is_once:
  assumes "import_file E fetch a d (Some c) s = (Inr (Some b), s')" "sb_currency b = c"
    and "distinct (map sb_id (settlement_batches s))"
  shows "import_file E' fetch' a d (Some c) s' = (Inr (Some b), s')"
  by (rule reimport [OF assms])

theorem import_twice_is_once_witness:
  "\<exists>b. import_file outage_renv (\<lambda>_ _ _. raise UpstreamError) ''worldflow'' 19000 (Some ''USD'') imported_db = (Inr (Some b), imported_db)"
proof -
  obtain b where i: "import_file demo_renv demo_fetch ''worldflow'' 19000 (Some ''USD'') empty_rdb = (Inr (Some b), imported_db)" and c: "sb_currency b = ''USD''"
    using demo_imported by blast
  have "distinct (map sb_id (settlement_batches empty_rdb))" by (simp add: empty_rdb_def db.defs)
  from import_twice_is_once [OF i c this] show ?thesis by blast
qed

text \<open>C26: The backoff stays in its band. For every attempt number that is not negative, positive base and
  source of jitter, the delay exists, its centre is between one second and six hours, and the delay is at
  least one second and within a fifth (rounded up) of the centre, although the code computes in binary
  floating point and rounds.\<close>

theorem backoff_band:
  assumes "0 \<le> n" "0 < b"
  shows "\<exists>d. delay_seconds n b j = Inr d \<and> 1 \<le> capped_delay n b \<and> capped_delay n b \<le> 21600
    \<and> max 1 (capped_delay n b - (capped_delay n b + 4) div 5) \<le> d \<and> d \<le> capped_delay n b + (capped_delay n b + 4) div 5"
proof -
  obtain d where d: "delay_seconds n b j = Inr d" using delay_returns [OF assms] by blast
  then show ?thesis using delay_in_band [OF d] capped_delay_bounds [OF assms(2), of n] by blast
qed

theorem backoff_band_witness: "\<exists>d. delay_seconds 3 30 (1/2) = Inr d \<and> 1 \<le> d"
  using backoff_band [of 3 30 "1/2"] by (auto intro: order_trans [of 1 "max 1 _"])

text \<open>C27: Committed items are well typed over every run: a status is one of the six that transactions
  commit, a match method one of the five, a settled item has its transaction, and a matched one its
  charge. In particular no run ever commits an item as \<^verbatim>\<open>settling\<close> or \<^verbatim>\<open>variance_exceeded\<close>, two states
  of the documented machine.\<close>

theorem items_stay_typed:
  assumes "recon_run s tr s'" "items_inv s" "\<forall>r\<in>set (recon_items s). item_typed r"
  shows "\<forall>r\<in>set (recon_items s'). item_typed r \<and> ri_status r \<noteq> ''settling'' \<and> ri_status r \<noteq> ''variance_exceeded''"
proof -
  have "items_typed s'" using recon_run_typed [OF assms(1,2)] assms(3) by (simp add: items_typed_def)
  then show ?thesis unfolding items_typed_def item_typed_def using committed_statuses(7,8) by metis
qed

theorem items_stay_typed_witness: "\<exists>r. find_item demo_item settled_db = Some r \<and> item_typed r"
proof -
  obtain tr where "recon_run empty_rdb tr settled_db" using settled_db_run by (auto simp: runs_to_def)
  moreover have "recon_items empty_rdb = []" by (simp add: empty_rdb_def db.defs)
  ultimately have "\<forall>r\<in>set (recon_items settled_db). item_typed r" using items_stay_typed [OF _ empty_rdb_inv] by simp
  then show ?thesis using demo_settled find_itemD [of demo_item settled_db] by (auto split: option.splits)
qed

section \<open>The bus, funding and deferred captures\<close>



text \<open>C29: Full merchant projections converge. Applying the same upserts, no two of one merchant with one
  time of occurrence, in two orders leaves the same row of every merchant, and a stored row is at least
  as new as every one applied.\<close>

theorem projections_agree:
  assumes "mset ms = mset ms'" "distinct (map (\<lambda>m. (mp_id m, mp_source_occurred_at m)) ms)"
  shows "find_merchant i (fold (\<lambda>m t. snd (upsert_merchant_if_newer m t)) ms s)
       = find_merchant i (fold (\<lambda>m t. snd (upsert_merchant_if_newer m t)) ms' s)
    \<and> (\<forall>d. find_merchant i (fold (\<lambda>m t. snd (upsert_merchant_if_newer m t)) ms s) = Some d
         \<longrightarrow> (\<forall>m\<in>set ms. mp_id m = i \<longrightarrow> mp_source_occurred_at m \<le> mp_source_occurred_at d))"
  using projections_converge [OF assms] newest_max by (auto simp: fold_upserts)

theorem projections_agree_witness:
  "find_merchant ''mch_1'' (fold (\<lambda>m t. snd (upsert_merchant_if_newer m t)) [demo_merchant\<lparr>mp_source_occurred_at := 9\<rparr>, demo_merchant\<lparr>mp_source_occurred_at := 5\<rparr>] inbox_demo)
   = find_merchant ''mch_1'' (fold (\<lambda>m t. snd (upsert_merchant_if_newer m t)) [demo_merchant\<lparr>mp_source_occurred_at := 5\<rparr>, demo_merchant\<lparr>mp_source_occurred_at := 9\<rparr>] inbox_demo)"
  using projections_agree [of "[demo_merchant\<lparr>mp_source_occurred_at := 9\<rparr>, demo_merchant\<lparr>mp_source_occurred_at := 5\<rparr>]"
      "[demo_merchant\<lparr>mp_source_occurred_at := 5\<rparr>, demo_merchant\<lparr>mp_source_occurred_at := 9\<rparr>]" "''mch_1''" inbox_demo]
  by (simp add: add_mset_commute)

text \<open>C30: A second default bank account ends the consumer. When a merchant has a default account for a
  currency and mode and another one is verified as its default, the upsert runs into the unique index
  before the old default is cleared: the receive ends in an \<^verbatim>\<open>IntegrityError\<close> that no handler catches,
  nothing is committed or deleted, and the messages behind it are not handled.\<close>

theorem second_default_ends_consumer:
  assumes "en_body ev = BankAccountVerified d" "bank_projection d (en_id ev) (en_occurred_at ev) (en_livemode ev) = Inr b"
    and "\<not> is_claimed (en_id ev) ''merchant_events'' s"
    and "x \<in> set (banks s)" "ba_id x \<noteq> ba_id b" "ba_is_default x" "default_key x = default_key b" "ba_is_default b"
    and "case find_bank (ba_id b) s of None \<Rightarrow> True | Some y \<Rightarrow> ba_source_occurred_at y < ba_source_occurred_at b"
  shows "consume MerchantEventConsumer F k (Delivered ev # msgs) s = ([], Some (exn IntegrityError), s)"
  by (rule second_default_stops [OF assms])

theorem second_default_ends_consumer_witness:
  "consume MerchantEventConsumer (\<lambda>_. bus_renv) 0 [Delivered demo_bank_event] inbox_demo = ([], Some (exn IntegrityError), inbox_demo)"
proof -
  have "demo_bank \<in> set (banks inbox_demo)" "find_bank ''ba_2'' inbox_demo = None" "\<not> is_claimed ''evt_10'' ''merchant_events'' inbox_demo"
    by (simp_all add: inbox_demo_def empty_rdb_def empty_db_def db.defs recon_db.defs find_bank_def demo_bank_def is_claimed_def)
  then show ?thesis
    by (intro second_default_ends_consumer [where x = demo_bank])
      (auto simp: demo_bank_event_def demo_bank_def bank_projection_def key_of_def default_key_def)
qed

text \<open>C31: A funding pass is sound whatever events it meets and however it ends. Every funded batch stays
  paired with its own credit of the same acquirer and currency, no earlier than the batch, inside the
  tolerance, and posted under the pair's key; and \<^verbatim>\<open>cash\<close> is debited by exactly the credits that became
  matched.\<close>

theorem funding_pass_sound:
  assumes "match_pending F tol limit s = (out, s')" "ledger_ok s" "funding_inv tol s"
  shows "ledger_ok s' \<and> funding_inv tol s' \<and> cash_in s' - cash_in s = matched_total s' - matched_total s"
proof -
  have "ledger_ok s' \<and> funding_inv tol s' \<and> cash_in s' - matched_total s' = cash_in s - matched_total s"
    by (rule match_events_step [OF assms(1) [unfolded match_pending_def] assms(2,3)])
  then show ?thesis by (simp add: algebra_simps)
qed

theorem funding_pass_sound_witness: "funding_inv 5 funded_db \<and> cash_in funded_db - cash_in fund_db = matched_total funded_db - matched_total fund_db"
proof -
  obtain out where m: "match_pending (\<lambda>_. bus_renv) 5 200 fund_db = (out, funded_db)"
    by (cases "match_pending (\<lambda>_. bus_renv) 5 200 fund_db") (simp add: funded_db_def)
  from funding_pass_sound [OF m fund_db_ok fund_db_inv] show ?thesis by blast
qed

text \<open>The operator's route pays twice from one credit. Recording a bank reference whose credit is
  already matched debits \<^verbatim>\<open>cash\<close> by the whole credit again, although no further credit is matched, marks the
  second batch funded by the same event, and stores the amount the operator typed and not the amount
  posted.\<close>

theorem credit_recorded_again:
  assumes "record_funding E batch ref amount d s = Inr (b', s')" "find_by_bank_reference ref s = Some e" "fe_status e = ''matched''"
    and "ledger_ok s" "distinct (map fe_id (funding_events s))"
  shows "cash_in s' = cash_in s + fe_amount e \<and> matched_total s' = matched_total s \<and> sb_status b' = ''funded''
    \<and> sb_funding_event b' = Some (fe_id e) \<and> sb_funded_amount_minor b' = amount"
  using record_again [OF assms] by simp

theorem credit_recorded_again_witness:
  "\<exists>b' s'. record_funding bus_renv ''sb_A'' ''BANK1'' 5000 19003 funded_db = Inr (b', s') \<and> cash_in s' = cash_in funded_db + 9821 \<and> sb_funded_amount_minor b' = 5000"
proof -
  obtain b' s' where r: "record_funding bus_renv ''sb_A'' ''BANK1'' 5000 19003 funded_db = Inr (b', s')"
    using demo_refunded by (auto simp: refunded_def split: sum.splits)
  obtain e where e: "find_by_bank_reference ''BANK1'' funded_db = Some e" "fe_status e = ''matched''" "fe_amount e = 9821"
    using demo_credit_known by (auto split: option.splits)
  have "ledger_ok funded_db"
    using match_events_step [of "\<lambda>_. bus_renv" 5 0 _ 0 fund_db _ funded_db] fund_db_ok fund_db_inv
    by (metis funded_db_def match_pending_def prod.collapse)
  from credit_recorded_again [OF r e(1,2) this demo_credit_ids] r e(3) show ?thesis by auto
qed





text \<open>The two breakers record alike. Started empty with the same settings and given the same outcomes on a
  circuit, the breaker of one process and the shared one hold the same last outcomes after every step, and
  have opened the circuit at the same outcome: exactly when some stretch of outcomes has filled the window with
  at least the threshold of failures.\<close>

theorem breakers_record_alike:
  fixes n pct :: nat and reset :: rat and name :: string and os :: "(rat \<times> bool) list"
  defines "b \<equiv> mem_records name os (build_breaker pct n reset)"
    and "r \<equiv> redis_records name os \<lparr>rb_threshold_pct = pct, rb_window = n, rb_reset_seconds = reset, rb_outcomes = (\<lambda>_. []),
        rb_open_until = (\<lambda>_. None), rb_open_cache = (\<lambda>_. None)\<rparr>"
  shows "rb_outcomes r name = rev (bucket_of name b) \<and> bucket_of name b = last_n n (map snd os)
    \<and> (rb_open_until r name \<noteq> None \<longleftrightarrow> mb_opened_at b name \<noteq> None)
    \<and> (mb_opened_at b name \<noteq> None \<longleftrightarrow> (\<exists>m\<in>{1..length os}. n \<le> m \<and> too_many pct (last_n n (map snd (take m os)))))"
proof -
  let ?b = "build_breaker pct n reset"
  let ?r = "\<lparr>rb_threshold_pct = pct, rb_window = n, rb_reset_seconds = reset, rb_outcomes = (\<lambda>_. []), rb_open_until = (\<lambda>_. None), rb_open_cache = (\<lambda>_. None)\<rparr>"
  have "agree name ?b ?r" by (simp add: agree_def build_breaker_def bucket_of_def)
  then have a: "agree name b r" unfolding b_def r_def by (rule agree_records)
  have "bucket_of name ?b = last_n (mb_window ?b) []" by (simp add: build_breaker_def bucket_of_def last_n_def)
  from mem_records_window [OF this, of os] have
    "bucket_of name b = last_n n (map snd os) \<and> (mb_opened_at b name \<noteq> None \<longleftrightarrow> (\<exists>m. 0 < m \<and> m \<le> length os \<and> trips n pct (map snd (take m os))))"
    unfolding b_def by (simp add: build_breaker_def)
  moreover have "trips n pct (map snd (take m os)) \<longleftrightarrow> n \<le> m \<and> too_many pct (last_n n (map snd (take m os)))" if "m \<le> length os" for m
    using that by (simp add: trips_def min_def)
  ultimately have w: "bucket_of name b = last_n n (map snd os)"
      "mb_opened_at b name \<noteq> None \<longleftrightarrow> (\<exists>m\<in>{1..length os}. n \<le> m \<and> too_many pct (last_n n (map snd (take m os))))"
    by (auto simp: Suc_le_eq)
  have "rb_outcomes r name = rev (bucket_of name b)" "rb_open_until r name \<noteq> None \<longleftrightarrow> mb_opened_at b name \<noteq> None"
    using a unfolding agree_def by blast+
  with w show ?thesis by blast
qed

section \<open>The outbox, pages and the edge\<close>

text \<open>C34: Events leave the service at least once, and only as they were committed. However many tasks drain the
  outbox at the same time, and wherever they stop, a row is marked published only when SNS has taken exactly the
  message it stores, and every message SNS has taken is that of a row which a transaction of the ledger committed.\<close>

theorem published_means_sent:
  assumes "bus_reachable K b"
  shows "distinct (map ev_id (outbox (bus_db b)))
    \<and> (\<forall>x\<in>set (outbox (bus_db b)). ev_published_at x \<noteq> None \<longrightarrow> sns_message x \<in> set (bus_sent b))
    \<and> (\<forall>m\<in>set (bus_sent b). \<exists>x\<in>set (outbox (bus_db b)). sns_message x = m)"
  using reachable_sent [OF assms] by (simp add: event_ids_distinct_def)

theorem published_means_sent_witness:
  "\<exists>(b :: ledger bus) x. x \<in> set (outbox (bus_db b)) \<and> ev_published_at x = Some 7 \<and> sns_message x \<in> set (bus_sent b)"
proof -
  let ?s0 = "drain_db\<lparr>outbox := []\<rparr>"
  obtain i s1 where p: "publish demo_env ''ledger.imbalance_detected'' [] None ''cor_1'' None True ?s0 = Inr (i, s1)"
    using demo_staged by (auto simp: is_ok_def split: sum.splits)
  obtain b :: "ledger bus" and x where b: "bus_reachable (env_contracts demo_env) b" "x \<in> set (outbox (bus_db b))" "ev_published_at x = Some 7"
    using one_task_publishes [OF _ p, of 7] by auto
  from published_means_sent [OF b(1)] b(2,3) show ?thesis by auto
qed

text \<open>C35: One drain sends each event once, and gives up after ten failures. Over any number of passes of a single
  drain, whatever SNS answers, no event is sent twice, the published events afterwards are those before and
  those sent, and nothing else of the ledger changes. An unpublished event that has failed ten times is never
  sent again and its row never changes; and no event is ever dead-lettered, so no listing of dead events shows it.\<close>

theorem drains_send_once:
  assumes "drain_ticks K Fs s = (s', sent)" "distinct (map ev_id (outbox s))"
    and "\<forall>r\<in>set (outbox s). (\<exists>t. topic_for K (ev_type r) = Inr t) \<and> ev_dead_at r = None \<and> ev_attempt_count r \<le> 10"
  shows "distinct sent \<and> same_books s s' \<and> (\<forall>i. event_published i s' \<longleftrightarrow> event_published i s \<or> i \<in> set sent) \<and> (\<forall>i\<in>set sent. \<not> event_published i s)
    \<and> list_dead n s' = []
    \<and> (\<forall>i r. find_event i s = Some r \<longrightarrow> ev_published_at r = None \<longrightarrow> ev_attempt_count r = 10 \<longrightarrow> i \<notin> set sent \<and> find_event i s' = Some r)"
proof -
  have a: "event_ids_distinct s" "topics_known K s" "\<forall>r\<in>set (outbox s). ev_dead_at r = None \<and> ev_attempt_count r \<le> MAX_PUBLISH_ATTEMPTS"
    using assms(2,3) by (simp_all add: event_ids_distinct_def topics_known_def MAX_PUBLISH_ATTEMPTS_def)
  have q: "list_dead n s' = []" "\<And>i r. find_event i s = Some r \<Longrightarrow> ev_published_at r = None \<Longrightarrow> ev_attempt_count r = 10 \<Longrightarrow> i \<notin> set sent \<and> find_event i s' = Some r"
    using drain_ticks_quiet [OF a(1,2) assms(1) a(3), of n] by (simp_all add: MAX_PUBLISH_ATTEMPTS_def)
  have "distinct sent" "same_books s s'" "\<forall>i. event_published i s' \<longleftrightarrow> event_published i s \<or> i \<in> set sent" "\<forall>i\<in>set sent. \<not> event_published i s"
    using drain_ticks_result [OF a(1,2) assms(1)] by simp_all
  with q show ?thesis by simp
qed

theorem drains_send_once_witness:
  "snd (drain_ticks demo_contracts demo_passes drain_db) = [''evt_1''] \<and> distinct [''evt_1''] \<and> list_dead 100 (fst (drain_ticks demo_contracts demo_passes drain_db)) = []"
proof -
  obtain s' where d: "drain_ticks demo_contracts demo_passes drain_db = (s', [''evt_1''])"
    using demo_drained by (cases "drain_ticks demo_contracts demo_passes drain_db") simp
  have "\<forall>r\<in>set (outbox drain_db). (\<exists>t. topic_for demo_contracts (ev_type r) = Inr t) \<and> ev_dead_at r = None \<and> ev_attempt_count r \<le> 10"
    using drain_db_topics drain_db_ok(2) by (simp add: topics_known_def MAX_PUBLISH_ATTEMPTS_def)
  from drains_send_once [OF d drain_db_ok(1) [unfolded event_ids_distinct_def] this, of 100] d show ?thesis by simp
qed

text \<open>C36: Pages list each row once. Following the cursors of \<^verbatim>\<open>list_page\<close> from the first page, with any page
  size the clamp allows and any collation, a caller gets every row of the filtered set, in descending order of
  the column, none twice and none left out, in at most one page more than there are rows.\<close>

theorem pages_list_each_row_once:
  assumes "text_order lt" "clamp_limit limit = Inr n" "distinct (map key (filter wanted rows))"
    and "\<forall>r\<in>set rows. wanted r \<longrightarrow> (\<exists>t. encode_cursor (key r) = Inr t)" "length rows < fuel"
  shows "all_pages fuel lt key (Inr wanted) None limit rows = Some (Inr (order_desc lt key (filter wanted rows)))
    \<and> set (order_desc lt key (filter wanted rows)) = {r \<in> set rows. wanted r}
    \<and> sorted_wrt (\<lambda>a b. lt (key b) (key a)) (order_desc lt key (filter wanted rows))"
proof -
  have "length (order_desc lt key (filter wanted rows)) \<le> length rows"
    using order_desc_length [of lt key "filter wanted rows"] by (simp add: le_trans [OF _ length_filter_le])
  then have "all_pages fuel lt key (Inr wanted) None limit rows = Some (Inr (order_desc lt key (filter wanted rows)))"
    using assms text_order.set_order_desc [OF assms(1), of key "filter wanted rows"]
    by (intro text_order.pages_enumerate [OF assms(1), where xs = "[]"]) (auto simp: text_order.cursor_at_def [OF assms(1)])
  then show ?thesis using text_order.set_order_desc [OF assms(1), of key "filter wanted rows"] text_order.order_desc_sorted [OF assms(1,3)] by auto
qed

theorem pages_list_each_row_once_witness:
  "all_pages 4 text_less id (Inr (\<lambda>_. True)) None (Some 1) demo_keys = Some (Inr [[112, 51], [112, 50], [112, 49]])"
proof -
  have "order_desc text_less id (filter (\<lambda>_. True) demo_keys) = [[112, 51], [112, 50], [112, 49]]" by code_simp
  moreover have "clamp_limit (Some 1) = Inr 1" by code_simp
  ultimately show ?thesis using pages_list_each_row_once [OF codepoints.text_order_axioms, of "Some 1" 1 id "\<lambda>_. True" demo_keys 4]
    by (auto simp: demo_keys_def encode_cursor_def utf8_encode_def valid_code_point_def mapE_def)
qed

text \<open>C37: Nobody gets in without credentials. A request that lacks the secret, a service name of the list or,
  where one is required, a client certificate, on any path but the three public ones, runs no route: the state
  is untouched, the answer is 401 or, for a header the comparison cannot take, 500, and one line is logged.\<close>

theorem nobody_enters:
  assumes "hi_path req \<notin> set PUBLIC_PATHS" "\<not> credentials E req" "serve E route req s = (resp, s', lines)"
  shows "s' = s \<and> ho_status resp \<in> {401, 500} \<and> length lines = 1"
  by (rule no_entry [OF assms])

theorem nobody_enters_witness:
  "fst (snd (serve demo_edge (\<lambda>_ _ n. (Inl (Raised (exn KeyError)), Suc n)) demo_request 0)) = 0"
proof -
  obtain resp s' lines where "serve demo_edge (\<lambda>_ _ n. (Inl (Raised (exn KeyError)), Suc n)) demo_request 0 = (resp, s', lines)"
    by (cases "serve demo_edge (\<lambda>_ _ n. (Inl (Raised (exn KeyError)), Suc n)) demo_request 0") auto
  from nobody_enters [OF demo_request_stopped this] this show ?thesis by simp
qed

section \<open>The routes\<close>

text \<open>C38: Whatever is requested, the books take only steps of the ledger and only grow. After any sequence of
  requests to the transaction and account routes, each in its own environment and rolled back when it
  raised, reachable books are reachable books; the old transactions and entries are a prefix of the new ones, and
  every old transaction is answered with the same body as before, legs included.\<close>

theorem requests_only_append:
  assumes "reachable_books s"
  shows "reachable_books (serve_requests qs s)
    \<and> (\<exists>ts es. transactions (serve_requests qs s) = transactions s @ ts \<and> entries (serve_requests qs s) = entries s @ es)
    \<and> (\<forall>t\<in>set (transactions s). get_transaction W (txn_id t) (serve_requests qs s) = get_transaction W (txn_id t) s
        \<and> is_ok (get_transaction W (txn_id t) s))"
proof (intro conjI ballI)
  have ok: "ledger_ok s" by (rule reachable_books_ok [OF assms])
  note run = serve_requests_run [OF ok, of qs]
  show "reachable_books (serve_requests qs s)" using run assms by (induction rule: rtranclp_induct) (auto intro: books_step)
  show "\<exists>ts es. transactions (serve_requests qs s) = transactions s @ ts \<and> entries (serve_requests qs s) = entries s @ es"
    using steps_append [OF run ok] by (auto simp: appends_def)
  fix t assume t: "t \<in> set (transactions s)"
  show "get_transaction W (txn_id t) (serve_requests qs s) = get_transaction W (txn_id t) s" "is_ok (get_transaction W (txn_id t) s)"
    using reads_same [OF run ok t] reads_same [OF rtranclp.rtrancl_refl ok t] by (simp_all add: get_transaction_def)
qed

theorem requests_only_append_witness:
  "\<exists>ts es. transactions (serve_requests [(demo_renv, demo_wire, PostBulk demo_bulk), (demo_renv, demo_wire, Freeze ''acct_x'')] empty_ledger) = ts
     \<and> entries (serve_requests [(demo_renv, demo_wire, PostBulk demo_bulk), (demo_renv, demo_wire, Freeze ''acct_x'')] empty_ledger) = entries empty_ledger @ es
     \<and> reachable_books (serve_requests [(demo_renv, demo_wire, PostBulk demo_bulk), (demo_renv, demo_wire, Freeze ''acct_x'')] empty_ledger)"
  using requests_only_append [OF empty_reachable, of "[(demo_renv, demo_wire, PostBulk demo_bulk), (demo_renv, demo_wire, Freeze ''acct_x'')]" demo_wire]
  by blast

text \<open>C39: A posted key is refused ever after. A posting that the route accepts is answered 201; whatever happens to
  the books afterwards, a read answers the body of that answer, and a request under the same key, the
  identical body too, is answered 409 \<^verbatim>\<open>duplicate_settlement\<close> and changes nothing. (The 200 that the route documents for an identical
  body is never given.)\<close>

theorem posted_key_refused:
  assumes "reachable_books s" "post_transaction E W caller b s = (Inr a, s1)" "ledger_step\<^sup>*\<^sup>* s1 s2"
    "pt_key b' = pt_key b" "well_formed_lines (to_lines b')"
  shows "an_status a = 201
    \<and> (\<exists>t\<in>set (transactions s2). txn_key t = pt_key b \<and> get_transaction W (txn_id t) s2 = Inr (ok (an_body a)))
    \<and> post_transaction E' W' caller' b' s2 = (raise DuplicateSettlementError, s2) \<and> http_status DuplicateSettlementError = Some 409"
proof -
  note ok = reachable_books_ok [OF assms(1)]
  have "http_status DuplicateSettlementError = Some 409" by code_simp
  then show ?thesis using post_route_reads_same [OF assms(2) ok assms(3)] post_route_refused [OF assms(2) ok assms(3-5)] by blast
qed

theorem posted_key_refused_witness:
  "post_transaction demo_renv demo_wire ''payzeno-api'' (demo_body ''auth:mch_1:ch_1'' 10000) posted_once = (raise DuplicateSettlementError, posted_once)
   \<and> post_transaction demo_renv demo_wire ''payzeno-billing-legacy'' (demo_body ''auth:mch_1:ch_1'' 20000) posted_once = (raise DuplicateSettlementError, posted_once)"
proof -
  obtain a where p: "post_transaction demo_renv demo_wire ''payzeno-api'' (demo_body ''auth:mch_1:ch_1'' 10000) empty_ledger = (Inr a, posted_once)"
    using demo_posting
    by (cases "post_transaction demo_renv demo_wire ''payzeno-api'' (demo_body ''auth:mch_1:ch_1'' 10000) empty_ledger")
      (auto simp: posted_once_def is_ok_def split: sum.splits)
  have k: "pt_key (demo_body ''auth:mch_1:ch_1'' n) = pt_key (demo_body ''auth:mch_1:ch_1'' 10000)" for n by (simp add: demo_body_def)
  show ?thesis
    using posted_key_refused [OF empty_reachable p rtranclp.rtrancl_refl k, of 10000] posted_key_refused [OF empty_reachable p rtranclp.rtrancl_refl k, of 20000] demo_body_wf
    by blast
qed

text \<open>C40: A bulk request may be repeated. When the route has posted a list of transactions, the same
  request, in any later environment and after any steps of the books, answers the same ids and writes nothing; also
  when a key occurs in the list more than once.\<close>

theorem bulk_repeats:
  assumes "reachable_books s" "post_transactions_bulk E bs s = (Inr a, s1)" "ledger_step\<^sup>*\<^sup>* s1 s2"
  shows "post_transactions_bulk E' bs s2 = (Inr a, s2\<lparr>id_supply := id_supply s2 + length bs\<rparr>) \<and> length (snd (an_body a)) = length bs"
proof -
  obtain ids where p: "post_each E bs s = Inr (ids, s1)" and a: "a = made (length ids, ids)"
    using assms(2) by (auto simp: post_transactions_bulk_def in_session_Inr mapE_Inr_iff)
  note h = post_each_held [OF p reachable_books_ok [OF assms(1)]]
  have "ledger_ok s2" using ledger_steps_ok [OF assms(3)] h by blast
  moreover have "held bs ids s2" using held_later [OF _ _ assms(3)] h by blast
  ultimately have "post_each E' bs s2 = Inr (ids, s2\<lparr>id_supply := id_supply s2 + length bs\<rparr>)" by (rule held_again [rotated])
  moreover have "length ids = length bs" using h by (auto simp: held_def dest: list_all2_lengthD)
  ultimately show ?thesis by (simp add: post_transactions_bulk_def a made_def)
qed

theorem bulk_repeats_witness:
  "\<exists>s1. snd (post_transactions_bulk demo_renv demo_bulk empty_ledger) = s1
     \<and> fst (post_transactions_bulk demo_renv demo_bulk s1) = fst (post_transactions_bulk demo_renv demo_bulk empty_ledger)
     \<and> transactions (snd (post_transactions_bulk demo_renv demo_bulk s1)) = transactions s1"
proof -
  obtain a s1 where p: "post_transactions_bulk demo_renv demo_bulk empty_ledger = (Inr a, s1)"
    using demo_bulk_posted by (cases "post_transactions_bulk demo_renv demo_bulk empty_ledger") (auto split: sum.splits)
  show ?thesis using bulk_repeats [OF empty_reachable p rtranclp.rtrancl_refl, of demo_renv] p by simp
qed

end
